(* ===== verification/Prelude.thy ===== *)
theory Prelude
  imports Main "HOL-Library.Word" "HOL-Library.Sublist"
begin

text \<open>
  What the component theories share.  A fallible routine of the source that mutates its
  environment is a function from the state to a result and the new state: \<open>Inl e\<close> is
  Rust's \<open>Err(e)\<close>, \<open>Inr a\<close> is \<open>Ok(a)\<close>, and the state after an error is the state the
  routine had reached when it returned early.  \<open>and_then\<close> is the \<open>?\<close> operator followed
  by the rest of the routine.  The rules in \<open>prog_simps\<close> evaluate such programs, the rules
  in \<open>keeps_intros\<close> carry invariants through them.
\<close>

named_theorems prog_simps \<open>evaluation of fallible programs\<close>
named_theorems keeps_intros \<open>a program keeps an invariant of the state\<close>

section \<open>Fallible programs over an explicit state\<close>

type_synonym ('s, 'e, 'a) prog = "'s \<Rightarrow> ('e + 'a) \<times> 's"

definition ok :: "'a \<Rightarrow> ('s, 'e, 'a) prog" where
  "ok a s = (Inr a, s)"

definition fail :: "'e \<Rightarrow> ('s, 'e, 'a) prog" where
  "fail e s = (Inl e, s)"

definition and_then :: "('s, 'e, 'a) prog \<Rightarrow> ('a \<Rightarrow> ('s, 'e, 'b) prog) \<Rightarrow> ('s, 'e, 'b) prog" where
  "and_then m k s = (case m s of (Inl e, s') \<Rightarrow> (Inl e, s') | (Inr a, s') \<Rightarrow> k a s')"

text \<open>\<open>map_err\<close> is Rust's \<open>Result::map_err\<close> (and the \<open>From\<close> conversion that \<open>?\<close> inserts).\<close>

definition map_err :: "('e \<Rightarrow> 'f) \<Rightarrow> ('s, 'e, 'a) prog \<Rightarrow> ('s, 'f, 'a) prog" where
  "map_err f m s = (case m s of (Inl e, s') \<Rightarrow> (Inl (f e), s') | (Inr a, s') \<Rightarrow> (Inr a, s'))"

text \<open>\<open>attempt\<close> makes the result of a routine available to a \<open>match\<close>; \<open>ignore\<close> is \<open>let _ = m\<close>.\<close>

definition attempt :: "('s, 'e, 'a) prog \<Rightarrow> ('s, 'f, 'e + 'a) prog" where
  "attempt m s = (case m s of (r, s') \<Rightarrow> (Inr r, s'))"

definition ignore :: "('s, 'e, 'a) prog \<Rightarrow> ('s, 'f, unit) prog" where
  "ignore m s = (Inr (), snd (m s))"

definition gets :: "('s \<Rightarrow> 'a) \<Rightarrow> ('s, 'e, 'a) prog" where
  "gets f s = (Inr (f s), s)"

definition of_result :: "'e + 'a \<Rightarrow> ('s, 'e, 'a) prog" where
  "of_result r s = (r, s)"

text \<open>A \<open>for\<close> loop whose body uses \<open>?\<close>: the first error leaves the loop.\<close>

fun for_each :: "('a \<Rightarrow> ('s, 'e, unit) prog) \<Rightarrow> 'a list \<Rightarrow> ('s, 'e, unit) prog" where
  "for_each f [] = ok ()"
| "for_each f (x # xs) = and_then (f x) (\<lambda>_. for_each f xs)"

text \<open>\<open>collect_results\<close> is \<open>iter().map(f).collect::<Result<Vec<_>, _>>()\<close>.\<close>

fun collect_results :: "('a \<Rightarrow> ('s, 'e, 'b) prog) \<Rightarrow> 'a list \<Rightarrow> ('s, 'e, 'b list) prog" where
  "collect_results f [] = ok []"
| "collect_results f (x # xs) =
     and_then (f x) (\<lambda>y. and_then (collect_results f xs) (\<lambda>ys. ok (y # ys)))"

lemma ok_run [prog_simps]: "ok a s = (Inr a, s)"
  by (simp add: ok_def)

lemma fail_run [prog_simps]: "fail e s = (Inl e, s)"
  by (simp add: fail_def)

lemma gets_run [prog_simps]: "gets f s = (Inr (f s), s)"
  by (simp add: gets_def)

lemma of_result_run [prog_simps]: "of_result r s = (r, s)"
  by (simp add: of_result_def)

lemma ignore_run [prog_simps]: "ignore m s = (Inr (), snd (m s))"
  by (simp add: ignore_def)

lemma and_then_Inl [prog_simps]: "m s = (Inl e, s') \<Longrightarrow> and_then m k s = (Inl e, s')"
  by (simp add: and_then_def)

lemma and_then_Inr [prog_simps]: "m s = (Inr a, s') \<Longrightarrow> and_then m k s = k a s'"
  by (simp add: and_then_def)

lemma map_err_Inl [prog_simps]: "m s = (Inl e, s') \<Longrightarrow> map_err f m s = (Inl (f e), s')"
  by (simp add: map_err_def)

lemma map_err_Inr [prog_simps]: "m s = (Inr a, s') \<Longrightarrow> map_err f m s = (Inr a, s')"
  by (simp add: map_err_def)

lemma attempt_run [prog_simps]: "attempt m s = (Inr (fst (m s)), snd (m s))"
  by (simp add: attempt_def split: prod.split)

lemma attempt_then: "and_then (attempt m) k s = (case m s of (x, s') \<Rightarrow> k x s')"
  by (simp add: and_then_def attempt_def split: prod.split)

text \<open>Inversion of a successful or failed composition, the workhorse of the component proofs.\<close>

lemma and_then_InrE:
  assumes "and_then m k s = (Inr b, t)"
  obtains a s' where "m s = (Inr a, s')" and "k a s' = (Inr b, t)"
  using assms by (auto simp: and_then_def split: prod.splits sum.splits)

lemma and_then_InlE:
  assumes "and_then m k s = (Inl e, t)"
  obtains (first) "m s = (Inl e, t)"
  | (rest) a s' where "m s = (Inr a, s')" and "k a s' = (Inl e, t)"
  using assms by (auto simp: and_then_def split: prod.splits sum.splits)

lemma map_err_InrE:
  assumes "map_err f m s = (Inr a, t)"
  obtains "m s = (Inr a, t)"
  using assms by (auto simp: map_err_def split: prod.splits sum.splits)

lemma for_each_append:
  "for_each f (xs @ ys) s = and_then (for_each f xs) (\<lambda>_. for_each f ys) s"
  by (induction xs arbitrary: s) (auto simp: prog_simps and_then_def split: prod.splits sum.splits)

section \<open>Invariants of programs\<close>

definition keeps :: "('s \<Rightarrow> bool) \<Rightarrow> ('s, 'e, 'a) prog \<Rightarrow> bool" where
  "keeps I m \<longleftrightarrow> (\<forall>s. I s \<longrightarrow> I (snd (m s)))"

lemma keepsI: "(\<And>s. I s \<Longrightarrow> I (snd (m s))) \<Longrightarrow> keeps I m"
  by (simp add: keeps_def)

lemma keepsD: "keeps I m \<Longrightarrow> I s \<Longrightarrow> I (snd (m s))"
  by (simp add: keeps_def)

lemma keeps_result: "keeps I m \<Longrightarrow> I s \<Longrightarrow> m s = (r, t) \<Longrightarrow> I t"
  by (metis keepsD snd_conv)

lemma keeps_ok [keeps_intros]: "keeps I (ok a)"
  by (simp add: keeps_def prog_simps)

lemma keeps_fail [keeps_intros]: "keeps I (fail e)"
  by (simp add: keeps_def prog_simps)

lemma keeps_gets [keeps_intros]: "keeps I (gets f)"
  by (simp add: keeps_def prog_simps)

lemma keeps_of_result [keeps_intros]: "keeps I (of_result r)"
  by (simp add: keeps_def prog_simps)

lemma keeps_and_then [keeps_intros]:
  "keeps I m \<Longrightarrow> (\<And>a. keeps I (k a)) \<Longrightarrow> keeps I (and_then m k)"
  by (fastforce simp: keeps_def and_then_def split: prod.splits sum.splits)

lemma keeps_map_err [keeps_intros]: "keeps I m \<Longrightarrow> keeps I (map_err f m)"
  by (fastforce simp: keeps_def map_err_def split: prod.splits sum.splits)

lemma keeps_attempt [keeps_intros]: "keeps I m \<Longrightarrow> keeps I (attempt m)"
  by (fastforce simp: keeps_def attempt_def split: prod.splits)

lemma keeps_ignore [keeps_intros]: "keeps I m \<Longrightarrow> keeps I (ignore m)"
  by (simp add: keeps_def ignore_def)

lemma keeps_for_each [keeps_intros]: "(\<And>x. keeps I (f x)) \<Longrightarrow> keeps I (for_each f xs)"
  by (induction xs) (auto intro!: keeps_intros)

lemma keeps_collect_results [keeps_intros]:
  "(\<And>x. keeps I (f x)) \<Longrightarrow> keeps I (collect_results f xs)"
  by (induction xs) (auto intro!: keeps_intros)

text \<open>Routines that only read: the state afterwards is the state before.\<close>

definition reads_only :: "('s, 'e, 'a) prog \<Rightarrow> bool" where
  "reads_only m \<longleftrightarrow> (\<forall>s. snd (m s) = s)"

lemma reads_onlyI: "(\<And>s. snd (m s) = s) \<Longrightarrow> reads_only m"
  by (simp add: reads_only_def)

lemma reads_onlyD: "reads_only m \<Longrightarrow> m s = (r, t) \<Longrightarrow> t = s"
  by (metis reads_only_def snd_conv)

lemma reads_only_keeps: "reads_only m \<Longrightarrow> keeps I m"
  by (simp add: reads_only_def keeps_def)

lemma reads_only_ok: "reads_only (ok a)"
  and reads_only_fail: "reads_only (fail e)"
  and reads_only_gets: "reads_only (gets f)"
  and reads_only_of_result: "reads_only (of_result r)"
  by (simp_all add: reads_only_def prog_simps)

lemma reads_only_and_then:
  "reads_only m \<Longrightarrow> (\<And>a. reads_only (k a)) \<Longrightarrow> reads_only (and_then m k)"
  unfolding reads_only_def and_then_def
  by (auto split: prod.splits sum.splits) (metis snd_conv)+

lemma reads_only_map_err: "reads_only m \<Longrightarrow> reads_only (map_err f m)"
  unfolding reads_only_def map_err_def
  by (auto split: prod.splits sum.splits) (metis snd_conv)+

lemma reads_only_attempt: "reads_only m \<Longrightarrow> reads_only (attempt m)"
  unfolding reads_only_def attempt_def
  by (auto split: prod.splits) (metis snd_conv)

lemma reads_only_collect_results:
  "(\<And>x. reads_only (f x)) \<Longrightarrow> reads_only (collect_results f xs)"
  by (induction xs) (auto intro!: reads_only_and_then reads_only_ok)

lemmas reads_only_intros =
  reads_only_ok reads_only_fail reads_only_gets reads_only_of_result reads_only_and_then
  reads_only_map_err reads_only_attempt reads_only_collect_results

section \<open>Lists\<close>

lemma find_Some_in_set: "List.find P xs = Some x \<Longrightarrow> x \<in> set xs \<and> P x"
  by (induction xs) (auto split: if_splits)

lemma set_map_filter_iff: "y \<in> set (List.map_filter f xs) \<longleftrightarrow> (\<exists>x \<in> set xs. f x = Some y)"
  by (induction xs) (auto simp: List.map_filter_simps split: option.split)

lemma find_upt_least:
  assumes "List.find P [0..<n] = Some i"
  shows "i < n" and "P i" and "\<And>j. j < i \<Longrightarrow> \<not> P j"
proof -
  from assms obtain k where k: "k < length [0..<n]" "P ([0..<n] ! k)" "i = [0..<n] ! k"
    and before: "\<And>j. j < k \<Longrightarrow> \<not> P ([0..<n] ! j)"
    by (auto simp: find_Some_iff)
  then have "i = k" and "k < n" by simp_all
  then show "i < n" and "P i" and "\<And>j. j < i \<Longrightarrow> \<not> P j"
    using k before by auto
qed

end
