(* ===== verification/Woodward.thy ===== *)
theory Woodward
  imports Text
begin

text \<open>
  The supervisor \<open>woodward\<close> (woodward/src/lib.rs) and the heartbeats it reads
  (heartbeat/src/lib.rs).  Every five seconds it looks at the heartbeat of each core service, counts
  misses, kicks a service that missed too many and gives up on one that keeps dying.  The state is
  the \<open>ServiceTally\<close> of a service, its counters kept as the \<open>u8\<close> of the source.  What a check
  learns from outside (each reading of the clock, the heartbeat file, whether the kick and the
  marker file operations worked) is an \<open>observation\<close>; what it does to the outside is a list of
  effects.  Instants are nanoseconds.  Release builds wrap on overflow, and so do the words here.
\<close>

section \<open>Clock and heartbeat\<close>

type_synonym instant = nat

definition nanos_per_sec :: nat where
  "nanos_per_sec = 1000000000"

definition duration_since :: "instant \<Rightarrow> instant \<Rightarrow> nat option" where
  "duration_since now earlier = (if earlier \<le> now then Some (now - earlier) else None)"

definition elapsed_exceeds :: "instant \<Rightarrow> instant \<Rightarrow> nat \<Rightarrow> bool" where
  "elapsed_exceeds now since seconds =
     (case duration_since now since of
        None \<Rightarrow> False
      | Some elapsed \<Rightarrow> seconds < elapsed div nanos_per_sec)"

record heartbeat =
  pid :: "32 word"
  written_at :: instant

definition heartbeat_new :: "32 word \<Rightarrow> instant \<Rightarrow> heartbeat" where
  "heartbeat_new p now = \<lparr>pid = p, written_at = now\<rparr>"

definition heartbeat_age_of :: "instant \<Rightarrow> heartbeat \<Rightarrow> nat option" where
  "heartbeat_age_of now h = duration_since now (written_at h)"

text \<open>\<open>heartbeat_age\<close> falls back to \<open>Duration::MAX\<close>, the greatest duration: here \<open>None\<close>.\<close>

definition heartbeat_age :: "instant \<Rightarrow> heartbeat option \<Rightarrow> nat option" where
  "heartbeat_age now reading = Option.bind reading (heartbeat_age_of now)"

definition MAX_ELAPSED_SECONDS :: nat where "MAX_ELAPSED_SECONDS = 15"
definition STARTUP_GRACE_SECONDS :: nat where "STARTUP_GRACE_SECONDS = 90"
definition MAX_MISSED_HEARTBEATS :: "8 word" where "MAX_MISSED_HEARTBEATS = 3"
definition MAX_FAILED_RESTARTS :: "8 word" where "MAX_FAILED_RESTARTS = 3"
definition MAX_KICK_FAILURES :: "8 word" where "MAX_KICK_FAILURES = 3"
definition RESTART_WINDOW_SECONDS :: nat where "RESTART_WINDOW_SECONDS = 300"

lemmas limits =
  MAX_ELAPSED_SECONDS_def STARTUP_GRACE_SECONDS_def MAX_MISSED_HEARTBEATS_def
  MAX_FAILED_RESTARTS_def MAX_KICK_FAILURES_def RESTART_WINDOW_SECONDS_def

definition is_timely :: "nat option \<Rightarrow> bool" where
  "is_timely age = (case age of None \<Rightarrow> False | Some d \<Rightarrow> d \<le> MAX_ELAPSED_SECONDS * nanos_per_sec)"

section \<open>The tally of a service\<close>

datatype service_check_result = Okay | NeedsKick | MissedHeartbeat

datatype supervision_decision = Check | GivenUp

record service_tally =
  failure_count :: "8 word"
  restart_count :: "8 word"
  consecutive_kick_failures :: "8 word"
  last_restart_at :: "instant option"
  last_kick_at :: "instant option"
  recovering_since :: "instant option"
  failure_marked :: bool

definition tally_new :: "instant \<Rightarrow> service_tally" where
  "tally_new now =
     \<lparr>failure_count = 0, restart_count = 0, consecutive_kick_failures = 0, last_restart_at = None,
      last_kick_at = None, recovering_since = Some now, failure_marked = False\<rparr>"

definition expire_restarts :: "instant \<Rightarrow> service_tally \<Rightarrow> service_tally" where
  "expire_restarts now t =
     (case last_restart_at t of
        Some earlier \<Rightarrow>
          if elapsed_exceeds now earlier RESTART_WINDOW_SECONDS
          then t\<lparr>restart_count := 0, last_restart_at := None\<rparr> else t
      | None \<Rightarrow> t)"

definition expire_kicks :: "instant \<Rightarrow> service_tally \<Rightarrow> service_tally" where
  "expire_kicks now t =
     (case last_kick_at t of
        Some earlier \<Rightarrow>
          if elapsed_exceeds now earlier RESTART_WINDOW_SECONDS
          then t\<lparr>consecutive_kick_failures := 0, last_kick_at := None\<rparr> else t
      | None \<Rightarrow> t)"

text \<open>\<open>decide\<close> reads the clock once for each of its two windows.\<close>

definition decide :: "instant \<Rightarrow> instant \<Rightarrow> service_tally \<Rightarrow> supervision_decision \<times> service_tally" where
  "decide now1 now2 t =
     (let t' = expire_kicks now2 (expire_restarts now1 t)
      in (if MAX_KICK_FAILURES \<le> consecutive_kick_failures t' \<or> MAX_FAILED_RESTARTS < restart_count t'
          then GivenUp else Check, t'))"

definition record_heartbeat :: "service_tally \<Rightarrow> service_check_result \<times> service_tally" where
  "record_heartbeat t =
     (Okay, t\<lparr>failure_count := 0, consecutive_kick_failures := 0, recovering_since := None\<rparr>)"

definition in_grace :: "instant \<Rightarrow> service_tally \<Rightarrow> bool" where
  "in_grace now t =
     (case recovering_since t of
        Some since \<Rightarrow> \<not> elapsed_exceeds now since STARTUP_GRACE_SECONDS
      | None \<Rightarrow> False)"

definition record_missed_heartbeat :: "instant \<Rightarrow> service_tally \<Rightarrow> service_check_result \<times> service_tally" where
  "record_missed_heartbeat now t =
     (if in_grace now t then (MissedHeartbeat, t)
      else (let t' = t\<lparr>failure_count := failure_count t + 1\<rparr>
            in (if MAX_MISSED_HEARTBEATS < failure_count t' then NeedsKick else MissedHeartbeat, t')))"

definition record_kick_success :: "instant \<Rightarrow> service_tally \<Rightarrow> service_tally" where
  "record_kick_success now t =
     t\<lparr>failure_count := 0, consecutive_kick_failures := 0, restart_count := restart_count t + 1,
       last_restart_at := Some now, last_kick_at := Some now, recovering_since := Some now\<rparr>"

definition record_kick_failure :: "instant \<Rightarrow> service_tally \<Rightarrow> service_tally" where
  "record_kick_failure now t =
     t\<lparr>consecutive_kick_failures := consecutive_kick_failures t + 1, last_kick_at := Some now\<rparr>"

section \<open>One check of one service\<close>

record supervision_failure =
  gave_up_at :: instant
  failure_restart_count :: "8 word"
  kick_failures :: "8 word"

record observation =
  restart_clock :: instant
  kick_clock :: instant
  beat :: "heartbeat option"
  beat_clock :: instant
  grace_clock :: instant
  kick_works :: bool
  kicked_clock :: instant
  gave_up_clock :: instant
  marker_works :: bool

datatype effect =
    Kick bool
  | MarkFailed supervision_failure bool
  | ClearFailure bool

definition note_given_up :: "observation \<Rightarrow> service_tally \<Rightarrow> effect list \<times> service_tally" where
  "note_given_up obs t =
     (if failure_marked t then ([], t)
      else (let failure = \<lparr>gave_up_at = gave_up_clock obs, failure_restart_count = restart_count t,
                           kick_failures = consecutive_kick_failures t\<rparr>
            in ([MarkFailed failure (marker_works obs)],
                if marker_works obs then t\<lparr>failure_marked := True\<rparr> else t)))"

definition note_recovered :: "observation \<Rightarrow> service_tally \<Rightarrow> effect list \<times> service_tally" where
  "note_recovered obs t =
     (if \<not> failure_marked t then ([], t)
      else ([ClearFailure (marker_works obs)],
            if marker_works obs then t\<lparr>failure_marked := False\<rparr> else t))"

definition kick_service :: "observation \<Rightarrow> service_tally \<Rightarrow> effect list \<times> service_tally" where
  "kick_service obs t =
     ([Kick (kick_works obs)],
      if kick_works obs then record_kick_success (kicked_clock obs) t
      else record_kick_failure (kicked_clock obs) t)"

definition check_one_service :: "observation \<Rightarrow> service_tally \<Rightarrow> effect list \<times> service_tally" where
  "check_one_service obs t0 =
     (case decide (restart_clock obs) (kick_clock obs) t0 of
        (GivenUp, t) \<Rightarrow> note_given_up obs t
      | (Check, t) \<Rightarrow>
          (case (if is_timely (heartbeat_age (beat_clock obs) (beat obs)) then record_heartbeat t
                 else record_missed_heartbeat (grace_clock obs) t) of
             (Okay, t') \<Rightarrow> note_recovered obs t'
           | (MissedHeartbeat, t') \<Rightarrow> ([], t')
           | (NeedsKick, t') \<Rightarrow> kick_service obs t'))"

fun check_rounds :: "observation list \<Rightarrow> service_tally \<Rightarrow> effect list \<times> service_tally" where
  "check_rounds [] t = ([], t)"
| "check_rounds (obs # later) t =
     (let (es, t') = check_one_service obs t; (fs, t'') = check_rounds later t' in (es @ fs, t''))"

text \<open>One tick of \<open>check_task\<close> looks at every supervised service in turn.\<close>

fun check_tick :: "observation list \<Rightarrow> service_tally list \<Rightarrow> (effect list \<times> service_tally) list" where
  "check_tick (obs # later) (t # ts) = check_one_service obs t # check_tick later ts"
| "check_tick _ _ = []"

section \<open>The counters stay in range\<close>

definition tally_ok :: "service_tally \<Rightarrow> bool" where
  "tally_ok t \<longleftrightarrow>
     unat (restart_count t) \<le> 4 \<and> unat (consecutive_kick_failures t) \<le> 3 \<and>
     (last_restart_at t = None \<longrightarrow> restart_count t = 0) \<and>
     (last_kick_at t = None \<longrightarrow> consecutive_kick_failures t = 0)"


lemma tally_ok_new [simp]: "tally_ok (tally_new now)"
  by (simp add: tally_ok_def tally_new_def)

lemma expire_restarts_ok: "tally_ok t \<Longrightarrow> tally_ok (expire_restarts now t)"
  by (auto simp: tally_ok_def expire_restarts_def split: option.split)

lemma expire_kicks_ok: "tally_ok t \<Longrightarrow> tally_ok (expire_kicks now t)"
  by (auto simp: tally_ok_def expire_kicks_def split: option.split)

lemma decide_ok: "tally_ok t \<Longrightarrow> decide n1 n2 t = (d, t') \<Longrightarrow> tally_ok t'"
  by (auto simp: decide_def Let_def expire_restarts_ok expire_kicks_ok)

lemma decide_Check:
  "decide n1 n2 t = (Check, t') \<Longrightarrow>
     unat (consecutive_kick_failures t') < 3 \<and> unat (restart_count t') \<le> 3"
  by (auto simp: decide_def Let_def limits word_le_nat_alt word_less_nat_alt not_le not_less split: if_splits)

lemma unat_increment: "unat (w :: 8 word) < 255 \<Longrightarrow> unat (w + 1) = unat w + 1"
  by (simp add: unat_word_ariths)

lemma record_heartbeat_ok: "tally_ok t \<Longrightarrow> tally_ok (snd (record_heartbeat t))"
  by (simp add: tally_ok_def record_heartbeat_def)

lemma record_missed_frame:
  "restart_count (snd (record_missed_heartbeat now t)) = restart_count t"
  "consecutive_kick_failures (snd (record_missed_heartbeat now t)) = consecutive_kick_failures t"
  "last_restart_at (snd (record_missed_heartbeat now t)) = last_restart_at t"
  "last_kick_at (snd (record_missed_heartbeat now t)) = last_kick_at t"
  "failure_marked (snd (record_missed_heartbeat now t)) = failure_marked t"
  by (simp_all add: record_missed_heartbeat_def Let_def)

lemma record_missed_ok: "tally_ok t \<Longrightarrow> tally_ok (snd (record_missed_heartbeat now t))"
  by (simp add: tally_ok_def record_missed_frame)

lemma kick_service_ok:
  assumes "tally_ok t" "unat (consecutive_kick_failures t) < 3" "unat (restart_count t) \<le> 3"
  shows "tally_ok (snd (kick_service obs t))"
  using assms
  by (auto simp: tally_ok_def kick_service_def record_kick_success_def record_kick_failure_def unat_increment)

lemma note_given_up_ok: "tally_ok t \<Longrightarrow> tally_ok (snd (note_given_up obs t))"
  by (simp add: tally_ok_def note_given_up_def Let_def)

lemma note_recovered_ok: "tally_ok t \<Longrightarrow> tally_ok (snd (note_recovered obs t))"
  by (simp add: tally_ok_def note_recovered_def)

text \<open>The ways a check can go, with the tally at the moment of the decision.\<close>

lemma check_cases:
  assumes "check_one_service obs t0 = (es, t')"
  obtains (gave_up) t where "decide (restart_clock obs) (kick_clock obs) t0 = (GivenUp, t)"
      "note_given_up obs t = (es, t')"
  | (healthy) t where "decide (restart_clock obs) (kick_clock obs) t0 = (Check, t)"
      "is_timely (heartbeat_age (beat_clock obs) (beat obs))"
      "note_recovered obs (snd (record_heartbeat t)) = (es, t')"
  | (missed) t where "decide (restart_clock obs) (kick_clock obs) t0 = (Check, t)"
      "\<not> is_timely (heartbeat_age (beat_clock obs) (beat obs))"
      "record_missed_heartbeat (grace_clock obs) t = (MissedHeartbeat, t')" "es = []"
  | (kicked) t t1 where "decide (restart_clock obs) (kick_clock obs) t0 = (Check, t)"
      "\<not> is_timely (heartbeat_age (beat_clock obs) (beat obs))"
      "record_missed_heartbeat (grace_clock obs) t = (NeedsKick, t1)" "kick_service obs t1 = (es, t')"
proof -
  obtain d t where dec: "decide (restart_clock obs) (kick_clock obs) t0 = (d, t)"
    by (cases "decide (restart_clock obs) (kick_clock obs) t0") auto
  show thesis
  proof (cases d)
    case GivenUp
    with dec assms gave_up show thesis by (simp add: check_one_service_def)
  next
    case Check
    show thesis
    proof (cases "is_timely (heartbeat_age (beat_clock obs) (beat obs))")
      case True
      with dec assms Check healthy show thesis
        by (simp add: check_one_service_def record_heartbeat_def)
    next
      case False
      obtain r t1 where rec: "record_missed_heartbeat (grace_clock obs) t = (r, t1)"
        by (cases "record_missed_heartbeat (grace_clock obs) t") auto
      then have "r \<noteq> Okay" by (auto simp: record_missed_heartbeat_def Let_def split: if_splits)
      with dec assms Check False rec missed kicked show thesis
        by (cases r) (simp_all add: check_one_service_def)
    qed
  qed
qed

lemma check_one_service_ok:
  assumes "tally_ok t"
  shows "tally_ok (snd (check_one_service obs t))"
proof -
  obtain es t' where run: "check_one_service obs t = (es, t')"
    by (cases "check_one_service obs t") auto
  from run show ?thesis
  proof (cases rule: check_cases)
    case (gave_up t1)
    with assms run show ?thesis by (metis decide_ok note_given_up_ok snd_conv)
  next
    case (healthy t1)
    with assms run show ?thesis by (metis decide_ok note_recovered_ok record_heartbeat_ok snd_conv)
  next
    case (missed t1)
    with assms run show ?thesis by (metis decide_ok record_missed_ok snd_conv)
  next
    case (kicked t1 t2)
    have "tally_ok t2" "unat (consecutive_kick_failures t2) < 3" "unat (restart_count t2) \<le> 3"
      using kicked decide_Check [OF kicked(1)] assms
      by (metis decide_ok record_missed_ok record_missed_frame snd_conv)+
    then show ?thesis using kick_service_ok [of t2 obs] kicked(4) run by simp
  qed
qed

lemma check_rounds_fst:
    "fst (check_rounds (obs # later) t) =
       fst (check_one_service obs t) @ fst (check_rounds later (snd (check_one_service obs t)))"
  and check_rounds_snd:
    "snd (check_rounds (obs # later) t) = snd (check_rounds later (snd (check_one_service obs t)))"
  by (simp_all add: split_def Let_def)

declare check_rounds.simps(2) [simp del]

lemmas check_rounds_simps = check_rounds_fst check_rounds_snd

lemma check_rounds_append:
  "check_rounds (xs @ ys) t =
     (fst (check_rounds xs t) @ fst (check_rounds ys (snd (check_rounds xs t))),
      snd (check_rounds ys (snd (check_rounds xs t))))"
  by (induction xs arbitrary: t) (simp_all add: check_rounds.simps(2) split_def Let_def)

lemma check_rounds_ok: "tally_ok t \<Longrightarrow> tally_ok (snd (check_rounds obs t))"
  by (induction obs arbitrary: t) (simp_all add: check_rounds_simps check_one_service_ok)

text \<open>
  However long a service is supervised, the counters that decide whether to give up stay in
  range, far from the limit of their byte: at most four restarts and three failed kicks are on the
  books, and a counter that is not zero has the instant from which it will be forgotten.
\<close>

theorem counters_in_range: "tally_ok (snd (check_rounds obs (tally_new now)))"
  by (rule check_rounds_ok) simp

section \<open>How often a service is restarted\<close>

definition restarts :: "effect list \<Rightarrow> nat" where
  "restarts es = length (filter (\<lambda>e. e = Kick True) es)"

definition is_kick :: "effect \<Rightarrow> bool" where
  "is_kick e = (case e of Kick _ \<Rightarrow> True | _ \<Rightarrow> False)"

lemma restarts_append [simp]: "restarts (es @ fs) = restarts es + restarts fs"
  by (simp add: restarts_def)

lemma not_elapsed:
  "now < since + (s + 1) * nanos_per_sec \<Longrightarrow> \<not> elapsed_exceeds now since s"
proof -
  assume now: "now < since + (s + 1) * nanos_per_sec"
  show ?thesis
  proof (cases "since \<le> now")
    case True
    with now have "now - since < (s + 1) * nanos_per_sec" by simp
    then have "(now - since) div nanos_per_sec < s + 1"
      by (simp add: less_mult_imp_div_less)
    with True show ?thesis by (simp add: elapsed_exceeds_def duration_since_def)
  qed (simp add: elapsed_exceeds_def duration_since_def)
qed

lemma decide_restart_kept:
  assumes "decide n1 n2 t = (d, t')" and "last_restart_at t = Some a"
    and "n1 < a + 301 * nanos_per_sec"
  shows "restart_count t' = restart_count t" and "last_restart_at t' = Some a"
proof -
  have "\<not> elapsed_exceeds n1 a RESTART_WINDOW_SECONDS"
    using assms(3) not_elapsed [of n1 a 300] by (simp add: limits)
  with assms(1,2) show "restart_count t' = restart_count t" and "last_restart_at t' = Some a"
    by (auto simp: decide_def Let_def expire_restarts_def expire_kicks_def split: option.split)
qed

text \<open>\<open>counted a n t\<close>: the tally has not forgotten \<open>n\<close> restarts made since \<open>a\<close>.\<close>

definition counted :: "instant \<Rightarrow> nat \<Rightarrow> service_tally \<Rightarrow> bool" where
  "counted a n t \<longleftrightarrow>
     n \<le> unat (restart_count t) \<and> (0 < n \<longrightarrow> (\<exists>b\<ge>a. last_restart_at t = Some b))"

definition within_window :: "instant \<Rightarrow> observation \<Rightarrow> bool" where
  "within_window a obs \<longleftrightarrow>
     restart_clock obs < a + 301 * nanos_per_sec \<and> a \<le> kicked_clock obs"

lemma counted_decide:
  assumes "decide n1 n2 t = (d, t')" and "counted a n t" and "n1 < a + 301 * nanos_per_sec"
  shows "counted a n t'"
proof (cases "n = 0")
  case False
  with assms(2) obtain b where b: "a \<le> b" "last_restart_at t = Some b" by (auto simp: counted_def)
  with assms(3) have "n1 < b + 301 * nanos_per_sec" by simp
  with decide_restart_kept [OF assms(1) b(2)] b assms(2) show ?thesis by (simp add: counted_def)
qed (simp add: counted_def)

lemma counted_check:
  assumes "tally_ok t0" and "counted a n t0" and "within_window a obs"
    and run: "check_one_service obs t0 = (es, t')"
  shows "counted a (n + restarts es) t'"
  using run
proof (cases rule: check_cases)
  case (gave_up t)
  then have "counted a n t" using counted_decide assms(2,3) by (auto simp: within_window_def)
  with gave_up(2) show ?thesis
    by (auto simp: note_given_up_def counted_def restarts_def Let_def split: if_splits)
next
  case (healthy t)
  then have "counted a n t" using counted_decide assms(2,3) by (auto simp: within_window_def)
  with healthy(3) show ?thesis
    by (auto simp: note_recovered_def record_heartbeat_def counted_def restarts_def split: if_splits)
next
  case (missed t)
  then have "counted a n t" using counted_decide assms(2,3) by (auto simp: within_window_def)
  with missed(3,4) record_missed_frame [of "grace_clock obs" t] show ?thesis
    by (simp add: counted_def restarts_def)
next
  case (kicked t t1)
  then have "counted a n t" using counted_decide assms(2,3) by (auto simp: within_window_def)
  then have "counted a n t1"
    using kicked(3) record_missed_frame [of "grace_clock obs" t] by (simp add: counted_def)
  moreover have "unat (restart_count t1) \<le> 3"
    using decide_Check [OF kicked(1)] kicked(3) record_missed_frame [of "grace_clock obs" t] by simp
  ultimately show ?thesis
    using kicked(4) assms(3)
    by (auto simp: kick_service_def record_kick_success_def record_kick_failure_def counted_def
        restarts_def unat_increment within_window_def)
qed

lemma counted_rounds:
  assumes "tally_ok t" and "counted a n t" and "\<forall>obs \<in> set os. within_window a obs"
  shows "counted a (n + restarts (fst (check_rounds os t))) (snd (check_rounds os t))"
  using assms
proof (induction os arbitrary: n t)
  case Nil
  then show ?case by (simp add: restarts_def)
next
  case (Cons obs os)
  obtain es t' where run: "check_one_service obs t = (es, t')"
    by (cases "check_one_service obs t") auto
  have "counted a (n + restarts es) t'" using counted_check [OF _ _ _ run] Cons.prems by simp
  moreover have "tally_ok t'" using check_one_service_ok [OF Cons.prems(1), of obs] run by simp
  ultimately have "counted a (n + restarts es + restarts (fst (check_rounds os t')))
      (snd (check_rounds os t'))"
    using Cons.IH Cons.prems(3) by simp
  with run show ?case by (simp add: check_rounds_simps add.assoc)
qed

text \<open>
  C12: Rate limit of the supervisor: whatever a service does, and whatever the tally holds, the
  checks whose clock readings fall into one window of 300 seconds restart it at most four times
  (three restarts are tolerated, the fourth makes the supervisor give up).
\<close>

theorem restart_rate_limit:
  assumes "tally_ok t" and "\<forall>obs \<in> set os. within_window a obs"
  shows "restarts (fst (check_rounds os t)) \<le> 4"
proof -
  have "counted a 0 t" by (simp add: counted_def)
  then have "counted a (0 + restarts (fst (check_rounds os t))) (snd (check_rounds os t))"
    by (rule counted_rounds [OF assms(1) _ assms(2)])
  moreover have "tally_ok (snd (check_rounds os t))" by (rule check_rounds_ok [OF assms(1)])
  ultimately show ?thesis by (simp add: counted_def tally_ok_def)
qed

definition silent_observation :: observation where
  "silent_observation =
     \<lparr>restart_clock = 200 * nanos_per_sec, kick_clock = 200 * nanos_per_sec, beat = None,
      beat_clock = 200 * nanos_per_sec, grace_clock = 200 * nanos_per_sec, kick_works = True,
      kicked_clock = 200 * nanos_per_sec, gave_up_clock = 200 * nanos_per_sec, marker_works = True\<rparr>"

lemma restart_rate_limit_witness:
  "restarts (fst (check_rounds (replicate 5 silent_observation) (tally_new 0))) \<le> 4"
proof -
  have "\<forall>obs \<in> set (replicate 5 silent_observation). within_window 0 obs"
    by (simp add: within_window_def silent_observation_def nanos_per_sec_def)
  then show ?thesis by (rule restart_rate_limit [OF tally_ok_new])
qed

section \<open>Giving up\<close>

lemma decide_given_up_restarts:
  assumes "3 < unat (restart_count t)" and "last_restart_at t = Some a"
    and "n1 < a + 301 * nanos_per_sec"
  shows "fst (decide n1 n2 t) = GivenUp"
proof -
  obtain d t' where dec: "decide n1 n2 t = (d, t')" by (cases "decide n1 n2 t") auto
  have "restart_count t' = restart_count t" by (rule decide_restart_kept [OF dec assms(2,3)])
  with assms(1) dec decide_Check [of n1 n2 t t'] show ?thesis by (cases d) auto
qed

lemma given_up_check:
  assumes "3 < unat (restart_count t)" and "last_restart_at t = Some a"
    and "restart_clock obs < a + 301 * nanos_per_sec"
  shows "\<not> list_ex is_kick (fst (check_one_service obs t)) \<and>
    restart_count (snd (check_one_service obs t)) = restart_count t \<and>
    last_restart_at (snd (check_one_service obs t)) = Some a"
proof -
  obtain t' where dec: "decide (restart_clock obs) (kick_clock obs) t = (GivenUp, t')"
    using decide_given_up_restarts [OF assms, of "kick_clock obs"]
    by (cases "decide (restart_clock obs) (kick_clock obs) t") auto
  with decide_restart_kept [OF dec assms(2,3)] show ?thesis
    by (simp add: check_one_service_def note_given_up_def is_kick_def Let_def)
qed

text \<open>
  A service that was restarted four times is left alone: as long as the fourth restart is not
  more than 300 seconds old, no check of it, whatever it observes, tries to kick the service.
\<close>

theorem gives_up_after_four_restarts:
  assumes "3 < unat (restart_count t)" and "last_restart_at t = Some a"
    and "\<forall>obs \<in> set os. restart_clock obs < a + 301 * nanos_per_sec"
  shows "\<not> list_ex is_kick (fst (check_rounds os t))"
  using assms
proof (induction os arbitrary: t)
  case (Cons obs os)
  have step: "\<not> list_ex is_kick (fst (check_one_service obs t))"
      "restart_count (snd (check_one_service obs t)) = restart_count t"
      "last_restart_at (snd (check_one_service obs t)) = Some a"
    using given_up_check [OF Cons.prems(1,2), of obs] Cons.prems(3) by simp_all
  have "\<not> list_ex is_kick (fst (check_rounds os (snd (check_one_service obs t))))"
    using Cons.prems(1,3) step(2,3) by (intro Cons.IH) simp_all
  with step(1) show ?case by (simp add: check_rounds_simps)
qed simp

definition exhausted_tally :: service_tally where
  "exhausted_tally =
     \<lparr>failure_count = 0, restart_count = 4, consecutive_kick_failures = 0,
      last_restart_at = Some (100 * nanos_per_sec), last_kick_at = Some (100 * nanos_per_sec),
      recovering_since = None, failure_marked = False\<rparr>"

lemma gives_up_after_four_restarts_witness:
  "\<not> list_ex is_kick (fst (check_rounds (replicate 9 silent_observation) exhausted_tally)) \<and>
   fst (check_one_service silent_observation exhausted_tally) =
     [MarkFailed \<lparr>gave_up_at = 200 * nanos_per_sec, failure_restart_count = 4, kick_failures = 0\<rparr> True]"
proof
  show "\<not> list_ex is_kick (fst (check_rounds (replicate 9 silent_observation) exhausted_tally))"
    by (rule gives_up_after_four_restarts [where a = "100 * nanos_per_sec"])
      (simp_all add: exhausted_tally_def silent_observation_def nanos_per_sec_def)
  show "fst (check_one_service silent_observation exhausted_tally) =
     [MarkFailed \<lparr>gave_up_at = 200 * nanos_per_sec, failure_restart_count = 4, kick_failures = 0\<rparr> True]"
    by (simp add: check_one_service_def decide_def expire_restarts_def expire_kicks_def
        exhausted_tally_def silent_observation_def elapsed_exceeds_def duration_since_def limits
        nanos_per_sec_def note_given_up_def Let_def)
qed

section \<open>Detecting a dead service\<close>

lemma expire_restarts_frame [simp]:
  "failure_count (expire_restarts n t) = failure_count t"
  "consecutive_kick_failures (expire_restarts n t) = consecutive_kick_failures t"
  "recovering_since (expire_restarts n t) = recovering_since t"
  "failure_marked (expire_restarts n t) = failure_marked t"
  "last_kick_at (expire_restarts n t) = last_kick_at t"
  by (simp_all add: expire_restarts_def split: option.split)

lemma expire_kicks_frame [simp]:
  "failure_count (expire_kicks n t) = failure_count t"
  "restart_count (expire_kicks n t) = restart_count t"
  "recovering_since (expire_kicks n t) = recovering_since t"
  "failure_marked (expire_kicks n t) = failure_marked t"
  "last_restart_at (expire_kicks n t) = last_restart_at t"
  by (simp_all add: expire_kicks_def split: option.split)

lemma expire_restarts_le: "unat (restart_count (expire_restarts n t)) \<le> unat (restart_count t)"
  by (simp add: expire_restarts_def split: option.split)

lemma expire_kicks_le:
  "unat (consecutive_kick_failures (expire_kicks n t)) \<le> unat (consecutive_kick_failures t)"
  by (simp add: expire_kicks_def split: option.split)

lemma decide_frame:
  assumes "decide n1 n2 t = (d, t')"
  shows "failure_count t' = failure_count t" "recovering_since t' = recovering_since t"
    "failure_marked t' = failure_marked t"
  using assms by (auto simp: decide_def Let_def)

lemma decide_below_limits:
  assumes "unat (restart_count t) \<le> 3" and "unat (consecutive_kick_failures t) < 3"
  shows "\<exists>t'. decide n1 n2 t = (Check, t') \<and> unat (restart_count t') \<le> 3 \<and>
    unat (consecutive_kick_failures t') < 3"
proof -
  define t' where "t' = expire_kicks n2 (expire_restarts n1 t)"
  have "unat (restart_count t') \<le> 3"
    using expire_restarts_le [of n1 t] assms(1) by (simp add: t'_def)
  moreover have "unat (consecutive_kick_failures t') < 3"
    using expire_kicks_le [of n2 "expire_restarts n1 t"] assms(2) by (simp add: t'_def)
  ultimately show ?thesis
    by (simp add: decide_def Let_def limits word_le_nat_alt word_less_nat_alt flip: t'_def)
qed

text \<open>A tally that is not given up on and whose service gets no grace at \<open>obs\<close>, which saw no beat.\<close>

definition watched :: "service_tally \<Rightarrow> bool" where
  "watched t \<longleftrightarrow> unat (restart_count t) \<le> 3 \<and> unat (consecutive_kick_failures t) < 3"

definition missed_at :: "instant option \<Rightarrow> observation \<Rightarrow> bool" where
  "missed_at recovering obs \<longleftrightarrow>
     \<not> is_timely (heartbeat_age (beat_clock obs) (beat obs)) \<and>
     (case recovering of
        Some since \<Rightarrow> elapsed_exceeds (grace_clock obs) since STARTUP_GRACE_SECONDS
      | None \<Rightarrow> True)"

lemma missed_check:
  assumes "watched t" and "missed_at (recovering_since t) obs" and "unat (failure_count t) < 3"
  shows "fst (check_one_service obs t) = []" (is ?quiet)
    and "watched (snd (check_one_service obs t))" (is ?watched)
    and "recovering_since (snd (check_one_service obs t)) = recovering_since t" (is ?grace)
    and "unat (failure_count (snd (check_one_service obs t))) = unat (failure_count t) + 1" (is ?count)
proof -
  obtain t' where dec: "decide (restart_clock obs) (kick_clock obs) t = (Check, t')" and w: "watched t'"
    using decide_below_limits assms(1) by (metis watched_def)
  note frame = decide_frame [OF dec]
  have grace: "\<not> in_grace (grace_clock obs) t'"
    using assms(2) frame by (auto simp: missed_at_def in_grace_def split: option.splits)
  have count: "unat (failure_count t' + 1) = unat (failure_count t) + 1"
    using assms(3) frame by (simp add: unat_increment)
  then have "\<not> MAX_MISSED_HEARTBEATS < failure_count t' + 1"
    using assms(3) by (simp add: limits word_less_nat_alt)
  then have "check_one_service obs t = ([], t'\<lparr>failure_count := failure_count t' + 1\<rparr>)"
    using dec grace assms(2)
    by (simp add: check_one_service_def record_missed_heartbeat_def missed_at_def Let_def)
  with w frame count show ?quiet ?watched ?grace ?count by (simp_all add: watched_def)
qed

lemma fatal_check:
  assumes "watched t" and "missed_at (recovering_since t) obs" and "unat (failure_count t) = 3"
  shows "fst (check_one_service obs t) = [Kick (kick_works obs)]"
proof -
  obtain t' where dec: "decide (restart_clock obs) (kick_clock obs) t = (Check, t')"
    using decide_below_limits assms(1) by (metis watched_def)
  note frame = decide_frame [OF dec]
  have grace: "\<not> in_grace (grace_clock obs) t'"
    using assms(2) frame by (auto simp: missed_at_def in_grace_def split: option.splits)
  have "unat (failure_count t' + 1) = 4" using assms(3) frame by (simp add: unat_increment)
  then have "MAX_MISSED_HEARTBEATS < failure_count t' + 1" by (simp add: limits word_less_nat_alt)
  with dec grace assms(2) show ?thesis
    by (simp add: check_one_service_def record_missed_heartbeat_def missed_at_def kick_service_def Let_def)
qed

text \<open>
  A dead service is kicked, and not earlier than intended: with its books clear and no grace
  left, the first three checks without a timely heartbeat do nothing and the fourth kicks it.
\<close>

theorem fourth_miss_kicks:
  assumes "watched t" and "failure_count t = 0"
    and "\<forall>obs \<in> {o1, o2, o3, o4}. missed_at (recovering_since t) obs"
  shows "fst (check_rounds [o1, o2, o3, o4] t) = [Kick (kick_works o4)]"
proof -
  define t1 where "t1 = snd (check_one_service o1 t)"
  define t2 where "t2 = snd (check_one_service o2 t1)"
  define t3 where "t3 = snd (check_one_service o3 t2)"
  have 1: "fst (check_one_service o1 t) = []" "watched t1" "recovering_since t1 = recovering_since t"
      "unat (failure_count t1) = 1"
    using missed_check [OF assms(1), of o1] assms(2,3) by (simp_all add: t1_def)
  have 2: "fst (check_one_service o2 t1) = []" "watched t2" "recovering_since t2 = recovering_since t"
      "unat (failure_count t2) = 2"
    using missed_check [OF 1(2), of o2] 1 assms(3) by (simp_all add: t2_def)
  have 3: "fst (check_one_service o3 t2) = []" "watched t3" "recovering_since t3 = recovering_since t"
      "unat (failure_count t3) = 3"
    using missed_check [OF 2(2), of o3] 2 assms(3) by (simp_all add: t3_def)
  have "fst (check_one_service o4 t3) = [Kick (kick_works o4)]"
    using fatal_check [OF 3(2), of o4] 3 assms(3) by simp
  with 1(1) 2(1) 3(1) show ?thesis by (simp add: check_rounds_simps t1_def t2_def t3_def)
qed

lemma fourth_miss_kicks_witness:
  "fst (check_rounds [silent_observation, silent_observation, silent_observation, silent_observation]
     (tally_new 0)) = [Kick True]"
proof -
  have "missed_at (recovering_since (tally_new 0)) silent_observation"
    by (simp add: missed_at_def tally_new_def silent_observation_def heartbeat_age_def is_timely_def
        elapsed_exceeds_def duration_since_def limits nanos_per_sec_def)
  then show ?thesis
    using fourth_miss_kicks [of "tally_new 0" silent_observation silent_observation
        silent_observation silent_observation]
    by (simp add: watched_def tally_new_def silent_observation_def)
qed

section \<open>Startup grace\<close>

lemma grace_check:
  assumes "recovering_since t = Some since"
    and "\<not> is_timely (heartbeat_age (beat_clock obs) (beat obs))"
    and "grace_clock obs < since + 91 * nanos_per_sec"
  shows "\<not> list_ex is_kick (fst (check_one_service obs t)) \<and>
    recovering_since (snd (check_one_service obs t)) = Some since \<and>
    failure_count (snd (check_one_service obs t)) = failure_count t"
proof -
  obtain d t' where dec: "decide (restart_clock obs) (kick_clock obs) t = (d, t')"
    by (cases "decide (restart_clock obs) (kick_clock obs) t") auto
  note frame = decide_frame [OF dec]
  have "in_grace (grace_clock obs) t'"
    using assms(1,3) frame not_elapsed [of "grace_clock obs" since 90] by (simp add: in_grace_def limits)
  with dec assms frame show ?thesis
    by (cases d) (simp_all add: check_one_service_def note_given_up_def record_missed_heartbeat_def
        is_kick_def Let_def)
qed

text \<open>
  A service that was just started or kicked gets its 90 seconds: until a first timely heartbeat
  is seen, misses within 90 seconds of \<open>recovering_since\<close> neither kick it nor count against it.
\<close>

theorem startup_grace:
  assumes "recovering_since t = Some since"
    and "\<forall>obs \<in> set os. \<not> is_timely (heartbeat_age (beat_clock obs) (beat obs)) \<and>
      grace_clock obs < since + 91 * nanos_per_sec"
  shows "\<not> list_ex is_kick (fst (check_rounds os t)) \<and>
    failure_count (snd (check_rounds os t)) = failure_count t"
  using assms
proof (induction os arbitrary: t)
  case (Cons obs os)
  have step: "\<not> list_ex is_kick (fst (check_one_service obs t)) \<and>
      recovering_since (snd (check_one_service obs t)) = Some since \<and>
      failure_count (snd (check_one_service obs t)) = failure_count t"
    using Cons.prems by (intro grace_check) simp_all
  then have "\<not> list_ex is_kick (fst (check_rounds os (snd (check_one_service obs t)))) \<and>
      failure_count (snd (check_rounds os (snd (check_one_service obs t)))) =
      failure_count (snd (check_one_service obs t))"
    using Cons.prems(2) by (intro Cons.IH) simp_all
  with step show ?case by (simp add: check_rounds_simps)
qed simp

definition early_observation :: observation where
  "early_observation = silent_observation\<lparr>grace_clock := 60 * nanos_per_sec\<rparr>"

lemma startup_grace_witness:
  "\<not> list_ex is_kick (fst (check_rounds (replicate 12 early_observation) (tally_new 0))) \<and>
   failure_count (snd (check_rounds (replicate 12 early_observation) (tally_new 0))) = 0"
proof -
  have "\<not> is_timely (heartbeat_age (beat_clock early_observation) (beat early_observation))"
    by (simp add: early_observation_def silent_observation_def heartbeat_age_def is_timely_def)
  moreover have "grace_clock early_observation < 0 + 91 * nanos_per_sec"
    by (simp add: early_observation_def nanos_per_sec_def)
  ultimately have "\<not> list_ex is_kick (fst (check_rounds (replicate 12 early_observation) (tally_new 0))) \<and>
      failure_count (snd (check_rounds (replicate 12 early_observation) (tally_new 0))) =
      failure_count (tally_new 0)"
    by (intro startup_grace [where since = 0]) (simp_all add: tally_new_def)
  then show ?thesis by (simp add: tally_new_def)
qed

section \<open>The failure marker\<close>

text \<open>
  What the effects do to the marker file of a service; \<open>None\<close> when a marker is written over an
  existing one or one that does not exist is cleared.
\<close>

fun marker_file :: "bool \<Rightarrow> effect list \<Rightarrow> bool option" where
  "marker_file present [] = Some present"
| "marker_file present (Kick worked # es) = marker_file present es"
| "marker_file present (MarkFailed f worked # es) = (if present then None else marker_file worked es)"
| "marker_file present (ClearFailure worked # es) =
     (if present then marker_file (\<not> worked) es else None)"

lemma marker_file_append:
  "marker_file b (es @ fs) = Option.bind (marker_file b es) (\<lambda>c. marker_file c fs)"
  by (induction b es rule: marker_file.induct) simp_all

lemma marker_check:
  "marker_file (failure_marked t) (fst (check_one_service obs t)) =
     Some (failure_marked (snd (check_one_service obs t)))"
proof -
  obtain es t' where run: "check_one_service obs t = (es, t')"
    by (cases "check_one_service obs t") auto
  from run show ?thesis
  proof (cases rule: check_cases)
    case (gave_up t1)
    with run decide_frame [OF gave_up(1)] show ?thesis
      by (auto simp: note_given_up_def Let_def split: if_splits)
  next
    case (healthy t1)
    with run decide_frame [OF healthy(1)] show ?thesis
      by (auto simp: note_recovered_def record_heartbeat_def split: if_splits)
  next
    case (missed t1)
    with run decide_frame [OF missed(1)] record_missed_frame(5) [of "grace_clock obs" t1]
    show ?thesis by simp
  next
    case (kicked t1 t2)
    have "failure_marked t' = failure_marked t2" "es = [Kick (kick_works obs)]"
      using kicked(4)
      by (auto simp: kick_service_def record_kick_success_def record_kick_failure_def split: if_splits)
    with run kicked(3) decide_frame [OF kicked(1)] record_missed_frame(5) [of "grace_clock obs" t1]
    show ?thesis by simp
  qed
qed


section \<open>The miss counter\<close>

text \<open>A check of a service that is dead for good and whose kicks fail, every 301 seconds.\<close>

definition dead_round :: "nat \<Rightarrow> observation" where
  "dead_round i =
     \<lparr>restart_clock = i * (301 * nanos_per_sec), kick_clock = i * (301 * nanos_per_sec), beat = None,
      beat_clock = i * (301 * nanos_per_sec), grace_clock = i * (301 * nanos_per_sec),
      kick_works = False, kicked_clock = i * (301 * nanos_per_sec),
      gave_up_clock = i * (301 * nanos_per_sec), marker_works = True\<rparr>"

lemma dead_round_fields:
  "kick_works (dead_round i) = False"
  "kicked_clock (dead_round i) = i * (301 * nanos_per_sec)"
  by (simp_all add: dead_round_def)

definition dead_tally :: "nat \<Rightarrow> service_tally \<Rightarrow> bool" where
  "dead_tally n t \<longleftrightarrow>
     failure_count t = word_of_nat n \<and> restart_count t = 0 \<and> last_restart_at t = None \<and>
     recovering_since t = Some 0 \<and>
     (case last_kick_at t of
        None \<Rightarrow> consecutive_kick_failures t = 0
      | Some k \<Rightarrow> k \<le> n * (301 * nanos_per_sec) \<and> consecutive_kick_failures t \<le> 1)"

lemma dead_tally_new: "dead_tally 0 (tally_new 0)"
  by (simp add: dead_tally_def tally_new_def)

lemma dead_decide:
  assumes "dead_tally n t"
  shows "\<exists>t'. decide (restart_clock (dead_round (Suc n))) (kick_clock (dead_round (Suc n))) t = (Check, t') \<and>
    failure_count t' = word_of_nat n \<and> restart_count t' = 0 \<and> last_restart_at t' = None \<and>
    recovering_since t' = Some 0 \<and> last_kick_at t' = None \<and> consecutive_kick_failures t' = 0"
proof -
  have old: "elapsed_exceeds (Suc n * (301 * nanos_per_sec)) k 300" if "k \<le> n * (301 * nanos_per_sec)" for k
  proof -
    from that have "k \<le> Suc n * (301 * nanos_per_sec)" by simp
    moreover have "301 * nanos_per_sec \<le> Suc n * (301 * nanos_per_sec) - k" using that by simp
    then have "301 \<le> (Suc n * (301 * nanos_per_sec) - k) div nanos_per_sec"
      using div_le_mono [of "301 * nanos_per_sec" _ nanos_per_sec] by (simp add: nanos_per_sec_def)
    ultimately show ?thesis by (simp add: elapsed_exceeds_def duration_since_def)
  qed
  have "expire_restarts m t = t" for m
    using assms by (simp add: expire_restarts_def dead_tally_def)
  then show ?thesis
    using assms old
    by (cases "last_kick_at t") (auto simp: decide_def expire_kicks_def dead_tally_def dead_round_def limits)
qed

lemma dead_check:
  assumes "dead_tally n t"
  shows "dead_tally (Suc n) (snd (check_one_service (dead_round (Suc n)) t))"
    and "fst (check_one_service (dead_round (Suc n)) t) =
      (if (3 :: 8 word) < word_of_nat (Suc n) then [Kick False] else [])"
proof -
  obtain t' where dec:
    "decide (restart_clock (dead_round (Suc n))) (kick_clock (dead_round (Suc n))) t = (Check, t')"
    and t': "failure_count t' = word_of_nat n" "restart_count t' = 0" "last_restart_at t' = None"
      "recovering_since t' = Some 0" "last_kick_at t' = None" "consecutive_kick_failures t' = 0"
    using dead_decide [OF assms] by blast
  have "301 \<le> (Suc n * (301 * nanos_per_sec)) div nanos_per_sec" by (simp add: nanos_per_sec_def)
  then have "\<not> in_grace (grace_clock (dead_round (Suc n))) t'"
    using t'(4) by (simp add: in_grace_def dead_round_def elapsed_exceeds_def duration_since_def limits)
  moreover have "\<not> is_timely (heartbeat_age b (beat (dead_round (Suc n))))" for b
    by (simp add: is_timely_def heartbeat_age_def dead_round_def)
  ultimately have run: "check_one_service (dead_round (Suc n)) t =
      (if (3 :: 8 word) < word_of_nat (Suc n)
       then ([Kick False], t'\<lparr>failure_count := word_of_nat (Suc n),
         consecutive_kick_failures := 1, last_kick_at := Some (Suc n * (301 * nanos_per_sec))\<rparr>)
       else ([], t'\<lparr>failure_count := word_of_nat (Suc n)\<rparr>))"
    using dec t'(1,6)
    by (simp add: check_one_service_def record_missed_heartbeat_def limits add.commute
        kick_service_def record_kick_failure_def dead_round_fields)
  show "dead_tally (Suc n) (snd (check_one_service (dead_round (Suc n)) t))"
    and "fst (check_one_service (dead_round (Suc n)) t) =
      (if (3 :: 8 word) < word_of_nat (Suc n) then [Kick False] else [])"
    using t' unfolding run by (simp_all add: dead_tally_def)
qed

lemma dead_rounds: "dead_tally n (snd (check_rounds (map dead_round [1..<Suc n]) (tally_new 0)))"
proof (induction n)
  case 0
  show ?case by (simp add: dead_tally_new)
next
  case (Suc n)
  have "[1..<Suc (Suc n)] = [1..<Suc n] @ [Suc n]" by simp
  with dead_check(1) [OF Suc.IH] show ?case
    by (simp only: map_append list.map check_rounds_append check_rounds_simps check_rounds.simps(1)
        snd_conv)
qed

text \<open>
  The miss counter is a byte that only a heartbeat or a successful kick resets.  A service that
  stays dead while every kick of it fails is missed once per window, for ever: after \<open>n\<close> such
  checks the counter is \<open>n\<close> modulo 256, so the 256th check in a row finds it back at zero and does
  not even try to kick.  (With overflow checks, as in a debug build, that increment panics.)
\<close>

theorem miss_counter_wraps:
  "failure_count (snd (check_rounds (map dead_round [1..<Suc n]) (tally_new 0))) = word_of_nat n \<and>
   fst (check_one_service (dead_round 256) (snd (check_rounds (map dead_round [1..<256]) (tally_new 0)))) = [] \<and>
   fst (check_one_service (dead_round 255) (snd (check_rounds (map dead_round [1..<255]) (tally_new 0)))) =
     [Kick False]"
proof (intro conjI)
  show "failure_count (snd (check_rounds (map dead_round [1..<Suc n]) (tally_new 0))) = word_of_nat n"
    using dead_rounds [of n] by (simp only: dead_tally_def)
  show "fst (check_one_service (dead_round 256)
      (snd (check_rounds (map dead_round [1..<256]) (tally_new 0)))) = []"
    using dead_check(2) [OF dead_rounds [of 255]] by simp
  show "fst (check_one_service (dead_round 255)
      (snd (check_rounds (map dead_round [1..<255]) (tally_new 0)))) = [Kick False]"
    using dead_check(2) [OF dead_rounds [of 254]] by simp
qed

end
