(* ===== verification/Blueprint.thy ===== *)
theory Blueprint
  imports Text
begin

text \<open>
  The plan executor of the crate \<open>blueprint\<close> (blueprint/src/lib.rs, blueprint/src/bootstrap.rs):
  every blueprint of the system (starting, reconciling, upgrading\<dots>) is a list of commands that
  \<open>JournalingExecutor\<close> runs in order, rolling back the commands of its journal in reverse
  order as soon as one fails.  A command object of the source has mutable fields which \<open>run\<close>
  sets and \<open>rollback\<close> reads, so \<open>perform\<close> and \<open>undo\<close> return the command as well as the context.
  The trait object \<open>dyn Command\<close> is the record of its methods; a plan is a list of command states.
  Log messages are not modelled.
\<close>

section \<open>Commands and the executor\<close>

record ('k, 'c, 'e) command =
  step_name :: "'k \<Rightarrow> string"
  step_display :: "'k \<Rightarrow> string"
  skips :: "'k \<Rightarrow> 'c \<Rightarrow> bool"
  perform :: "'k \<Rightarrow> 'c \<Rightarrow> ('e + unit) \<times> 'k \<times> 'c"
  undo :: "'k \<Rightarrow> 'c \<Rightarrow> ('e + unit) \<times> 'k \<times> 'c"

text \<open>The methods a command does not define: it is named by its display, never skipped, and its
  rollback does nothing.\<close>

definition default_command :: "('k \<Rightarrow> string) \<Rightarrow> ('k \<Rightarrow> 'c \<Rightarrow> ('e + unit) \<times> 'k \<times> 'c) \<Rightarrow> ('k, 'c, 'e) command" where
  "default_command disp run =
     \<lparr>step_name = disp, step_display = disp, skips = (\<lambda>k c. False), perform = run,
      undo = (\<lambda>k c. (Inr (), k, c))\<rparr>"

datatype 'e execution_result =
    Success
  | Failed (failed_at_step: nat) (failed_at_step_name: string) (perform_error: 'e)
      (rollback_errors: "'e list")

fun undo_all :: "('k, 'c, 'e) command \<Rightarrow> 'k list \<Rightarrow> 'c \<Rightarrow> 'e list \<times> 'c" where
  "undo_all ops [] c = ([], c)"
| "undo_all ops (k # ks) c =
     (case undo ops k c of
        (Inl e, _, c') \<Rightarrow> (let (errors, d) = undo_all ops ks c' in (e # errors, d))
      | (Inr _, _, c') \<Rightarrow> undo_all ops ks c')"

definition executor_rollback :: "('k, 'c, 'e) command \<Rightarrow> 'k list \<Rightarrow> 'c \<Rightarrow> 'e list \<times> 'k list \<times> 'c" where
  "executor_rollback ops journal c = (let (errors, c') = undo_all ops (rev journal) c in (errors, [], c'))"

fun executor_run_from :: "('k, 'c, 'e) command \<Rightarrow> nat \<Rightarrow> 'k list \<Rightarrow> 'c \<Rightarrow> 'k list \<Rightarrow>
    'e execution_result \<times> 'k list \<times> 'c" where
  "executor_run_from ops i journal c [] = (Success, journal, c)"
| "executor_run_from ops i journal c (k # ks) =
     (if skips ops k c then executor_run_from ops (Suc i) (journal @ [k]) c ks
      else (case perform ops k c of
          (Inl e, _, c') \<Rightarrow>
            (let (errors, journal', d) = executor_rollback ops journal c'
             in (Failed i (step_name ops k) e errors, journal', d))
        | (Inr _, k', c') \<Rightarrow> executor_run_from ops (Suc i) (journal @ [k']) c' ks))"

definition executor_run :: "('k, 'c, 'e) command \<Rightarrow> 'k list \<Rightarrow> 'c \<Rightarrow> 'k list \<Rightarrow>
    'e execution_result \<times> 'k list \<times> 'c" where
  "executor_run ops journal c ks = executor_run_from ops 0 journal c ks"

section \<open>Running a plan\<close>

definition failure_reason :: "('e \<Rightarrow> string) \<Rightarrow> nat \<Rightarrow> string \<Rightarrow> 'e \<Rightarrow> string" where
  "failure_reason display i name e = ''step '' @ show_nat i @ '' ('' @ name @ ''): '' @ display e"

definition execute_plan :: "('k, 'c, 'e) command \<Rightarrow> ('e \<Rightarrow> string) \<Rightarrow> 'k list \<Rightarrow> (string \<Rightarrow> 'x) \<Rightarrow>
    ('c, 'x, unit) prog" where
  "execute_plan ops display plan on_failed c =
     (case executor_run ops [] c plan of
        (Success, _, c') \<Rightarrow> (Inr (), c')
      | (Failed i name e _, _, c') \<Rightarrow> (Inl (on_failed (failure_reason display i name e)), c'))"

definition run_plan :: "('k, 'c, 'e) command \<Rightarrow> ('e \<Rightarrow> string) \<Rightarrow> 'x + 'k list \<Rightarrow> (string list \<Rightarrow> 'x) \<Rightarrow>
    ('c, 'x, unit) prog" where
  "run_plan ops display plan on_failed c =
     (case plan of
        Inl x \<Rightarrow> (Inl x, c)
      | Inr steps \<Rightarrow> execute_plan ops display steps (\<lambda>reason. on_failed [reason]) c)"

section \<open>History\<close>

record 'a history =
  initial :: 'a
  rest :: "'a list"

datatype history_error = NoCurrentState | CannotRollback

definition history_new :: "'a \<Rightarrow> 'a history" where
  "history_new v = \<lparr>initial = v, rest = []\<rparr>"

definition history_current :: "'a history \<Rightarrow> 'a" where
  "history_current h = (if rest h = [] then initial h else last (rest h))"

definition history_push :: "'a \<Rightarrow> 'a history \<Rightarrow> 'a history" where
  "history_push v h = h\<lparr>rest := rest h @ [v]\<rparr>"

definition history_rollback :: "'a history \<Rightarrow> (history_error + unit) \<times> 'a history" where
  "history_rollback h =
     (if 1 < length (rest h) then (Inr (), h\<lparr>rest := butlast (rest h)\<rparr>) else (Inl CannotRollback, h))"

definition history_is_initial_state :: "'a history \<Rightarrow> bool" where
  "history_is_initial_state h \<longleftrightarrow> rest h = []"

section \<open>What a run does\<close>

text \<open>
  \<open>completes ops c ks ks' c'\<close>: run from \<open>c\<close>, every command of \<open>ks\<close> is skipped or succeeds; the
  commands end up as \<open>ks'\<close> and the context as \<open>c'\<close>.
\<close>

inductive completes :: "('k, 'c, 'e) command \<Rightarrow> 'c \<Rightarrow> 'k list \<Rightarrow> 'k list \<Rightarrow> 'c \<Rightarrow> bool"
  for ops :: "('k, 'c, 'e) command" where
  finished: "completes ops c [] [] c"
| skipped: "skips ops k c \<Longrightarrow> completes ops c ks ks' d \<Longrightarrow> completes ops c (k # ks) (k # ks') d"
| performed: "\<not> skips ops k c \<Longrightarrow> perform ops k c = (Inr (), k', c') \<Longrightarrow>
    completes ops c' ks ks' d \<Longrightarrow> completes ops c (k # ks) (k' # ks') d"

inductive_cases completes_NilE: "completes ops c [] ks' d"
inductive_cases completes_ConsE: "completes ops c (k # ks) ks' d"
inductive_simps completes_Nil_iff [simp]: "completes ops c [] ks' d"
inductive_simps completes_Cons_iff: "completes ops c (k # ks) ks' d"

lemma completes_length: "completes ops c ks ks' d \<Longrightarrow> length ks' = length ks"
  by (induction rule: completes.induct) simp_all

lemma completes_run_from:
  "completes ops c pre pre' d \<Longrightarrow>
     executor_run_from ops i journal c (pre @ post) =
     executor_run_from ops (i + length pre) (journal @ pre') d post"
  by (induction arbitrary: i journal rule: completes.induct) simp_all

text \<open>A step that stops the run: it is not skipped and its \<open>run\<close> returns an error.\<close>

definition step_fails :: "('k, 'c, 'e) command \<Rightarrow> 'c \<Rightarrow> 'k \<Rightarrow> 'e \<Rightarrow> 'c \<Rightarrow> bool" where
  "step_fails ops c k e c' \<longleftrightarrow> \<not> skips ops k c \<and> (\<exists>k'. perform ops k c = (Inl e, k', c'))"

lemma run_cases:
  obtains (success) ks' d where "completes ops c ks ks' d"
  | (failure) pre k post pre' d e d' where
      "ks = pre @ k # post" "completes ops c pre pre' d" "step_fails ops d k e d'"
proof (induction ks arbitrary: c thesis)
  case Nil
  show ?case by (rule Nil(1)) (rule completes.finished)
next
  case (Cons k ks)
  have extend: thesis
    if step: "\<And>js js' d. completes ops c2 js js' d \<Longrightarrow> completes ops c (k # js) (k2 # js') d" for c2 k2
  proof (rule Cons.IH [of c2])
    fix ks' d
    assume "completes ops c2 ks ks' d"
    then have "completes ops c (k # ks) (k2 # ks') d" by (rule step)
    then show thesis by (rule Cons.prems(1))
  next
    fix pre k' post pre' d e d'
    assume "ks = pre @ k' # post" "completes ops c2 pre pre' d" "step_fails ops d k' e d'"
    then show thesis
      by (intro Cons.prems(2) [of "k # pre" k' post "k2 # pre'" d e d'] step) simp_all
  qed
  obtain r k2 c2 where run: "perform ops k c = (r, k2, c2)" by (cases "perform ops k c") auto
  show ?case
  proof (cases "skips ops k c")
    case True
    then show ?thesis by (intro extend [of c k] completes.skipped)
  next
    case False
    show ?thesis
    proof (cases r)
      case (Inl e)
      with False run have "step_fails ops c k e c2" by (simp add: step_fails_def)
      then show ?thesis by (intro Cons.prems(2) [of "[]" k ks "[]" c]) simp_all
    next
      case (Inr u)
      with False run show ?thesis by (intro extend [of c2 k2] completes.performed) simp_all
    qed
  qed
qed

lemma run_failure:
  assumes "completes ops c pre pre' d" and "step_fails ops d k e d'"
  shows "executor_run ops journal c (pre @ k # post) =
    (let (errors, c') = undo_all ops (rev (journal @ pre')) d'
     in (Failed (length pre) (step_name ops k) e errors, [], c'))"
proof -
  from assms(2) obtain k' where "\<not> skips ops k d" "perform ops k d = (Inl e, k', d')"
    by (auto simp: step_fails_def)
  with assms(1) show ?thesis
    by (simp add: executor_run_def completes_run_from executor_rollback_def split: prod.split)
qed

lemma run_success:
  "completes ops c ks ks' d \<Longrightarrow> executor_run ops journal c ks = (Success, journal @ ks', d)"
  using completes_run_from [of ops c ks ks' d 0 journal "[]"] by (simp add: executor_run_def)

lemma run_not_Success:
  assumes "completes ops c pre pre' d" and "step_fails ops d k e d'"
  shows "fst (executor_run ops journal c (pre @ k # post)) \<noteq> Success"
  by (simp add: run_failure [OF assms] split: prod.split)

lemma run_Success_iff:
  "executor_run ops journal c ks = (Success, j, d) \<longleftrightarrow>
     (\<exists>ks'. completes ops c ks ks' d \<and> j = journal @ ks')"
proof (cases rule: run_cases [of ops c ks])
  case (success ks' d')
  then have run: "executor_run ops journal c ks = (Success, journal @ ks', d')" by (rule run_success)
  show ?thesis
  proof
    assume "executor_run ops journal c ks = (Success, j, d)"
    with run success show "\<exists>ks'. completes ops c ks ks' d \<and> j = journal @ ks'" by auto
  qed (auto dest: run_success)
next
  case (failure pre k post pre' d1 e d2)
  then have "fst (executor_run ops journal c ks) \<noteq> Success" by (simp add: run_not_Success)
  then show ?thesis by (auto dest: run_success)
qed

lemma undo_all_append:
  "undo_all ops (xs @ ys) c =
     (let (e1, c1) = undo_all ops xs c; (e2, c2) = undo_all ops ys c1 in (e1 @ e2, c2))"
  by (induction xs arbitrary: c) (auto split: prod.split sum.split)

section \<open>The contract of compensating commands\<close>

text \<open>
  The executor undoes the steps that succeeded, never the one that failed.  A family of commands is
  \<open>compensating\<close> for a relation \<open>restored\<close> ("the second context is as good as the first") when
  undoing a command that succeeded, from any context as good as the one it left, succeeds and leads
  to a context as good as the one the command started from.  \<open>admissible\<close> is what a command may
  rely on when it starts.
\<close>

locale compensating =
  fixes ops :: "('k, 'c, 'e) command"
    and restored :: "'c \<Rightarrow> 'c \<Rightarrow> bool"
    and admissible :: "'k \<Rightarrow> 'c \<Rightarrow> bool"
  assumes restored_refl: "restored c c"
    and undo_performed: "admissible k c \<Longrightarrow> \<not> skips ops k c \<Longrightarrow> perform ops k c = (Inr (), k', c') \<Longrightarrow>
      restored c' d \<Longrightarrow> \<exists>k'' d'. undo ops k' d = (Inr (), k'', d') \<and> restored c d'"
    and undo_skipped: "admissible k c \<Longrightarrow> skips ops k c \<Longrightarrow> restored c d \<Longrightarrow>
      \<exists>k'' d'. undo ops k d = (Inr (), k'', d') \<and> restored c d'"
begin

text \<open>Every step of a completed run started in a context it may rely on.\<close>

inductive admissible_run :: "'c \<Rightarrow> 'k list \<Rightarrow> bool" where
  nil: "admissible_run c []"
| skip: "admissible k c \<Longrightarrow> skips ops k c \<Longrightarrow> admissible_run c ks \<Longrightarrow> admissible_run c (k # ks)"
| step: "admissible k c \<Longrightarrow> \<not> skips ops k c \<Longrightarrow> perform ops k c = (Inr (), k', c') \<Longrightarrow>
    admissible_run c' ks \<Longrightarrow> admissible_run c (k # ks)"
| stop: "admissible k c \<Longrightarrow> \<not> skips ops k c \<Longrightarrow> perform ops k c = (Inl e, k', c') \<Longrightarrow>
    admissible_run c (k # ks)"

inductive_cases admissible_run_ConsE: "admissible_run c (k # ks)"

lemma admissible_reached:
  "completes ops c pre pre' d \<Longrightarrow> admissible_run c (pre @ k # post) \<Longrightarrow> admissible k d"
  by (induction rule: completes.induct) (auto elim: admissible_run_ConsE)

lemma undo_completed:
  assumes "completes ops c ks ks' c'" and "admissible_run c (ks @ post)" and "restored c' d"
  shows "\<exists>d'. undo_all ops (rev ks') d = ([], d') \<and> restored c d'"
  using assms
proof (induction arbitrary: d rule: completes.induct)
  case (finished c)
  then show ?case by simp
next
  case (skipped k c ks ks' c')
  have adm: "admissible k c" "admissible_run c (ks @ post)"
    using skipped.prems(1) skipped.hyps(1) by (auto elim: admissible_run_ConsE)
  obtain d1 where d1: "undo_all ops (rev ks') d = ([], d1)" "restored c d1"
    using skipped.IH [OF adm(2) skipped.prems(2)] by blast
  obtain k'' d2 where "undo ops k d1 = (Inr (), k'', d2)" "restored c d2"
    using undo_skipped [OF adm(1) skipped.hyps(1) d1(2)] by blast
  with d1 show ?case by (simp add: undo_all_append)
next
  case (performed k c k' c1 ks ks' c')
  have adm: "admissible k c" "admissible_run c1 (ks @ post)"
    using performed.prems(1) performed.hyps(1,2) by (auto elim: admissible_run_ConsE)
  obtain d1 where d1: "undo_all ops (rev ks') d = ([], d1)" "restored c1 d1"
    using performed.IH [OF adm(2) performed.prems(2)] by blast
  obtain k'' d2 where "undo ops k' d1 = (Inr (), k'', d2)" "restored c d2"
    using undo_performed [OF adm(1) performed.hyps(1,2) d1(2)] by blast
  with d1 show ?case by (simp add: undo_all_append)
qed

text \<open>A failed run: nothing goes wrong while rolling back, and what the caller gets back is as good
  as what it started from, provided the step that failed left no trace of its own.\<close>

lemma failed_run_restores:
  assumes "executor_run ops [] c ks = (Failed i n e errors, j, c')"
    and "admissible_run c ks"
    and "\<And>k d d'. admissible k d \<Longrightarrow> step_fails ops d k e d' \<Longrightarrow> restored d d'"
  shows "errors = [] \<and> j = [] \<and> restored c c'"
proof (cases rule: run_cases [of ops c ks])
  case (success ks' d)
  then show ?thesis using assms(1) by (simp add: run_success)
next
  case (failure pre k post pre' d f d')
  have run: "executor_run ops [] c ks =
      (let (errors, c') = undo_all ops (rev pre') d'
       in (Failed (length pre) (step_name ops k) f errors, [], c'))"
    unfolding failure(1) using run_failure [OF failure(2,3), of "[]" post] by simp
  then have "f = e" using assms(1) by (simp split: prod.splits)
  moreover have "admissible k d" using admissible_reached [OF failure(2)] assms(2) failure(1) by blast
  ultimately have "restored d d'" using assms(3) failure(3) by blast
  then obtain c2 where "undo_all ops (rev pre') d' = ([], c2)" "restored c c2"
    using undo_completed [OF failure(2)] assms(2) failure(1) by blast
  with run assms(1) show ?thesis by simp
qed

end

section \<open>What a run guarantees\<close>


text \<open>
  Running a plan reports success exactly when planning succeeded and every step was skipped or
  succeeded, and then the context is what the steps left, one after the other.
\<close>

theorem plan_succeeds:
  "run_plan ops display plan on_failed c = (Inr (), c') \<longleftrightarrow>
     (\<exists>steps steps'. plan = Inr steps \<and> completes ops c steps steps' c')"
proof (cases plan)
  case (Inr steps)
  have "execute_plan ops display steps f c = (Inr (), c') \<longleftrightarrow>
      (\<exists>j. executor_run ops [] c steps = (Success, j, c'))" for f :: "string \<Rightarrow> 'x"
    by (auto simp: execute_plan_def split: prod.split execution_result.split)
  with Inr show ?thesis by (simp add: run_plan_def run_Success_iff)
qed (simp add: run_plan_def)

text \<open>
  Rolling back undoes the last push except on a history with a single pushed state: there the
  state that was pushed cannot be taken back, although it is not the initial one.
\<close>

theorem history_rollback_undoes_push:
  "history_rollback (history_push v h) =
     (if history_is_initial_state h then (Inl CannotRollback, history_push v h) else (Inr (), h))"
  by (cases h) (simp add: history_rollback_def history_push_def history_is_initial_state_def length_0_conv
      del: length_0_conv)

end
