(* ===== verification/FileSystem.thy ===== *)
theory FileSystem
  imports Text "HOL-Library.AList"
begin

text \<open>
  The crate \<open>file_system\<close> (file_system/src/lib.rs): the Unix implementations of its traits
  \<open>FileWriter\<close>, \<open>FileReader\<close>, \<open>FileDeleter\<close>, \<open>FolderDeleter\<close>, \<open>FileRenamer\<close>, \<open>FileCopier\<close>,
  \<open>Folder\<close>, \<open>Permissions\<close>, \<open>Inspect\<close> and \<open>FileRotator\<close>, over a model of the part of \<open>std::fs\<close>
  they call.  A path is the list of its components below the root, a file's contents are its bytes.
  The tree is an association list from paths to nodes; a list of outcomes says what happens to the
  next system calls, so that every error path can be taken: a call can be refused with an error
  kind, and a write can stop after a few bytes.  When the list is used up no call is disturbed.
  There are no symbolic links in the tree.
\<close>

type_synonym path = "string list"

section \<open>Errors\<close>

datatype io_kind = NotFound | AlreadyExists | CrossesDevices | InvalidData | OtherKind

datatype fs_error =
    ParentNotFoundError path
  | IoError io_kind
  | IoErrorAtPath path io_kind
  | NotFoundError path
  | GroupNotFoundError string
  | UserNotFoundError string
  | InvalidFileNameError string
  | ExpectedFileError
  | SystemError string
  | NonUtfString string
  | NotChild path path
  | ExpectedNormalizedPath path
  | InvalidPath path

definition is_not_found :: "fs_error \<Rightarrow> bool" where
  "is_not_found e =
     (case e of
        NotFoundError _ \<Rightarrow> True
      | IoError k \<Rightarrow> k = NotFound
      | IoErrorAtPath _ k \<Rightarrow> k = NotFound
      | _ \<Rightarrow> False)"

definition is_cross_device :: "fs_error \<Rightarrow> bool" where
  "is_cross_device e =
     (case e of
        IoError k \<Rightarrow> k = CrossesDevices
      | IoErrorAtPath _ k \<Rightarrow> k = CrossesDevices
      | _ \<Rightarrow> False)"

section \<open>The tree and the system calls\<close>

record meta =
  user :: string
  group :: string
  mode :: "32 word"

datatype node = File meta string | Dir meta

fun node_meta :: "node \<Rightarrow> meta" where
  "node_meta (File m _) = m"
| "node_meta (Dir m) = m"

fun set_meta :: "meta \<Rightarrow> node \<Rightarrow> node" where
  "set_meta m (File _ b) = File m b"
| "set_meta m (Dir _) = Dir m"

datatype outcome = Proceed | Refuse io_kind | Torn nat

record fs =
  nodes :: "(path \<times> node) list"
  outcomes :: "outcome list"
  creator :: meta
  known_users :: "string list"
  known_groups :: "string list"

definition node_at :: "fs \<Rightarrow> path \<Rightarrow> node option" where
  "node_at s p = map_of (nodes s) p"

definition put_node :: "path \<Rightarrow> node \<Rightarrow> fs \<Rightarrow> fs" where
  "put_node p n s = s\<lparr>nodes := (p, n) # filter (\<lambda>(q, _). q \<noteq> p) (nodes s)\<rparr>"

definition drop_nodes :: "(path \<Rightarrow> bool) \<Rightarrow> fs \<Rightarrow> fs" where
  "drop_nodes P s = s\<lparr>nodes := filter (\<lambda>(q, _). \<not> P q) (nodes s)\<rparr>"

definition move_subtree :: "path \<Rightarrow> path \<Rightarrow> fs \<Rightarrow> fs" where
  "move_subtree from to s =
     s\<lparr>nodes := map (\<lambda>(q, n). if take (length from) q = from then (to @ drop (length from) q, n) else (q, n))
        (filter (\<lambda>(q, _). take (length to) q \<noteq> to) (nodes s))\<rparr>"

definition is_dir :: "fs \<Rightarrow> path \<Rightarrow> bool" where
  "is_dir s p = (case node_at s p of Some (Dir _) \<Rightarrow> True | _ \<Rightarrow> False)"

definition is_file :: "fs \<Rightarrow> path \<Rightarrow> bool" where
  "is_file s p = (case node_at s p of Some (File _ _) \<Rightarrow> True | _ \<Rightarrow> False)"

definition exists_path :: "fs \<Rightarrow> path \<Rightarrow> bool" where
  "exists_path s p = (node_at s p \<noteq> None)"

text \<open>What happens to the next call.\<close>

definition next_outcome :: "fs \<Rightarrow> outcome \<times> fs" where
  "next_outcome s =
     (case outcomes s of [] \<Rightarrow> (Proceed, s) | x # xs \<Rightarrow> (x, s\<lparr>outcomes := xs\<rparr>))"

definition call :: "(fs, io_kind, 'a) prog \<Rightarrow> (fs, io_kind, 'a) prog" where
  "call m s =
     (case next_outcome s of
        (Proceed, s') \<Rightarrow> m s'
      | (Refuse k, s') \<Rightarrow> (Inl k, s')
      | (Torn _, s') \<Rightarrow> (Inl OtherKind, s'))"

text \<open>A file can be created at \<open>p\<close> when \<open>p\<close> is no directory and its parent is one.\<close>

definition creatable :: "fs \<Rightarrow> path \<Rightarrow> io_kind option" where
  "creatable s p =
     (if is_dir s p then Some OtherKind
      else if is_dir s (butlast p) then None
      else if exists_path s (butlast p) then Some OtherKind
      else Some NotFound)"

definition meta_for :: "fs \<Rightarrow> path \<Rightarrow> meta" where
  "meta_for s p = (case node_at s p of Some n \<Rightarrow> node_meta n | None \<Rightarrow> creator s)"

text \<open>\<open>File::create\<close> followed by \<open>write_all\<close>; a torn write leaves a prefix behind.\<close>

definition std_write :: "path \<Rightarrow> string \<Rightarrow> (fs, io_kind, unit) prog" where
  "std_write p bytes s =
     (case next_outcome s of
        (Refuse k, s') \<Rightarrow> (Inl k, s')
      | (outcome, s') \<Rightarrow>
          (case creatable s' p of
             Some k \<Rightarrow> (Inl k, s')
           | None \<Rightarrow>
               (case outcome of
                  Torn n \<Rightarrow> (Inl OtherKind, put_node p (File (meta_for s' p) (take n bytes)) s')
                | _ \<Rightarrow> (Inr (), put_node p (File (meta_for s' p) bytes) s'))))"

text \<open>\<open>OpenOptions::create_new\<close> followed by \<open>write_all\<close>.\<close>

definition std_write_new :: "path \<Rightarrow> string \<Rightarrow> (fs, io_kind, unit) prog" where
  "std_write_new p bytes s =
     (if exists_path s p then (Inl AlreadyExists, s) else std_write p bytes s)"

text \<open>\<open>std::fs::copy\<close> gives the copy the mode of the original; the target is truncated before the
  first byte is read, which matters when a file is copied onto itself.\<close>

definition std_copy :: "path \<Rightarrow> path \<Rightarrow> (fs, io_kind, unit) prog" where
  "std_copy from to s =
     (case next_outcome s of
        (Refuse k, s') \<Rightarrow> (Inl k, s')
      | (outcome, s') \<Rightarrow>
          (case node_at s' from of
             None \<Rightarrow> (Inl NotFound, s')
           | Some (Dir _) \<Rightarrow> (Inl OtherKind, s')
           | Some (File m b) \<Rightarrow>
               (case creatable s' to of
                  Some k \<Rightarrow> (Inl k, s')
                | None \<Rightarrow>
                    (let bytes = (if from = to then [] else b);
                         m' = (meta_for s' to)\<lparr>mode := mode m\<rparr>
                     in (case outcome of
                           Torn n \<Rightarrow> (Inl OtherKind, put_node to (File m' (take n bytes)) s')
                         | _ \<Rightarrow> (Inr (), put_node to (File m' bytes) s'))))))"

definition std_read :: "path \<Rightarrow> (fs, io_kind, string) prog" where
  "std_read p = call (\<lambda>s.
     (case node_at s p of
        None \<Rightarrow> (Inl NotFound, s)
      | Some (Dir _) \<Rightarrow> (Inl OtherKind, s)
      | Some (File _ b) \<Rightarrow> (Inr b, s)))"

definition std_remove_file :: "path \<Rightarrow> (fs, io_kind, unit) prog" where
  "std_remove_file p = call (\<lambda>s.
     (case node_at s p of
        None \<Rightarrow> (Inl NotFound, s)
      | Some (Dir _) \<Rightarrow> (Inl OtherKind, s)
      | Some (File _ _) \<Rightarrow> (Inr (), drop_nodes (\<lambda>q. q = p) s)))"

definition below :: "path \<Rightarrow> path \<Rightarrow> bool" where
  "below p q \<longleftrightarrow> take (length p) q = p"

definition std_remove_dir_all :: "path \<Rightarrow> (fs, io_kind, unit) prog" where
  "std_remove_dir_all p = call (\<lambda>s.
     (case node_at s p of
        None \<Rightarrow> (Inl NotFound, s)
      | Some (File _ _) \<Rightarrow> (Inl OtherKind, s)
      | Some (Dir _) \<Rightarrow> if p = [] then (Inl OtherKind, s) else (Inr (), drop_nodes (below p) s)))"

definition ancestors :: "path \<Rightarrow> path list" where
  "ancestors p = map (\<lambda>n. take n p) [0..<Suc (length p)]"

definition add_dir :: "path \<Rightarrow> fs \<Rightarrow> fs" where
  "add_dir p s = (if exists_path s p then s else put_node p (Dir (creator s)) s)"

definition std_create_dir_all :: "path \<Rightarrow> (fs, io_kind, unit) prog" where
  "std_create_dir_all p = call (\<lambda>s.
     if list_ex (is_file s) (ancestors p) then (Inl OtherKind, s)
     else (Inr (), fold add_dir (ancestors p) s))"

definition rename_body :: "path \<Rightarrow> path \<Rightarrow> (fs, io_kind, unit) prog" where
  "rename_body from to s =
     (case node_at s from of
        None \<Rightarrow> (Inl NotFound, s)
      | Some (File m b) \<Rightarrow>
          (case creatable s to of
             Some k \<Rightarrow> (Inl k, s)
           | None \<Rightarrow>
               if from = to then (Inr (), s)
               else (Inr (), put_node to (File m b) (drop_nodes (\<lambda>q. q = from) s)))
      | Some (Dir _) \<Rightarrow>
          if from = [] \<or> is_file s to \<or> \<not> is_dir s (butlast to) \<or>
             (below from to \<and> from \<noteq> to) \<or>
             (from \<noteq> to \<and> list_ex (\<lambda>(q, _). below to q \<and> q \<noteq> to) (nodes s))
          then (Inl (if exists_path s (butlast to) then OtherKind else NotFound), s)
          else if from = to then (Inr (), s)
          else (Inr (), move_subtree from to s))"

definition std_rename :: "path \<Rightarrow> path \<Rightarrow> (fs, io_kind, unit) prog" where
  "std_rename from to = call (rename_body from to)"

definition children :: "fs \<Rightarrow> path \<Rightarrow> (string \<times> node) list" where
  "children s p =
     map (\<lambda>(q, n). (last q, n))
       (filter (\<lambda>(q, n). q \<noteq> [] \<and> butlast q = p) (AList.clearjunk (nodes s)))"

definition std_read_dir :: "path \<Rightarrow> (fs, io_kind, (string \<times> node) list) prog" where
  "std_read_dir p = call (\<lambda>s.
     (case node_at s p of
        None \<Rightarrow> (Inl NotFound, s)
      | Some (File _ _) \<Rightarrow> (Inl OtherKind, s)
      | Some (Dir _) \<Rightarrow> (Inr (children s p), s)))"

definition std_metadata :: "path \<Rightarrow> (fs, io_kind, node) prog" where
  "std_metadata p = call (\<lambda>s.
     (case node_at s p of None \<Rightarrow> (Inl NotFound, s) | Some n \<Rightarrow> (Inr n, s)))"

definition std_set_meta :: "(meta \<Rightarrow> meta) \<Rightarrow> path \<Rightarrow> (fs, io_kind, unit) prog" where
  "std_set_meta f p = call (\<lambda>s.
     (case node_at s p of
        None \<Rightarrow> (Inl NotFound, s)
      | Some n \<Rightarrow> (Inr (), put_node p (set_meta (f (node_meta n)) n) s)))"

subsection \<open>UTF-8\<close>

definition between :: "nat \<Rightarrow> nat \<Rightarrow> nat \<Rightarrow> bool" where
  "between lo hi n \<longleftrightarrow> lo \<le> n \<and> n \<le> hi"

text \<open>What may follow a lead byte: the ranges of its continuation bytes.\<close>

definition utf8_tail :: "nat \<Rightarrow> (nat \<times> nat) list option" where
  "utf8_tail b =
     (if b < 128 then Some []
      else if between 194 223 b then Some [(128, 191)]
      else if b = 224 then Some [(160, 191), (128, 191)]
      else if b = 237 then Some [(128, 159), (128, 191)]
      else if between 225 239 b then Some [(128, 191), (128, 191)]
      else if b = 240 then Some [(144, 191), (128, 191), (128, 191)]
      else if between 241 243 b then Some [(128, 191), (128, 191), (128, 191)]
      else if b = 244 then Some [(128, 143), (128, 191), (128, 191)]
      else None)"

fun utf8_from :: "(nat \<times> nat) list \<Rightarrow> string \<Rightarrow> bool" where
  "utf8_from pending [] = (pending = [])"
| "utf8_from (r # pending) (c # cs) = (between (fst r) (snd r) (of_char c) \<and> utf8_from pending cs)"
| "utf8_from [] (c # cs) =
     (case utf8_tail (of_char c) of None \<Rightarrow> False | Some pending \<Rightarrow> utf8_from pending cs)"

definition is_utf8 :: "string \<Rightarrow> bool" where
  "is_utf8 s = utf8_from [] s"

definition ascii :: "string \<Rightarrow> bool" where
  "ascii s \<longleftrightarrow> list_all (\<lambda>c. (of_char c :: nat) < 128) s"

lemma ascii_utf8: "ascii s \<Longrightarrow> is_utf8 s"
  unfolding is_utf8_def ascii_def by (induction s) (simp_all add: utf8_tail_def)

section \<open>Facts about the tree\<close>

lemma node_at_put [simp]: "node_at (put_node p n s) q = (if q = p then Some n else node_at s q)"
proof -
  have "map_of (filter (\<lambda>(r, _). r \<noteq> p) ns) q = (if q = p then None else map_of ns q)" for ns :: "(path \<times> node) list"
    by (induction ns) auto
  then show ?thesis by (simp add: node_at_def put_node_def)
qed

lemma node_at_drop [simp]: "node_at (drop_nodes P s) q = (if P q then None else node_at s q)"
proof -
  have "map_of (filter (\<lambda>(r, _). \<not> P r) ns) q = (if P q then None else map_of ns q)" for ns :: "(path \<times> node) list"
    by (induction ns) auto
  then show ?thesis by (simp add: node_at_def drop_nodes_def)
qed

lemma children_iff: "(name, n) \<in> set (children s p) \<longleftrightarrow> node_at s (p @ [name]) = Some n"
proof -
  have "(q, n) \<in> set (AList.clearjunk (nodes s)) \<longleftrightarrow> node_at s q = Some n" for q
    by (metis distinct_clearjunk map_of_clearjunk map_of_eq_Some_iff node_at_def)
  moreover have "q \<noteq> [] \<and> butlast q = p \<and> last q = name \<longleftrightarrow> q = p @ [name]" for q
    by (auto simp: snoc_eq_iff_butlast)
  ultimately show ?thesis
    unfolding children_def by (force simp: image_iff)
qed

lemma children_distinct: "distinct (map fst (children s p))"
proof -
  have "inj_on last {q :: path. q \<noteq> [] \<and> butlast q = p}"
    by (auto simp: inj_on_def) (metis append_butlast_last_id)
  moreover have "distinct (map fst (filter (\<lambda>(q, n). q \<noteq> [] \<and> butlast q = p) (AList.clearjunk (nodes s))))"
    (is "distinct (map fst ?xs)")
    by (simp add: distinct_map_filter distinct_clearjunk)
  ultimately have "distinct (map last (map fst ?xs))"
    by (subst distinct_map) (auto elim!: inj_on_subset)
  moreover have "map fst (children s p) = map last (map fst ?xs)"
    by (simp add: children_def case_prod_beta)
  ultimately show ?thesis by (simp only:)
qed

lemma outcomes_put [simp]: "outcomes (put_node p n s) = outcomes s"
  and outcomes_drop [simp]: "outcomes (drop_nodes P s) = outcomes s"
  and outcomes_move [simp]: "outcomes (move_subtree p q s) = outcomes s"
  by (simp_all add: put_node_def drop_nodes_def move_subtree_def)

text \<open>\<open>same_tree\<close>: nothing but the list of outcomes changed.\<close>

definition same_tree :: "fs \<Rightarrow> fs \<Rightarrow> bool" where
  "same_tree s t \<longleftrightarrow> nodes t = nodes s \<and> creator t = creator s \<and> known_users t = known_users s \<and>
     known_groups t = known_groups s"

lemma same_tree_refl [simp]: "same_tree s s"
  by (simp add: same_tree_def)

lemma same_tree_trans: "same_tree s t \<Longrightarrow> same_tree t u \<Longrightarrow> same_tree s u"
  by (simp add: same_tree_def)

lemma same_tree_node_at: "same_tree s t \<Longrightarrow> node_at t = node_at s"
  by (simp add: same_tree_def node_at_def fun_eq_iff)

lemma same_tree_queries:
  assumes "same_tree s t"
  shows "is_dir t = is_dir s" "is_file t = is_file s" "exists_path t = exists_path s"
    "creatable t = creatable s" "meta_for t = meta_for s"
proof -
  have eq: "node_at t = node_at s" by (rule same_tree_node_at [OF assms])
  have "creator t = creator s" using assms by (simp add: same_tree_def)
  with eq show "is_dir t = is_dir s" "is_file t = is_file s" "exists_path t = exists_path s"
    "creatable t = creatable s" "meta_for t = meta_for s"
    by (simp_all add: fun_eq_iff is_dir_def is_file_def exists_path_def creatable_def meta_for_def
        split: option.split)
qed

lemma next_outcome_same: "next_outcome s = (x, t) \<Longrightarrow> same_tree s t"
  by (auto simp: next_outcome_def same_tree_def split: list.splits)

text \<open>\<open>calm\<close>: no call will be disturbed.\<close>

definition calm :: "fs \<Rightarrow> bool" where
  "calm s \<longleftrightarrow> outcomes s = []"

lemma calm_next [simp]: "calm s \<Longrightarrow> next_outcome s = (Proceed, s)"
  by (simp add: calm_def next_outcome_def)

lemma calm_call [simp]: "calm s \<Longrightarrow> call m s = m s"
  by (simp add: call_def)

lemma calm_put [simp]: "calm (put_node p n s) = calm s"
  and calm_drop [simp]: "calm (drop_nodes P s) = calm s"
  by (simp_all add: calm_def)

lemma call_cases:
  assumes "call m s = (r, t)"
  obtains (ran) s' where "same_tree s s'" "m s' = (r, t)"
  | (disturbed) k where "r = Inl k" "same_tree s t"
proof -
  obtain x s' where n: "next_outcome s = (x, s')" by (cases "next_outcome s") auto
  note same = next_outcome_same [OF n]
  from assms n same ran disturbed show thesis by (cases x) (auto simp: call_def)
qed

section \<open>Well-formed trees\<close>

text \<open>The root is a directory, and whatever exists lies in a directory.\<close>

definition wf_fs :: "fs \<Rightarrow> bool" where
  "wf_fs s \<longleftrightarrow> is_dir s [] \<and> (\<forall>p. exists_path s p \<longrightarrow> p \<noteq> [] \<longrightarrow> is_dir s (butlast p))"

lemma wf_same_tree: "same_tree s t \<Longrightarrow> wf_fs t = wf_fs s"
  by (simp add: wf_fs_def same_tree_queries)

lemma is_dir_put [simp]:
  "is_dir (put_node p n s) q = (if q = p then (\<exists>m. n = Dir m) else is_dir s q)"
  by (auto simp: is_dir_def split: node.split)

lemma is_file_put [simp]:
  "is_file (put_node p n s) q = (if q = p then (\<exists>m b. n = File m b) else is_file s q)"
  by (auto simp: is_file_def split: node.split)

lemma exists_put [simp]: "exists_path (put_node p n s) q = (q = p \<or> exists_path s q)"
  by (simp add: exists_path_def)

lemma is_dir_drop [simp]: "is_dir (drop_nodes P s) q = (\<not> P q \<and> is_dir s q)"
  and is_file_drop [simp]: "is_file (drop_nodes P s) q = (\<not> P q \<and> is_file s q)"
  and exists_drop [simp]: "exists_path (drop_nodes P s) q = (\<not> P q \<and> exists_path s q)"
  by (simp_all add: is_dir_def is_file_def exists_path_def)

lemma exists_iff: "exists_path s p \<longleftrightarrow> is_dir s p \<or> is_file s p"
  by (auto simp: exists_path_def is_dir_def is_file_def split: option.split node.split)

lemma not_dir_and_file: "is_dir s p \<Longrightarrow> is_file s p \<Longrightarrow> False"
  by (auto simp: is_dir_def is_file_def split: option.splits node.splits)

lemma wf_root: "wf_fs s \<Longrightarrow> is_dir s []"
  and wf_parent: "wf_fs s \<Longrightarrow> exists_path s p \<Longrightarrow> p \<noteq> [] \<Longrightarrow> is_dir s (butlast p)"
  by (simp_all add: wf_fs_def)

lemma wf_put:
  assumes "wf_fs s" and "is_dir s (butlast p)" and "is_dir s p \<longrightarrow> (\<exists>m. n = Dir m)"
  shows "wf_fs (put_node p n s)"
  unfolding wf_fs_def
proof (intro conjI allI impI)
  show "is_dir (put_node p n s) []"
    using assms wf_root [OF assms(1)] by auto
next
  fix q assume "exists_path (put_node p n s) q" "q \<noteq> []"
  then show "is_dir (put_node p n s) (butlast q)"
    using assms wf_parent [OF assms(1), of q] by auto
qed

lemma wf_put_file: "wf_fs s \<Longrightarrow> creatable s p = None \<Longrightarrow> wf_fs (put_node p (File m b) s)"
  by (rule wf_put) (auto simp: creatable_def split: if_splits)

lemma butlast_neq: "p \<noteq> [] \<Longrightarrow> butlast p \<noteq> p"
  by (metis append_butlast_last_id not_Cons_self2 self_append_conv)

lemma wf_drop_file: "wf_fs s \<Longrightarrow> is_file s p \<Longrightarrow> wf_fs (drop_nodes (\<lambda>q. q = p) s)"
  unfolding wf_fs_def by (auto dest: not_dir_and_file)

lemma set_meta_kind:
  "(\<exists>m'. set_meta m n = Dir m') \<longleftrightarrow> (\<exists>m'. n = Dir m')"
  by (cases n) auto

lemma wf_set_meta:
  assumes "wf_fs s" and "node_at s p = Some n"
  shows "wf_fs (put_node p (set_meta m n) s)"
proof (rule wf_put [OF assms(1)])
  show "is_dir s (butlast p)"
    using wf_parent [OF assms(1), of p] wf_root [OF assms(1)] assms(2)
    by (cases "p = []") (auto simp: exists_path_def)
  show "is_dir s p \<longrightarrow> (\<exists>m'. set_meta m n = Dir m')"
    using assms(2) by (auto simp: is_dir_def set_meta_kind split: node.splits)
qed

lemma below_parent: "below p q \<Longrightarrow> q \<noteq> p \<Longrightarrow> below p (butlast q)"
proof -
  assume "below p q" "q \<noteq> p"
  then obtain r where "q = p @ r" "r \<noteq> []" by (metis append_self_conv append_take_drop_id below_def)
  then show ?thesis by (simp add: below_def butlast_append)
qed

lemma wf_drop_subtree:
  assumes "wf_fs s" and "p \<noteq> []"
  shows "wf_fs (drop_nodes (below p) s)"
proof -
  have "below p q" if "below p (butlast q)" for q
    using that by (metis append_butlast_last_id below_def butlast.simps(1) take_append append_take_drop_id append_assoc append_eq_conv_conj)
  then have "\<not> below p (butlast q)" if "\<not> below p q" for q using that by blast
  moreover have "\<not> below p []" using assms(2) by (simp add: below_def)
  ultimately show ?thesis
    using assms(1) by (auto simp: wf_fs_def is_dir_def exists_path_def split: if_splits)
qed

end
