(* ===== verification/RefinedStrings.thy ===== *)
theory RefinedStrings
  imports FileSystem
begin

text \<open>
  The crate \<open>refined_string\<close> (refined_string/src/lib.rs) and the string types that are built from
  it: seedling names, versions and ids of \<open>seedbank_types\<close>, the name types of \<open>docker_types\<close>, and
  the relative paths of \<open>file_system\<close>.  The \<open>regex\<close> crate is a parameter \<open>im\<close> of every parser:
  \<open>im pattern value\<close> is \<open>Regex::new(pattern).is_match(value)\<close>.  What its documentation promises for
  the patterns in the source is the hypothesis \<open>documented_regex im\<close>: an anchored pattern accepts
  the language of the regular expression it denotes.
\<close>

section \<open>Regular expressions\<close>

datatype rx = Nothing | Eps | Cls "char \<Rightarrow> bool" | Seq rx rx | Alt rx rx | Star rx

fun nullable :: "rx \<Rightarrow> bool" where
  "nullable Nothing = False"
| "nullable Eps = True"
| "nullable (Cls P) = False"
| "nullable (Seq a b) = (nullable a \<and> nullable b)"
| "nullable (Alt a b) = (nullable a \<or> nullable b)"
| "nullable (Star a) = True"

fun deriv :: "char \<Rightarrow> rx \<Rightarrow> rx" where
  "deriv c Nothing = Nothing"
| "deriv c Eps = Nothing"
| "deriv c (Cls P) = (if P c then Eps else Nothing)"
| "deriv c (Seq a b) = (if nullable a then Alt (Seq (deriv c a) b) (deriv c b) else Seq (deriv c a) b)"
| "deriv c (Alt a b) = Alt (deriv c a) (deriv c b)"
| "deriv c (Star a) = Seq (deriv c a) (Star a)"

fun accepts :: "rx \<Rightarrow> string \<Rightarrow> bool" where
  "accepts r [] = nullable r"
| "accepts r (c # cs) = accepts (deriv c r) cs"

definition Plus :: "rx \<Rightarrow> rx" where
  "Plus r = Seq r (Star r)"

definition Opt :: "rx \<Rightarrow> rx" where
  "Opt r = Alt Eps r"

fun Times :: "nat \<Rightarrow> rx \<Rightarrow> rx" where
  "Times 0 r = Eps"
| "Times (Suc n) r = Seq r (Times n r)"

fun UpTo :: "nat \<Rightarrow> rx \<Rightarrow> rx" where
  "UpTo 0 r = Eps"
| "UpTo (Suc n) r = Opt (Seq r (UpTo n r))"

lemma accepts_Nothing [simp]: "\<not> accepts Nothing s"
  by (induction s) auto

lemma accepts_Eps [simp]: "accepts Eps s \<longleftrightarrow> s = []"
  by (cases s) auto

lemma accepts_Cls [simp]: "accepts (Cls P) s \<longleftrightarrow> (\<exists>c. s = [c] \<and> P c)"
  by (cases s) auto

lemma accepts_Alt [simp]: "accepts (Alt a b) s \<longleftrightarrow> accepts a s \<or> accepts b s"
  by (induction s arbitrary: a b) auto

lemma accepts_Seq: "accepts (Seq a b) s \<longleftrightarrow> (\<exists>u v. s = u @ v \<and> accepts a u \<and> accepts b v)"
proof (induction s arbitrary: a b)
  case (Cons c s)
  have "(\<exists>u v. c # s = u @ v \<and> accepts a u \<and> accepts b v) \<longleftrightarrow>
      (nullable a \<and> accepts b (c # s)) \<or> (\<exists>u v. s = u @ v \<and> accepts a (c # u) \<and> accepts b v)"
    (is "?l \<longleftrightarrow> ?r")
  proof
    assume ?l
    then obtain u v where uv: "c # s = u @ v" "accepts a u" "accepts b v" by blast
    then show ?r by (cases u) auto
  next
    assume ?r
    then show ?l
    proof
      assume "nullable a \<and> accepts b (c # s)"
      then have "c # s = [] @ (c # s) \<and> accepts a [] \<and> accepts b (c # s)" by simp
      then show ?l by blast
    next
      assume "\<exists>u v. s = u @ v \<and> accepts a (c # u) \<and> accepts b v"
      then obtain u v where "s = u @ v" "accepts a (c # u)" "accepts b v" by blast
      then have "c # s = (c # u) @ v \<and> accepts a (c # u) \<and> accepts b v" by simp
      then show ?l by blast
    qed
  qed
  with Cons show ?case by (simp add: disj_commute)
qed simp

text \<open>The characters that can occur in a match, and those it can begin with.\<close>

fun occurs :: "rx \<Rightarrow> char \<Rightarrow> bool" where
  "occurs Nothing c = False"
| "occurs Eps c = False"
| "occurs (Cls P) c = P c"
| "occurs (Seq a b) c = (occurs a c \<or> occurs b c)"
| "occurs (Alt a b) c = (occurs a c \<or> occurs b c)"
| "occurs (Star a) c = occurs a c"

fun begins :: "rx \<Rightarrow> char \<Rightarrow> bool" where
  "begins Nothing c = False"
| "begins Eps c = False"
| "begins (Cls P) c = P c"
| "begins (Seq a b) c = (begins a c \<or> nullable a \<and> begins b c)"
| "begins (Alt a b) c = (begins a c \<or> begins b c)"
| "begins (Star a) c = begins a c"

lemma occurs_deriv: "occurs (deriv d r) c \<Longrightarrow> occurs r c"
  by (induction r) (auto split: if_splits)

lemma begins_occurs: "begins r c \<Longrightarrow> occurs r c"
  by (induction r) auto

lemma accepts_begins: "accepts r (c # s) \<Longrightarrow> begins r c"
  by (induction r arbitrary: s) (auto simp: accepts_Seq split: if_splits)

lemma accepts_occurs: "accepts r s \<Longrightarrow> c \<in> set s \<Longrightarrow> occurs r c"
proof (induction s arbitrary: r)
  case (Cons d s)
  then show ?case
    using accepts_begins [OF Cons.prems(1)] begins_occurs [of r d] occurs_deriv [of d r c] by auto
qed simp

section \<open>The patterns of the source\<close>

definition char_in :: "char \<Rightarrow> char \<Rightarrow> char \<Rightarrow> bool" where
  "char_in lo hi c \<longleftrightarrow> (of_char lo :: nat) \<le> of_char c \<and> (of_char c :: nat) \<le> of_char hi"

definition is_lower :: "char \<Rightarrow> bool" where
  "is_lower c = char_in CHR ''a'' CHR ''z'' c"

definition is_upper :: "char \<Rightarrow> bool" where
  "is_upper c = char_in CHR ''A'' CHR ''Z'' c"

definition is_digit :: "char \<Rightarrow> bool" where
  "is_digit c = char_in CHR ''0'' CHR ''9'' c"

definition lower_alnum :: "char \<Rightarrow> bool" where
  "lower_alnum c \<longleftrightarrow> is_lower c \<or> is_digit c"

definition alnum :: "char \<Rightarrow> bool" where
  "alnum c \<longleftrightarrow> is_lower c \<or> is_upper c \<or> is_digit c"

definition hex_lower :: "char \<Rightarrow> bool" where
  "hex_lower c \<longleftrightarrow> is_digit c \<or> char_in CHR ''a'' CHR ''f'' c"

definition one_of :: "string \<Rightarrow> char \<Rightarrow> bool" where
  "one_of cs c = list_ex ((=) c) cs"

abbreviation name_pattern :: string where
  "name_pattern \<equiv> ''^[a-z0-9]+(?:[._-][a-z0-9]+)*$''"

abbreviation segment_pattern :: string where
  "segment_pattern \<equiv> ''^[a-zA-Z0-9]+(?:[._-][a-zA-Z0-9]+)*$''"

abbreviation component_pattern :: string where
  "component_pattern \<equiv> ''^[a-z0-9]+(?:(?:'' @ [CHR 0x5C] @ ''.|_{1,2}|-+)[a-z0-9]+)*$''"

abbreviation tag_pattern :: string where
  "tag_pattern \<equiv> ''^[a-zA-Z0-9_][a-zA-Z0-9._-]*$''"

abbreviation docker_name_pattern :: string where
  "docker_name_pattern \<equiv> ''^[a-zA-Z0-9][a-zA-Z0-9_.-]*$''"

abbreviation env_name_pattern :: string where
  "env_name_pattern \<equiv> ''^[A-Za-z_][A-Za-z0-9_]*$''"

abbreviation registry_pattern :: string where
  "registry_pattern \<equiv> ''^[a-zA-Z0-9]([a-zA-Z0-9.-]*[a-zA-Z0-9])?(:[0-9]{1,5})?$''"

abbreviation full_id_pattern :: string where
  "full_id_pattern \<equiv> ''^[0-9a-f]{64}$''"

abbreviation short_id_pattern :: string where
  "short_id_pattern \<equiv> ''^[0-9a-f]{12}$''"

definition dotted :: "(char \<Rightarrow> bool) \<Rightarrow> rx" where
  "dotted P = Seq (Plus (Cls P)) (Star (Seq (Cls (one_of ''._-'')) (Plus (Cls P))))"

definition component_rx :: rx where
  "component_rx = Seq (Plus (Cls lower_alnum))
     (Star (Seq (Alt (Cls (one_of ''.''))
                  (Alt (Seq (Cls (one_of ''_'')) (Opt (Cls (one_of ''_''))))
                       (Plus (Cls (one_of ''-'')))))
                (Plus (Cls lower_alnum))))"

definition tag_rx :: rx where
  "tag_rx = Seq (Cls (\<lambda>c. alnum c \<or> one_of ''_'' c)) (Star (Cls (\<lambda>c. alnum c \<or> one_of ''._-'' c)))"

definition docker_name_rx :: rx where
  "docker_name_rx = Seq (Cls alnum) (Star (Cls (\<lambda>c. alnum c \<or> one_of ''_.-'' c)))"

definition env_name_rx :: rx where
  "env_name_rx = Seq (Cls (\<lambda>c. is_upper c \<or> is_lower c \<or> one_of ''_'' c))
     (Star (Cls (\<lambda>c. alnum c \<or> one_of ''_'' c)))"

definition registry_rx :: rx where
  "registry_rx = Seq (Cls alnum)
     (Seq (Opt (Seq (Star (Cls (\<lambda>c. alnum c \<or> one_of ''.-'' c))) (Cls alnum)))
          (Opt (Seq (Cls (one_of '':'')) (Seq (Cls is_digit) (UpTo 4 (Cls is_digit))))))"

definition pattern_table :: "(string \<times> rx) list" where
  "pattern_table =
     [(name_pattern, dotted lower_alnum), (segment_pattern, dotted alnum),
      (component_pattern, component_rx), (tag_pattern, tag_rx),
      (docker_name_pattern, docker_name_rx), (env_name_pattern, env_name_rx),
      (registry_pattern, registry_rx),
      (full_id_pattern, Times 64 (Cls hex_lower)), (short_id_pattern, Times 12 (Cls hex_lower))]"

type_synonym regex = "string \<Rightarrow> string \<Rightarrow> bool"

definition documented_regex :: "regex \<Rightarrow> bool" where
  "documented_regex im \<longleftrightarrow> (\<forall>(p, r) \<in> set pattern_table. \<forall>s. im p s = accepts r s)"

text \<open>An instance, for evaluating on concrete inputs.\<close>

definition table_regex :: regex where
  "table_regex p s = (case map_of pattern_table p of Some r \<Rightarrow> accepts r s | None \<Rightarrow> False)"

lemma documented_patterns:
  assumes "documented_regex im"
  shows "im name_pattern = accepts (dotted lower_alnum)"
    and "im segment_pattern = accepts (dotted alnum)"
    and "im component_pattern = accepts component_rx"
    and "im tag_pattern = accepts tag_rx"
    and "im docker_name_pattern = accepts docker_name_rx"
    and "im env_name_pattern = accepts env_name_rx"
    and "im registry_pattern = accepts registry_rx"
    and "im full_id_pattern = accepts (Times 64 (Cls hex_lower))"
    and "im short_id_pattern = accepts (Times 12 (Cls hex_lower))"
  using assms by (simp_all add: documented_regex_def pattern_table_def fun_eq_iff)

lemma table_regex_documented: "documented_regex table_regex"
  unfolding documented_regex_def table_regex_def
  by (auto simp: pattern_table_def)

section \<open>Validated strings\<close>

datatype refined_error = CannotBeEmpty | TooLong | InvalidName string

text \<open>\<open>Validated::from_str\<close>: the rules are the pattern and the longest length in bytes; every error
  type of the source has the same three cases, \<open>refined_error\<close>.\<close>

definition validated_from_str :: "regex \<Rightarrow> string \<Rightarrow> nat \<Rightarrow> string \<Rightarrow> refined_error + string" where
  "validated_from_str im pattern max_len s =
     (if s = [] then Inl CannotBeEmpty
      else if max_len < length s then Inl TooLong
      else if im pattern s then Inr s
      else Inl (InvalidName s))"

lemma validated_Inr:
  "validated_from_str im pat n s = Inr t \<longleftrightarrow> t = s \<and> s \<noteq> [] \<and> length s \<le> n \<and> im pat s"
  by (auto simp: validated_from_str_def)

text \<open>The seven instances.\<close>

definition name_from_str :: "regex \<Rightarrow> string \<Rightarrow> refined_error + string" where
  "name_from_str im = validated_from_str im name_pattern 16"

definition component_from_str :: "regex \<Rightarrow> string \<Rightarrow> refined_error + string" where
  "component_from_str im = validated_from_str im component_pattern 255"

definition tag_from_str :: "regex \<Rightarrow> string \<Rightarrow> refined_error + string" where
  "tag_from_str im = validated_from_str im tag_pattern 128"

definition label_key_from_str :: "regex \<Rightarrow> string \<Rightarrow> refined_error + string" where
  "label_key_from_str im = validated_from_str im component_pattern 255"

definition docker_name_from_str :: "regex \<Rightarrow> string \<Rightarrow> refined_error + string" where
  "docker_name_from_str im = validated_from_str im docker_name_pattern 255"

definition env_name_from_str :: "regex \<Rightarrow> string \<Rightarrow> refined_error + string" where
  "env_name_from_str im = validated_from_str im env_name_pattern 255"

definition registry_from_str :: "regex \<Rightarrow> string \<Rightarrow> refined_error + string" where
  "registry_from_str im = validated_from_str im registry_pattern 255"

definition full_id_from_str :: "regex \<Rightarrow> string \<Rightarrow> refined_error + string" where
  "full_id_from_str im = validated_from_str im full_id_pattern 64"

definition short_id_from_str :: "regex \<Rightarrow> string \<Rightarrow> refined_error + string" where
  "short_id_from_str im = validated_from_str im short_id_pattern 12"

lemmas from_str_defs =
  name_from_str_def component_from_str_def tag_from_str_def label_key_from_str_def
  docker_name_from_str_def env_name_from_str_def registry_from_str_def full_id_from_str_def
  short_id_from_str_def

lemma occurs_rx:
  "occurs (dotted P) c \<longleftrightarrow> P c \<or> one_of ''._-'' c"
  "occurs component_rx c \<longleftrightarrow> lower_alnum c \<or> one_of ''._-'' c"
  "occurs tag_rx c \<longleftrightarrow> alnum c \<or> one_of ''._-'' c"
  "occurs docker_name_rx c \<longleftrightarrow> alnum c \<or> one_of ''._-'' c"
  "occurs env_name_rx c \<longleftrightarrow> alnum c \<or> one_of ''_'' c"
  "occurs registry_rx c \<longleftrightarrow> alnum c \<or> one_of ''.-:'' c"
  by (auto simp: dotted_def component_rx_def tag_rx_def docker_name_rx_def env_name_rx_def
      registry_rx_def Plus_def Opt_def one_of_def alnum_def numeral_eq_Suc)

lemma begins_rx:
  "begins (dotted P) c \<longleftrightarrow> P c"
  "begins component_rx c \<longleftrightarrow> lower_alnum c"
  "begins tag_rx c \<longleftrightarrow> alnum c \<or> c = CHR ''_''"
  "begins docker_name_rx c \<longleftrightarrow> alnum c"
  "begins env_name_rx c \<longleftrightarrow> is_upper c \<or> is_lower c \<or> c = CHR ''_''"
  "begins registry_rx c \<longleftrightarrow> alnum c"
  by (auto simp: dotted_def component_rx_def tag_rx_def docker_name_rx_def env_name_rx_def
      registry_rx_def Plus_def Opt_def one_of_def)

lemma lower_alnum_alnum: "lower_alnum c \<Longrightarrow> alnum c"
  by (auto simp: lower_alnum_def alnum_def)

text \<open>Characters in words: ASCII, no space, and none of the separators of paths and references.\<close>

lemma alnum_range: "alnum c \<Longrightarrow> c \<noteq> d" if "\<not> (48 \<le> (of_char d :: nat) \<and> of_char d \<le> (57 :: nat))"
  "\<not> (65 \<le> (of_char d :: nat) \<and> of_char d \<le> (90 :: nat))"
  "\<not> (97 \<le> (of_char d :: nat) \<and> of_char d \<le> (122 :: nat))"
  using that by (auto simp: alnum_def is_lower_def is_upper_def is_digit_def char_in_def)

lemma alnum_plain: "alnum c \<Longrightarrow> plain_char c"
  by (auto simp: alnum_def is_lower_def is_upper_def is_digit_def char_in_def plain_char_def)

lemma alnum_separators:
  "alnum c \<Longrightarrow> c \<noteq> CHR ''/'' \<and> c \<noteq> CHR '':'' \<and> c \<noteq> CHR ''.'' \<and> c \<noteq> CHR ''='' \<and> c \<noteq> CHR ''-'' \<and> c \<noteq> CHR ''_''"
  by (simp add: alnum_range)

definition word_char :: "char \<Rightarrow> bool" where
  "word_char c \<longleftrightarrow> alnum c \<or> one_of ''._-'' c"

lemma word_char_separators:
  "word_char c \<Longrightarrow> c \<noteq> CHR ''/'' \<and> c \<noteq> CHR '':'' \<and> c \<noteq> CHR ''=''"
  using alnum_separators [of c] by (auto simp: word_char_def one_of_def)

lemma word_char_plain: "word_char c \<Longrightarrow> plain_char c"
  using alnum_plain [of c] by (auto simp: word_char_def one_of_def plain_char_def)

lemma trim_word: "\<forall>c \<in> set s. word_char c \<Longrightarrow> trim s = s"
  by (cases "s = []") (auto intro!: trim_plain word_char_plain)

lemma word_ascii: "\<forall>c \<in> set s. word_char c \<Longrightarrow> ascii s"
  using word_char_plain by (fastforce simp: ascii_def list_all_iff plain_char_def)

lemma accepted_words:
  assumes "documented_regex im"
  shows "im name_pattern s \<Longrightarrow> \<forall>c \<in> set s. word_char c"
    and "im segment_pattern s \<Longrightarrow> \<forall>c \<in> set s. word_char c"
    and "im component_pattern s \<Longrightarrow> \<forall>c \<in> set s. word_char c"
    and "im tag_pattern s \<Longrightarrow> \<forall>c \<in> set s. word_char c"
    and "im env_name_pattern s \<Longrightarrow> \<forall>c \<in> set s. word_char c"
    and "im registry_pattern s \<Longrightarrow> \<forall>c \<in> set s. word_char c \<or> c = CHR '':''"
  using documented_patterns [OF assms] accepts_occurs lower_alnum_alnum
  by (fastforce simp: occurs_rx word_char_def one_of_def)+

lemma accepted_start:
  assumes "documented_regex im"
  shows "im name_pattern (c # s) \<Longrightarrow> alnum c" and "im segment_pattern (c # s) \<Longrightarrow> alnum c"
    and "im component_pattern (c # s) \<Longrightarrow> alnum c" and "im registry_pattern (c # s) \<Longrightarrow> alnum c"
  using documented_patterns [OF assms] accepts_begins [of _ c s] lower_alnum_alnum [of c]
  by (metis begins_rx(1), metis begins_rx(1), metis begins_rx(2), metis begins_rx(6))

end
