(* ===== verification/DockerTypes.thy ===== *)
theory DockerTypes
  imports RefinedStrings
begin

text \<open>
  The crate \<open>docker_types\<close> (docker_types/src): names of images with their versions, pinned image
  references, pull targets, container and image ids, labels, tags and environment variables, with the
  parsers and printers that go between them and Docker's JSON.  A \<open>serde_json\<close> value is the type
  \<open>json\<close>; numbers and booleans are only told apart from strings.
\<close>

datatype json = JsonNull | JsonScalar | JsonString string | JsonArray "json list"
  | JsonObject "(string \<times> json) list"

section \<open>Image names\<close>

datatype image_version = Latest | Specific string

fun show_version :: "image_version \<Rightarrow> string" where
  "show_version Latest = ''latest''"
| "show_version (Specific v) = v"

definition image_version_from_str :: "regex \<Rightarrow> string \<Rightarrow> refined_error + image_version" where
  "image_version_from_str im s =
     (let s = trim s
      in if s = ''latest'' then Inr Latest else map_sum id Specific (tag_from_str im s))"

record versioned_image_name =
  namespace :: "string option"
  image_name :: string
  version :: image_version

datatype image_name_error =
    InvalidImageName string
  | EmptyImageName
  | InvalidImageNamespace refined_error
  | InvalidImagePart refined_error
  | InvalidImageVersion refined_error

definition formatted_name :: "versioned_image_name \<Rightarrow> string" where
  "formatted_name v =
     (case namespace v of
        Some n \<Rightarrow> n @ ''/'' @ image_name v
      | None \<Rightarrow> image_name v)"

definition version_formatted_name :: "versioned_image_name \<Rightarrow> string" where
  "version_formatted_name v = formatted_name v @ '':'' @ show_version (version v)"

definition versioned_image_name_from_str ::
    "regex \<Rightarrow> string \<Rightarrow> image_name_error + versioned_image_name" where
  "versioned_image_name_from_str im text =
     (let (ns, name_and_version) = (case split_once CHR ''/'' text of Some p \<Rightarrow> p | None \<Rightarrow> ([], text))
      in case split_once CHR '':'' name_and_version of
           None \<Rightarrow> Inl (InvalidImageName text)
         | Some (name, raw_version) \<Rightarrow>
             if trim name = [] then Inl EmptyImageName
             else (case (if trim ns = [] then Inr None else map_sum id Some (component_from_str im (trim ns))) of
                     Inl e \<Rightarrow> Inl (InvalidImageNamespace e)
                   | Inr ns \<Rightarrow>
                       (case component_from_str im (trim name) of
                          Inl e \<Rightarrow> Inl (InvalidImagePart e)
                        | Inr name \<Rightarrow>
                            (case image_version_from_str im raw_version of
                               Inl e \<Rightarrow> Inl (InvalidImageVersion e)
                             | Inr v \<Rightarrow> Inr \<lparr>namespace = ns, image_name = name, version = v\<rparr>))))"

section \<open>Pinned references\<close>

record image_reference =
  ref_registry :: string
  ref_namespace :: "string option"
  ref_name :: string
  ref_version :: string

datatype image_reference_error =
    MissingRegistry string
  | InvalidRegistry refined_error
  | InvalidReference string
  | MissingVersion
  | VersionMustBePinned
  | InvalidRefNamespace refined_error
  | InvalidRefName refined_error
  | InvalidRefVersion refined_error

definition looks_like_host :: "string \<Rightarrow> bool" where
  "looks_like_host s \<longleftrightarrow> CHR ''.'' \<in> set s \<or> CHR '':'' \<in> set s \<or> s = ''localhost''"

definition reference_formatted_name :: "image_reference \<Rightarrow> string" where
  "reference_formatted_name r =
     (case ref_namespace r of
        Some n \<Rightarrow> ref_registry r @ ''/'' @ n @ ''/'' @ ref_name r
      | None \<Rightarrow> ref_registry r @ ''/'' @ ref_name r)"

definition show_reference :: "image_reference \<Rightarrow> string" where
  "show_reference r = reference_formatted_name r @ '':'' @ ref_version r"

definition reference_parts ::
    "regex \<Rightarrow> string \<Rightarrow> string option \<Rightarrow> string \<Rightarrow> string \<Rightarrow> image_reference_error + image_reference" where
  "reference_parts im registry ns name raw_version =
     (case registry_from_str im registry of
        Inl e \<Rightarrow> Inl (InvalidRegistry e)
      | Inr registry \<Rightarrow>
          (case (case ns of None \<Rightarrow> Inr None | Some n \<Rightarrow> map_sum id Some (component_from_str im n)) of
             Inl e \<Rightarrow> Inl (InvalidRefNamespace e)
           | Inr ns \<Rightarrow>
               (case component_from_str im name of
                  Inl e \<Rightarrow> Inl (InvalidRefName e)
                | Inr name \<Rightarrow>
                    (case tag_from_str im raw_version of
                       Inl e \<Rightarrow> Inl (InvalidRefVersion e)
                     | Inr v \<Rightarrow> Inr \<lparr>ref_registry = registry, ref_namespace = ns, ref_name = name,
                          ref_version = v\<rparr>))))"

definition reference_rest ::
    "regex \<Rightarrow> string \<Rightarrow> string option \<Rightarrow> string \<Rightarrow> image_reference_error + image_reference" where
  "reference_rest im registry ns name_and_version =
     (case split_once CHR '':'' name_and_version of
        None \<Rightarrow> Inl MissingVersion
      | Some (name, raw_version) \<Rightarrow>
          if raw_version = ''latest'' then Inl VersionMustBePinned
          else reference_parts im registry ns name raw_version)"

definition image_reference_from_str :: "regex \<Rightarrow> string \<Rightarrow> image_reference_error + image_reference" where
  "image_reference_from_str im value =
     (case split_on CHR ''/'' value of
        registry # rest \<Rightarrow>
          if looks_like_host registry \<and> rest \<noteq> [] then
            (case rest of
               [name_and_version] \<Rightarrow> reference_rest im registry None name_and_version
             | [n, name_and_version] \<Rightarrow> reference_rest im registry (Some n) name_and_version
             | _ \<Rightarrow> Inl (InvalidReference value))
          else Inl (MissingRegistry value)
      | [] \<Rightarrow> Inl (MissingRegistry value))"

section \<open>Pull targets\<close>

record pull_target =
  pull_path :: "string list"
  pull_version :: image_version

definition image_path_new :: "string list \<Rightarrow> string list option" where
  "image_path_new components = (if components = [] then None else Some components)"

definition pull_target_of :: "versioned_image_name \<Rightarrow> pull_target" where
  "pull_target_of v =
     \<lparr>pull_path = (case namespace v of Some n \<Rightarrow> [n] | None \<Rightarrow> []) @ [image_name v],
      pull_version = version v\<rparr>"

definition pull_target_latest :: "string \<Rightarrow> pull_target" where
  "pull_target_latest name =
     pull_target_of \<lparr>namespace = None, image_name = name, version = Latest\<rparr>"

definition pull_formatted_name :: "pull_target \<Rightarrow> string" where
  "pull_formatted_name t = join_with ''/'' (pull_path t)"

definition pull_version_formatted_name :: "pull_target \<Rightarrow> string" where
  "pull_version_formatted_name t = pull_formatted_name t @ '':'' @ show_version (pull_version t)"

section \<open>Ids, labels, tags\<close>

datatype docker_id = FullId string | ShortId string

fun show_id :: "docker_id \<Rightarrow> string" where
  "show_id (FullId s) = s"
| "show_id (ShortId s) = s"

text \<open>\<open>ContainerId::from_str\<close> and \<open>ImageId::from_str\<close> are the same.\<close>

definition container_id_from_str :: "regex \<Rightarrow> string \<Rightarrow> refined_error + docker_id" where
  "container_id_from_str im s =
     (if length s = 64 then map_sum id FullId (full_id_from_str im s)
      else if length s = 12 then map_sum id ShortId (short_id_from_str im s)
      else Inl (InvalidName s))"

record content_id =
  algorithm :: string
  hex :: string

definition show_content_id :: "content_id \<Rightarrow> string" where
  "show_content_id i = algorithm i @ '':'' @ hex i"

definition deserialize_id :: "string \<Rightarrow> content_id" where
  "deserialize_id raw =
     (case split_on CHR '':'' raw of
        [a, h] \<Rightarrow> \<lparr>algorithm = a, hex = h\<rparr>
      | _ \<Rightarrow> \<lparr>algorithm = ''missing-algorithim'', hex = raw\<rparr>)"

fun collect_sum :: "('a \<Rightarrow> 'e + 'b) \<Rightarrow> 'a list \<Rightarrow> 'e + 'b list" where
  "collect_sum f [] = Inr []"
| "collect_sum f (x # xs) =
     (case f x of
        Inl e \<Rightarrow> Inl e
      | Inr y \<Rightarrow> (case collect_sum f xs of Inl e \<Rightarrow> Inl e | Inr ys \<Rightarrow> Inr (y # ys)))"

record label =
  label_name :: string
  label_value :: string

datatype json_error = ExpectedObject | ExpectedArray | ExpectedString | BadName refined_error

definition deserialize_label :: "regex \<Rightarrow> string \<times> json \<Rightarrow> json_error + label" where
  "deserialize_label im entry =
     (case snd entry of
        JsonString v \<Rightarrow>
          (case label_key_from_str im (fst entry) of
             Inl e \<Rightarrow> Inl (BadName e)
           | Inr k \<Rightarrow> Inr \<lparr>label_name = k, label_value = v\<rparr>)
      | _ \<Rightarrow> Inl ExpectedString)"

definition deserialize_labels :: "regex \<Rightarrow> json \<Rightarrow> json_error + label list" where
  "deserialize_labels im j =
     (case j of
        JsonNull \<Rightarrow> Inr []
      | JsonObject entries \<Rightarrow> collect_sum (deserialize_label im) entries
      | _ \<Rightarrow> Inl ExpectedObject)"

definition serialize_labels :: "label list \<Rightarrow> json" where
  "serialize_labels ls = JsonObject (map (\<lambda>l. (label_name l, JsonString (label_value l))) ls)"

record tag =
  tag_name :: string
  tag_version :: string

definition deserialize_tag :: "string \<Rightarrow> tag" where
  "deserialize_tag raw =
     (case rsplit_once CHR '':'' raw of
        Some (name, v) \<Rightarrow>
          if CHR ''/'' \<in> set v then \<lparr>tag_name = raw, tag_version = []\<rparr>
          else \<lparr>tag_name = name, tag_version = v\<rparr>
      | None \<Rightarrow> \<lparr>tag_name = raw, tag_version = []\<rparr>)"

section \<open>Environment variables\<close>

record env_var =
  env_name :: string
  env_value :: string

definition deserialize_assignment :: "regex \<Rightarrow> json \<Rightarrow> json_error + env_var" where
  "deserialize_assignment im item =
     (case item of
        JsonString assignment \<Rightarrow>
          (let (name, v) = (case split_on CHR ''='' assignment of [a, b] \<Rightarrow> (a, b) | _ \<Rightarrow> (assignment, []))
           in case env_name_from_str im name of
                Inl e \<Rightarrow> Inl (BadName e)
              | Inr name \<Rightarrow> Inr \<lparr>env_name = name, env_value = v\<rparr>)
      | _ \<Rightarrow> Inl ExpectedString)"

definition deserialize_environment_variables :: "regex \<Rightarrow> json \<Rightarrow> json_error + env_var list" where
  "deserialize_environment_variables im j =
     (case j of
        JsonArray items \<Rightarrow> collect_sum (deserialize_assignment im) items
      | _ \<Rightarrow> Inl ExpectedArray)"

definition serialize_environment_variables :: "env_var list \<Rightarrow> json" where
  "serialize_environment_variables vs =
     JsonArray (map (\<lambda>v. JsonString (env_name v @ ''='' @ env_value v)) vs)"

section \<open>Round trips\<close>

definition is_image_name :: "regex \<Rightarrow> versioned_image_name \<Rightarrow> bool" where
  "is_image_name im v \<longleftrightarrow>
     (case namespace v of None \<Rightarrow> True | Some n \<Rightarrow> component_from_str im n = Inr n) \<and>
     component_from_str im (image_name v) = Inr (image_name v) \<and>
     (case version v of Latest \<Rightarrow> True | Specific t \<Rightarrow> tag_from_str im t = Inr t)"

lemma component_word:
  assumes "documented_regex im" and "component_from_str im s = Inr t"
  shows "t = s" and "s \<noteq> []" and "\<forall>c \<in> set s. word_char c"
  using assms(2) accepted_words(3) [OF assms(1), of s] by (auto simp: component_from_str_def validated_Inr)

lemma tag_word:
  assumes "documented_regex im" and "tag_from_str im s = Inr t"
  shows "t = s" and "s \<noteq> []" and "\<forall>c \<in> set s. word_char c"
  using assms(2) accepted_words(4) [OF assms(1), of s] by (auto simp: tag_from_str_def validated_Inr)

lemma word_no_separator:
  assumes "\<forall>c \<in> set s. word_char c"
  shows "CHR ''/'' \<notin> set s" and "CHR '':'' \<notin> set s" and "CHR ''='' \<notin> set s"
  using assms word_char_separators by blast+

lemma version_round_trip:
  assumes "documented_regex im" and "case v of Latest \<Rightarrow> True | Specific t \<Rightarrow> tag_from_str im t = Inr t"
  shows "image_version_from_str im (show_version v) = Inr (if v = Specific ''latest'' then Latest else v)"
    and "\<forall>c \<in> set (show_version v). word_char c"
proof -
  have latest: "\<forall>c \<in> set ''latest''. word_char c" by code_simp
  then show w: "\<forall>c \<in> set (show_version v). word_char c"
    using assms tag_word(3) by (cases v) auto
  show "image_version_from_str im (show_version v) = Inr (if v = Specific ''latest'' then Latest else v)"
    using assms(2) trim_word [OF w] by (cases v) (auto simp: image_version_from_str_def)
qed

lemma image_name_text:
  assumes "documented_regex im" and "is_image_name im v"
  shows "versioned_image_name_from_str im (version_formatted_name v) =
    Inr (v\<lparr>version := if version v = Specific ''latest'' then Latest else version v\<rparr>)"
proof -
  from assms(2) have name: "component_from_str im (image_name v) = Inr (image_name v)"
    and ver: "case version v of Latest \<Rightarrow> True | Specific t \<Rightarrow> tag_from_str im t = Inr t"
    by (auto simp: is_image_name_def)
  note nw = component_word [OF assms(1) name] and vw = version_round_trip [OF assms(1) ver]
  note separators = word_no_separator [OF nw(3)] word_no_separator [OF vw(2)]
  show ?thesis
  proof (cases "namespace v")
    case None
    then have "version_formatted_name v = image_name v @ CHR '':'' # show_version (version v)"
      by (simp add: version_formatted_name_def formatted_name_def)
    moreover have "split_once CHR ''/'' \<dots> = None" using separators by (simp add: split_once_None)
    moreover have "trim [] = []" by (simp add: trim_plain)
    ultimately show ?thesis
      using None name nw vw(1) separators trim_word [OF nw(3)]
      by (simp add: versioned_image_name_from_str_def split_once_append)
  next
    case (Some n)
    with assms(2) have ns: "component_from_str im n = Inr n" by (simp add: is_image_name_def)
    note sw = component_word [OF assms(1) ns]
    from Some have "version_formatted_name v = n @ CHR ''/'' # (image_name v @ CHR '':'' # show_version (version v))"
      by (simp add: version_formatted_name_def formatted_name_def)
    with Some ns sw name nw vw(1) separators word_no_separator [OF sw(3)] trim_word [OF nw(3)] trim_word [OF sw(3)]
    show ?thesis by (simp add: versioned_image_name_from_str_def split_once_append)
  qed
qed

text \<open>
  A valid image name that is printed and parsed again comes back, with one exception: the
  version tag \<open>latest\<close>, which is a valid tag, comes back as \<open>Version::Latest\<close>.
\<close>

theorem image_name_round_trip:
  assumes "documented_regex im" and "is_image_name im v"
  shows "versioned_image_name_from_str im (version_formatted_name v) = Inr v \<longleftrightarrow>
    version v \<noteq> Specific ''latest''"
  using image_name_text [OF assms] by (cases v) auto

theorem image_name_round_trip_witness:
  "versioned_image_name_from_str table_regex (version_formatted_name
      \<lparr>namespace = Some ''library'', image_name = ''traefik'', version = Specific ''v3.1''\<rparr>) =
    Inr \<lparr>namespace = Some ''library'', image_name = ''traefik'', version = Specific ''v3.1''\<rparr>"
proof -
  have "is_image_name table_regex \<lparr>namespace = Some ''library'', image_name = ''traefik'', version = Specific ''v3.1''\<rparr>"
    by code_simp
  from image_name_round_trip [OF table_regex_documented this] show ?thesis by simp
qed

lemma from_str_same:
  "registry_from_str im s = Inr t \<Longrightarrow> t = s" "component_from_str im s = Inr t \<Longrightarrow> t = s"
  "tag_from_str im s = Inr t \<Longrightarrow> t = s"
  by (simp_all add: from_str_defs validated_Inr)

lemma reference_rest_text:
  assumes "reference_rest im registry ns name_and_version = Inr r"
  shows "ref_registry r = registry" and "ref_namespace r = ns" and "ref_version r \<noteq> ''latest''"
    and "name_and_version = ref_name r @ '':'' @ ref_version r"
proof -
  have "ns' = Some n" if "map_sum id Some (component_from_str im n) = Inr ns'" for n and ns' :: "string option"
    using that by (cases "component_from_str im n") (auto dest: from_str_same)
  with assms show "ref_registry r = registry" and "ref_namespace r = ns" and "ref_version r \<noteq> ''latest''"
    and "name_and_version = ref_name r @ '':'' @ ref_version r"
    unfolding reference_rest_def reference_parts_def
    by (auto dest!: from_str_same simp: split_once_Some split: option.splits sum.splits if_splits prod.splits)
qed

text \<open>
  Parsing of image references is exact: a reference that is accepted prints as the very text it
  was read from, so the text sent upstream is the text of the definition, and it always names a
  registry and a version other than \<open>latest\<close>.
\<close>

theorem image_reference_exact:
  assumes "image_reference_from_str im text = Inr r"
  shows "show_reference r = text \<and> looks_like_host (ref_registry r) \<and> ref_version r \<noteq> ''latest''"
proof -
  obtain registry rest where s: "split_on CHR ''/'' text = registry # rest"
    by (meson neq_Nil_conv split_on_nonempty)
  with assms have host: "looks_like_host registry"
    by (auto simp: image_reference_from_str_def split: if_splits)
  have joined: "text = join_with ''/'' (registry # rest)" using s by (metis join_split)
  from assms s consider (plain) nv where "rest = [nv]" "reference_rest im registry None nv = Inr r"
    | (spaced) n nv where "rest = [n, nv]" "reference_rest im registry (Some n) nv = Inr r"
    by (auto simp: image_reference_from_str_def split: if_splits list.splits)
  then show ?thesis
  proof cases
    case plain
    then show ?thesis using host joined reference_rest_text [OF plain(2)]
      by (simp add: show_reference_def reference_formatted_name_def)
  next
    case spaced
    then show ?thesis using host joined reference_rest_text [OF spaced(2)]
      by (simp add: show_reference_def reference_formatted_name_def)
  qed
qed

theorem image_reference_exact_witness:
  "show_reference \<lparr>ref_registry = ''ghcr.io'', ref_namespace = Some ''acme'', ref_name = ''app'', ref_version = ''1.2''\<rparr> =
    ''ghcr.io/acme/app:1.2''"
proof -
  have "image_reference_from_str table_regex ''ghcr.io/acme/app:1.2'' =
      Inr \<lparr>ref_registry = ''ghcr.io'', ref_namespace = Some ''acme'', ref_name = ''app'', ref_version = ''1.2''\<rparr>"
    by code_simp
  from image_reference_exact [OF this] show ?thesis by blast
qed

lemma collect_sum_map:
  "collect_sum f xs = Inr ys \<longleftrightarrow> map f xs = map Inr ys"
proof (induction xs arbitrary: ys)
  case (Cons x xs)
  show ?case
  proof (cases ys)
    case (Cons z zs)
    with Cons.IH [of zs] show ?thesis by (auto split: sum.split)
  qed (simp split: sum.split)
qed auto

lemma env_name_word:
  assumes "documented_regex im" and "env_name_from_str im s = Inr t"
  shows "t = s" and "CHR ''='' \<notin> set s"
  using assms(2) accepted_words(5) [OF assms(1), of s] word_no_separator(3) [of s]
  by (auto simp: env_name_from_str_def validated_Inr)

lemma assignment_round_trip:
  assumes "documented_regex im" and "env_name_from_str im (env_name v) = Inr (env_name v)"
  shows "deserialize_assignment im (JsonString (env_name v @ ''='' @ env_value v)) = Inr v \<longleftrightarrow>
    CHR ''='' \<notin> set (env_value v)"
proof -
  have no_sep: "CHR ''='' \<notin> set (env_name v)" using env_name_word [OF assms] by simp
  then have pieces: "split_on CHR ''='' (env_name v @ ''='' @ env_value v) =
      env_name v # split_on CHR ''='' (env_value v)"
    by (simp add: split_on_app)
  show ?thesis
  proof (cases "CHR ''='' \<in> set (env_value v)")
    case False
    with pieces assms(2) show ?thesis
      by (simp add: deserialize_assignment_def split_on_no_sep)
  next
    case True
    have "split_on CHR ''='' (env_value v) \<noteq> [x]" for x
    proof
      assume x: "split_on CHR ''='' (env_value v) = [x]"
      then have "env_value v = x" using join_split [of "CHR ''=''" "env_value v"] by simp
      moreover have "CHR ''='' \<notin> set x" using x split_on_pieces [of x "CHR ''=''" "env_value v"] by simp
      ultimately show False using True by simp
    qed
    then obtain a b cs where "split_on CHR ''='' (env_value v) = a # b # cs"
      by (metis neq_Nil_conv split_on_nonempty)
    with pieces True env_name_word(2) [OF assms(1), of "env_name v @ ''='' @ env_value v"]
    show ?thesis by (auto simp: deserialize_assignment_def split: sum.splits)
  qed
qed

text \<open>
  Environment variables written for Docker are read back from Docker's JSON exactly when no
  value contains an equals sign; otherwise the whole list is rejected or changed, although values
  with equals signs are legal and are written without complaint.
\<close>

theorem environment_round_trip:
  assumes "documented_regex im" and "list_all (\<lambda>v. env_name_from_str im (env_name v) = Inr (env_name v)) vs"
  shows "deserialize_environment_variables im (serialize_environment_variables vs) = Inr vs \<longleftrightarrow>
    list_all (\<lambda>v. CHR ''='' \<notin> set (env_value v)) vs"
proof -
  have "(map (deserialize_assignment im \<circ> (\<lambda>v. JsonString (env_name v @ ''='' @ env_value v))) vs = map Inr vs) \<longleftrightarrow>
      list_all (\<lambda>v. CHR ''='' \<notin> set (env_value v)) vs"
    using assms(2) by (auto simp: list_all_iff assignment_round_trip [OF assms(1), simplified])
  then show ?thesis
    by (simp add: deserialize_environment_variables_def serialize_environment_variables_def
        collect_sum_map comp_def)
qed

theorem environment_round_trip_witness:
  "deserialize_environment_variables table_regex (serialize_environment_variables
      [\<lparr>env_name = ''JAVA_OPTS'', env_value = ''-Da=b''\<rparr>]) \<noteq> Inr [\<lparr>env_name = ''JAVA_OPTS'', env_value = ''-Da=b''\<rparr>]"
proof -
  have "list_all (\<lambda>v. env_name_from_str table_regex (env_name v) = Inr (env_name v))
      [\<lparr>env_name = ''JAVA_OPTS'', env_value = ''-Da=b''\<rparr>]"
    by code_simp
  from environment_round_trip [OF table_regex_documented this] show ?thesis by simp
qed

end
