(* ===== verification/UnixFiles.thy ===== *)
theory UnixFiles
  imports FileSystem
begin

unbundle bit_operations_syntax

text \<open>
  The Unix implementations of the traits of \<open>file_system\<close>, one definition per method, on top of the
  system calls of \<open>FileSystem\<close>; file modes; the interface \<open>blob_store\<close> through which the other
  components keep whole files, with its interpretation on these methods; log rotation.
\<close>

section \<open>Modes\<close>

datatype modes =
    ModeNone
  | OwnerReadWrite
  | OwnerReadGroupRead
  | OwnerReadWriteExecute
  | OwnerReadWriteGroupRead
  | OwnerReadWriteGroupReadWrite
  | OwnerReadWriteExecuteGroupReadWriteExecute
  | InheritedOwnerReadWriteExecuteGroupReadWriteExecute
  | OwnerReadWriteExecuteGroupReadWriteExecuteOtherExecute
  | InheritedOwnerReadWriteExecuteGroupReadWriteExecuteOtherExecute
  | OtherMode "32 word"

fun mode_bits :: "modes \<Rightarrow> 32 word" where
  "mode_bits ModeNone = 0"
| "mode_bits OwnerReadGroupRead = 0x120"
| "mode_bits OwnerReadWrite = 0x180"
| "mode_bits OwnerReadWriteExecute = 0x1C0"
| "mode_bits OwnerReadWriteGroupRead = 0x1A0"
| "mode_bits OwnerReadWriteGroupReadWrite = 0x1B0"
| "mode_bits OwnerReadWriteExecuteGroupReadWriteExecute = 0x1F8"
| "mode_bits InheritedOwnerReadWriteExecuteGroupReadWriteExecute = 0x5F8"
| "mode_bits OwnerReadWriteExecuteGroupReadWriteExecuteOtherExecute = 0x1F9"
| "mode_bits InheritedOwnerReadWriteExecuteGroupReadWriteExecuteOtherExecute = 0x5F9"
| "mode_bits (OtherMode v) = v"

definition mode_is_set :: "modes \<Rightarrow> 32 word \<Rightarrow> bool" where
  "mode_is_set md bits \<longleftrightarrow> mode_bits md AND bits \<noteq> 0"

definition create_new_by_setting :: "modes \<Rightarrow> 32 word \<Rightarrow> bool \<Rightarrow> modes" where
  "create_new_by_setting md bits value =
     OtherMode (if value then mode_bits md OR bits else mode_bits md AND NOT bits)"

definition is_executable_by_owner :: "modes \<Rightarrow> bool" where
  "is_executable_by_owner md = mode_is_set md 0x40"

definition is_executable_by_group :: "modes \<Rightarrow> bool" where
  "is_executable_by_group md = mode_is_set md 0x08"

definition set_executable_by_owner :: "modes \<Rightarrow> bool \<Rightarrow> modes" where
  "set_executable_by_owner md value = create_new_by_setting md 0x40 value"

definition set_executable_by_group :: "modes \<Rightarrow> bool \<Rightarrow> modes" where
  "set_executable_by_group md value = create_new_by_setting md 0x08 value"

text \<open>\<open>UnixPermissions::get_mode\<close> on the bits that \<open>stat\<close> returns.\<close>

definition mode_of_stat :: "32 word \<Rightarrow> modes" where
  "mode_of_stat st =
     (let bits = st AND 0xFFF
      in if bits = 0 then ModeNone
         else if bits = 0x180 then OwnerReadWrite
         else if bits = 0x1A0 then OwnerReadWriteGroupRead
         else if bits = 0x1B0 then OwnerReadWriteGroupReadWrite
         else if bits = 0x1F8 then OwnerReadWriteExecuteGroupReadWriteExecute
         else if bits = 0x5F8 then InheritedOwnerReadWriteExecuteGroupReadWriteExecute
         else if bits = 0x1F9 then OwnerReadWriteExecuteGroupReadWriteExecuteOtherExecute
         else if bits = 0x5F9 then InheritedOwnerReadWriteExecuteGroupReadWriteExecuteOtherExecute
         else OtherMode bits)"

text \<open>
  Reading a mode back gives the mode that was set exactly for the modes \<open>get_mode\<close> names.
  For \<open>OwnerReadGroupRead\<close> and \<open>OwnerReadWriteExecute\<close>, which \<open>From<Modes>\<close> writes like any other,
  it gives an \<open>Other\<close> that compares different from what was asked for; the permission bits agree in
  every case that fits the twelve bits of a mode.
\<close>

theorem mode_round_trip:
  "(mode_of_stat (0x8000 OR mode_bits md) = md \<longleftrightarrow>
      md \<notin> {OwnerReadGroupRead, OwnerReadWriteExecute} \<and>
      (case md of
         OtherMode v \<Rightarrow> v AND 0xFFF = v \<and>
           v \<notin> mode_bits ` {ModeNone, OwnerReadWrite, OwnerReadWriteGroupRead,
             OwnerReadWriteGroupReadWrite, OwnerReadWriteExecuteGroupReadWriteExecute,
             InheritedOwnerReadWriteExecuteGroupReadWriteExecute,
             OwnerReadWriteExecuteGroupReadWriteExecuteOtherExecute,
             InheritedOwnerReadWriteExecuteGroupReadWriteExecuteOtherExecute}
       | _ \<Rightarrow> True)) \<and>
   mode_bits (mode_of_stat (0x8000 OR mode_bits md)) = mode_bits md AND 0xFFF"
proof (cases md)
  case (OtherMode v)
  have "(0x8000 OR v) AND 0xFFF = v AND (0xFFF :: 32 word)"
    by (simp add: bit.conj_disj_distrib2)
  with OtherMode show ?thesis by (auto simp: mode_of_stat_def Let_def)
qed (simp_all add: mode_of_stat_def)

text \<open>
  Marking a file executable by its owner and group leaves it executable by both and changes no
  other permission bit.
\<close>

theorem executable_bits:
  "is_executable_by_owner (set_executable_by_owner (set_executable_by_group md True) True) \<and>
   is_executable_by_group (set_executable_by_owner (set_executable_by_group md True) True) \<and>
   mode_bits (set_executable_by_owner (set_executable_by_group md True) True) AND NOT 0x48 =
     mode_bits md AND NOT 0x48"
proof -
  have bits: "mode_bits (set_executable_by_owner (set_executable_by_group md True) True) =
      (mode_bits md OR 8) OR 0x40"
    by (simp add: set_executable_by_owner_def set_executable_by_group_def create_new_by_setting_def)
  have "((mode_bits md OR 8) OR 0x40) AND 0x40 = (0x40 :: 32 word)"
    "((mode_bits md OR 8) OR 0x40) AND 8 = (8 :: 32 word)"
    "((mode_bits md OR 8) OR 0x40) AND NOT 0x48 = mode_bits md AND NOT (0x48 :: 32 word)"
    by (simp_all add: bit.conj_disj_distrib2 bit.conj_disj_distrib)
  then show ?thesis
    by (simp add: bits is_executable_by_owner_def is_executable_by_group_def mode_is_set_def)
qed

section \<open>Writers, readers, deleters\<close>

definition writer_write_all_bytes :: "path \<Rightarrow> string \<Rightarrow> (fs, fs_error, unit) prog" where
  "writer_write_all_bytes p bytes = map_err (IoErrorAtPath p) (std_write p bytes)"

definition writer_write_all :: "path \<Rightarrow> string \<Rightarrow> (fs, fs_error, unit) prog" where
  "writer_write_all p contents = writer_write_all_bytes p contents"

definition writer_write_all_bytes_if_absent :: "path \<Rightarrow> string \<Rightarrow> (fs, fs_error, bool) prog" where
  "writer_write_all_bytes_if_absent p bytes =
     and_then (attempt (std_write_new p bytes))
       (\<lambda>r. case r of
          Inr _ \<Rightarrow> ok True
        | Inl k \<Rightarrow> if k = AlreadyExists then ok False else fail (IoErrorAtPath p k))"

definition file_exists :: "fs \<Rightarrow> path \<Rightarrow> bool" where
  "file_exists s p \<longleftrightarrow> exists_path s p \<and> \<not> is_dir s p"

definition reader_read_all_bytes :: "path \<Rightarrow> (fs, fs_error, string) prog" where
  "reader_read_all_bytes p = map_err (IoErrorAtPath p) (std_read p)"

definition reader_read_all :: "path \<Rightarrow> (fs, fs_error, string) prog" where
  "reader_read_all p =
     map_err (IoErrorAtPath p)
       (and_then (std_read p) (\<lambda>b. if is_utf8 b then ok b else fail InvalidData))"

definition deleter_delete :: "path \<Rightarrow> (fs, fs_error, unit) prog" where
  "deleter_delete p =
     and_then (gets (\<lambda>s. exists_path s p))
       (\<lambda>present. if present then map_err (IoErrorAtPath p) (std_remove_file p) else ok ())"

definition folder_deleter_delete :: "path \<Rightarrow> (fs, fs_error, unit) prog" where
  "folder_deleter_delete p =
     and_then (gets (\<lambda>s. exists_path s p))
       (\<lambda>present. if present then map_err (IoErrorAtPath p) (std_remove_dir_all p) else ok ())"

definition renamer_rename :: "path \<Rightarrow> path \<Rightarrow> (fs, fs_error, unit) prog" where
  "renamer_rename from to = map_err (IoErrorAtPath from) (std_rename from to)"

definition copier_copy :: "path \<Rightarrow> path \<Rightarrow> (fs, fs_error, unit) prog" where
  "copier_copy from to = map_err (IoErrorAtPath from) (std_copy from to)"

section \<open>Folders, metadata and ownership\<close>

datatype entry_kind = FileKind | DirectoryKind

record entry =
  entry_name :: string
  entry_path :: path
  entry_kind :: entry_kind
  entry_size :: nat

definition entry_of :: "path \<Rightarrow> string \<Rightarrow> node \<Rightarrow> entry" where
  "entry_of parent name n =
     \<lparr>entry_name = name, entry_path = parent @ [name],
      entry_kind = (case n of File _ _ \<Rightarrow> FileKind | Dir _ \<Rightarrow> DirectoryKind),
      entry_size = (case n of File _ b \<Rightarrow> length b | Dir _ \<Rightarrow> 0)\<rparr>"

definition folder_canonicalize :: "path \<Rightarrow> (fs, fs_error, path) prog" where
  "folder_canonicalize p = map_err IoError (and_then (std_metadata p) (\<lambda>_. ok p))"

definition folder_create_recursively :: "path \<Rightarrow> (fs, fs_error, path) prog" where
  "folder_create_recursively p =
     and_then (map_err IoError (std_create_dir_all p)) (\<lambda>_. folder_canonicalize p)"

definition folder_entries :: "path \<Rightarrow> (fs, fs_error, entry list) prog" where
  "folder_entries p =
     and_then (map_err IoError (std_read_dir p)) (\<lambda>xs. ok (map (\<lambda>(name, n). entry_of p name n) xs))"

definition folder_exists :: "fs \<Rightarrow> path \<Rightarrow> bool" where
  "folder_exists s p \<longleftrightarrow> exists_path s p \<and> is_dir s p"

definition folder_pop :: "path \<Rightarrow> string option" where
  "folder_pop p = (if p = [] then None else Some (last p))"

definition folder_parent :: "path \<Rightarrow> path option" where
  "folder_parent p = (if p = [] then None else Some (butlast p))"

definition folder_create_file :: "path \<Rightarrow> (fs, fs_error, unit) prog" where
  "folder_create_file p =
     (case folder_parent p of
        None \<Rightarrow> fail (ParentNotFoundError p)
      | Some parent \<Rightarrow>
          and_then (folder_create_recursively parent) (\<lambda>_. map_err IoError (std_write p [])))"

definition inspect_read_metadata :: "path \<Rightarrow> (fs, fs_error, entry) prog" where
  "inspect_read_metadata p =
     (case folder_pop p of
        None \<Rightarrow> fail ExpectedFileError
      | Some name \<Rightarrow>
          and_then (map_err IoError (std_metadata p)) (\<lambda>n. ok (entry_of (butlast p) name n)))"

definition change_user_and_group_ownership :: "path \<Rightarrow> string \<Rightarrow> string \<Rightarrow> (fs, fs_error, unit) prog" where
  "change_user_and_group_ownership p user_name group_name =
     and_then (gets (\<lambda>s. (group_name \<in> set (known_groups s), user_name \<in> set (known_users s))))
       (\<lambda>(group_known, user_known).
          if \<not> group_known then fail (GroupNotFoundError group_name)
          else if \<not> user_known then fail (UserNotFoundError user_name)
          else map_err IoError (std_set_meta (\<lambda>m. m\<lparr>user := user_name, group := group_name\<rparr>) p))"

definition change_mode :: "path \<Rightarrow> modes \<Rightarrow> (fs, fs_error, unit) prog" where
  "change_mode p md = map_err IoError (std_set_meta (\<lambda>m. m\<lparr>mode := mode_bits md\<rparr>) p)"

text \<open>An owner whose number has no name is reported with the number of the user, for an unknown
  group as well; numbers are not modelled, the name stands for them.\<close>

definition get_user_and_group_ownership :: "path \<Rightarrow> (fs, fs_error, string \<times> string) prog" where
  "get_user_and_group_ownership p =
     and_then (map_err (\<lambda>_. SystemError ''stat'') (std_metadata p))
       (\<lambda>n. and_then (gets (\<lambda>s. (known_users s, known_groups s)))
         (\<lambda>(users, groups).
            if user (node_meta n) \<notin> set users then fail (UserNotFoundError (user (node_meta n)))
            else if group (node_meta n) \<notin> set groups then fail (UserNotFoundError (user (node_meta n)))
            else ok (user (node_meta n), group (node_meta n))))"

definition get_mode :: "path \<Rightarrow> (fs, fs_error, modes) prog" where
  "get_mode p =
     and_then (map_err (\<lambda>_. SystemError ''stat'') (std_metadata p)) (\<lambda>n. ok (mode_of_stat (mode (node_meta n))))"

section \<open>Log rotation\<close>

definition rotated_path :: "path \<Rightarrow> nat \<Rightarrow> path" where
  "rotated_path p n = (if p = [] then [''.'' @ show_nat n] else butlast p @ [last p @ ''.'' @ show_nat n])"

definition rotator_rotate :: "path \<Rightarrow> nat \<Rightarrow> (fs, io_kind, unit) prog" where
  "rotator_rotate p max_rotated =
     and_then (ignore (std_remove_file (rotated_path p max_rotated))) (\<lambda>_.
     and_then (for_each (\<lambda>n. ignore (std_rename (rotated_path p n) (rotated_path p (n + 1))))
                 (rev [1..<max_rotated])) (\<lambda>_.
     ignore (std_rename p (rotated_path p 1))))"

section \<open>Every method keeps the tree well-formed\<close>

lemma keeps_call: "(\<And>s. wf_fs s \<Longrightarrow> wf_fs (snd (m s))) \<Longrightarrow> keeps wf_fs (call m)"
  unfolding keeps_def
  by (metis call_cases snd_conv surj_pair wf_same_tree)

lemma wf_write [keeps_intros]: "keeps wf_fs (std_write p b)"
proof (rule keepsI)
  fix s :: fs assume wf: "wf_fs s"
  obtain x s' where n: "next_outcome s = (x, s')" by (cases "next_outcome s") auto
  then have wf': "wf_fs s'" using next_outcome_same wf_same_tree wf by blast
  then have "creatable s' p = None \<Longrightarrow> wf_fs (put_node p (File m c) s')" for m c
    by (rule wf_put_file)
  with n wf' show "wf_fs (snd (std_write p b s))"
    by (auto simp: std_write_def split: outcome.split option.split)
qed

lemma wf_write_new [keeps_intros]: "keeps wf_fs (std_write_new p b)"
  using wf_write [of p b] by (auto simp: keeps_def std_write_new_def)

lemma wf_copy [keeps_intros]: "keeps wf_fs (std_copy p q)"
proof (rule keepsI)
  fix s :: fs assume wf: "wf_fs s"
  obtain x s' where n: "next_outcome s = (x, s')" by (cases "next_outcome s") auto
  then have wf': "wf_fs s'" using next_outcome_same wf_same_tree wf by blast
  then have "creatable s' q = None \<Longrightarrow> wf_fs (put_node q (File m c) s')" for m c
    by (rule wf_put_file)
  with n wf' show "wf_fs (snd (std_copy p q s))"
    by (auto simp: std_copy_def Let_def split: outcome.split option.split node.split)
qed

lemma wf_read [keeps_intros]: "keeps wf_fs (std_read p)"
  unfolding std_read_def by (rule keeps_call) (simp split: option.split node.split)

lemma wf_remove_file [keeps_intros]: "keeps wf_fs (std_remove_file p)"
  unfolding std_remove_file_def
  by (rule keeps_call)
    (auto simp: is_file_def intro!: wf_drop_file split: option.split node.split)

lemma wf_remove_dir_all [keeps_intros]: "keeps wf_fs (std_remove_dir_all p)"
  unfolding std_remove_dir_all_def
  by (rule keeps_call) (auto intro!: wf_drop_subtree split: option.split node.split)

lemma wf_read_dir [keeps_intros]: "keeps wf_fs (std_read_dir p)"
  unfolding std_read_dir_def by (rule keeps_call) (simp split: option.split node.split)

lemma wf_metadata [keeps_intros]: "keeps wf_fs (std_metadata p)"
  unfolding std_metadata_def by (rule keeps_call) (simp split: option.split)

lemma wf_std_set_meta [keeps_intros]: "keeps wf_fs (std_set_meta f p)"
  unfolding std_set_meta_def by (rule keeps_call) (simp add: wf_set_meta split: option.split)

lemma add_dir_queries [simp]:
  "exists_path (add_dir p s) q \<longleftrightarrow> q = p \<or> exists_path s q"
  "is_file (add_dir p s) q \<longleftrightarrow> is_file s q"
  "is_dir (add_dir p s) q \<longleftrightarrow> is_dir s q \<or> (q = p \<and> \<not> exists_path s p)"
  by (auto simp: add_dir_def exists_iff)

lemma fold_add_dir_file [simp]: "is_file (fold add_dir ps s) q = is_file s q"
  by (induction ps arbitrary: s) simp_all

lemma fold_add_dir_exists [simp]: "exists_path (fold add_dir ps s) q \<longleftrightarrow> q \<in> set ps \<or> exists_path s q"
  by (induction ps arbitrary: s) auto

lemma take_Suc_butlast: "n < length p \<Longrightarrow> butlast (take (Suc n) p) = take n p"
  by (simp add: butlast_take)

lemma wf_fold_add_dir:
  assumes "wf_fs s" and "\<forall>n \<le> length p. \<not> is_file s (take n p)"
  shows "k \<le> Suc (length p) \<Longrightarrow> wf_fs (fold add_dir (map (\<lambda>n. take n p) [0..<k]) s)"
proof (induction k)
  case 0
  with assms show ?case by simp
next
  case (Suc k)
  define t where "t = fold add_dir (map (\<lambda>n. take n p) [0..<k]) s"
  have wf: "wf_fs t" using Suc by (simp add: t_def)
  have "wf_fs (add_dir (take k p) t)"
  proof (cases "exists_path t (take k p)")
    case True
    with wf show ?thesis by (simp add: add_dir_def)
  next
    case False
    have "is_dir t (butlast (take k p))"
    proof (cases k)
      case 0
      with wf_root [OF wf] show ?thesis by simp
    next
      case (Suc j)
      then have b: "butlast (take k p) = take j p" using Suc.prems by (simp add: take_Suc_butlast)
      have "take j p \<in> set (map (\<lambda>n. take n p) [0..<k])" using Suc by auto
      then have "exists_path t (take j p)" unfolding t_def by simp
      moreover have "\<not> is_file t (take j p)" using assms(2) Suc Suc.prems by (simp add: t_def)
      ultimately show ?thesis using b by (simp add: exists_iff)
    qed
    with False wf show ?thesis by (auto simp: add_dir_def exists_iff intro: wf_put)
  qed
  then show ?case by (simp add: t_def)
qed

lemma ancestors_clear: "\<not> list_ex (is_file s) (ancestors p) \<longleftrightarrow> (\<forall>n \<le> length p. \<not> is_file s (take n p))"
  by (auto simp: ancestors_def list_ex_iff le_less)

lemma wf_create_dir_all [keeps_intros]: "keeps wf_fs (std_create_dir_all p)"
  unfolding std_create_dir_all_def
proof (rule keeps_call)
  fix s :: fs assume "wf_fs s"
  then show "wf_fs (snd (if list_ex (is_file s) (ancestors p) then (Inl OtherKind, s)
      else (Inr (), fold add_dir (ancestors p) s)))"
    using wf_fold_add_dir [of s p "Suc (length p)"]
    by (simp add: ancestors_clear) (simp add: ancestors_def)
qed

lemma below_append: "below p q \<longleftrightarrow> (\<exists>r. q = p @ r)"
  by (metis append_eq_conv_conj append_take_drop_id below_def)

lemma below_refl [simp]: "below p p"
  and below_extend [simp]: "below p (p @ r)"
  by (simp_all add: below_def)

lemma node_at_move:
  assumes "\<not> below from to" and "\<not> below to from"
  shows "node_at (move_subtree from to s) q =
    (if below to q then node_at s (from @ drop (length to) q)
     else if below from q then None else node_at s q)"
proof -
  have apart: "\<not> (below from r \<and> below to r)" for r
    using assms by (metis append_eq_append_conv2 below_append)
  have "map_of (map (\<lambda>(q, n). if below from q then (to @ drop (length from) q, n) else (q, n))
        (filter (\<lambda>(q, _). \<not> below to q) ns)) q =
      (if below to q then map_of ns (from @ drop (length to) q)
       else if below from q then None else map_of ns q)" for ns :: "(path \<times> node) list"
  proof (induction ns)
    case (Cons x ns)
    obtain r n where x: "x = (r, n)" by (cases x)
    consider (moved) u where "r = from @ u" | (replaced) "below to r" "\<not> below from r"
      | (kept) "\<not> below from r" "\<not> below to r"
      by (auto simp: below_append)
    then show ?case
    proof cases
      case moved
      then have "\<not> below to r" using apart [of r] by simp
      with Cons x moved show ?thesis by (cases "below to q") (auto simp: below_append)
    next
      case replaced
      then have "from @ v \<noteq> r" for v by auto
      with Cons x replaced show ?thesis by (cases "below to q") (auto simp: below_append)
    next
      case kept
      with Cons x show ?thesis by (cases "below to q") (auto simp: below_append)
    qed
  qed simp
  then show ?thesis by (simp add: node_at_def move_subtree_def below_def)
qed

lemma below_trans_parent: "below p (butlast q) \<Longrightarrow> below p q"
  by (cases "q = []") (simp, metis append_assoc append_butlast_last_id below_append)

lemma wf_move_subtree:
  assumes wf: "wf_fs s" and "is_dir s from" and apart: "\<not> below from to" "\<not> below to from"
    and parent: "is_dir s (butlast to)"
  shows "wf_fs (move_subtree from to s)"
  unfolding wf_fs_def
proof (intro conjI allI impI)
  have "\<not> below to []" using apart by (auto simp: below_append)
  moreover have "\<not> below from []" using apart by (auto simp: below_append)
  ultimately show "is_dir (move_subtree from to s) []"
    using wf_root [OF wf] by (simp add: is_dir_def node_at_move [OF apart])
next
  fix q assume ex: "exists_path (move_subtree from to s) q" and "q \<noteq> []"
  have "to \<noteq> []" using apart by (auto simp: below_append)
  show "is_dir (move_subtree from to s) (butlast q)"
  proof (cases "below to q")
    case True
    then obtain r where q: "q = to @ r" by (auto simp: below_append)
    show ?thesis
    proof (cases "r = []")
      case True
      have "\<not> below to (butlast to)"
        using \<open>to \<noteq> []\<close> by (metis append_butlast_last_id below_append butlast_neq length_append_singleton
            less_Suc_eq_le linorder_not_less order_refl length_append trans_le_add1)
      moreover have "\<not> below from (butlast to)" using apart below_trans_parent by blast
      ultimately show ?thesis
        using True q parent by (simp add: is_dir_def node_at_move [OF apart])
    next
      case False
      with q have b: "butlast q = to @ butlast r" by (simp add: butlast_append)
      have "exists_path s (from @ r)"
        using ex q by (simp add: exists_path_def node_at_move [OF apart])
      then have "is_dir s (butlast (from @ r))" using wf_parent [OF wf] False by blast
      with False b show ?thesis
        by (simp add: is_dir_def node_at_move [OF apart] butlast_append below_append)
    qed
  next
    case False
    then have nf: "\<not> below from q" and "exists_path s q"
      using ex by (auto simp: exists_path_def node_at_move [OF apart] split: if_splits)
    then have "is_dir s (butlast q)" using wf_parent [OF wf] \<open>q \<noteq> []\<close> by blast
    moreover have "\<not> below to (butlast q)" "\<not> below from (butlast q)"
      using False nf below_trans_parent by blast+
    ultimately show ?thesis by (simp add: is_dir_def node_at_move [OF apart])
  qed
qed

lemma wf_rename [keeps_intros]: "keeps wf_fs (std_rename from to)"
  unfolding std_rename_def
proof (rule keeps_call)
  fix s :: fs assume wf: "wf_fs s"
  show "wf_fs (snd (rename_body from to s))"
  proof (cases "node_at s from")
    case (Some n)
    show ?thesis
    proof (cases n)
      case (File m b)
      have "wf_fs (put_node to (File m b) (drop_nodes (\<lambda>q. q = from) s))"
        if "creatable s to = None" "from \<noteq> to"
      proof (rule wf_put)
        show "wf_fs (drop_nodes (\<lambda>q. q = from) s)"
          using wf Some File by (intro wf_drop_file) (simp_all add: is_file_def)
        have "\<not> is_dir s from" using Some File by (simp add: is_dir_def)
        then show "is_dir (drop_nodes (\<lambda>q. q = from) s) (butlast to)"
          using that by (auto simp: creatable_def split: if_splits)
        show "is_dir (drop_nodes (\<lambda>q. q = from) s) to \<longrightarrow> (\<exists>m'. File m b = Dir m')"
          using that by (auto simp: creatable_def split: if_splits)
      qed
      with wf Some File show ?thesis by (simp add: rename_body_def split: option.split)
    next
      case (Dir m)
      have "wf_fs (move_subtree from to s)"
        if c: "\<not> (below from to \<and> from \<noteq> to)" "from \<noteq> to" "is_dir s (butlast to)"
          "\<not> list_ex (\<lambda>(q, _). below to q \<and> q \<noteq> to) (nodes s)"
      proof (rule wf_move_subtree [OF wf _ _ _ c(3)])
        show "is_dir s from" using Some Dir by (simp add: is_dir_def)
        show "\<not> below from to" using c(1,2) by blast
        have "(from, n) \<in> set (nodes s)" using Some by (simp add: node_at_def map_of_SomeD)
        then show "\<not> below to from" using c(2,4) by (auto simp: list_ex_iff)
      qed
      with wf Some Dir show ?thesis by (auto simp: rename_body_def)
    qed
  qed (use wf in \<open>simp add: rename_body_def\<close>)
qed

lemmas method_defs =
  writer_write_all_bytes_def writer_write_all_def writer_write_all_bytes_if_absent_def
  reader_read_all_bytes_def reader_read_all_def deleter_delete_def folder_deleter_delete_def
  renamer_rename_def copier_copy_def folder_canonicalize_def folder_create_recursively_def
  folder_entries_def folder_create_file_def inspect_read_metadata_def
  change_user_and_group_ownership_def change_mode_def get_user_and_group_ownership_def get_mode_def
  rotator_rotate_def

lemma keeps_if [keeps_intros]: "keeps I m \<Longrightarrow> keeps I m' \<Longrightarrow> keeps I (if b then m else m')"
  by simp

lemma keeps_case_option [keeps_intros]:
  "keeps I m \<Longrightarrow> (\<And>x. keeps I (f x)) \<Longrightarrow> keeps I (case y of None \<Rightarrow> m | Some x \<Rightarrow> f x)"
  by (simp split: option.split)

lemma keeps_case_sum [keeps_intros]:
  "(\<And>x. keeps I (f x)) \<Longrightarrow> (\<And>x. keeps I (g x)) \<Longrightarrow> keeps I (case y of Inl x \<Rightarrow> f x | Inr x \<Rightarrow> g x)"
  by (simp split: sum.split)

lemma keeps_case_prod [keeps_intros]:
  "(\<And>x y. keeps I (f x y)) \<Longrightarrow> keeps I (case z of (x, y) \<Rightarrow> f x y)"
  by (simp split: prod.split)

text \<open>
  No method of the file system traits can damage the tree, whatever system call is refused or
  torn on the way: the root stays a directory and everything that exists stays inside a directory.
\<close>

theorem methods_keep_tree:
  "keeps wf_fs (writer_write_all_bytes p b) \<and> keeps wf_fs (writer_write_all_bytes_if_absent p b) \<and>
   keeps wf_fs (reader_read_all p) \<and> keeps wf_fs (deleter_delete p) \<and>
   keeps wf_fs (folder_deleter_delete p) \<and> keeps wf_fs (renamer_rename p q) \<and>
   keeps wf_fs (copier_copy p q) \<and> keeps wf_fs (folder_create_recursively p) \<and>
   keeps wf_fs (folder_entries p) \<and> keeps wf_fs (folder_create_file p) \<and>
   keeps wf_fs (change_user_and_group_ownership p u g) \<and> keeps wf_fs (change_mode p md) \<and>
   keeps wf_fs (get_user_and_group_ownership p) \<and> keeps wf_fs (rotator_rotate p n)"
  unfolding method_defs by (intro conjI) (intro keeps_intros)+

section \<open>What is stored where\<close>

definition content :: "fs \<Rightarrow> path \<Rightarrow> string option" where
  "content s p = (case node_at s p of Some (File _ b) \<Rightarrow> Some b | _ \<Rightarrow> None)"

lemma content_put [simp]:
  "content (put_node p n s) q =
     (if q = p then (case n of File _ b \<Rightarrow> Some b | Dir _ \<Rightarrow> None) else content s q)"
  by (simp add: content_def split: node.split)

lemma content_drop [simp]: "content (drop_nodes P s) q = (if P q then None else content s q)"
  by (simp add: content_def)

lemma content_same: "same_tree s t \<Longrightarrow> content t = content s"
  by (simp add: content_def same_tree_node_at fun_eq_iff)

lemma content_is_file: "content s p = Some b \<Longrightarrow> is_file s p"
  by (auto simp: content_def is_file_def split: option.splits node.splits)

lemma file_content: "is_file s p \<Longrightarrow> \<exists>b. content s p = Some b"
  by (auto simp: content_def is_file_def split: option.splits node.splits)

lemma std_write_content:
  assumes "std_write p b s = (r, t)"
  shows "r = Inr () \<Longrightarrow> content t = (content s)(p := Some b)"
    and "q \<noteq> p \<Longrightarrow> content t q = content s q"
proof -
  obtain x s' where n: "next_outcome s = (x, s')" by (cases "next_outcome s") auto
  have c: "content s' = content s" using next_outcome_same [OF n] by (rule content_same)
  show "r = Inr () \<Longrightarrow> content t = (content s)(p := Some b)"
    and "q \<noteq> p \<Longrightarrow> content t q = content s q"
    using assms n
    by (auto simp: std_write_def fun_eq_iff simp flip: c split: outcome.splits option.splits)
qed

lemma std_write_succeeds:
  "calm s \<Longrightarrow> creatable s p = None \<Longrightarrow> std_write p b s = (Inr (), put_node p (File (meta_for s p) b) s)"
  by (simp add: std_write_def)

lemma std_read_content:
  assumes "std_read p s = (r, t)"
  shows "same_tree s t" and "r = Inr b \<Longrightarrow> content s p = Some b"
  using assms unfolding std_read_def
  by (auto elim!: call_cases simp: same_tree_node_at content_def split: option.splits node.splits)

lemma std_read_calm:
  "calm s \<Longrightarrow> std_read p s =
    ((case node_at s p of None \<Rightarrow> Inl NotFound | Some (Dir _) \<Rightarrow> Inl OtherKind | Some (File _ b) \<Rightarrow> Inr b), s)"
  by (simp add: std_read_def split: option.split node.split)

lemma std_remove_file_content:
  assumes "std_remove_file p s = (r, t)"
  shows "r = Inr () \<Longrightarrow> node_at t p = None \<and> content t = (content s)(p := None)"
    and "r \<noteq> Inr () \<Longrightarrow> same_tree s t"
  using assms unfolding std_remove_file_def
  by (auto elim!: call_cases simp: content_same fun_eq_iff split: option.splits node.splits)

lemma deleter_delete_content:
  assumes "deleter_delete p s = (r, t)"
  shows "r = Inr () \<Longrightarrow> node_at t p = None \<and> content t = (content s)(p := None)"
    and "r \<noteq> Inr () \<Longrightarrow> content t = content s"
proof -
  obtain r' t' where rm: "std_remove_file p s = (r', t')" by (cases "std_remove_file p s") auto
  have absent: "node_at s p = None \<Longrightarrow> content s p = None" by (simp add: content_def)
  from assms rm std_remove_file_content [OF rm] absent
  show "r = Inr () \<Longrightarrow> node_at t p = None \<and> content t = (content s)(p := None)"
    and "r \<noteq> Inr () \<Longrightarrow> content t = content s"
    by (auto simp: deleter_delete_def and_then_def gets_run map_err_def ok_def exists_path_def
        fun_eq_iff content_same split: if_splits sum.splits)
qed

section \<open>The interface for whole files\<close>

text \<open>
  What the clients of \<open>FileReader\<close>, \<open>FileWriter\<close> and \<open>FileDeleter\<close> rely on: \<open>stored\<close> is what
  a reader would see, a successful write or deletion changes it at one path, a failed one nowhere
  else, and when nothing interferes what is stored can be read.
\<close>

locale blob_store =
  fixes stored :: "'s \<Rightarrow> path \<Rightarrow> string option"
    and put_blob :: "path \<Rightarrow> string \<Rightarrow> ('s, fs_error, unit) prog"
    and get_blob :: "path \<Rightarrow> ('s, fs_error, string) prog"
    and del_blob :: "path \<Rightarrow> ('s, fs_error, unit) prog"
    and undisturbed :: "'s \<Rightarrow> bool"
  assumes write_ok: "put_blob p b s = (Inr (), t) \<Longrightarrow> stored t = (stored s)(p := Some b)"
    and write_frame: "put_blob p b s = (r, t) \<Longrightarrow> q \<noteq> p \<Longrightarrow> stored t q = stored s q"
    and read_ok: "get_blob p s = (Inr b, t) \<Longrightarrow> stored s p = Some b"
    and read_frame: "get_blob p s = (x, t) \<Longrightarrow> stored t = stored s"
    and read_stored: "undisturbed s \<Longrightarrow> stored s p = Some b \<Longrightarrow> is_utf8 b \<Longrightarrow> get_blob p s = (Inr b, s)"
    and delete_ok: "del_blob p s = (Inr (), t) \<Longrightarrow> stored t = (stored s)(p := None)"
    and delete_err: "del_blob p s = (Inl e, t) \<Longrightarrow> stored t = stored s"
    and read_deleted: "del_blob p s = (Inr (), t) \<Longrightarrow> undisturbed t \<Longrightarrow>
      \<exists>e. get_blob p t = (Inl e, t) \<and> is_not_found e"

definition read_if_present :: "(path \<Rightarrow> ('s, fs_error, string) prog) \<Rightarrow> path \<Rightarrow>
    ('s, fs_error, string option) prog" where
  "read_if_present get_blob p =
     and_then (attempt (get_blob p))
       (\<lambda>r. case r of
          Inr contents \<Rightarrow> ok (Some contents)
        | Inl err \<Rightarrow> if is_not_found err then ok None else fail err)"

context blob_store begin

lemma read_written:
  "put_blob p b s = (Inr (), t) \<Longrightarrow> undisturbed t \<Longrightarrow> is_utf8 b \<Longrightarrow> get_blob p t = (Inr b, t)"
  by (intro read_stored) (simp_all add: write_ok)

lemma present_after_write:
  "put_blob p b s = (Inr (), t) \<Longrightarrow> undisturbed t \<Longrightarrow> is_utf8 b \<Longrightarrow>
     read_if_present get_blob p t = (Inr (Some b), t)"
  by (simp add: read_if_present_def and_then_def attempt_run read_written ok_def)

lemma absent_after_delete:
  "del_blob p s = (Inr (), t) \<Longrightarrow> undisturbed t \<Longrightarrow> read_if_present get_blob p t = (Inr None, t)"
  using read_deleted [of p s t]
  by (auto simp: read_if_present_def and_then_def attempt_run ok_def)

lemma read_if_present_result:
  assumes "read_if_present get_blob p s = (r, t)"
  shows "stored t = stored s" and "r = Inr (Some b) \<Longrightarrow> stored s p = Some b"
proof -
  obtain r' t' where rd: "get_blob p s = (r', t')" by (cases "get_blob p s") auto
  from assms rd read_frame [OF rd] read_ok [of p s b t]
  show "stored t = stored s" and "r = Inr (Some b) \<Longrightarrow> stored s p = Some b"
    by (auto simp: read_if_present_def and_then_def attempt_run ok_def fail_def
        split: sum.splits if_splits)
qed

end

interpretation unix_files: blob_store content writer_write_all reader_read_all deleter_delete calm
proof
  fix p b q e and s t :: fs and r :: "fs_error + unit" and r' :: "fs_error + string"
  show "writer_write_all p b s = (Inr (), t) \<Longrightarrow> content t = (content s)(p := Some b)"
    unfolding writer_write_all_def writer_write_all_bytes_def
    by (erule map_err_InrE) (rule std_write_content(1), auto)
  show "writer_write_all p b s = (r, t) \<Longrightarrow> q \<noteq> p \<Longrightarrow> content t q = content s q"
    unfolding writer_write_all_def writer_write_all_bytes_def map_err_def
    by (auto split: prod.splits sum.splits dest: std_write_content(2))
  show "reader_read_all p s = (Inr b, t) \<Longrightarrow> content s p = Some b"
    unfolding reader_read_all_def
    by (auto elim!: map_err_InrE and_then_InrE split: if_splits simp: prog_simps
        dest: std_read_content(2))
  show "reader_read_all p s = (r', t) \<Longrightarrow> content t = content s"
    unfolding reader_read_all_def map_err_def and_then_def
    by (auto split: prod.splits sum.splits if_splits simp: prog_simps
        dest!: std_read_content(1) content_same)
  show "calm s \<Longrightarrow> content s p = Some b \<Longrightarrow> is_utf8 b \<Longrightarrow> reader_read_all p s = (Inr b, s)"
    by (auto simp: reader_read_all_def map_err_def and_then_def std_read_calm content_def ok_def
        split: option.splits node.splits)
  show "deleter_delete p s = (Inr (), t) \<Longrightarrow> content t = (content s)(p := None)"
    by (drule deleter_delete_content(1)) auto
  show "deleter_delete p s = (Inl e, t) \<Longrightarrow> content t = content s"
    by (drule deleter_delete_content(2)) auto
  show "\<exists>e. reader_read_all p t = (Inl e, t) \<and> is_not_found e"
    if "deleter_delete p s = (Inr (), t)" "calm t"
  proof -
    have "node_at t p = None" using deleter_delete_content(1) [OF that(1)] by simp
    with that(2) show ?thesis
      by (simp add: reader_read_all_def map_err_def and_then_def std_read_calm is_not_found_def)
  qed
qed

section \<open>Rotation\<close>

text \<open>The file itself is slot 0, its rotated copies are the slots from 1.\<close>

definition rotation_slot :: "path \<Rightarrow> nat \<Rightarrow> path" where
  "rotation_slot p n = (if n = 0 then p else rotated_path p n)"

lemma show_nat_inj: "show_nat m = show_nat n \<Longrightarrow> m = n"
  by (metis Inr_inject max.cobounded1 max.cobounded2 parse_uint_show)

lemma rotation_slot_inj: "p \<noteq> [] \<Longrightarrow> rotation_slot p m = rotation_slot p n \<longleftrightarrow> m = n"
proof -
  assume "p \<noteq> []"
  then have "last (rotated_path p n) = last p @ ''.'' @ show_nat n" for n
    by (simp add: rotated_path_def)
  then have "rotated_path p m = rotated_path p n \<Longrightarrow> m = n" and "p \<noteq> rotated_path p n" for m n
    by (metis append_same_eq same_append_eq show_nat_inj,
        metis append_self_conv list.distinct(1) append_Cons)
  moreover have "rotated_path p n \<noteq> p" for n using calculation(2) by metis
  ultimately show ?thesis by (auto simp: rotation_slot_def)
qed

lemma rotation_slot_parent: "p \<noteq> [] \<Longrightarrow> butlast (rotation_slot p n) = butlast p"
  by (simp add: rotation_slot_def rotated_path_def)

lemma is_file_content: "is_file s p \<longleftrightarrow> content s p \<noteq> None"
  using content_is_file file_content by force

lemma rename_into_gap:
  assumes "calm s" and "is_dir s (butlast b)" and "\<not> is_dir s a" "\<not> is_dir s b"
    and "content s b = None" and "a \<noteq> b"
  obtains r t where "std_rename a b s = (r, t)" "calm t" "is_dir t = is_dir s"
    "content t = (content s)(a := None, b := content s a)"
proof (cases "node_at s a")
  case None
  then have "content s a = None" by (simp add: content_def)
  with None assms that show thesis
    by (simp add: std_rename_def rename_body_def fun_upd_idem)
next
  case (Some n)
  with assms(3) obtain m c where n: "node_at s a = Some (File m c)"
    by (cases n) (auto simp: is_dir_def)
  have free: "creatable s b = None" using assms by (simp add: creatable_def)
  have dirs: "is_dir (put_node b (File m c) (drop_nodes (\<lambda>q. q = a) s)) = is_dir s"
    using assms by (auto simp: fun_eq_iff)
  have "content (put_node b (File m c) (drop_nodes (\<lambda>q. q = a) s)) = (content s)(a := None, b := content s a)"
    using n by (auto simp: fun_eq_iff content_def)
  with assms n free dirs that show thesis
    by (simp add: std_rename_def rename_body_def)
qed

definition rename_slots :: "path \<Rightarrow> nat \<Rightarrow> (fs, io_kind, unit) prog" where
  "rename_slots p k =
     for_each (\<lambda>n. ignore (std_rename (rotation_slot p n) (rotation_slot p (n + 1)))) (rev [0..<k])"

lemma rename_slots_shift:
  assumes "p \<noteq> []" and "calm s" and "is_dir s (butlast p)"
    and "\<And>n. n \<le> k \<Longrightarrow> \<not> is_dir s (rotation_slot p n)"
    and "content s (rotation_slot p k) = None"
  obtains t where "rename_slots p k s = (Inr (), t)" "content t p = None"
    "\<And>n. n < k \<Longrightarrow> content t (rotation_slot p (Suc n)) = content s (rotation_slot p n)"
    "\<And>q. q \<notin> rotation_slot p ` {0..k} \<Longrightarrow> content t q = content s q"
  using assms(2-)
proof (induction k arbitrary: s thesis)
  case 0
  then show ?case by (auto simp: rename_slots_def ok_def rotation_slot_def)
next
  case (Suc k)
  note inj = rotation_slot_inj [OF assms(1)]
  obtain r u where u: "std_rename (rotation_slot p k) (rotation_slot p (Suc k)) s = (r, u)"
    "calm u" "is_dir u = is_dir s"
    "content u = (content s)(rotation_slot p k := None,
       rotation_slot p (Suc k) := content s (rotation_slot p k))"
    using rename_into_gap [of s "rotation_slot p (Suc k)" "rotation_slot p k"] Suc.prems assms(1)
    by (auto simp: rotation_slot_parent inj)
  obtain t where t: "rename_slots p k u = (Inr (), t)" "content t p = None"
    "\<And>n. n < k \<Longrightarrow> content t (rotation_slot p (Suc n)) = content u (rotation_slot p n)"
    "\<And>q. q \<notin> rotation_slot p ` {0..k} \<Longrightarrow> content t q = content u q"
    using Suc.IH [of u] Suc.prems u by (auto simp: inj)
  have "rename_slots p (Suc k) s = (Inr (), t)"
    using u(1) t(1) by (simp add: rename_slots_def and_then_def ignore_run)
  moreover have "content t (rotation_slot p (Suc n)) = content s (rotation_slot p n)" if "n < Suc k" for n
  proof (cases "n = k")
    case True
    then have "rotation_slot p (Suc n) \<notin> rotation_slot p ` {0..k}" by (auto simp: inj)
    with True t(4) u(4) show ?thesis by simp
  next
    case False
    with that t(3) u(4) show ?thesis by (auto simp: inj)
  qed
  moreover have "content t q = content s q" if "q \<notin> rotation_slot p ` {0..Suc k}" for q
  proof -
    have "q \<notin> rotation_slot p ` {0..k}" "q \<noteq> rotation_slot p k" "q \<noteq> rotation_slot p (Suc k)"
      using that by auto
    with t(4) u(4) show ?thesis by simp
  qed
  ultimately show ?case using t(2) Suc.prems(1) by blast
qed

lemma for_each_cong: "(\<And>x. x \<in> set xs \<Longrightarrow> f x = g x) \<Longrightarrow> for_each f xs = for_each g xs"
  by (induction xs) auto

lemma ignore_then_ok: "and_then (ignore m) ok = ignore m"
  by (simp add: fun_eq_iff and_then_def ignore_run ok_def)

lemma rotator_as_slots:
  assumes "1 \<le> k"
  shows "rotator_rotate p k = and_then (ignore (std_remove_file (rotation_slot p k))) (\<lambda>_. rename_slots p k)"
proof -
  have "[0..<k] = 0 # [1..<k]" using assms by (simp add: upt_conv_Cons)
  then have slots: "rename_slots p k t =
      and_then (for_each (\<lambda>n. ignore (std_rename (rotation_slot p n) (rotation_slot p (n + 1)))) (rev [1..<k]))
        (\<lambda>_. ignore (std_rename (rotation_slot p 0) (rotation_slot p 1))) t" for t
    by (simp add: rename_slots_def for_each_append ignore_then_ok)
  have loop: "for_each (\<lambda>n. ignore (std_rename (rotation_slot p n) (rotation_slot p (n + 1)))) (rev [1..<k]) =
      for_each (\<lambda>n. ignore (std_rename (rotated_path p n) (rotated_path p (n + 1)))) (rev [1..<k])"
    by (rule for_each_cong) (simp add: rotation_slot_def)
  have ends: "rotation_slot p 0 = p" "rotation_slot p 1 = rotated_path p 1"
    "rotation_slot p k = rotated_path p k"
    using assms by (simp_all add: rotation_slot_def)
  show ?thesis
    by (rule ext) (simp only: rotator_rotate_def and_then_def slots loop ends)
qed

lemma remove_if_file:
  assumes "calm s" and "\<not> is_dir s p"
  obtains r t where "std_remove_file p s = (r, t)" "calm t" "is_dir t = is_dir s"
    "content t = (content s)(p := None)"
proof (cases "node_at s p")
  case None
  then have "content s p = None" by (simp add: content_def)
  with None assms that show thesis by (simp add: std_remove_file_def fun_upd_idem)
next
  case (Some n)
  with assms(2) obtain m b where n: "n = File m b" by (cases n) (auto simp: is_dir_def)
  have "is_dir (drop_nodes (\<lambda>q. q = p) s) = is_dir s"
    and "content (drop_nodes (\<lambda>q. q = p) s) = (content s)(p := None)"
    using assms by (auto simp: fun_eq_iff)
  with Some n assms that show thesis by (simp add: std_remove_file_def)
qed

text \<open>
  Rotation moves the file to slot 1 and the copy in every slot below the last to the next one;
  the copy in the last slot is gone, the name of the file is free, and no other file changes.  A gap
  in the slots is moved along like a copy.
\<close>

theorem rotation_shifts:
  assumes "p \<noteq> []" and "1 \<le> k" and "calm s" and "is_dir s (butlast p)"
    and "\<And>n. n \<le> k \<Longrightarrow> \<not> is_dir s (rotation_slot p n)"
  shows "\<exists>t. rotator_rotate p k s = (Inr (), t) \<and> content t p = None \<and>
    (\<forall>n < k. content t (rotated_path p (Suc n)) = content s (rotation_slot p n)) \<and>
    (\<forall>q. q \<noteq> p \<and> q \<notin> rotated_path p ` {1..k} \<longrightarrow> content t q = content s q)"
proof -
  note inj = rotation_slot_inj [OF assms(1)]
  obtain r u where rm: "std_remove_file (rotation_slot p k) s = (r, u)" and u: "calm u"
    "is_dir u = is_dir s" "content u = (content s)(rotation_slot p k := None)"
    using remove_if_file [of s "rotation_slot p k"] assms(3,5) by blast
  obtain t where t: "rename_slots p k u = (Inr (), t)" "content t p = None"
    "\<And>n. n < k \<Longrightarrow> content t (rotation_slot p (Suc n)) = content u (rotation_slot p n)"
    "\<And>q. q \<notin> rotation_slot p ` {0..k} \<Longrightarrow> content t q = content u q"
    using rename_slots_shift [of p u k] assms u by auto
  have "rotator_rotate p k s = (Inr (), t)"
    using rm t(1) by (simp add: rotator_as_slots [OF assms(2)] and_then_def ignore_run)
  moreover have "content t (rotated_path p (Suc n)) = content s (rotation_slot p n)" if "n < k" for n
    using t(3) [OF that] u(3) that by (simp add: inj) (simp add: rotation_slot_def)
  moreover have "content t q = content s q" if "q \<noteq> p" "q \<notin> rotated_path p ` {1..k}" for q
  proof -
    have "q \<notin> rotation_slot p ` {0..k}" using that by (auto simp: rotation_slot_def)
    moreover from this have "q \<noteq> rotation_slot p k" by auto
    ultimately show ?thesis using t(4) u(3) by simp
  qed
  ultimately show ?thesis using t(2) by blast
qed

definition root_meta :: meta where
  "root_meta = \<lparr>user = ''root'', group = ''root'', mode = 0x180\<rparr>"

theorem rotation_shifts_witness:
  "\<exists>t. rotator_rotate [''log''] 2
      \<lparr>nodes = [([], Dir root_meta), ([''log''], File root_meta ''new''), ([''log.1''], File root_meta ''old''), ([''log.2''], File root_meta ''oldest'')],
       outcomes = [], creator = root_meta, known_users = [], known_groups = []\<rparr> = (Inr (), t) \<and>
     content t [''log''] = None \<and> content t [''log.1''] = Some ''new'' \<and> content t [''log.2''] = Some ''old''"
proof -
  let ?s = "\<lparr>nodes = [([], Dir root_meta), ([''log''], File root_meta ''new''), ([''log.1''], File root_meta ''old''), ([''log.2''], File root_meta ''oldest'')],
       outcomes = [], creator = root_meta, known_users = [], known_groups = []\<rparr>"
  have digits: "digit_char (Suc 0) = CHR ''1''" "digit_char 2 = CHR ''2''" by code_simp+
  have slots: "rotated_path [''log''] (Suc 0) = [''log.1'']" "rotated_path [''log''] (Suc (Suc 0)) = [''log.2'']"
    by (simp_all add: rotated_path_def show_nat.simps digits flip: numeral_2_eq_2)
  have "\<not> is_dir ?s (rotation_slot [''log''] n)" for n
    by (simp add: is_dir_def node_at_def rotation_slot_def rotated_path_def)
  then obtain t where t: "rotator_rotate [''log''] 2 ?s = (Inr (), t)" "content t [''log''] = None"
    "\<forall>n < 2. content t (rotated_path [''log''] (Suc n)) = content ?s (rotation_slot [''log''] n)"
    using rotation_shifts [of "[''log'']" 2 ?s] by (auto simp: calm_def is_dir_def node_at_def)
  from t(3) [rule_format, of 0] t(3) [rule_format, of 1] have "content t [''log.1''] = Some ''new''"
    "content t [''log.2''] = Some ''old''"
    by (simp_all add: slots rotation_slot_def content_def node_at_def)
  with t show ?thesis by blast
qed

end
