(* ===== verification/SeedbankTypes.thy ===== *)
theory SeedbankTypes
  imports DockerTypes UnixFiles
begin

text \<open>
  The types that seedbank stores and serves (seedbank_types/src/lib.rs), and the relative paths of
  \<open>file_system\<close> that occur in them.  A HashMap is the list of its entries and a HashSet the list of
  its elements, in the order an iteration visits them; no theorem depends on that order.
\<close>

section \<open>Relative paths\<close>

datatype path_component = RootDir | CurDir | ParentDir | Normal string

text \<open>\<open>Path::components\<close>: repeated separators and inner dots disappear.\<close>

definition path_components :: "string \<Rightarrow> path_component list" where
  "path_components s =
     (let pieces = split_on CHR ''/'' s
      in (if hd pieces = [] \<and> s \<noteq> [] then [RootDir]
          else if hd pieces = ''.'' then [CurDir] else []) @
         map (\<lambda>p. if p = ''..'' then ParentDir else Normal p)
           (filter (\<lambda>p. p \<noteq> [] \<and> p \<noteq> ''.'') pieces))"

datatype relative_path_error = NotUtf8 | InvalidSegment string | NotRelative

type_synonym relative_path = "string list"

fun relative_path_of :: "regex \<Rightarrow> path_component list \<Rightarrow> relative_path_error + relative_path" where
  "relative_path_of im [] = Inr []"
| "relative_path_of im (Normal segment # cs) =
     (if \<not> is_utf8 segment then Inl NotUtf8
      else if \<not> im segment_pattern segment then Inl (InvalidSegment segment)
      else map_sum id ((#) segment) (relative_path_of im cs))"
| "relative_path_of im (_ # cs) = Inl NotRelative"

definition relative_path_from_str :: "regex \<Rightarrow> string \<Rightarrow> relative_path_error + relative_path" where
  "relative_path_from_str im s = relative_path_of im (path_components s)"

definition show_relative_path :: "relative_path \<Rightarrow> string" where
  "show_relative_path r = join_with ''/'' r"

text \<open>\<open>Folder::create_relative_path\<close>; a \<open>path\<close> is always normalized.\<close>

definition create_relative_path :: "regex \<Rightarrow> path \<Rightarrow> path \<Rightarrow> fs_error + relative_path" where
  "create_relative_path im root child =
     (if length child < length root then Inl (NotChild root child)
      else if take (length root) child \<noteq> root then Inl (NotChild root child)
      else (case relative_path_of im (map Normal (drop (length root) child)) of
              Inl _ \<Rightarrow> Inl (InvalidPath child)
            | Inr r \<Rightarrow> Inr r))"

section \<open>Versions and ids\<close>

type_synonym name = string
type_synonym seedling_version = "16 word"
type_synonym seedling_id = "16 word"

definition MAX_SEEDLINGS :: "16 word" where
  "MAX_SEEDLINGS = 4096"

definition RESERVED_SEEDLING_NAMES :: "string list" where
  "RESERVED_SEEDLING_NAMES = [''traefik'', ''default'']"

definition version_from_str :: "string \<Rightarrow> parse_int_error + seedling_version" where
  "version_from_str s = map_sum id of_nat (parse_uint u16_max s)"

definition show_u16 :: "16 word \<Rightarrow> string" where
  "show_u16 v = show_nat (unat v)"

datatype id_parse_error = TooLarge "16 word" | IdParseIntError parse_int_error

definition id_assert_is_valid :: "16 word \<Rightarrow> id_parse_error + unit" where
  "id_assert_is_valid v = (if MAX_SEEDLINGS \<le> v then Inl (TooLarge v) else Inr ())"

definition id_from_str :: "string \<Rightarrow> id_parse_error + seedling_id" where
  "id_from_str s =
     (case parse_uint u16_max s of
        Inl e \<Rightarrow> Inl (IdParseIntError e)
      | Inr n \<Rightarrow>
          (case id_assert_is_valid (of_nat n) of Inl e \<Rightarrow> Inl e | Inr _ \<Rightarrow> Inr (of_nat n)))"

datatype seedling_status = Defined seedling_version | Unknown

section \<open>Mounts\<close>

datatype mount_kind = Persisted | PersistedShared "name list" | InMemory

record mount_file =
  file_relative_path :: relative_path
  file_bytes :: string

datatype mount_contents = FolderOnly relative_path | FileContents mount_file

fun contents_path :: "mount_contents \<Rightarrow> relative_path" where
  "contents_path (FolderOnly p) = p"
| "contents_path (FileContents f) = file_relative_path f"

definition mount_file_contents :: "regex \<Rightarrow> string \<Rightarrow> string \<Rightarrow> relative_path_error + mount_contents" where
  "mount_file_contents im p bytes =
     map_sum id (\<lambda>r. FileContents \<lparr>file_relative_path = r, file_bytes = bytes\<rparr>) (relative_path_from_str im p)"

definition mount_folder_only :: "regex \<Rightarrow> string \<Rightarrow> relative_path_error + mount_contents" where
  "mount_folder_only im p = map_sum id FolderOnly (relative_path_from_str im p)"

datatype access_mode = ReadOnly | Writable

record mount =
  mount_kind :: mount_kind
  remote_path :: path
  mount_contents :: "mount_contents list"
  mount_access :: access_mode
  rotate_logs :: bool

definition mount_with_files :: "mount_kind \<Rightarrow> path \<Rightarrow> access_mode \<Rightarrow> mount_contents list \<Rightarrow> mount" where
  "mount_with_files k remote access contents =
     \<lparr>mount_kind = k, remote_path = remote, mount_contents = contents, mount_access = access,
      rotate_logs = False\<rparr>"

definition mount_empty :: "mount_kind \<Rightarrow> path \<Rightarrow> access_mode \<Rightarrow> mount" where
  "mount_empty k remote access = mount_with_files k remote access []"

definition rotating_logs :: "mount \<Rightarrow> mount" where
  "rotating_logs mt = mt\<lparr>rotate_logs := True\<rparr>"

section \<open>Definitions\<close>

datatype route_spec = RootRoute | Subdomain

record port_mapping =
  external :: "16 word"
  internal :: "16 word"

record port_spec =
  public_port :: "16 word"
  additional :: "port_mapping list"

datatype routing = Unrouted | Routed route_spec port_spec

record secrets_access =
  may_read :: bool
  may_write :: bool

datatype origin = Core | User

datatype image_source = Local | External image_reference

text \<open>\<open>ImageSource::resolve\<close>: the host of the upstream registry becomes the first part of the path in
  the local registry, so it has to be a path component itself.\<close>

definition resolve_image :: "regex \<Rightarrow> image_source \<Rightarrow> name \<Rightarrow> refined_error + pull_target" where
  "resolve_image im source seedling_name =
     (case source of
        Local \<Rightarrow> Inr (pull_target_latest seedling_name)
      | External r \<Rightarrow>
          (case component_from_str im (ref_registry r) of
             Inl e \<Rightarrow> Inl e
           | Inr c \<Rightarrow>
               Inr \<lparr>pull_path = [c] @ (case ref_namespace r of Some n \<Rightarrow> [n] | None \<Rightarrow> []) @ [ref_name r],
                    pull_version = Specific (ref_version r)\<rparr>))"

record health_check =
  check_command :: string
  wait_time_in_seconds :: "8 word"

definition health_check_command_from_str :: "string \<Rightarrow> string option" where
  "health_check_command_from_str s = (if s = [] then None else Some s)"

datatype capability = IpcLock | Chown

fun show_capability :: "capability \<Rightarrow> string" where
  "show_capability IpcLock = ''IPC_LOCK''"
| "show_capability Chown = ''CAP_CHOWN''"

definition deserialize_capability :: "string \<Rightarrow> capability option" where
  "deserialize_capability s =
     (if s = ''IPC_LOCK'' then Some IpcLock else if s = ''CAP_CHOWN'' then Some Chown else None)"

record seedling_definition =
  image :: image_source
  mounts :: "(name \<times> mount) list"
  routing :: routing
  published_ports :: "port_mapping list"
  command :: "string option"
  added_capabilities :: "capability list"
  secrets :: "secrets_access option"
  origin :: origin
  health_check :: health_check

definition seedling_definition_new ::
    "image_source \<Rightarrow> (name \<times> mount) list \<Rightarrow> routing \<Rightarrow> health_check \<Rightarrow> seedling_definition" where
  "seedling_definition_new i ms r h =
     \<lparr>image = i, mounts = ms, routing = r, published_ports = [], command = None,
      added_capabilities = [], secrets = None, origin = User, health_check = h\<rparr>"

record seedling =
  seedling_id :: seedling_id
  seedling_name :: name
  seedling_version :: seedling_version
  seedling_definition :: seedling_definition

datatype desired_run_status = Running | Stopped

record health_check_log =
  fail_count :: "8 word"
  updated_at :: nat

definition health_check_log_default :: "nat \<Rightarrow> health_check_log" where
  "health_check_log_default now = \<lparr>fail_count = 1, updated_at = now\<rparr>"

definition reached_max_fail_count :: "health_check_log \<Rightarrow> bool" where
  "reached_max_fail_count l \<longleftrightarrow> 5 < fail_count l"

definition health_log_increment :: "nat \<Rightarrow> health_check_log \<Rightarrow> health_check_log" where
  "health_log_increment now l = l\<lparr>fail_count := fail_count l + 1, updated_at := now\<rparr>"

section \<open>Names and paths are safe\<close>

lemma relative_path_of_Inr:
  "relative_path_of im cs = Inr r \<Longrightarrow> cs = map Normal r \<and> list_all (\<lambda>s. is_utf8 s \<and> im segment_pattern s) r"
proof (induction im cs arbitrary: r rule: relative_path_of.induct)
  case (2 im segment cs)
  then show ?case
    by (cases "relative_path_of im cs") (auto split: if_splits)
qed auto

lemma relative_path_of_map:
  "list_all (\<lambda>s. is_utf8 s \<and> im segment_pattern s) r \<Longrightarrow> relative_path_of im (map Normal r) = Inr r"
  by (induction r) auto

lemma segment_word:
  assumes "documented_regex im" and "im segment_pattern s"
  shows "s \<noteq> []" and "\<forall>c \<in> set s. word_char c" and "s \<noteq> ''.''" and "s \<noteq> ''..''" and "is_utf8 s"
proof -
  have not_nil: "\<not> im segment_pattern []"
    by (simp add: documented_patterns [OF assms(1)] dotted_def Plus_def)
  show "s \<noteq> []" using assms(2) not_nil by auto
  show w: "\<forall>c \<in> set s. word_char c" using accepted_words(2) [OF assms] .
  have "alnum c" if "s = c # t" for c t using accepted_start(2) [OF assms(1)] assms(2) that by auto
  then have "\<not> alnum CHR ''.'' \<Longrightarrow> s \<noteq> ''.''" and "\<not> alnum CHR ''.'' \<Longrightarrow> s \<noteq> ''..''" by auto
  moreover have "\<not> alnum CHR ''.''" by code_simp
  ultimately show "s \<noteq> ''.''" and "s \<noteq> ''..''" by auto
  show "is_utf8 s" using word_ascii [OF w] by (rule ascii_utf8)
qed

text \<open>
  A relative path read from a string names something below the folder it is joined to: it has no
  root, no \<open>.\<close> or \<open>..\<close> and no separator inside a segment; printed and parsed again it is the same
  path, and \<open>create_relative_path\<close> recovers it from the joined path.
\<close>

theorem relative_paths_stay_below:
  assumes "documented_regex im" and "relative_path_from_str im text = Inr r"
  shows "path_components text = map Normal r \<and>
    list_all (\<lambda>s. s \<noteq> [] \<and> s \<noteq> ''.'' \<and> s \<noteq> ''..'' \<and> CHR ''/'' \<notin> set s) r \<and>
    relative_path_from_str im (show_relative_path r) = Inr r \<and>
    create_relative_path im root (root @ r) = Inr r"
proof -
  from assms(2) have cs: "path_components text = map Normal r"
    and segs: "list_all (\<lambda>s. is_utf8 s \<and> im segment_pattern s) r"
    by (auto simp: relative_path_from_str_def dest: relative_path_of_Inr)
  have safe: "list_all (\<lambda>s. s \<noteq> [] \<and> s \<noteq> ''.'' \<and> s \<noteq> ''..'' \<and> CHR ''/'' \<notin> set s) r"
    using segs by (rule list.pred_mono_strong)
      (use segment_word [OF assms(1)] word_no_separator(1) in \<open>auto simp del: not_None_eq\<close>)
  have again: "path_components (show_relative_path r) = map Normal r"
  proof (cases "r = []")
    case False
    have "hd r \<noteq> []" "hd r \<noteq> ''.''" using False safe by (auto simp: list_all_iff neq_Nil_conv)
    moreover have "split_on CHR ''/'' (show_relative_path r) = r"
      unfolding show_relative_path_def using False safe by (intro split_join) (auto simp: list_all_iff)
    moreover have "filter (\<lambda>p. p \<noteq> [] \<and> p \<noteq> ''.'') r = r"
      using safe by (intro filter_True) (auto simp: list_all_iff)
    moreover have "map (\<lambda>p. if p = ''..'' then ParentDir else Normal p) r = map Normal r"
      using safe by (intro map_cong) (auto simp: list_all_iff)
    ultimately show ?thesis
      unfolding path_components_def Let_def by (simp only: simp_thms if_False append_Nil)
  qed (simp add: path_components_def show_relative_path_def)
  with cs safe segs show ?thesis
    by (simp add: relative_path_from_str_def relative_path_of_map create_relative_path_def)
qed

theorem relative_paths_stay_below_witness:
  "create_relative_path table_regex [''srv''] ([''srv''] @ [''conf'', ''a.yml'']) = Inr [''conf'', ''a.yml'']"
proof -
  have "relative_path_from_str table_regex ''conf//a.yml'' = Inr [''conf'', ''a.yml'']" by code_simp
  from relative_paths_stay_below [OF table_regex_documented this] show ?thesis by blast
qed

lemma name_word:
  assumes "documented_regex im" and "name_from_str im s = Inr t"
  shows "t = s" and "s \<noteq> []" and "length s \<le> 16" and "\<forall>c \<in> set s. word_char c"
  using assms(2) accepted_words(1) [OF assms(1), of s] by (auto simp: name_from_str_def validated_Inr)

lemma u16_le: "unat (v :: 16 word) \<le> u16_max"
proof -
  have "unat v < 2 ^ LENGTH(16)" by (rule unsigned_less)
  then show ?thesis by simp
qed

lemma show_u16_round_trip [simp]: "version_from_str (show_u16 v) = Inr v"
proof -
  have "unat v \<le> u16_max" by (rule u16_le)
  then show ?thesis by (simp add: version_from_str_def show_u16_def parse_uint_show)
qed

lemma id_round_trip: "v < MAX_SEEDLINGS \<Longrightarrow> id_from_str (show_u16 v) = Inr v"
proof -
  assume "v < MAX_SEEDLINGS"
  moreover have "unat v \<le> u16_max" by (rule u16_le)
  ultimately show ?thesis
    by (simp add: id_from_str_def show_u16_def parse_uint_show id_assert_is_valid_def not_le)
qed

lemma id_from_str_bound: "id_from_str s = Inr v \<Longrightarrow> v < MAX_SEEDLINGS"
  by (auto simp: id_from_str_def id_assert_is_valid_def split: sum.splits if_splits)

end
