(* ===== verification/Seedbank.thy ===== *)
theory Seedbank
  imports SeedbankTypes
begin

text \<open>
  The seedbank service (seedbank/src/lib.rs, protocol.rs, registration_protocol.rs): the store of
  seedling definitions in a folder.  The state is the file system; a seedling is the folder
  \<open>seeds/<name>\<close> with the files \<open>id\<close>, \<open>version\<close>, \<open>seedling.toml\<close>, \<open>health.log\<close>,
  \<open>desired_run_state\<close> and the folder \<open>mounts\<close>; \<open>seeds/default\<close> names the default seedling.  TOML and
  JSON (derived by serde) and the regex crate are the record \<open>codecs\<close>; the clock is an argument.
  Every operation is one request, run to its end; progress reporting is left out.
\<close>

record codecs =
  is_match :: regex
  print_definition :: "seedling_definition \<Rightarrow> string option"
  parse_definition :: "string \<Rightarrow> seedling_definition option"
  print_health_log :: "health_check_log \<Rightarrow> string option"
  parse_health_log :: "string \<Rightarrow> health_check_log option"
  print_run_status :: "desired_run_status \<Rightarrow> string option"
  parse_run_status :: "string \<Rightarrow> desired_run_status option"

record server =
  seeds :: path
  codecs :: codecs

datatype seedbank_error =
    AlreadyExists name
  | SeedlingNotFound name
  | InvalidVersion
  | TooManySeedlings
  | DefaultAlreadyClaimed name
  | FileSystemError fs_error
  | NameParseError refined_error
  | IdParseError id_parse_error
  | VersionParseError parse_int_error
  | SeedlingSerializationError
  | SeedlingDeserializationError
  | SupportFileSerializationError
  | OutOfFuel

type_synonym 'a request = "(fs, seedbank_error, 'a) prog"

section \<open>Paths\<close>

definition create_seedling_path :: "server \<Rightarrow> name \<Rightarrow> path" where
  "create_seedling_path sv name = seeds sv @ [name]"

definition definition_path :: "server \<Rightarrow> name \<Rightarrow> path" where
  "definition_path sv name = create_seedling_path sv name @ [''seedling.toml'']"

definition default_path :: "server \<Rightarrow> path" where
  "default_path sv = seeds sv @ [''default'']"

definition id_path :: "server \<Rightarrow> name \<Rightarrow> path" where
  "id_path sv name = create_seedling_path sv name @ [''id'']"

definition health_log_path :: "server \<Rightarrow> name \<Rightarrow> path" where
  "health_log_path sv name = create_seedling_path sv name @ [''health.log'']"

definition desired_run_state_path :: "server \<Rightarrow> name \<Rightarrow> path" where
  "desired_run_state_path sv name = create_seedling_path sv name @ [''desired_run_state'']"

definition version_path :: "server \<Rightarrow> name \<Rightarrow> path" where
  "version_path sv name = create_seedling_path sv name @ [''version'']"

definition mounts_root :: "server \<Rightarrow> name \<Rightarrow> path" where
  "mounts_root sv name = create_seedling_path sv name @ [''mounts'']"

definition mount_root :: "server \<Rightarrow> name \<Rightarrow> name \<Rightarrow> path" where
  "mount_root sv name mount_name = mounts_root sv name @ [mount_name]"

definition mount_file :: "server \<Rightarrow> name \<Rightarrow> name \<Rightarrow> relative_path \<Rightarrow> path" where
  "mount_file sv name mount_name file = mount_root sv name mount_name @ file"

lemmas path_defs =
  create_seedling_path_def definition_path_def default_path_def id_path_def health_log_path_def
  desired_run_state_path_def version_path_def mounts_root_def mount_root_def mount_file_def

section \<open>Reading\<close>

text \<open>The arms that turn a missing file into something else match \<open>IoErrorAtPath\<close> only.\<close>

definition missing_at_path :: "fs_error \<Rightarrow> bool" where
  "missing_at_path e = (case e of IoErrorAtPath _ k \<Rightarrow> k = NotFound | _ \<Rightarrow> False)"

definition read_default :: "server \<Rightarrow> name option request" where
  "read_default sv =
     and_then (attempt (reader_read_all (default_path sv)))
       (\<lambda>r. case r of
          Inr raw \<Rightarrow> map_err NameParseError (of_result (map_sum id Some (name_from_str (is_match (codecs sv)) (trim raw))))
        | Inl e \<Rightarrow> if missing_at_path e then ok None else fail (FileSystemError e))"

definition seedling_exists :: "server \<Rightarrow> name \<Rightarrow> bool request" where
  "seedling_exists sv name = gets (\<lambda>s. folder_exists s (create_seedling_path sv name))"

definition ensure_exists :: "server \<Rightarrow> name \<Rightarrow> unit request" where
  "ensure_exists sv name =
     and_then (seedling_exists sv name)
       (\<lambda>present. if \<not> present then fail (SeedlingNotFound name) else ok ())"

definition read_json_blob :: "(string \<Rightarrow> 'a option) \<Rightarrow> path \<Rightarrow> 'a option request" where
  "read_json_blob parse p =
     and_then (attempt (reader_read_all p))
       (\<lambda>r. case r of
          Inr contents \<Rightarrow>
            (case parse contents of None \<Rightarrow> fail SupportFileSerializationError | Some a \<Rightarrow> ok (Some a))
        | Inl e \<Rightarrow> if missing_at_path e then ok None else fail (FileSystemError e))"

definition write_json_blob :: "('a \<Rightarrow> string option) \<Rightarrow> path \<Rightarrow> 'a \<Rightarrow> unit request" where
  "write_json_blob print p a =
     (case print a of
        None \<Rightarrow> fail SupportFileSerializationError
      | Some contents \<Rightarrow> map_err FileSystemError (writer_write_all p contents))"

definition list_seedlings :: "server \<Rightarrow> name list request" where
  "list_seedlings sv =
     and_then (map_err FileSystemError (folder_entries (seeds sv)))
       (\<lambda>entries. ok (List.map_filter
          (\<lambda>e. case name_from_str (is_match (codecs sv)) (entry_name e) of Inr n \<Rightarrow> Some n | Inl _ \<Rightarrow> None)
          (filter (\<lambda>e. entry_kind e = DirectoryKind) entries)))"

definition load_id :: "server \<Rightarrow> name \<Rightarrow> seedling_id request" where
  "load_id sv name =
     and_then (attempt (reader_read_all (id_path sv name)))
       (\<lambda>r. case r of
          Inr raw \<Rightarrow> map_err IdParseError (of_result (id_from_str (trim raw)))
        | Inl e \<Rightarrow> if missing_at_path e then fail (SeedlingNotFound name) else fail (FileSystemError e))"

definition load_version :: "server \<Rightarrow> name \<Rightarrow> seedling_version request" where
  "load_version sv name =
     and_then (attempt (reader_read_all (version_path sv name)))
       (\<lambda>r. case r of
          Inr raw \<Rightarrow> map_err VersionParseError (of_result (version_from_str (trim raw)))
        | Inl e \<Rightarrow> if missing_at_path e then fail (SeedlingNotFound name) else fail (FileSystemError e))"

definition seedling_status :: "server \<Rightarrow> name \<Rightarrow> seedling_status request" where
  "seedling_status sv name =
     and_then (seedling_exists sv name)
       (\<lambda>present. if present then and_then (load_version sv name) (\<lambda>v. ok (Defined v)) else ok Unknown)"

text \<open>\<open>(0..MAX_SEEDLINGS).find(|id| !used.contains(id))\<close>.\<close>

function first_unused :: "nat \<Rightarrow> seedling_id list \<Rightarrow> nat \<Rightarrow> seedling_id option" where
  "first_unused n used i =
     (if n \<le> i then None
      else if of_nat i \<notin> set used then Some (of_nat i)
      else first_unused n used (Suc i))"
  by pat_completeness auto
termination
  by (relation "measure (\<lambda>(n, used, i). n - i)") auto

declare first_unused.simps [simp del]

definition used_id :: "server \<Rightarrow> name \<Rightarrow> seedling_id option request" where
  "used_id sv name =
     and_then (attempt (load_id sv name))
       (\<lambda>r. case r of
          Inr i \<Rightarrow> ok (Some i)
        | Inl (SeedlingNotFound _) \<Rightarrow> ok None
        | Inl e \<Rightarrow> fail e)"

definition get_next_id :: "server \<Rightarrow> seedling_id request" where
  "get_next_id sv =
     and_then (list_seedlings sv) (\<lambda>names.
     and_then (collect_results (used_id sv) names) (\<lambda>ids.
       case first_unused (unat MAX_SEEDLINGS) (List.map_filter id ids) 0 of
         Some i \<Rightarrow> ok i
       | None \<Rightarrow> fail TooManySeedlings))"

section \<open>Loading a definition\<close>

fun fold_prog :: "('a \<Rightarrow> 'b \<Rightarrow> ('s, 'e, 'b) prog) \<Rightarrow> 'a list \<Rightarrow> 'b \<Rightarrow> ('s, 'e, 'b) prog" where
  "fold_prog f [] b = ok b"
| "fold_prog f (x # xs) b = and_then (f x b) (fold_prog f xs)"

definition insert_contents :: "mount_contents \<Rightarrow> mount_contents list \<Rightarrow> mount_contents list" where
  "insert_contents c cs = (if c \<in> set cs then cs else cs @ [c])"

text \<open>The recursion goes down the folders of a mount; the fuel bounds its depth.\<close>

fun populate_mount_contents :: "nat \<Rightarrow> server \<Rightarrow> path \<Rightarrow> entry \<Rightarrow> mount_contents list \<Rightarrow>
    mount_contents list request" where
  "populate_mount_contents 0 sv root e cs = fail OutOfFuel"
| "populate_mount_contents (Suc fuel) sv root e cs =
     (let relative = map_err FileSystemError
            (of_result (create_relative_path (is_match (codecs sv)) root (entry_path e)))
      in case entry_kind e of
           FileKind \<Rightarrow>
             and_then relative (\<lambda>r.
             and_then (map_err FileSystemError (reader_read_all_bytes (entry_path e))) (\<lambda>b.
               ok (insert_contents (FileContents \<lparr>file_relative_path = r, file_bytes = b\<rparr>) cs)))
         | DirectoryKind \<Rightarrow>
             and_then (map_err FileSystemError (folder_entries (entry_path e))) (\<lambda>entries.
               if entries = [] then and_then relative (\<lambda>r. ok (insert_contents (FolderOnly r) cs))
               else fold_prog (\<lambda>e' cs'. populate_mount_contents fuel sv root e' cs') entries cs))"

definition longest_path :: "fs \<Rightarrow> nat" where
  "longest_path s = foldr max (map (\<lambda>(p, _). length p) (nodes s)) 0"

definition hydrate_mount_contents :: "server \<Rightarrow> name \<Rightarrow> name \<Rightarrow> mount \<Rightarrow> mount request" where
  "hydrate_mount_contents sv name mount_name mt =
     (let root = mount_root sv name mount_name
      in and_then (map_err FileSystemError (inspect_read_metadata root)) (\<lambda>e.
         and_then (gets (\<lambda>s. Suc (longest_path s))) (\<lambda>fuel.
         and_then (populate_mount_contents fuel sv root e (mount_contents mt)) (\<lambda>cs.
           ok (mt\<lparr>mount_contents := cs\<rparr>)))))"

definition hydrate_mounts :: "server \<Rightarrow> name \<Rightarrow> seedling_definition \<Rightarrow> seedling_definition request" where
  "hydrate_mounts sv name d =
     and_then
       (collect_results
          (\<lambda>(mount_name, mt). and_then (hydrate_mount_contents sv name mount_name mt)
             (\<lambda>mt'. ok (mount_name, mt'))) (mounts d))
       (\<lambda>ms. ok (d\<lparr>mounts := ms\<rparr>))"

definition load_definition :: "server \<Rightarrow> name \<Rightarrow> seedling_definition request" where
  "load_definition sv name =
     and_then (attempt (reader_read_all (definition_path sv name)))
       (\<lambda>r. case r of
          Inr raw \<Rightarrow>
            (case parse_definition (codecs sv) raw of
               None \<Rightarrow> fail SeedlingDeserializationError
             | Some d \<Rightarrow> hydrate_mounts sv name d)
        | Inl e \<Rightarrow>
            if missing_at_path e then fail (SeedlingNotFound name) else fail (FileSystemError e))"

definition load_seedling :: "server \<Rightarrow> name \<Rightarrow> seedling request" where
  "load_seedling sv name =
     and_then (load_definition sv name) (\<lambda>d.
     and_then (load_id sv name) (\<lambda>i.
     and_then (load_version sv name) (\<lambda>v.
       ok \<lparr>seedling_id = i, seedling_name = name, seedling_version = v, seedling_definition = d\<rparr>)))"

section \<open>Writing a definition\<close>

definition create_mount_lookup :: "seedling_definition option \<Rightarrow> (name \<times> mount_contents list) list" where
  "create_mount_lookup d =
     (case d of None \<Rightarrow> [] | Some d \<Rightarrow> map (\<lambda>(n, mt). (n, mount_contents mt)) (mounts d))"

definition delete_mount_contents :: "server \<Rightarrow> name \<Rightarrow> name \<Rightarrow> mount_contents \<Rightarrow> (fs, fs_error, unit) prog" where
  "delete_mount_contents sv name mount_name contents =
     (let p = mount_file sv name mount_name (contents_path contents)
      in case contents of
           FileContents _ \<Rightarrow> deleter_delete p
         | FolderOnly _ \<Rightarrow> folder_deleter_delete p)"

definition purge_mounts :: "server \<Rightarrow> name \<Rightarrow> seedling_definition option \<Rightarrow> seedling_definition \<Rightarrow>
    (fs, fs_error, unit) prog" where
  "purge_mounts sv name current proposed =
     for_each
       (\<lambda>(mount_name, current_contents).
          case map_of (create_mount_lookup (Some proposed)) mount_name of
            Some proposed_contents \<Rightarrow>
              for_each (delete_mount_contents sv name mount_name)
                (filter (\<lambda>c. c \<notin> set proposed_contents) current_contents)
          | None \<Rightarrow> folder_deleter_delete (mount_root sv name mount_name))
       (create_mount_lookup current)"

definition write_contents :: "path \<Rightarrow> mount_contents \<Rightarrow> (fs, fs_error, unit) prog" where
  "write_contents root contents =
     (case contents of
        FolderOnly r \<Rightarrow> and_then (folder_create_recursively (root @ r)) (\<lambda>_. ok ())
      | FileContents f \<Rightarrow>
          (case folder_parent (root @ file_relative_path f) of
             None \<Rightarrow> fail ExpectedFileError
           | Some parent \<Rightarrow>
               and_then (folder_create_recursively parent)
                 (\<lambda>_. writer_write_all_bytes (root @ file_relative_path f) (file_bytes f))))"

definition write_mounts :: "server \<Rightarrow> name \<Rightarrow> (name \<times> mount) list \<Rightarrow> (fs, fs_error, unit) prog" where
  "write_mounts sv name ms =
     for_each
       (\<lambda>(mount_name, mt).
          and_then (folder_create_recursively (mount_root sv name mount_name))
            (\<lambda>_. for_each (write_contents (mount_root sv name mount_name)) (mount_contents mt)))
       ms"

definition write_id :: "server \<Rightarrow> name \<Rightarrow> seedling_id \<Rightarrow> unit request" where
  "write_id sv name i = map_err FileSystemError (writer_write_all (id_path sv name) (show_u16 i))"

definition write_version :: "server \<Rightarrow> name \<Rightarrow> seedling_version \<Rightarrow> unit request" where
  "write_version sv name v = map_err FileSystemError (writer_write_all (version_path sv name) (show_u16 v))"

definition write_definition :: "server \<Rightarrow> name \<Rightarrow> seedling_version \<Rightarrow> seedling_definition option \<Rightarrow>
    seedling_definition \<Rightarrow> unit request" where
  "write_definition sv name v current proposed =
     and_then (map_err FileSystemError (purge_mounts sv name current proposed)) (\<lambda>_.
       case print_definition (codecs sv) proposed of
         None \<Rightarrow> fail SeedlingSerializationError
       | Some contents \<Rightarrow>
           and_then (map_err FileSystemError (write_mounts sv name (mounts proposed))) (\<lambda>_.
           and_then (map_err FileSystemError (writer_write_all (definition_path sv name) contents)) (\<lambda>_.
             write_version sv name v)))"

section \<open>The requests\<close>

definition seedbank_create :: "server \<Rightarrow> name \<Rightarrow> seedling_version \<Rightarrow> seedling_definition \<Rightarrow> unit request" where
  "seedbank_create sv name v d =
     and_then (seedling_exists sv name) (\<lambda>present.
       if present then fail (AlreadyExists name)
       else and_then (get_next_id sv) (\<lambda>i.
            and_then (map_err FileSystemError (folder_create_recursively (create_seedling_path sv name))) (\<lambda>_.
            and_then (write_id sv name i) (\<lambda>_.
              write_definition sv name v None d))))"

definition seedbank_delete :: "server \<Rightarrow> name \<Rightarrow> unit request" where
  "seedbank_delete sv name =
     and_then (seedling_exists sv name) (\<lambda>present.
       if \<not> present then fail (SeedlingNotFound name)
       else map_err FileSystemError (folder_deleter_delete (create_seedling_path sv name)))"

definition seedbank_update :: "server \<Rightarrow> name \<Rightarrow> seedling_version \<Rightarrow> seedling_definition \<Rightarrow> unit request" where
  "seedbank_update sv name v d =
     and_then (seedling_status sv name) (\<lambda>st.
       case st of
         Defined current_version \<Rightarrow>
           if current_version < v
           then and_then (load_definition sv name) (\<lambda>current. write_definition sv name v (Some current) d)
           else fail InvalidVersion
       | Unknown \<Rightarrow> fail (SeedlingNotFound name))"

definition claim_default :: "server \<Rightarrow> name \<Rightarrow> unit request" where
  "claim_default sv name =
     and_then (seedling_exists sv name) (\<lambda>present.
       if \<not> present then fail (SeedlingNotFound name)
       else and_then (read_default sv) (\<lambda>current.
         case current of
           Some c \<Rightarrow> if c \<noteq> name then fail (DefaultAlreadyClaimed c) else ok ()
         | None \<Rightarrow> map_err FileSystemError (writer_write_all (default_path sv) name)))"

definition release_default :: "server \<Rightarrow> name \<Rightarrow> unit request" where
  "release_default sv name =
     and_then (read_default sv) (\<lambda>current.
       if current = Some name then map_err FileSystemError (deleter_delete (default_path sv)) else ok ())"

definition set_desired_run_status :: "server \<Rightarrow> name \<Rightarrow> desired_run_status \<Rightarrow> unit request" where
  "set_desired_run_status sv name st =
     and_then (ensure_exists sv name)
       (\<lambda>_. write_json_blob (print_run_status (codecs sv)) (desired_run_state_path sv name) st)"

definition get_desired_run_status :: "server \<Rightarrow> name \<Rightarrow> desired_run_status request" where
  "get_desired_run_status sv name =
     and_then (ensure_exists sv name) (\<lambda>_.
     and_then (read_json_blob (parse_run_status (codecs sv)) (desired_run_state_path sv name)) (\<lambda>st.
       ok (case st of None \<Rightarrow> Stopped | Some st \<Rightarrow> st)))"

definition reset_health_log :: "server \<Rightarrow> name \<Rightarrow> unit request" where
  "reset_health_log sv name =
     and_then (ensure_exists sv name) (\<lambda>_.
     and_then (gets (\<lambda>s. exists_path s (health_log_path sv name))) (\<lambda>present.
       if present then map_err FileSystemError (deleter_delete (health_log_path sv name)) else ok ()))"

definition health_check_log_of :: "server \<Rightarrow> name \<Rightarrow> health_check_log option request" where
  "health_check_log_of sv name =
     and_then (ensure_exists sv name)
       (\<lambda>_. read_json_blob (parse_health_log (codecs sv)) (health_log_path sv name))"

definition increment_health_log_fail_count :: "server \<Rightarrow> nat \<Rightarrow> name \<Rightarrow> bool request" where
  "increment_health_log_fail_count sv now name =
     and_then (ensure_exists sv name) (\<lambda>_.
     and_then (read_json_blob (parse_health_log (codecs sv)) (health_log_path sv name)) (\<lambda>existing.
       let log = (case existing of
                    Some l \<Rightarrow> health_log_increment now l
                  | None \<Rightarrow> health_check_log_default now);
           reached = reached_max_fail_count log
       in if \<not> reached
          then and_then (write_json_blob (print_health_log (codecs sv)) (health_log_path sv name) log)
                 (\<lambda>_. ok reached)
          else ok reached))"

section \<open>The protocol\<close>

datatype seedbank_request =
    ListRequest
  | ExistsRequest name
  | StatusRequest name
  | LoadRequest name
  | CreateRequest name seedling_version seedling_definition
  | DeleteRequest name
  | UpdateRequest name seedling_version seedling_definition
  | DefaultRequest
  | ClaimDefaultRequest name
  | ReleaseDefaultRequest name
  | GetDesiredRunStatusRequest name
  | SetDesiredRunStatusRequest name desired_run_status
  | ResetHealthLogRequest name
  | HealthCheckLogRequest name
  | IncrementHealthLogFailCountRequest name

datatype seedbank_response =
    NamesResponse "name list"
  | ExistsResponse bool
  | StatusResponse seedling_status
  | SeedlingResponse seedling
  | DefaultResponse "name option"
  | OkResponse
  | ErrorResponse seedbank_error
  | DesiredRunStatusResponse desired_run_status
  | HealthCheckLogResponse "health_check_log option"
  | IncrementHealthLogFailCountResponse bool

definition respond :: "('a \<Rightarrow> seedbank_response) \<Rightarrow> 'a request \<Rightarrow> fs \<Rightarrow> seedbank_response \<times> fs" where
  "respond wrap m s = (case m s of (Inr a, t) \<Rightarrow> (wrap a, t) | (Inl e, t) \<Rightarrow> (ErrorResponse e, t))"

definition seedbank_handle :: "server \<Rightarrow> nat \<Rightarrow> seedbank_request \<Rightarrow> fs \<Rightarrow> seedbank_response \<times> fs" where
  "seedbank_handle sv now request =
     (case request of
        ListRequest \<Rightarrow> respond NamesResponse (list_seedlings sv)
      | ExistsRequest n \<Rightarrow> respond ExistsResponse (seedling_exists sv n)
      | StatusRequest n \<Rightarrow> respond StatusResponse (seedling_status sv n)
      | LoadRequest n \<Rightarrow> respond SeedlingResponse (load_seedling sv n)
      | CreateRequest n v d \<Rightarrow> respond (\<lambda>_. OkResponse) (seedbank_create sv n v d)
      | DeleteRequest n \<Rightarrow> respond (\<lambda>_. OkResponse) (seedbank_delete sv n)
      | UpdateRequest n v d \<Rightarrow> respond (\<lambda>_. OkResponse) (seedbank_update sv n v d)
      | DefaultRequest \<Rightarrow> respond DefaultResponse (read_default sv)
      | ClaimDefaultRequest n \<Rightarrow> respond (\<lambda>_. OkResponse) (claim_default sv n)
      | ReleaseDefaultRequest n \<Rightarrow> respond (\<lambda>_. OkResponse) (release_default sv n)
      | GetDesiredRunStatusRequest n \<Rightarrow> respond DesiredRunStatusResponse (get_desired_run_status sv n)
      | SetDesiredRunStatusRequest n st \<Rightarrow> respond (\<lambda>_. OkResponse) (set_desired_run_status sv n st)
      | ResetHealthLogRequest n \<Rightarrow> respond (\<lambda>_. OkResponse) (reset_health_log sv n)
      | HealthCheckLogRequest n \<Rightarrow> respond HealthCheckLogResponse (health_check_log_of sv n)
      | IncrementHealthLogFailCountRequest n \<Rightarrow>
          respond IncrementHealthLogFailCountResponse (increment_health_log_fail_count sv now n))"

datatype registration_response = RegisteredResponse | NotRegisteredResponse | ReservedResponse
  | InvalidNameResponse

definition registration_handle :: "server \<Rightarrow> string \<Rightarrow> registration_response request" where
  "registration_handle sv raw_name =
     (case name_from_str (is_match (codecs sv)) raw_name of
        Inl _ \<Rightarrow> ok InvalidNameResponse
      | Inr name \<Rightarrow>
          if name \<in> set RESERVED_SEEDLING_NAMES then ok ReservedResponse
          else and_then (seedling_exists sv name)
                 (\<lambda>present. ok (if present then RegisteredResponse else NotRegisteredResponse)))"

end
