(* ===== verification/FileFrames.thy ===== *)
theory FileFrames
  imports UnixFiles
begin

text \<open>
  Framing: what a program of file system calls leaves alone.  \<open>agrees P s t\<close> says that the files at
  the paths in \<open>P\<close> have the same contents in \<open>t\<close> as in \<open>s\<close>; the rules \<open>frame_intros\<close> carry it
  through every method whose target lies outside \<open>P\<close>, whatever call is refused or torn.
\<close>

named_theorems frame_intros \<open>methods leave the files outside their target alone\<close>

definition agrees :: "(path \<Rightarrow> bool) \<Rightarrow> fs \<Rightarrow> fs \<Rightarrow> bool" where
  "agrees P s t \<longleftrightarrow> (\<forall>q. P q \<longrightarrow> content t q = content s q)"

lemma agrees_refl [simp]: "agrees P s s"
  by (simp add: agrees_def)

lemma agreesD: "agrees P s t \<Longrightarrow> P q \<Longrightarrow> content t q = content s q"
  by (simp add: agrees_def)

lemma agrees_same: "same_tree t u \<Longrightarrow> agrees P s u = agrees P s t"
  by (simp add: agrees_def content_same)

lemma frame_call:
  "(\<And>t. agrees P s t \<Longrightarrow> agrees P s (snd (m t))) \<Longrightarrow> keeps (agrees P s) (call m)"
proof (rule keepsI)
  fix t assume inner: "\<And>t. agrees P s t \<Longrightarrow> agrees P s (snd (m t))" and t: "agrees P s t"
  obtain r u where c: "call m t = (r, u)" by (cases "call m t") auto
  from c have "agrees P s u"
  proof (cases rule: call_cases)
    case (ran t')
    with inner [of t'] t agrees_same show ?thesis by fastforce
  next
    case (disturbed k)
    with t agrees_same show ?thesis by blast
  qed
  with c show "agrees P s (snd (call m t))" by simp
qed

lemma agrees_put_file: "agrees P s t \<Longrightarrow> \<not> P p \<Longrightarrow> agrees P s (put_node p n t)"
  by (auto simp: agrees_def)

lemma agrees_drop: "agrees P s t \<Longrightarrow> (\<And>q. Q q \<Longrightarrow> \<not> P q) \<Longrightarrow> agrees P s (drop_nodes Q t)"
  by (auto simp: agrees_def)

lemma frame_write [frame_intros]: "\<not> P p \<Longrightarrow> keeps (agrees P s) (std_write p b)"
proof (rule keepsI)
  fix t assume "\<not> P p" and t: "agrees P s t"
  obtain x u where n: "next_outcome t = (x, u)" by (cases "next_outcome t") auto
  then have "agrees P s u" using t agrees_same next_outcome_same by blast
  with n \<open>\<not> P p\<close> show "agrees P s (snd (std_write p b t))"
    by (auto simp: std_write_def agrees_put_file split: outcome.split option.split)
qed

lemma frame_write_new [frame_intros]: "\<not> P p \<Longrightarrow> keeps (agrees P s) (std_write_new p b)"
  using frame_write [of P p s b] by (auto simp: keeps_def std_write_new_def)

lemma frame_copy [frame_intros]: "\<not> P q \<Longrightarrow> keeps (agrees P s) (std_copy p q)"
proof (rule keepsI)
  fix t assume "\<not> P q" and t: "agrees P s t"
  obtain x u where n: "next_outcome t = (x, u)" by (cases "next_outcome t") auto
  then have "agrees P s u" using t agrees_same next_outcome_same by blast
  with n \<open>\<not> P q\<close> show "agrees P s (snd (std_copy p q t))"
    by (auto simp: std_copy_def Let_def agrees_put_file split: outcome.split option.split node.split)
qed

lemma frame_remove_file [frame_intros]: "\<not> P p \<Longrightarrow> keeps (agrees P s) (std_remove_file p)"
  unfolding std_remove_file_def
  by (rule frame_call) (auto intro: agrees_drop split: option.split node.split)

lemma frame_remove_dir_all [frame_intros]:
  "(\<And>q. below p q \<Longrightarrow> \<not> P q) \<Longrightarrow> keeps (agrees P s) (std_remove_dir_all p)"
  unfolding std_remove_dir_all_def
  by (rule frame_call) (auto intro: agrees_drop split: option.split node.split)

lemma content_add_dirs: "content (fold add_dir ps s) = content s"
proof (induction ps arbitrary: s)
  case (Cons p ps)
  have "content (add_dir p s) = content s"
    by (auto simp: add_dir_def fun_eq_iff exists_path_def content_def)
  with Cons show ?case by simp
qed simp

lemma frame_create_dir_all [frame_intros]: "keeps (agrees P s) (std_create_dir_all p)"
  unfolding std_create_dir_all_def
  by (rule frame_call) (simp add: agrees_def content_add_dirs)

lemma frame_read [frame_intros]: "keeps (agrees P s) (std_read p)"
  unfolding std_read_def by (rule frame_call) (simp split: option.split node.split)

lemma frame_read_dir [frame_intros]: "keeps (agrees P s) (std_read_dir p)"
  unfolding std_read_dir_def by (rule frame_call) (simp split: option.split node.split)

lemma frame_metadata [frame_intros]: "keeps (agrees P s) (std_metadata p)"
  unfolding std_metadata_def by (rule frame_call) (simp split: option.split)

lemma frame_set_meta [frame_intros]: "keeps (agrees P s) (std_set_meta f p)"
  unfolding std_set_meta_def
proof (rule frame_call)
  fix t assume t: "agrees P s t"
  have "content (put_node p (set_meta m n) t) = content t" if "node_at t p = Some n" for m n
    using that by (cases n) (auto simp: fun_eq_iff content_def)
  with t show "agrees P s (snd (case node_at t p of None \<Rightarrow> (Inl NotFound, t)
      | Some n \<Rightarrow> (Inr (), put_node p (set_meta (f (node_meta n)) n) t)))"
    by (simp add: agrees_def split: option.split)
qed

text \<open>The methods, with their targets.\<close>

lemma frame_methods [frame_intros]:
  "\<not> P p \<Longrightarrow> keeps (agrees P s) (writer_write_all p b)"
  "\<not> P p \<Longrightarrow> keeps (agrees P s) (writer_write_all_bytes p b)"
  "\<not> P p \<Longrightarrow> keeps (agrees P s) (deleter_delete p)"
  "(\<And>q. below p q \<Longrightarrow> \<not> P q) \<Longrightarrow> keeps (agrees P s) (folder_deleter_delete p)"
  "\<not> P q \<Longrightarrow> keeps (agrees P s) (copier_copy p q)"
  "keeps (agrees P s) (reader_read_all p)"
  "keeps (agrees P s) (reader_read_all_bytes p)"
  "keeps (agrees P s) (folder_create_recursively p)"
  "keeps (agrees P s) (folder_entries p)"
  "keeps (agrees P s) (inspect_read_metadata p)"
  "keeps (agrees P s) (change_mode p md)"
  "keeps (agrees P s) (change_user_and_group_ownership p u g)"
  unfolding method_defs by (intro keeps_intros frame_intros; simp; fail)+

section \<open>Reading\<close>

text \<open>\<open>later s t\<close>: the tree is the same, and what can happen to the next calls could happen in \<open>s\<close>.\<close>

definition later :: "fs \<Rightarrow> fs \<Rightarrow> bool" where
  "later s t \<longleftrightarrow> same_tree s t \<and> set (outcomes t) \<subseteq> set (outcomes s)"

lemma later_refl [simp]: "later s s"
  by (simp add: later_def)

lemma later_trans: "later s t \<Longrightarrow> later t u \<Longrightarrow> later s u"
  by (auto simp: later_def intro: same_tree_trans)

lemma later_same [simp]: "later s t \<Longrightarrow> same_tree s t"
  by (simp add: later_def)

lemma later_content: "later s t \<Longrightarrow> content t = content s"
  by (simp add: content_same)

lemma next_outcome_later: "next_outcome s = (x, t) \<Longrightarrow> later s t"
  by (auto simp: next_outcome_def later_def same_tree_def split: list.splits)

lemma next_outcome_drawn: "next_outcome s = (x, t) \<Longrightarrow> x = Proceed \<or> x \<in> set (outcomes s)"
  by (auto simp: next_outcome_def split: list.splits)

lemma call_later:
  assumes "call m s = (r, t)"
  obtains (ran) s' where "later s s'" "m s' = (r, t)"
  | (disturbed) k where "r = Inl k" "later s t"
      "Refuse k \<in> set (outcomes s) \<or> k = OtherKind"
proof -
  obtain x s' where n: "next_outcome s = (x, s')" by (cases "next_outcome s") auto
  note l = next_outcome_later [OF n] and d = next_outcome_drawn [OF n]
  from assms n l d ran disturbed show thesis by (cases x) (auto simp: call_def)
qed

text \<open>What only reads leaves the whole tree as it was.\<close>

definition reads_tree :: "(fs, 'e, 'a) prog \<Rightarrow> bool" where
  "reads_tree m \<longleftrightarrow> (\<forall>s. keeps (later s) m)"

lemma reads_treeD: "reads_tree m \<Longrightarrow> m s = (r, t) \<Longrightarrow> later s t"
  by (metis keeps_result reads_tree_def later_refl)

lemma reads_call: "(\<And>s. snd (m s) = s) \<Longrightarrow> reads_tree (call m)"
proof -
  assume only: "\<And>s. snd (m s) = s"
  have "later s u" if "later s t" "call m t = (r, u)" for s t u r
    using that(2)
  proof (cases rule: call_later)
    case (ran t')
    with only [of t'] that(1) later_trans show ?thesis by fastforce
  next
    case (disturbed k)
    with that(1) later_trans show ?thesis by blast
  qed
  then show ?thesis
    unfolding reads_tree_def by (metis keepsI prod.collapse)
qed

lemma reads_tree_std: "reads_tree (std_read p)" "reads_tree (std_read_dir p)" "reads_tree (std_metadata p)"
  unfolding std_read_def std_read_dir_def std_metadata_def
  by (rule reads_call; simp split: option.split node.split)+

lemma reads_tree_prog:
  "reads_tree (ok a)" "reads_tree (fail e)" "reads_tree (gets f)" "reads_tree (of_result r)"
  "reads_tree m \<Longrightarrow> (\<And>a. reads_tree (k a)) \<Longrightarrow> reads_tree (and_then m k)"
  "reads_tree m' \<Longrightarrow> reads_tree (map_err f' m')"
  "reads_tree m' \<Longrightarrow> reads_tree (attempt m')"
  "(\<And>x. reads_tree (g x)) \<Longrightarrow> reads_tree (collect_results g xs)"
  unfolding reads_tree_def by (auto intro!: keeps_intros)

lemma reads_tree_split:
  "reads_tree m \<Longrightarrow> reads_tree m' \<Longrightarrow> reads_tree (if b then m else m')"
  "reads_tree m \<Longrightarrow> (\<And>x. reads_tree (f x)) \<Longrightarrow> reads_tree (case y of None \<Rightarrow> m | Some x \<Rightarrow> f x)"
  "(\<And>x. reads_tree (f' x)) \<Longrightarrow> (\<And>x. reads_tree (g x)) \<Longrightarrow> reads_tree (case z of Inl x \<Rightarrow> f' x | Inr x \<Rightarrow> g x)"
  "(\<And>x y. reads_tree (h x y)) \<Longrightarrow> reads_tree (case w of (x, y) \<Rightarrow> h x y)"
  by (simp_all split: option.split sum.split prod.split)

lemma reads_tree_methods:
  "reads_tree (reader_read_all p)" "reads_tree (reader_read_all_bytes p)" "reads_tree (folder_entries p)"
  "reads_tree (inspect_read_metadata p)" "reads_tree (folder_canonicalize p)"
  unfolding method_defs by (intro reads_tree_prog reads_tree_split reads_tree_std)+

lemmas reads_tree_intros = reads_tree_methods reads_tree_prog reads_tree_split reads_tree_std

lemma reads_tree_content: "reads_tree m \<Longrightarrow> m s = (r, t) \<Longrightarrow> content t = content s"
  by (simp add: later_content reads_treeD)

lemma folder_entries_result:
  assumes "folder_entries p s = (Inr es, t)"
  shows "es = map (\<lambda>(name, n). entry_of p name n) (children s p)"
  using assms unfolding folder_entries_def std_read_dir_def
  by (auto elim!: and_then_InrE map_err_InrE call_cases simp: prog_simps same_tree_def children_def
      split: option.splits node.splits)

lemma folder_entries_names:
  "folder_entries p s = (Inr es, t) \<Longrightarrow> map entry_name es = map fst (children s p)"
  by (drule folder_entries_result) (simp add: entry_of_def case_prod_beta)

section \<open>What can go wrong\<close>

text \<open>The outcomes left to draw from never grow.\<close>

definition draws :: "outcome set \<Rightarrow> fs \<Rightarrow> bool" where
  "draws A s \<longleftrightarrow> set (outcomes s) \<subseteq> A"

lemma draws_later: "later s t \<Longrightarrow> draws A s \<Longrightarrow> draws A t"
  by (auto simp: draws_def later_def)

lemma draws_call: "(\<And>s. outcomes (snd (m s)) = outcomes s) \<Longrightarrow> keeps (draws A) (call m)"
proof (rule keepsI)
  fix s assume same: "\<And>s. outcomes (snd (m s)) = outcomes s" and s: "draws A s"
  obtain r t where c: "call m s = (r, t)" by (cases "call m s") auto
  from c have "draws A t"
  proof (cases rule: call_later)
    case (ran s')
    with same [of s'] s draws_later show ?thesis by (fastforce simp: draws_def)
  next
    case (disturbed k)
    with s draws_later show ?thesis by blast
  qed
  with c show "draws A (snd (call m s))" by simp
qed

lemma outcomes_add_dirs [simp]: "outcomes (fold add_dir ps s) = outcomes s"
  by (induction ps arbitrary: s) (simp_all add: add_dir_def)

lemma draws_std:
  "keeps (draws A) (std_write p b)" "keeps (draws A) (std_remove_file p)"
  "keeps (draws A) (std_remove_dir_all p)" "keeps (draws A) (std_create_dir_all p)"
  "keeps (draws A) (std_read p)" "keeps (draws A) (std_read_dir p)" "keeps (draws A) (std_metadata p)"
  "keeps (draws A) (std_set_meta f p)"
proof -
  show "keeps (draws A) (std_write p b)"
  proof (rule keepsI)
    fix s assume s: "draws A s"
    obtain x t where n: "next_outcome s = (x, t)" by (cases "next_outcome s") auto
    with s draws_later next_outcome_later have "draws A t" by blast
    with n show "draws A (snd (std_write p b s))"
      by (auto simp: std_write_def draws_def split: outcome.split option.split)
  qed
qed (unfold std_remove_file_def std_remove_dir_all_def std_create_dir_all_def std_read_def
    std_read_dir_def std_metadata_def std_set_meta_def, (rule draws_call, simp split: option.split node.split)+)

lemma draws_methods:
  "keeps (draws A) (writer_write_all p b)" "keeps (draws A) (writer_write_all_bytes p b)"
  "keeps (draws A) (deleter_delete p)" "keeps (draws A) (folder_deleter_delete p)"
  "keeps (draws A) (folder_create_recursively p)"
  unfolding method_defs by (intro keeps_intros draws_std)+

lemma draws_reads: "reads_tree m \<Longrightarrow> keeps (draws A) m"
proof (rule keepsI)
  fix s assume "reads_tree m" "draws A s"
  then show "draws A (snd (m s))" using reads_treeD [of m s] draws_later by (cases "m s") auto
qed

lemma wf_reads: "reads_tree m \<Longrightarrow> keeps wf_fs m"
proof (rule keepsI)
  fix s assume "reads_tree m" "wf_fs s"
  then show "wf_fs (snd (m s))"
    using reads_treeD [of m s] wf_same_tree [OF later_same] by (cases "m s") auto
qed

lemma wf_methods:
  "keeps wf_fs (writer_write_all p b)" "keeps wf_fs (writer_write_all_bytes p b)"
  "keeps wf_fs (deleter_delete p)" "keeps wf_fs (folder_deleter_delete p)"
  "keeps wf_fs (folder_create_recursively p)"
  unfolding method_defs by (intro keeps_intros)+

text \<open>Without torn writes a write happens or it does not.\<close>

abbreviation whole :: "outcome set" where
  "whole \<equiv> {x. \<forall>n. x \<noteq> Torn n}"

lemma whole_write:
  assumes "draws whole s" and "writer_write_all p b s = (r, t)"
  shows "content t = (if r = Inr () then (content s)(p := Some b) else content s)"
proof -
  obtain x u where n: "next_outcome s = (x, u)" by (cases "next_outcome s") auto
  have c: "content u = content s" using next_outcome_later [OF n] by (rule later_content)
  have "x \<noteq> Torn k" for k using next_outcome_drawn [OF n] assms(1) by (auto simp: draws_def)
  with assms(2) n c show ?thesis
    by (auto simp: writer_write_all_def writer_write_all_bytes_def map_err_def std_write_def fun_eq_iff
        split: sum.splits prod.splits outcome.splits option.splits)
qed

text \<open>A file that exists is not reported missing.\<close>

abbreviation truthful :: "outcome set" where
  "truthful \<equiv> {x. x \<noteq> Refuse NotFound}"

lemma truthful_read:
  assumes "draws truthful s" and "reader_read_all p s = (Inl e, t)" and "content s p = Some b"
  shows "\<not> is_not_found e"
proof -
  obtain r u where rd: "std_read p s = (r, u)" by (cases "std_read p s") auto
  have "r \<noteq> Inl NotFound"
  proof
    assume "r = Inl NotFound"
    with rd have "call (\<lambda>s. (case node_at s p of None \<Rightarrow> (Inl NotFound, s)
        | Some (File _ b) \<Rightarrow> (Inr b, s) | Some (Dir _) \<Rightarrow> (Inl OtherKind, s))) s = (Inl NotFound, u)"
      unfolding std_read_def by (simp add: case_prod_beta)
    then show False
    proof (cases rule: call_later)
      case (ran s')
      then have "content s' p = Some b" using assms(3) later_content by metis
      with ran show False by (auto simp: content_def split: option.splits node.splits)
    next
      case (disturbed k)
      with assms(1) show False by (auto simp: draws_def)
    qed
  qed
  with assms(2) rd show ?thesis
    by (auto simp: reader_read_all_def map_err_def and_then_def prog_simps is_not_found_def
        split: sum.splits if_splits)
qed

end
