(* ===== verification/SeedbankStore.thy ===== *)
theory SeedbankStore
  imports Seedbank FileFrames
begin

text \<open>
  What the requests of seedbank do to the store, whichever system calls fail on the way: where they
  write, which ids they hand out, when a version is replaced, who holds the default route and how
  far the health log counts.
\<close>

section \<open>Reading requests\<close>

lemma of_result_reads: "reads_tree (of_result r)"
  by (simp add: reads_tree_prog)

lemma fold_prog_reads: "(\<And>x b. reads_tree (f x b)) \<Longrightarrow> reads_tree (fold_prog f xs b)"
proof (induction xs arbitrary: b)
  case (Cons x xs)
  then show ?case by (simp add: reads_tree_prog)
qed (simp add: reads_tree_prog)

lemma populate_reads: "reads_tree (populate_mount_contents fuel sv root e cs)"
proof (induction fuel arbitrary: e cs)
  case (Suc fuel)
  show ?case
    by (cases "entry_kind e") (auto simp: Let_def intro!: reads_tree_intros fold_prog_reads Suc)
qed (simp add: reads_tree_prog)

lemma read_default_reads: "reads_tree (read_default sv)"
  unfolding read_default_def by (intro reads_tree_intros)

lemma seedling_exists_reads: "reads_tree (seedling_exists sv n)"
  unfolding seedling_exists_def by (intro reads_tree_intros)

lemma ensure_exists_reads: "reads_tree (ensure_exists sv n)"
  unfolding ensure_exists_def by (intro reads_tree_intros seedling_exists_reads)

lemma read_json_blob_reads: "reads_tree (read_json_blob parse p)"
  unfolding read_json_blob_def by (intro reads_tree_intros)

lemma list_seedlings_reads: "reads_tree (list_seedlings sv)"
  unfolding list_seedlings_def by (intro reads_tree_intros)

lemma load_id_reads: "reads_tree (load_id sv n)"
  unfolding load_id_def by (intro reads_tree_intros)

lemma load_version_reads: "reads_tree (load_version sv n)"
  unfolding load_version_def by (intro reads_tree_intros)

lemma seedling_status_reads: "reads_tree (seedling_status sv n)"
  unfolding seedling_status_def by (intro reads_tree_intros seedling_exists_reads load_version_reads)

lemma used_id_reads: "reads_tree (used_id sv n)"
  unfolding used_id_def
  by (intro reads_tree_prog load_id_reads) (auto intro!: reads_tree_prog split: sum.split seedbank_error.split)

lemma get_next_id_reads: "reads_tree (get_next_id sv)"
  unfolding get_next_id_def by (intro reads_tree_intros list_seedlings_reads used_id_reads)

lemma load_definition_reads: "reads_tree (load_definition sv n)"
  unfolding load_definition_def hydrate_mounts_def hydrate_mount_contents_def Let_def
  by (intro reads_tree_intros populate_reads)

lemma load_seedling_reads: "reads_tree (load_seedling sv n)"
  unfolding load_seedling_def by (intro reads_tree_intros load_definition_reads load_id_reads load_version_reads)

lemmas seedbank_reads =
  read_default_reads seedling_exists_reads ensure_exists_reads read_json_blob_reads
  list_seedlings_reads load_id_reads load_version_reads seedling_status_reads get_next_id_reads
  load_definition_reads load_seedling_reads

section \<open>Requests stay inside their seedling\<close>

text \<open>The files a request may change.\<close>

fun may_touch :: "server \<Rightarrow> seedbank_request \<Rightarrow> path \<Rightarrow> bool" where
  "may_touch sv (CreateRequest n v d) q = below (create_seedling_path sv n) q"
| "may_touch sv (DeleteRequest n) q = below (create_seedling_path sv n) q"
| "may_touch sv (UpdateRequest n v d) q =
     (q = version_path sv n \<or> q = definition_path sv n \<or> below (mounts_root sv n) q)"
| "may_touch sv (ClaimDefaultRequest n) q = (q = default_path sv)"
| "may_touch sv (ReleaseDefaultRequest n) q = (q = default_path sv)"
| "may_touch sv (SetDesiredRunStatusRequest n st) q = (q = desired_run_state_path sv n)"
| "may_touch sv (ResetHealthLogRequest n) q = (q = health_log_path sv n)"
| "may_touch sv (IncrementHealthLogFailCountRequest n) q = (q = health_log_path sv n)"
| "may_touch sv _ q = False"

lemma frame_reads: "reads_tree m \<Longrightarrow> keeps (agrees P s) m"
proof (rule keepsI)
  fix t assume "reads_tree m" "agrees P s t"
  then show "agrees P s (snd (m t))"
    using reads_treeD [of m t] agrees_same [OF later_same] by (cases "m t") auto
qed

lemma frame_write_json_blob: "\<not> P p \<Longrightarrow> keeps (agrees P s) (write_json_blob print p a)"
  unfolding write_json_blob_def by (intro keeps_intros frame_intros)

lemma below_seedling:
  "below (create_seedling_path sv n) (id_path sv n)"
  "below (create_seedling_path sv n) (version_path sv n)"
  "below (create_seedling_path sv n) (definition_path sv n)"
  "below (mounts_root sv n) q \<Longrightarrow> below (create_seedling_path sv n) q"
  by (auto simp: path_defs below_append)

lemma below_mounts:
  "below (mount_root sv n mn) q \<Longrightarrow> below (mounts_root sv n) q"
  "below (mount_file sv n mn file) q \<Longrightarrow> below (mounts_root sv n) q"
  by (auto simp: path_defs below_append)

lemma frame_write_definition:
  assumes "\<not> P (version_path sv n)" and "\<not> P (definition_path sv n)"
    and "\<And>q. below (mounts_root sv n) q \<Longrightarrow> \<not> P q"
  shows "keeps (agrees P s) (write_definition sv n v current d)"
proof -
  note outside = assms assms(3) [OF below_mounts(1)] assms(3) [OF below_mounts(2)]
  have del: "keeps (agrees P s) (delete_mount_contents sv n mn c)" for mn c
    unfolding delete_mount_contents_def Let_def
    by (cases c) (auto intro!: frame_methods simp: outside(5) outside(5) [OF below_refl])
  have purge: "keeps (agrees P s) (purge_mounts sv n current d)"
    unfolding purge_mounts_def
    by (intro keeps_for_each keeps_case_prod keeps_case_option frame_methods del outside)
  have contents: "keeps (agrees P s) (write_contents (mount_root sv n mn) c)" for mn c
  proof (cases c)
    case (FileContents f)
    have "\<not> P (mount_root sv n mn @ file_relative_path f)" by (rule outside(4) [of mn]) simp
    with FileContents show ?thesis
      unfolding write_contents_def by (auto intro!: keeps_intros frame_intros split: option.split)
  qed (simp add: write_contents_def, intro keeps_intros frame_intros)
  have mounts: "keeps (agrees P s) (write_mounts sv n (mounts d))"
    unfolding write_mounts_def
    by (intro keeps_for_each keeps_case_prod keeps_and_then frame_methods contents)
  show ?thesis
    unfolding write_definition_def write_version_def
    by (intro keeps_and_then keeps_map_err keeps_case_option keeps_fail purge mounts frame_methods outside)
qed

lemma frame_request:
  assumes "\<And>q. may_touch sv r q \<Longrightarrow> \<not> P q" and "agrees P s t"
  shows "agrees P s (snd (seedbank_handle sv now r t))"
proof -
  have wrap: "agrees P s (snd (respond f m t))" if "keeps (agrees P s) m" for f :: "'a \<Rightarrow> _" and m
    using keepsD [OF that assms(2)] by (auto simp: respond_def split: prod.split sum.split)
  note reads = seedbank_reads [THEN frame_reads]
  show ?thesis
  proof (cases r)
    case (CreateRequest n v d)
    have "keeps (agrees P s) (seedbank_create sv n v d)"
      unfolding seedbank_create_def write_id_def using assms(1) CreateRequest below_seedling
      by (intro keeps_intros reads frame_methods frame_write_definition) auto
    with CreateRequest show ?thesis by (simp add: seedbank_handle_def wrap)
  next
    case (UpdateRequest n v d)
    have "keeps (agrees P s) (seedbank_update sv n v d)"
      unfolding seedbank_update_def using assms(1) UpdateRequest
      by (auto intro!: keeps_intros reads frame_write_definition split: seedling_status.split)
    with UpdateRequest show ?thesis by (simp add: seedbank_handle_def wrap)
  next
    case (DeleteRequest n)
    have "keeps (agrees P s) (seedbank_delete sv n)"
      unfolding seedbank_delete_def using assms(1) DeleteRequest
      by (intro keeps_intros reads frame_methods) auto
    with DeleteRequest show ?thesis by (simp add: seedbank_handle_def wrap)
  next
    case (ClaimDefaultRequest n)
    have "keeps (agrees P s) (claim_default sv n)"
      unfolding claim_default_def using assms(1) ClaimDefaultRequest
      by (intro keeps_intros reads frame_methods) auto
    with ClaimDefaultRequest show ?thesis by (simp add: seedbank_handle_def wrap)
  next
    case (ReleaseDefaultRequest n)
    have "keeps (agrees P s) (release_default sv n)"
      unfolding release_default_def using assms(1) ReleaseDefaultRequest
      by (intro keeps_intros reads frame_methods) auto
    with ReleaseDefaultRequest show ?thesis by (simp add: seedbank_handle_def wrap)
  next
    case (SetDesiredRunStatusRequest n st)
    have "keeps (agrees P s) (set_desired_run_status sv n st)"
      unfolding set_desired_run_status_def using assms(1) SetDesiredRunStatusRequest
      by (intro keeps_intros reads frame_write_json_blob) auto
    with SetDesiredRunStatusRequest show ?thesis by (simp add: seedbank_handle_def wrap)
  next
    case (ResetHealthLogRequest n)
    have "keeps (agrees P s) (reset_health_log sv n)"
      unfolding reset_health_log_def using assms(1) ResetHealthLogRequest
      by (intro keeps_intros reads frame_methods) auto
    with ResetHealthLogRequest show ?thesis by (simp add: seedbank_handle_def wrap)
  next
    case (IncrementHealthLogFailCountRequest n)
    have "keeps (agrees P s) (increment_health_log_fail_count sv now n)"
      unfolding increment_health_log_fail_count_def Let_def
      using assms(1) IncrementHealthLogFailCountRequest
      by (intro keeps_intros reads frame_write_json_blob) auto
    with IncrementHealthLogFailCountRequest show ?thesis by (simp add: seedbank_handle_def wrap)
  qed (simp_all add: seedbank_handle_def get_desired_run_status_def health_check_log_of_def,
      (rule wrap, intro keeps_intros reads)+)
qed

lemma confined: "\<not> may_touch sv r q \<Longrightarrow> content (snd (seedbank_handle sv now r s)) q = content s q"
  using frame_request [of sv r "\<lambda>q. \<not> may_touch sv r q" s s now] by (auto simp: agrees_def)

text \<open>
  C8: A request changes no file outside the folder of its seedling (or the default claim, for the two
  requests about it), whatever system calls fail, so no request can damage another seedling's
  definition, mounts or state; requests that only ask change nothing.
\<close>

theorem requests_are_confined:
  "\<not> may_touch sv r q \<Longrightarrow> content (snd (seedbank_handle sv now r s)) q = content s q"
  by (rule confined)

text \<open>A small store for the concrete instances below: TOML and JSON are replaced by one-letter codes.\<close>

definition demo_definition :: seedling_definition where
  "demo_definition = seedling_definition_new Local [] Unrouted \<lparr>check_command = ''true'', wait_time_in_seconds = 1\<rparr>"

definition demo_codecs :: codecs where
  "demo_codecs =
     \<lparr>is_match = table_regex,
      print_definition = (\<lambda>_. Some ''d''), parse_definition = (\<lambda>_. Some demo_definition),
      print_health_log = (\<lambda>l. Some (show_nat (unat (fail_count l)) @ '':'' @ replicate (updated_at l) CHR ''t'')),
      parse_health_log = (\<lambda>s. case split_once CHR '':'' s of
           Some (a, b) \<Rightarrow> (case parse_uint 255 a of
             Inr n \<Rightarrow> Some \<lparr>fail_count = of_nat n, updated_at = length b\<rparr> | Inl _ \<Rightarrow> None)
         | None \<Rightarrow> None),
      print_run_status = (\<lambda>st. Some (if st = Running then ''r'' else ''s'')),
      parse_run_status = (\<lambda>s. Some (if s = ''r'' then Running else Stopped))\<rparr>"

definition demo_server :: server where
  "demo_server = \<lparr>seeds = [''seeds''], codecs = demo_codecs\<rparr>"

definition demo_meta :: meta where
  "demo_meta = \<lparr>user = ''seedbank'', group = ''seedbank'', mode = 0x1B0\<rparr>"

definition demo_store :: "outcome list \<Rightarrow> fs" where
  "demo_store os =
     \<lparr>nodes = [([], Dir demo_meta), ([''seeds''], Dir demo_meta), ([''seeds'', ''a''], Dir demo_meta),
        ([''seeds'', ''a'', ''id''], File demo_meta ''0''),
        ([''seeds'', ''a'', ''version''], File demo_meta ''3''),
        ([''seeds'', ''a'', ''seedling.toml''], File demo_meta ''d''),
        ([''seeds'', ''default''], File demo_meta ''a'')],
      outcomes = os, creator = demo_meta, known_users = [], known_groups = []\<rparr>"

lemma demo_content:
  "content (demo_store os) q = map_of
     [([''seeds'', ''a'', ''id''], ''0''), ([''seeds'', ''a'', ''version''], ''3''),
      ([''seeds'', ''a'', ''seedling.toml''], ''d''), ([''seeds'', ''default''], ''a'')] q"
  by (simp add: content_def demo_store_def node_at_def)

theorem requests_are_confined_witness:
  "content (snd (seedbank_handle demo_server 0 (DeleteRequest ''b'') (demo_store [Torn 1])))
     [''seeds'', ''a'', ''version''] = Some ''3''"
proof -
  have "\<not> may_touch demo_server (DeleteRequest ''b'') [''seeds'', ''a'', ''version'']"
    by (simp add: demo_server_def path_defs below_def)
  from requests_are_confined [OF this, of 0 "demo_store [Torn 1]"]
  show ?thesis by (simp add: demo_content)
qed

section \<open>Ids\<close>

definition stored_id :: "server \<Rightarrow> fs \<Rightarrow> name \<Rightarrow> seedling_id option" where
  "stored_id sv s n =
     (case content s (id_path sv n) of
        None \<Rightarrow> None
      | Some raw \<Rightarrow> (case id_from_str (trim raw) of Inr i \<Rightarrow> Some i | Inl _ \<Rightarrow> None))"

definition is_name :: "server \<Rightarrow> string \<Rightarrow> bool" where
  "is_name sv n \<longleftrightarrow> name_from_str (is_match (codecs sv)) n = Inr n"

lemma name_from_str_same: "name_from_str im s = Inr t \<Longrightarrow> t = s"
  by (simp add: name_from_str_def validated_Inr)

lemma first_unused_cases:
  assumes "first_unused n used i = Some j" and "n \<le> 65536"
  shows "\<exists>k. i \<le> k \<and> k < n \<and> j = of_nat k \<and> j \<notin> set used \<and> (\<forall>l. i \<le> l \<and> l < k \<longrightarrow> of_nat l \<in> set used)"
  using assms
proof (induction n used i rule: first_unused.induct)
  case (1 n used i)
  show ?case
  proof (cases "of_nat i \<in> set used")
    case True
    with 1 obtain k where k: "Suc i \<le> k" "k < n" "j = of_nat k" "j \<notin> set used"
      "\<forall>l. Suc i \<le> l \<and> l < k \<longrightarrow> of_nat l \<in> set used"
      by (subst (asm) (2) first_unused.simps) (auto split: if_splits)
    have "of_nat l \<in> set used" if "i \<le> l" "l < k" for l
      using that True k(5) by (cases "l = i") auto
    with k show ?thesis by (intro exI [of _ k]) auto
  next
    case False
    with 1(2) show ?thesis by (subst (asm) first_unused.simps) (auto split: if_splits)
  qed
qed

lemma collect_results_elems:
  assumes "collect_results f xs s = (Inr ys, t)" and "\<And>x. reads_tree (f x)"
  shows "\<forall>y \<in> set ys. \<exists>x \<in> set xs. \<exists>u v. later s u \<and> f x u = (Inr y, v)"
    and "\<forall>x \<in> set xs. \<exists>y \<in> set ys. \<exists>u v. later s u \<and> f x u = (Inr y, v)"
proof -
  have "(\<forall>y \<in> set ys. \<exists>x \<in> set xs. \<exists>u v. later s u \<and> f x u = (Inr y, v)) \<and>
      (\<forall>x \<in> set xs. \<exists>y \<in> set ys. \<exists>u v. later s u \<and> f x u = (Inr y, v))"
    using assms(1)
  proof (induction xs arbitrary: s ys t)
    case (Cons x xs)
    from Cons.prems obtain y s' ys' s'' where y: "f x s = (Inr y, s')"
      and ys': "collect_results f xs s' = (Inr ys', s'')" and ys: "ys = y # ys'"
      by (auto elim!: and_then_InrE simp: prog_simps)
    have "later s s'" using assms(2) y by (rule reads_treeD)
    then have "later s u" if "later s' u" for u using that by (rule later_trans)
    with Cons.IH [OF ys'] y ys show ?case by (auto 0 4)
  qed (simp add: prog_simps)
  then show "\<forall>y \<in> set ys. \<exists>x \<in> set xs. \<exists>u v. later s u \<and> f x u = (Inr y, v)"
    and "\<forall>x \<in> set xs. \<exists>y \<in> set ys. \<exists>u v. later s u \<and> f x u = (Inr y, v)" by blast+
qed

lemma load_id_stored:
  assumes "load_id sv n s = (Inr i, t)"
  shows "stored_id sv s n = Some i"
  using assms unfolding load_id_def attempt_then
  by (auto elim!: map_err_InrE simp: prog_simps stored_id_def
      split: sum.splits if_splits prod.splits dest!: unix_files.read_ok)

lemma children_dir: "is_dir s (p @ [n]) \<Longrightarrow> \<exists>m. (n, Dir m) \<in> set (children s p)"
  by (auto simp: children_iff is_dir_def split: option.splits node.splits)

lemma list_seedlings_result:
  assumes "list_seedlings sv s = (Inr names, t)"
  shows "is_name sv n \<Longrightarrow> is_dir s (create_seedling_path sv n) \<Longrightarrow> n \<in> set names"
    and "n \<in> set names \<Longrightarrow> is_name sv n"
proof -
  let ?f = "\<lambda>e. case name_from_str (is_match (codecs sv)) (entry_name e) of Inr n \<Rightarrow> Some n | Inl _ \<Rightarrow> None"
  let ?es = "map (\<lambda>(name, n). entry_of (seeds sv) name n) (children s (seeds sv))"
  from assms have names: "names = List.map_filter ?f (filter (\<lambda>e. entry_kind e = DirectoryKind) ?es)"
    unfolding list_seedlings_def
    by (auto elim!: and_then_InrE map_err_InrE simp: prog_simps dest: folder_entries_result)
  have some: "?f e = Some x \<longleftrightarrow> name_from_str (is_match (codecs sv)) (entry_name e) = Inr x" for e x
    by (simp split: sum.split)
  have listed: "x \<in> set names \<longleftrightarrow> (\<exists>e \<in> set ?es. entry_kind e = DirectoryKind \<and>
      name_from_str (is_match (codecs sv)) (entry_name e) = Inr x)" for x
    unfolding names set_map_filter_iff some by auto
  show "n \<in> set names" if n: "is_name sv n" "is_dir s (create_seedling_path sv n)"
  proof -
    obtain m where "(n, Dir m) \<in> set (children s (seeds sv))"
      using children_dir n(2) unfolding create_seedling_path_def by blast
    then have "entry_of (seeds sv) n (Dir m) \<in> set ?es" by force
    moreover have "entry_kind (entry_of (seeds sv) n (Dir m)) = DirectoryKind"
      and "name_from_str (is_match (codecs sv)) (entry_name (entry_of (seeds sv) n (Dir m))) = Inr n"
      using n(1) by (simp_all add: entry_of_def is_name_def)
    ultimately show ?thesis unfolding listed by blast
  qed
  show "n \<in> set names \<Longrightarrow> is_name sv n"
    unfolding listed is_name_def by (metis name_from_str_same)
qed

lemma stored_id_same: "later s t \<Longrightarrow> stored_id sv t n = stored_id sv s n"
  by (simp add: stored_id_def later_content)

lemma truthful_missing:
  assumes "draws truthful s" and "reader_read_all p s = (Inl e, t)" and "content s p = Some b"
  shows "\<not> missing_at_path e"
  using truthful_read [OF assms] by (auto simp: missing_at_path_def is_not_found_def split: fs_error.splits)

lemma used_id_result:
  assumes "used_id sv n s = (Inr r, t)"
  shows "draws truthful s \<Longrightarrow> stored_id sv s n = Some i \<Longrightarrow> r = Some i"
    and "r = Some i \<Longrightarrow> stored_id sv s n = Some i"
proof -
  obtain x u where load: "load_id sv n s = (x, u)" by (cases "load_id sv n s") auto
  show "r = Some i \<Longrightarrow> stored_id sv s n = Some i"
    using assms load unfolding used_id_def attempt_then
    by (auto simp: prog_simps split: sum.splits seedbank_error.splits dest: load_id_stored)
  assume stored: "stored_id sv s n = Some i" and truthful: "draws truthful s"
  then obtain raw where raw: "content s (id_path sv n) = Some raw" by (auto simp: stored_id_def split: option.splits)
  show "r = Some i"
  proof (cases x)
    case (Inr j)
    with load have "stored_id sv s n = Some j" by (auto dest: load_id_stored)
    with Inr stored assms load show ?thesis by (simp add: used_id_def attempt_then prog_simps)
  next
    case (Inl e)
    with load truthful_missing [OF truthful _ raw] have "\<nexists>m. e = SeedlingNotFound m"
      unfolding load_id_def attempt_then
      by (auto simp: map_err_def prog_simps split: prod.splits sum.splits if_splits)
    with Inl assms load show ?thesis
      by (auto simp: used_id_def attempt_then prog_simps split: seedbank_error.splits)
  qed
qed

lemma next_id_spec:
  assumes "draws truthful s" and "get_next_id sv s = (Inr i, t)"
  shows "i < MAX_SEEDLINGS \<and>
    (\<forall>n. is_name sv n \<and> is_dir s (create_seedling_path sv n) \<longrightarrow> stored_id sv s n \<noteq> Some i) \<and>
    (\<forall>j < i. \<exists>n. is_name sv n \<and> stored_id sv s n = Some j)"
proof -
  from assms(2) obtain names u ids v where names: "list_seedlings sv s = (Inr names, u)"
    and ids: "collect_results (used_id sv) names u = (Inr ids, v)"
    and first: "first_unused (unat MAX_SEEDLINGS) (List.map_filter id ids) 0 = Some i"
    unfolding get_next_id_def
    by (auto elim!: and_then_InrE simp: prog_simps split: option.splits)
  have su: "later s u" using names list_seedlings_reads reads_treeD by blast
  note elems = collect_results_elems [OF ids used_id_reads]
  have max: "unat MAX_SEEDLINGS = 4096" by (simp add: MAX_SEEDLINGS_def)
  obtain k where k: "k < 4096" "i = of_nat k" "i \<notin> set (List.map_filter id ids)"
    and least: "\<And>l. l < k \<Longrightarrow> of_nat l \<in> set (List.map_filter id ids)"
    using first_unused_cases [OF first] max by auto
  have ik: "unat i = k" using k(1) unfolding k(2) by (simp add: unat_of_nat take_bit_nat_eq_self)
  have "i < MAX_SEEDLINGS" using k ik max by (simp add: word_less_nat_alt)
  moreover have "stored_id sv s n \<noteq> Some i" if "is_name sv n" "is_dir s (create_seedling_path sv n)" for n
  proof
    assume st: "stored_id sv s n = Some i"
    have "n \<in> set names" using list_seedlings_result(1) [OF names that] .
    with elems(2) obtain y w x where y: "y \<in> set ids" "later u w" "used_id sv n w = (Inr y, x)" by blast
    have sw: "later s w" using su y(2) by (rule later_trans)
    have "stored_id sv w n = Some i" using st stored_id_same [OF sw] by simp
    then have "y = Some i" by (rule used_id_result(1) [OF y(3) draws_later [OF sw assms(1)]])
    with y(1) k(3) show False by (auto simp: set_map_filter_iff)
  qed
  moreover have "\<exists>n. is_name sv n \<and> stored_id sv s n = Some j" if "j < i" for j
  proof -
    have "unat j < k" using that ik by (simp add: word_less_nat_alt)
    then have "j \<in> set (List.map_filter id ids)" using least [of "unat j"] by simp
    then have "Some j \<in> set ids" by (auto simp: set_map_filter_iff)
    with elems(1) obtain n w x where n: "n \<in> set names" "later u w" "used_id sv n w = (Inr (Some j), x)" by blast
    have "stored_id sv s n = Some j"
      using used_id_result(2) [OF n(3) refl] stored_id_same [OF later_trans [OF su n(2)]] by simp
    with list_seedlings_result(2) [OF names n(1)] show ?thesis by blast
  qed
  ultimately show ?thesis by blast
qed

text \<open>
  A new seedling gets the least id below 4096 that no seedling in the store holds, or the request
  fails; ids of deleted seedlings are given out again.
\<close>

theorem next_id_least:
  assumes "draws truthful s" and "get_next_id sv s = (Inr i, t)"
  shows "i < MAX_SEEDLINGS \<and>
    (\<forall>n. is_name sv n \<and> is_dir s (create_seedling_path sv n) \<longrightarrow> stored_id sv s n \<noteq> Some i) \<and>
    (\<forall>j < i. \<exists>n. is_name sv n \<and> stored_id sv s n = Some j)"
  using next_id_spec [OF assms] .

lemma demo_names: "list_seedlings demo_server (demo_store (Proceed # os)) = (Inr [''a''], demo_store os)"
proof -
  have a: "name_from_str table_regex ''a'' = Inr ''a''" by code_simp
  have "folder_entries [''seeds''] (demo_store (Proceed # os)) =
      (Inr [entry_of [''seeds''] ''a'' (Dir demo_meta), entry_of [''seeds''] ''default'' (File demo_meta ''a'')],
       demo_store os)"
    by (simp add: folder_entries_def std_read_dir_def call_def next_outcome_def demo_store_def
        node_at_def children_def map_err_def and_then_def ok_def)
  with a show ?thesis
    by (simp add: list_seedlings_def demo_server_def demo_codecs_def map_err_def and_then_def ok_def
        entry_of_def List.map_filter_simps)
qed

lemma demo_id: "used_id demo_server ''a'' (demo_store []) = (Inr (Some 0), demo_store [])"
proof -
  have "reader_read_all (id_path demo_server ''a'') (demo_store []) = (Inr ''0'', demo_store [])"
    by (rule unix_files.read_stored)
      (simp_all add: calm_def demo_store_def content_def node_at_def path_defs demo_server_def
        is_utf8_def utf8_tail_def)
  moreover have "id_from_str (trim ''0'') = Inr 0"
  proof -
    have "char_of (48 :: nat) = CHR ''0''" by code_simp
    then have "show_u16 0 = ''0''" by (simp add: show_u16_def show_nat.simps digit_char_def)
    then show ?thesis
      using id_round_trip [of 0] trim_show_nat [of "unat (0 :: 16 word)"]
      by (simp add: show_u16_def MAX_SEEDLINGS_def)
  qed
  ultimately show ?thesis
    by (simp add: used_id_def attempt_then load_id_def map_err_def of_result_def ok_def)
qed

lemma demo_next_id: "get_next_id demo_server (demo_store [Proceed]) = (Inr 1, demo_store [])"
proof -
  have "first_unused 4096 [0] 0 = Some 1"
    by (simp add: first_unused.simps)
  then show ?thesis
    by (simp add: get_next_id_def and_then_def demo_names demo_id ok_def MAX_SEEDLINGS_def List.map_filter_simps)
qed

theorem next_id_least_witness:
  "\<exists>n. is_name demo_server n \<and> stored_id demo_server (demo_store [Proceed]) n = Some 0"
proof -
  have "draws truthful (demo_store [Proceed])" by (simp add: draws_def demo_store_def)
  from next_id_least [OF this demo_next_id] show ?thesis by simp
qed

text \<open>An invariant that survives every write, deletion and read survives every request.\<close>

lemma request_keeps:
  assumes wr: "\<And>p b. keeps I (writer_write_all p b)" "\<And>p b. keeps I (writer_write_all_bytes p b)"
    and del: "\<And>p. keeps I (deleter_delete p)" "\<And>p. keeps I (folder_deleter_delete p)"
    and mk: "\<And>p. keeps I (folder_create_recursively p)"
    and rd: "\<And>s t. later s t \<Longrightarrow> I s \<Longrightarrow> I t"
    and s: "I s"
  shows "I (snd (seedbank_handle sv now r s))"
proof -
  have reading: "keeps I m" if "reads_tree m" for m :: "(fs, 'e, 'a) prog"
  proof (rule keepsI)
    fix t assume "I t"
    then show "I (snd (m t))" using reads_treeD [OF that, of t] rd by (cases "m t") auto
  qed
  have wrap: "I (snd (respond f m s))" if "keeps I m" for f :: "'b \<Rightarrow> _" and m
    using keepsD [OF that s] by (auto simp: respond_def split: prod.split sum.split)
  note reads = seedbank_reads [THEN reading]
  have blob: "keeps I (write_json_blob print p a)" for print :: "'c \<Rightarrow> _" and p a
    unfolding write_json_blob_def by (intro keeps_intros wr)
  have purge: "keeps I (purge_mounts sv n current d)" for n current d
    unfolding purge_mounts_def delete_mount_contents_def Let_def
    by (intro keeps_for_each keeps_case_prod keeps_case_option del)
      (auto intro!: del keeps_for_each split: mount_contents.split)
  have written: "keeps I (write_definition sv n v current d)" for n v current d
    unfolding write_definition_def write_mounts_def write_contents_def write_version_def
    by (intro keeps_and_then keeps_map_err keeps_case_option keeps_fail purge wr keeps_for_each keeps_case_prod mk)
      (auto intro!: keeps_intros wr mk split: mount_contents.split option.split)
  have "keeps I (seedbank_create sv n v d)" "keeps I (seedbank_delete sv n)" "keeps I (claim_default sv n)"
    "keeps I (release_default sv n)" "keeps I (set_desired_run_status sv n st)" "keeps I (reset_health_log sv n)"
    "keeps I (increment_health_log_fail_count sv now n)" "keeps I (get_desired_run_status sv n)"
    "keeps I (health_check_log_of sv n)" for n v d st
    unfolding seedbank_create_def write_id_def seedbank_delete_def claim_default_def release_default_def
      set_desired_run_status_def reset_health_log_def increment_health_log_fail_count_def Let_def
      get_desired_run_status_def health_check_log_of_def
    by (intro keeps_intros reads mk wr del blob written)+
  moreover have "keeps I (seedbank_update sv n v d)" for n v d
    unfolding seedbank_update_def
    by (auto intro!: keeps_intros reads written split: seedling_status.split)
  ultimately show ?thesis
    by (cases r) (simp_all add: seedbank_handle_def wrap reads)
qed

lemma request_keeps_wf: "wf_fs s \<Longrightarrow> wf_fs (snd (seedbank_handle sv now r s))"
  by (rule request_keeps [where I = wf_fs]) (use wf_methods wf_same_tree [OF later_same] in auto)

lemma request_keeps_draws: "draws A s \<Longrightarrow> draws A (snd (seedbank_handle sv now r s))"
  by (rule request_keeps [where I = "draws A"]) (use draws_methods draws_later in auto)

text \<open>No two seedlings hold the same id.\<close>

definition distinct_ids :: "server \<Rightarrow> fs \<Rightarrow> bool" where
  "distinct_ids sv s \<longleftrightarrow>
     (\<forall>m n i. is_name sv m \<and> is_name sv n \<and> stored_id sv s m = Some i \<and> stored_id sv s n = Some i \<longrightarrow> m = n)"

lemma distinct_ids_shrink:
  assumes "distinct_ids sv s" and "\<And>n i. stored_id sv t n = Some i \<Longrightarrow> stored_id sv s n = Some i"
  shows "distinct_ids sv t"
  using assms unfolding distinct_ids_def by blast

lemma stored_id_eq: "content t (id_path sv n) = content s (id_path sv n) \<Longrightarrow> stored_id sv t n = stored_id sv s n"
  by (simp add: stored_id_def)

lemma id_path_inj [simp]: "id_path sv m = id_path sv n \<longleftrightarrow> m = n"
  by (simp add: path_defs)

lemma id_paths_untouched:
  assumes "\<nexists>n v d. r = CreateRequest n v d" and "\<nexists>n. r = DeleteRequest n"
  shows "\<not> may_touch sv r (id_path sv m)"
  using assms by (cases r) (auto simp: path_defs below_append)

lemma delete_only_removes:
  assumes "folder_deleter_delete p s = (r, t)"
  shows "content t q = content s q \<or> content t q = None"
  using assms unfolding folder_deleter_delete_def std_remove_dir_all_def
  by (auto simp: and_then_def map_err_def prog_simps content_same
      split: prod.splits sum.splits if_splits option.splits node.splits elim!: call_cases)

lemma create_recursively_content:
  assumes "folder_create_recursively p s = (r, t)"
  shows "content t = content s"
proof -
  have "keeps (agrees (\<lambda>_. True) s) (folder_create_recursively p)" by (rule frame_methods)
  from keeps_result [OF this _ assms] show ?thesis by (simp add: agrees_def fun_eq_iff)
qed

lemma stored_id_dir:
  assumes "wf_fs s" and "stored_id sv s n = Some i"
  shows "is_dir s (create_seedling_path sv n)"
proof -
  have "exists_path s (id_path sv n)"
    using assms(2) by (auto simp: stored_id_def content_def exists_path_def split: option.splits)
  from wf_parent [OF assms(1) this] show ?thesis by (simp add: id_path_def)
qed

lemma stored_id_written:
  assumes "content t (id_path sv n) = Some (show_u16 i)" and "i < MAX_SEEDLINGS"
  shows "stored_id sv t n = Some i"
  using assms id_round_trip [OF assms(2)] trim_show_nat [of "unat i"]
  by (simp add: stored_id_def show_u16_def)

lemma create_id:
  assumes free: "draws whole s" "draws truthful s" and run: "seedbank_create sv n v d s = (r, t)"
  shows "content t (id_path sv n) = content s (id_path sv n) \<or>
    (\<exists>i u. get_next_id sv s = (Inr i, u) \<and> content t (id_path sv n) = Some (show_u16 i))"
proof -
  have unchanged: "content u q = content s q" if "get_next_id sv s = (x, u)" for x u q
    using reads_tree_content [OF get_next_id_reads that] by simp
  note steps = run [unfolded seedbank_create_def and_then_def seedling_exists_def gets_def map_err_def, simplified]
  consider (same) "content t (id_path sv n) = content s (id_path sv n)"
    | (wrote) i u w x y where "get_next_id sv s = (Inr i, u)"
      "folder_create_recursively (create_seedling_path sv n) u = (Inr x, w)"
      "write_id sv n i w = (y, t) \<or> (\<exists>w'. write_id sv n i w = (Inr (), w') \<and> write_definition sv n v None d w' = (r, t))"
    using steps unchanged create_recursively_content
    by (auto simp: fail_def split: if_splits prod.splits sum.splits)
  then show ?thesis
  proof cases
    case wrote
    have whole: "draws whole w"
      using keeps_result [OF draws_methods(5) _ wrote(2)]
        draws_later [OF reads_treeD [OF get_next_id_reads wrote(1)] free(1)] by blast
    have cw: "content w (id_path sv n) = content s (id_path sv n)"
      using create_recursively_content [OF wrote(2)] unchanged [OF wrote(1)] by simp
    have written: "content w' (id_path sv n) = content s (id_path sv n) \<or> content w' (id_path sv n) = Some (show_u16 i)"
      if "write_id sv n i w = (z, w')" for z w'
    proof -
      obtain z' w'' where wa: "writer_write_all (id_path sv n) (show_u16 i) w = (z', w'')"
        by (cases "writer_write_all (id_path sv n) (show_u16 i) w") auto
      then have "w'' = w'" using that by (simp add: write_id_def map_err_def split: sum.splits)
      with whole_write [OF whole wa] cw show ?thesis by auto
    qed
    have kept: "content t (id_path sv n) = content w' (id_path sv n)"
      if "write_definition sv n v None d w' = (r, t)" for w'
    proof -
      have "keeps (agrees (\<lambda>q. q = id_path sv n) w') (write_definition sv n v None d)"
        by (rule frame_write_definition) (auto simp: path_defs below_append)
      from keeps_result [OF this _ that] show ?thesis by (simp add: agrees_def)
    qed
    show ?thesis using wrote written kept by metis
  qed blast
qed

text \<open>The whole of a request's work on the ids, and its repetition.\<close>

fun named :: "seedbank_request \<Rightarrow> name option" where
  "named (CreateRequest n v d) = Some n"
| "named (DeleteRequest n) = Some n"
| "named (UpdateRequest n v d) = Some n"
| "named _ = None"

definition serve :: "server \<Rightarrow> (nat \<times> seedbank_request) list \<Rightarrow> fs \<Rightarrow> fs" where
  "serve sv rs s = fold (\<lambda>(now, r) s. snd (seedbank_handle sv now r s)) rs s"

lemma snd_respond [simp]: "snd (respond f m s) = snd (m s)"
  by (simp add: respond_def split: prod.split sum.split)

lemma delete_ids:
  assumes "stored_id sv (snd (seedbank_delete sv n s)) m = Some i"
  shows "stored_id sv s m = Some i"
proof -
  obtain r t where run: "folder_deleter_delete (create_seedling_path sv n) s = (r, t)"
    by (cases "folder_deleter_delete (create_seedling_path sv n) s") auto
  have "content (snd (seedbank_delete sv n s)) q \<in> {content s q, None}" for q
    using delete_only_removes [OF run, of q] run
    by (auto simp: seedbank_delete_def seedling_exists_def and_then_def gets_def fail_def map_err_def
        split: sum.split)
  then have "content (snd (seedbank_delete sv n s)) (id_path sv m) = content s (id_path sv m) \<or>
      content (snd (seedbank_delete sv n s)) (id_path sv m) = None" by auto
  then show ?thesis using assms by (elim disjE) (simp_all add: stored_id_def)
qed

lemma request_ids:
  assumes wf: "wf_fs s" and free: "draws (whole \<inter> truthful) s" and named: "\<forall>n. named r = Some n \<longrightarrow> is_name sv n"
    and distinct: "distinct_ids sv s"
  shows "distinct_ids sv (snd (seedbank_handle sv now r s))"
proof -
  have kept: "distinct_ids sv (snd (seedbank_handle sv now r s))"
    if "\<nexists>n v d. r = CreateRequest n v d" "\<nexists>n. r = DeleteRequest n"
  proof -
    have "stored_id sv (snd (seedbank_handle sv now r s)) m = stored_id sv s m" for m
      by (intro stored_id_eq confined id_paths_untouched that)
    with distinct show ?thesis by (simp add: distinct_ids_def)
  qed
  show ?thesis
  proof (cases r)
  case (CreateRequest n v d)
  obtain x t where run: "seedbank_create sv n v d s = (x, t)" by (cases "seedbank_create sv n v d s") auto
  have t: "snd (seedbank_handle sv now r s) = t" by (simp add: CreateRequest seedbank_handle_def run)
  have others: "stored_id sv t m = stored_id sv s m" if "m \<noteq> n" for m
  proof -
    have "\<not> may_touch sv r (id_path sv m)" using that by (simp add: CreateRequest path_defs below_append)
    from confined [OF this, of now s] t show ?thesis by (intro stored_id_eq) simp
  qed
  have free': "draws whole s" "draws truthful s" using free by (auto simp: draws_def)
  from create_id [OF free' run] show ?thesis
  proof
    assume "content t (id_path sv n) = content s (id_path sv n)"
    then have "stored_id sv t n = stored_id sv s n" by (rule stored_id_eq)
    with others have "stored_id sv t m = stored_id sv s m" for m by (cases "m = n") auto
    with t distinct show ?thesis by (simp add: distinct_ids_def)
  next
    assume "\<exists>i u. get_next_id sv s = (Inr i, u) \<and> content t (id_path sv n) = Some (show_u16 i)"
    then obtain i u where i: "get_next_id sv s = (Inr i, u)" "content t (id_path sv n) = Some (show_u16 i)" by blast
    note least = next_id_spec [OF free'(2) i(1)]
    have "stored_id sv t n = Some i" using stored_id_written i(2) least by blast
    moreover have "stored_id sv s m \<noteq> Some i" if "is_name sv m" for m
      using least stored_id_dir [OF wf] that by blast
    ultimately show ?thesis
      using distinct others unfolding distinct_ids_def t by (metis option.inject)
  qed
next
  case (DeleteRequest n)
  show ?thesis
  proof (rule distinct_ids_shrink [OF distinct])
    fix m i assume "stored_id sv (snd (seedbank_handle sv now r s)) m = Some i"
    then show "stored_id sv s m = Some i"
      using delete_ids [of sv n s m i] DeleteRequest by (simp add: seedbank_handle_def)
  qed
qed (rule kept; simp)+
qed

text \<open>
  C6: No two seedlings ever hold the same id: this survives any sequence of requests, refused system
  calls included, as long as no write is torn in the middle and no existing file is reported missing.
\<close>

theorem ids_stay_distinct:
  assumes "wf_fs s" and "draws (whole \<inter> truthful) s" and "distinct_ids sv s"
    and "\<forall>(now, r) \<in> set rs. \<forall>n. named r = Some n \<longrightarrow> is_name sv n"
  shows "distinct_ids sv (serve sv rs s)"
  using assms
proof (induction rs arbitrary: s)
  case (Cons x rs)
  obtain now r where x: "x = (now, r)" by (cases x)
  have "distinct_ids sv (snd (seedbank_handle sv now r s))"
    using Cons.prems x by (intro request_ids) auto
  with Cons x request_keeps_wf request_keeps_draws show ?case by (simp add: serve_def)
qed (simp add: serve_def)

theorem ids_stay_distinct_witness:
  "distinct_ids demo_server (serve demo_server
     [(0, CreateRequest ''b'' 1 demo_definition), (0, DeleteRequest ''a''), (0, CreateRequest ''c'' 1 demo_definition)]
     (demo_store [Proceed, Refuse OtherKind]))"
proof (rule ids_stay_distinct)
  show "wf_fs (demo_store [Proceed, Refuse OtherKind])"
    unfolding wf_fs_def by (auto simp: exists_path_def is_dir_def node_at_def demo_store_def split: if_splits)
  show "draws (whole \<inter> truthful) (demo_store [Proceed, Refuse OtherKind])"
    by (simp add: draws_def demo_store_def)
  show "distinct_ids demo_server (demo_store [Proceed, Refuse OtherKind])"
    unfolding distinct_ids_def stored_id_def
    by (auto simp: demo_content path_defs demo_server_def split: if_splits)
  have "is_name demo_server ''b''" "is_name demo_server ''a''" "is_name demo_server ''c''" by code_simp+
  then show "\<forall>(now, r) \<in> set [(0, CreateRequest ''b'' 1 demo_definition), (0, DeleteRequest ''a''),
      (0, CreateRequest ''c'' 1 demo_definition)]. \<forall>n. named r = Some n \<longrightarrow> is_name demo_server n"
    by simp
qed

end
