(* ===== verification/SeedbankRequests.thy ===== *)
theory SeedbankRequests
  imports SeedbankStore
begin

text \<open>
  Single requests of seedbank and what they promise: versions only grow, one seedling holds the
  default route, the health log counts to five, a created seedling can be loaded, and loading ends.
\<close>

section \<open>Versions\<close>

definition stored_version :: "server \<Rightarrow> fs \<Rightarrow> name \<Rightarrow> seedling_version option" where
  "stored_version sv s n =
     (case content s (version_path sv n) of
        None \<Rightarrow> None
      | Some raw \<Rightarrow> (case version_from_str (trim raw) of Inr v \<Rightarrow> Some v | Inl _ \<Rightarrow> None))"

lemma stored_version_eq:
  "content t (version_path sv n) = content s (version_path sv n) \<Longrightarrow> stored_version sv t n = stored_version sv s n"
  by (simp add: stored_version_def)

lemma stored_version_written:
  "content t (version_path sv n) = Some (show_u16 v) \<Longrightarrow> stored_version sv t n = Some v"
  using show_u16_round_trip [of v] trim_show_nat [of "unat v"]
  by (simp add: stored_version_def show_u16_def)

lemma load_version_stored:
  assumes "load_version sv n s = (Inr v, t)"
  shows "stored_version sv s n = Some v"
  using assms unfolding load_version_def attempt_then
  by (auto elim!: map_err_InrE simp: prog_simps stored_version_def
      split: sum.splits if_splits prod.splits dest!: unix_files.read_ok)

definition version_is :: "server \<Rightarrow> name \<Rightarrow> string option \<Rightarrow> seedling_version \<Rightarrow> fs \<Rightarrow> bool" where
  "version_is sv n before v s \<longleftrightarrow> draws whole s \<and>
     (content s (version_path sv n) = before \<or> content s (version_path sv n) = Some (show_u16 v))"

lemma version_is_frame:
  assumes "\<And>s. keeps (agrees (\<lambda>q. q = version_path sv n) s) m" and "keeps (draws whole) m"
  shows "keeps (version_is sv n before v) m"
proof (rule keepsI)
  fix s assume s: "version_is sv n before v s"
  have "agrees (\<lambda>q. q = version_path sv n) s (snd (m s))" by (rule keepsD [OF assms(1)]) simp
  with s keepsD [OF assms(2)] show "version_is sv n before v (snd (m s))"
    by (auto simp: version_is_def agrees_def)
qed

lemma version_is_written: "keeps (version_is sv n before v) (write_version sv n v)"
proof (rule keepsI)
  fix s assume s: "version_is sv n before v s"
  obtain r t where w: "writer_write_all (version_path sv n) (show_u16 v) s = (r, t)"
    by (cases "writer_write_all (version_path sv n) (show_u16 v) s") auto
  have "draws whole t" using keeps_result [OF draws_methods(1) _ w] s by (auto simp: version_is_def)
  moreover have "snd (write_version sv n v s) = t"
    using w by (simp add: write_version_def map_err_def split: sum.split)
  ultimately show "version_is sv n before v (snd (write_version sv n v s))"
    using s whole_write [OF _ w] by (auto simp: version_is_def)
qed

lemma mounts_leave_version:
  "keeps (version_is sv n before v) (purge_mounts sv n current d)"
  "keeps (version_is sv n before v) (write_mounts sv n ms)"
  "keeps (version_is sv n before v) (writer_write_all (definition_path sv n) b)"
proof -
  have apart: "\<not> below (mount_root sv n mn) (version_path sv n)"
      "definition_path sv n \<noteq> version_path sv n" for mn
    by (auto simp: path_defs below_append)
  have away: "mount_file sv n mn f \<noteq> version_path sv n" "\<not> below (mount_file sv n mn f) (version_path sv n)"
      "mount_root sv n mn @ f \<noteq> version_path sv n" for mn f
    by (auto simp: path_defs below_append)
  have file_ops: "keeps (version_is sv n before v) (writer_write_all_bytes p b)"
      "keeps (version_is sv n before v) (writer_write_all p b)"
      "keeps (version_is sv n before v) (deleter_delete p)"
    if "p \<noteq> version_path sv n" for p b
    using that by (intro version_is_frame frame_methods draws_methods; auto)+
  have folder: "keeps (version_is sv n before v) (folder_deleter_delete p)"
    if "\<not> below p (version_path sv n)" for p
    using that by (intro version_is_frame frame_methods draws_methods) auto
  have make: "keeps (version_is sv n before v) (folder_create_recursively p)" for p
    by (intro version_is_frame frame_methods draws_methods)
  have del: "keeps (version_is sv n before v) (delete_mount_contents sv n mn c)" for mn c
    unfolding delete_mount_contents_def Let_def
    by (cases c) (auto intro!: file_ops folder simp: away)
  show "keeps (version_is sv n before v) (purge_mounts sv n current d)"
    unfolding purge_mounts_def
    by (intro keeps_for_each keeps_case_prod keeps_case_option del folder apart)
  have contents: "keeps (version_is sv n before v) (write_contents (mount_root sv n mn) c)" for mn c
    unfolding write_contents_def
    by (cases c) (auto intro!: keeps_intros file_ops make simp: away split: option.split)
  show "keeps (version_is sv n before v) (write_mounts sv n ms)"
    unfolding write_mounts_def by (intro keeps_for_each keeps_case_prod keeps_and_then make contents)
  show "keeps (version_is sv n before v) (writer_write_all (definition_path sv n) b)"
    by (rule file_ops) (rule apart)
qed

lemma version_is_definition: "keeps (version_is sv n before v) (write_definition sv n v current d)"
  unfolding write_definition_def
  by (intro keeps_and_then keeps_map_err keeps_case_option keeps_fail mounts_leave_version version_is_written)

lemma write_definition_version:
  assumes "write_definition sv n v current d s = (Inr (), t)"
  shows "stored_version sv t n = Some v"
  using assms unfolding write_definition_def write_version_def
  by (auto elim!: and_then_InrE map_err_InrE split: option.splits simp: prog_simps
      intro!: stored_version_written dest!: unix_files.write_ok)

lemma update_cases:
  assumes "seedbank_update sv n v d s = (r, t)"
  obtains (rejected) e where "r = Inl e" "content t = content s"
    | (older) c where "r = Inl InvalidVersion" "stored_version sv s n = Some c" "v \<le> c" "content t = content s"
    | (written) c current u where "stored_version sv s n = Some c" "c < v" "later s u"
      "write_definition sv n v (Some current) d u = (r, t)"
proof -
  obtain x u where st: "seedling_status sv n s = (x, u)" by (cases "seedling_status sv n s") auto
  have su: "later s u" using st seedling_status_reads reads_treeD by blast
  note run = assms [unfolded seedbank_update_def and_then_def st]
  show thesis
  proof (cases x)
    case (Inl e)
    with run rejected su show thesis by (auto simp: later_content)
  next
    case (Inr status)
    show thesis
    proof (cases status)
      case Unknown
      with Inr run rejected su show thesis by (auto simp: later_content fail_def)
    next
      case (Defined c)
      have c: "stored_version sv s n = Some c"
        using st Inr Defined unfolding seedling_status_def seedling_exists_def
        by (auto elim!: and_then_InrE simp: prog_simps split: if_splits dest: load_version_stored)
      show thesis
      proof (cases "c < v")
        case False
        with Inr Defined run older c su show thesis by (auto simp: later_content fail_def)
      next
        case True
        obtain y w where ld: "load_definition sv n u = (y, w)" by (cases "load_definition sv n u") auto
        have sw: "later s w" using ld load_definition_reads reads_treeD later_trans [OF su] by blast
        with Inr Defined run True ld c rejected written show thesis
          by (cases y) (auto simp: later_content)
      qed
    qed
  qed
qed



section \<open>The default seedling\<close>

lemma read_default_cases:
  assumes "draws truthful s" and "content s (default_path sv) = Some raw" and "read_default sv s = (Inr c, t)"
  shows "c = Some (trim raw)"
proof -
  obtain x u where rd: "reader_read_all (default_path sv) s = (x, u)"
    by (cases "reader_read_all (default_path sv) s") auto
  show ?thesis
  proof (cases x)
    case (Inl e)
    with truthful_missing [OF assms(1) _ assms(2)] rd assms(3) show ?thesis
      by (auto simp: read_default_def attempt_then fail_def)
  next
    case (Inr b)
    with unix_files.read_ok rd assms(2) have "b = raw" by force
    with Inr rd assms(3) show ?thesis
      by (cases "name_from_str (is_match (codecs sv)) (trim raw)")
        (auto simp: read_default_def attempt_then map_err_def of_result_def dest: name_from_str_same)
  qed
qed

fun gives_up_default :: "name \<Rightarrow> seedbank_request \<Rightarrow> bool" where
  "gives_up_default holder (ReleaseDefaultRequest n) = (n = holder)"
| "gives_up_default holder (CreateRequest n v d) = (n = ''default'')"
| "gives_up_default holder (DeleteRequest n) = (n = ''default'')"
| "gives_up_default holder _ = False"

lemma default_kept:
  assumes "draws truthful s" and "content s (default_path sv) = Some raw"
    and "\<not> gives_up_default (trim raw) r"
  shows "content (snd (seedbank_handle sv now r s)) (default_path sv) = Some raw"
proof -
  have reading: "content t q = content s q" if "read_default sv s = (x, t)" for x t q
    using reads_tree_content [OF read_default_reads that] by simp
  have elsewhere: "content (snd (seedbank_handle sv now r s)) (default_path sv) = Some raw"
    if "\<not> may_touch sv r (default_path sv)"
    using confined [OF that] assms(2) by simp
  show ?thesis
  proof (cases r)
    case (ClaimDefaultRequest n)
    obtain x t where rd: "read_default sv s = (x, t)" by (cases "read_default sv s") auto
    with read_default_cases [OF assms(1,2)] have "x = Inr c \<Longrightarrow> c = Some (trim raw)" for c by blast
    with rd reading [OF rd] assms(2) ClaimDefaultRequest show ?thesis
      by (cases x) (auto simp: seedbank_handle_def claim_default_def seedling_exists_def and_then_def
          gets_def fail_def ok_def)
  next
    case (ReleaseDefaultRequest n)
    obtain x t where rd: "read_default sv s = (x, t)" by (cases "read_default sv s") auto
    with read_default_cases [OF assms(1,2)] have "x = Inr c \<Longrightarrow> c = Some (trim raw)" for c by blast
    with rd reading [OF rd] assms(2,3) ReleaseDefaultRequest show ?thesis
      by (cases x) (auto simp: seedbank_handle_def release_default_def and_then_def ok_def)
  qed (rule elsewhere; use assms(3) in \<open>simp add: path_defs below_append\<close>)+
qed

text \<open>
  The default route is never taken from the seedling that holds it: through any sequence of
  requests, failing system calls and torn writes included, the claim stays as it is until its holder
  releases it.  In particular deleting the holder does not free the claim.  (A seedling that is
  itself named \<open>default\<close>, a reserved name, would live at the path of the claim.)
\<close>

theorem default_claim_stays:
  assumes "draws truthful s" and "content s (default_path sv) = Some raw"
    and "\<forall>(now, r) \<in> set rs. \<not> gives_up_default (trim raw) r"
  shows "content (serve sv rs s) (default_path sv) = Some raw"
  using assms
proof (induction rs arbitrary: s)
  case (Cons x rs)
  obtain now r where x: "x = (now, r)" by (cases x)
  have "content (snd (seedbank_handle sv now r s)) (default_path sv) = Some raw"
    using Cons.prems x by (intro default_kept) auto
  with Cons x request_keeps_draws show ?case by (simp add: serve_def)
qed (simp add: serve_def)

theorem default_claim_stays_witness:
  "content (serve demo_server [(0, DeleteRequest ''a''), (1, ClaimDefaultRequest ''b'')] (demo_store [Torn 0]))
     (default_path demo_server) = Some ''a''"
proof (rule default_claim_stays)
  have "plain_char CHR ''a''" by code_simp
  then have "trim ''a'' = ''a''" by (intro trim_plain) simp
  then show "\<forall>(now, r) \<in> set [(0, DeleteRequest ''a''), (1, ClaimDefaultRequest ''b'')].
      \<not> gives_up_default (trim ''a'') r" by simp
qed (simp_all add: draws_def demo_store_def demo_content [unfolded demo_store_def] path_defs demo_server_def)

section \<open>The health log\<close>

definition health_codec :: "server \<Rightarrow> bool" where
  "health_codec sv \<longleftrightarrow> (\<forall>l. \<exists>b. print_health_log (codecs sv) l = Some b \<and> is_utf8 b \<and>
     parse_health_log (codecs sv) b = Some l)"

text \<open>\<open>fails_logged sv n k s\<close>: the log of \<open>n\<close> counts \<open>k\<close> failures; no failure is no file.\<close>

definition fails_logged :: "server \<Rightarrow> name \<Rightarrow> nat \<Rightarrow> fs \<Rightarrow> bool" where
  "fails_logged sv n k s \<longleftrightarrow> calm s \<and> is_dir s (create_seedling_path sv n) \<and>
     (if k = 0 then node_at s (health_log_path sv n) = None
      else \<exists>now b. print_health_log (codecs sv) \<lparr>fail_count = of_nat k, updated_at = now\<rparr> = Some b \<and>
             content s (health_log_path sv n) = Some b)"

lemma ensure_exists_calm:
  "is_dir s (create_seedling_path sv n) \<Longrightarrow> ensure_exists sv n s = (Inr (), s)"
  by (simp add: ensure_exists_def seedling_exists_def folder_exists_def exists_iff and_then_def gets_def ok_def)

lemma read_missing:
  "calm s \<Longrightarrow> node_at s p = None \<Longrightarrow> reader_read_all p s = (Inl (IoErrorAtPath p NotFound), s)"
  by (simp add: reader_read_all_def map_err_def and_then_def std_read_calm)

lemma blob_missing:
  "calm s \<Longrightarrow> node_at s p = None \<Longrightarrow> read_json_blob parse p s = (Inr None, s)"
  by (simp add: read_json_blob_def attempt_then read_missing missing_at_path_def ok_def)

lemma blob_present:
  "calm s \<Longrightarrow> content s p = Some b \<Longrightarrow> is_utf8 b \<Longrightarrow> parse b = Some a \<Longrightarrow>
     read_json_blob parse p s = (Inr (Some a), s)"
  by (simp add: read_json_blob_def attempt_then unix_files.read_stored ok_def)

lemma blob_written:
  assumes "calm s" and "is_dir s (butlast p)" and "\<not> is_dir s p" and "print a = Some b"
  shows "write_json_blob print p a s = (Inr (), put_node p (File (meta_for s p) b) s)"
  using assms
  by (simp add: write_json_blob_def map_err_def writer_write_all_def writer_write_all_bytes_def
      std_write_succeeds creatable_def)

lemma increment_step:
  assumes codec: "health_codec sv" and logged: "fails_logged sv n k s" and k: "k \<le> 5"
  shows "\<exists>t. increment_health_log_fail_count sv now n s = (Inr (5 \<le> k), t) \<and>
    fails_logged sv n (min 5 (Suc k)) t"
proof -
  let ?p = "health_log_path sv n"
  from logged have calm: "calm s" and dir: "is_dir s (create_seedling_path sv n)"
    by (auto simp: fails_logged_def)
  define l where "l = \<lparr>fail_count = of_nat (Suc k) :: 8 word, updated_at = now\<rparr>"
  define log where "log = (\<lambda>e. case e of Some l \<Rightarrow> health_log_increment now l | None \<Rightarrow> health_check_log_default now)"
  obtain e where read: "read_json_blob (parse_health_log (codecs sv)) ?p s = (Inr e, s)" and e: "log e = l"
  proof (cases "k = 0")
    case True
    with logged have "node_at s ?p = None" by (simp add: fails_logged_def)
    from that [OF blob_missing [OF calm this]] show thesis
      by (simp add: True log_def l_def health_check_log_default_def)
  next
    case False
    with logged obtain past b where "print_health_log (codecs sv) \<lparr>fail_count = of_nat k, updated_at = past\<rparr> = Some b"
      "content s ?p = Some b" by (auto simp: fails_logged_def)
    with codec have "content s ?p = Some b" "is_utf8 b"
      "parse_health_log (codecs sv) b = Some \<lparr>fail_count = of_nat k, updated_at = past\<rparr>"
      unfolding health_codec_def by (metis option.inject)+
    from that [OF blob_present [OF calm this(1,2), of "parse_health_log (codecs sv)", OF this(3)]] show thesis
      by (simp add: log_def l_def health_log_increment_def)
  qed
  have "k = 0 \<or> k = 1 \<or> k = 2 \<or> k = 3 \<or> k = 4 \<or> k = 5" using k by arith
  then have reached: "reached_max_fail_count l \<longleftrightarrow> 5 \<le> k"
    by (auto simp: reached_max_fail_count_def l_def)
  have run: "increment_health_log_fail_count sv now n s =
      (if 5 \<le> k then (Inr True, s)
       else and_then (write_json_blob (print_health_log (codecs sv)) ?p l) (\<lambda>_. ok False) s)"
    using ensure_exists_calm [OF dir] read e reached
    by (simp add: increment_health_log_fail_count_def and_then_def Let_def ok_def flip: log_def)
  show ?thesis
  proof (cases "5 \<le> k")
    case True
    with k logged run show ?thesis by (simp add: min_def)
  next
    case False
    obtain b where b: "print_health_log (codecs sv) l = Some b" using codec unfolding health_codec_def by blast
    have "\<not> is_dir s ?p" using logged
      by (auto simp: fails_logged_def is_dir_def content_def split: if_splits option.splits node.splits)
    moreover have "butlast ?p = create_seedling_path sv n" by (simp add: health_log_path_def)
    ultimately have w: "write_json_blob (print_health_log (codecs sv)) ?p l s =
        (Inr (), put_node ?p (File (meta_for s ?p) b) s)"
      using blob_written [of s ?p "print_health_log (codecs sv)" l b] calm b dir by simp
    have "fails_logged sv n (Suc k) (put_node ?p (File (meta_for s ?p) b) s)"
      using calm dir b by (auto simp: fails_logged_def l_def path_defs)
    moreover have "min 5 (Suc k) = Suc k" using False by simp
    ultimately show ?thesis using False k run w by (simp add: and_then_def ok_def)
  qed
qed

fun increments :: "server \<Rightarrow> nat list \<Rightarrow> name \<Rightarrow> fs \<Rightarrow> (seedbank_error + bool) list \<times> fs" where
  "increments sv [] n s = ([], s)"
| "increments sv (now # nows) n s =
     (let (r, t) = increment_health_log_fail_count sv now n s; (rs, u) = increments sv nows n t
      in (r # rs, u))"

text \<open>
  From a clean log, the first five failures are counted and answered with \<open>false\<close>; the sixth
  and every later one are answered with \<open>true\<close>, and the stored count stays at five.
\<close>

theorem health_log_counts_to_five:
  assumes "health_codec sv" and "fails_logged sv n 0 s"
  shows "fst (increments sv nows n s) = map (\<lambda>i. Inr (5 \<le> i)) [0..<length nows] \<and>
    fails_logged sv n (min 5 (length nows)) (snd (increments sv nows n s))"
proof -
  have "fst (increments sv nows n s) = map (\<lambda>i. Inr (5 \<le> i)) [k..<k + length nows] \<and>
      fails_logged sv n (min 5 (k + length nows)) (snd (increments sv nows n s))"
    if "fails_logged sv n (min 5 k) s" for k s
    using that
  proof (induction nows arbitrary: k s)
    case (Cons now nows)
    obtain t where t: "increment_health_log_fail_count sv now n s = (Inr (5 \<le> min 5 k), t)"
      "fails_logged sv n (min 5 (Suc (min 5 k))) t"
      using increment_step [OF assms(1) Cons.prems] by auto
    have "fails_logged sv n (min 5 (Suc k)) t" using t(2) by (simp add: min_def split: if_splits)
    from Cons.IH [OF this] t(1) show ?case
      by (simp add: case_prod_beta Let_def upt_conv_Cons del: upt_Suc)
  qed simp
  from this [of 0] assms(2) show ?thesis by simp
qed

lemma show_nat_no_colon: "CHR '':'' \<notin> set (show_nat n)"
proof
  assume "CHR '':'' \<in> set (show_nat n)"
  then obtain d where "d < 10" "CHR '':'' = digit_char d" by (blast dest: show_nat_digits)
  then have "(of_char CHR '':'' :: nat) = 48 + d" using of_char_digit by metis
  then show False using \<open>d < 10\<close> by simp
qed

lemma show_nat_ascii: "ascii (show_nat n)"
  unfolding ascii_def list_all_iff using show_nat_digits of_char_digit by fastforce

lemma demo_health_codec: "health_codec demo_server"
proof -
  have "ascii (show_nat n @ CHR '':'' # replicate k CHR ''t'')" for n k
    using show_nat_ascii [of n] by (auto simp: ascii_def list_all_iff)
  moreover have "unat (v :: 8 word) \<le> 255" for v
  proof -
    have "unat v < 2 ^ LENGTH(8)" by (rule unsigned_less)
    then show ?thesis by simp
  qed
  ultimately show ?thesis
    unfolding health_codec_def demo_server_def demo_codecs_def
    by (simp add: ascii_utf8 split_once_append show_nat_no_colon parse_uint_show)
qed

theorem health_log_counts_to_five_witness:
  "fst (increments demo_server [10, 20, 30, 40, 50, 60, 70] ''a'' (demo_store [])) =
     [Inr False, Inr False, Inr False, Inr False, Inr False, Inr True, Inr True]"
proof -
  have "fails_logged demo_server ''a'' 0 (demo_store [])"
    by (simp add: fails_logged_def calm_def demo_store_def is_dir_def node_at_def path_defs demo_server_def)
  from health_log_counts_to_five [OF demo_health_codec this, of "[10, 20, 30, 40, 50, 60, 70]"]
  show ?thesis by (simp add: upt_rec)
qed

section \<open>The desired run status\<close>

definition run_status_codec :: "server \<Rightarrow> bool" where
  "run_status_codec sv \<longleftrightarrow> (\<forall>st. \<exists>b. print_run_status (codecs sv) st = Some b \<and> is_utf8 b \<and>
     parse_run_status (codecs sv) b = Some st)"

text \<open>
  A seedling whose run status was never set counts as stopped, and a status that was set is the
  status that is read.
\<close>

theorem run_status_remembered:
  assumes "run_status_codec sv" and "calm s" and "is_dir s (create_seedling_path sv n)"
    and "node_at s (desired_run_state_path sv n) = None"
  shows "fst (get_desired_run_status sv n s) = Inr Stopped \<and>
    fst (set_desired_run_status sv n st s) = Inr () \<and>
    fst (get_desired_run_status sv n (snd (set_desired_run_status sv n st s))) = Inr st"
proof -
  let ?p = "desired_run_state_path sv n"
  obtain b where b: "print_run_status (codecs sv) st = Some b" "is_utf8 b" "parse_run_status (codecs sv) b = Some st"
    using assms(1) unfolding run_status_codec_def by blast
  define t where "t = put_node ?p (File (meta_for s ?p) b) s"
  have parent: "butlast ?p = create_seedling_path sv n" by (simp add: desired_run_state_path_def)
  have absent: "\<not> is_dir s ?p" using assms(4) by (simp add: is_dir_def)
  have set: "set_desired_run_status sv n st s = (Inr (), t)"
    using blob_written [of s ?p "print_run_status (codecs sv)" st] b assms absent parent
    by (simp add: set_desired_run_status_def and_then_def ensure_exists_calm t_def)
  have dir: "is_dir t (create_seedling_path sv n)" and calm: "calm t" and stored: "content t ?p = Some b"
    using assms absent by (auto simp: t_def)
  have "get_desired_run_status sv n t = (Inr st, t)"
    using blob_present [of t, OF calm stored b(2), of "parse_run_status (codecs sv)", OF b(3)]
    by (simp add: get_desired_run_status_def and_then_def ensure_exists_calm [OF dir] ok_def)
  moreover have "get_desired_run_status sv n s = (Inr Stopped, s)"
    using assms by (simp add: get_desired_run_status_def and_then_def ensure_exists_calm blob_missing ok_def)
  ultimately show ?thesis by (simp add: set)
qed

theorem run_status_remembered_witness:
  "fst (get_desired_run_status demo_server ''a''
     (snd (set_desired_run_status demo_server ''a'' Running (demo_store [])))) = Inr Running"
proof -
  have "is_utf8 ''r''" "is_utf8 ''s''" by code_simp+
  then have "run_status_codec demo_server"
    unfolding run_status_codec_def demo_server_def demo_codecs_def
    by (auto simp: is_utf8_def intro: desired_run_status.exhaust)
  moreover have "calm (demo_store [])" "is_dir (demo_store []) (create_seedling_path demo_server ''a'')"
    "node_at (demo_store []) (desired_run_state_path demo_server ''a'') = None"
    by (simp_all add: calm_def demo_store_def is_dir_def node_at_def path_defs demo_server_def)
  ultimately show ?thesis using run_status_remembered by blast
qed

section \<open>Loading ends\<close>

lemma longest_path_bound: "node_at s p \<noteq> None \<Longrightarrow> length p \<le> longest_path s"
proof -
  have "p \<in> fst ` set ns \<Longrightarrow> length p \<le> foldr max (map (\<lambda>(p, _). length p) ns) 0" for ns :: "(path \<times> node) list"
    by (induction ns) (auto simp: le_max_iff_disj)
  moreover assume "node_at s p \<noteq> None"
  then have "p \<in> fst ` set (nodes s)" by (simp add: node_at_def map_of_eq_None_iff)
  ultimately show ?thesis by (simp add: longest_path_def)
qed

lemma longest_path_same: "same_tree s t \<Longrightarrow> longest_path t = longest_path s"
  by (simp add: longest_path_def same_tree_def)

lemma children_exist: "(name, n) \<in> set (children s p) \<Longrightarrow> node_at s (p @ [name]) \<noteq> None"
  by (simp add: children_iff)

definition fuelled :: "'a request \<Rightarrow> fs \<Rightarrow> bool" where
  "fuelled m s \<longleftrightarrow> fst (m s) \<noteq> Inl OutOfFuel"

lemma fuelled_basic:
  "fuelled (map_err FileSystemError m) s" "fuelled (ok a) s" "fuelled (gets f) s"
  by (simp_all add: fuelled_def map_err_def ok_def gets_def split: prod.split sum.split)

lemma fuelled_and_then:
  assumes "fuelled m s" and "\<And>a t. m s = (Inr a, t) \<Longrightarrow> fuelled (k a) t"
  shows "fuelled (and_then m k) s"
  using assms by (auto simp: fuelled_def and_then_def split: prod.split sum.split)

lemma fuelled_fold_prog:
  assumes "\<And>x b t. x \<in> set xs \<Longrightarrow> later s t \<Longrightarrow> fuelled (f x b) t" and "\<And>x b. reads_tree (f x b)"
  shows "fuelled (fold_prog f xs b) s"
proof -
  have "fuelled (fold_prog f xs b) t" if "later s t" for t
    using that assms(1)
  proof (induction xs arbitrary: b t)
    case (Cons x xs)
    have "fuelled (fold_prog f xs b') u" if "f x b t = (Inr b', u)" for b' u
      using Cons.IH [of u] Cons.prems later_trans [OF Cons.prems(1) reads_treeD [OF assms(2) that]] by simp
    with Cons.prems show ?case by (auto intro!: fuelled_and_then)
  qed (simp add: fuelled_basic)
  then show ?thesis by simp
qed

lemma populate_fuel:
  assumes "node_at s (entry_path e) \<noteq> None" and "longest_path s < length (entry_path e) + fuel"
  shows "fuelled (populate_mount_contents fuel sv root e cs) s"
  using assms
proof (induction fuel arbitrary: s e cs)
  case 0
  with longest_path_bound [of s "entry_path e"] show ?case by simp
next
  case (Suc fuel)
  have deeper: "fuelled (fold_prog (populate_mount_contents fuel sv root) entries cs) t"
    if run: "map_err FileSystemError (folder_entries (entry_path e)) s = (Inr entries, t)" for entries t
  proof (rule fuelled_fold_prog)
    fix e' cs' u assume e': "e' \<in> set entries" and u: "later t u"
    from run have fe: "folder_entries (entry_path e) s = (Inr entries, t)" by (auto elim: map_err_InrE)
    have su: "later s u" by (rule later_trans [OF reads_treeD [OF reads_tree_methods(3) fe] u])
    from e' folder_entries_result [OF fe] obtain name n
      where "(name, n) \<in> set (children s (entry_path e))" "entry_path e' = entry_path e @ [name]"
      by (auto simp: entry_of_def)
    with children_exist have "node_at u (entry_path e') \<noteq> None" "length (entry_path e') = Suc (length (entry_path e))"
      by (simp_all add: same_tree_node_at [OF later_same [OF su]])
    with Suc.prems(2) longest_path_same [OF later_same [OF su]]
    show "fuelled (populate_mount_contents fuel sv root e' cs') u"
      by (intro Suc.IH) auto
  qed (rule populate_reads)
  show ?case
    by (cases "entry_kind e") (auto simp: Let_def intro!: fuelled_and_then fuelled_basic deeper)
qed

lemma fuelled_collect_results: "(\<And>x t. fuelled (f x) t) \<Longrightarrow> fuelled (collect_results f xs) s"
proof (induction xs arbitrary: s)
  case (Cons x xs)
  then show ?case by (auto intro!: fuelled_and_then fuelled_basic)
qed (simp add: fuelled_basic)


section \<open>Creating and loading\<close>

lemma wf_ancestor: "wf_fs s \<Longrightarrow> is_dir s p \<Longrightarrow> is_dir s (take k p)"
proof (induction "length p - k" arbitrary: k)
  case (Suc j)
  then have "is_dir s (take (Suc k) p)" by simp
  moreover have "k < length p" using Suc.hyps(2) by simp
  then have "butlast (take (Suc k) p) = take k p" "take (Suc k) p \<noteq> []"
    by (simp add: butlast_take, cases p) auto
  ultimately show ?case using wf_parent [of s "take (Suc k) p"] Suc.prems by (simp add: exists_iff)
qed simp

lemma fold_add_dir_stay: "list_all (is_dir s) ps \<Longrightarrow> fold add_dir ps s = s"
  by (induction ps) (simp_all add: add_dir_def exists_iff)

lemma calm_create_folder:
  assumes "wf_fs s" and "calm s" and "is_dir s (butlast p)" and "p \<noteq> []" and "node_at s p = None"
  shows "folder_create_recursively p s = (Inr p, put_node p (Dir (creator s)) s)"
proof -
  have anc: "ancestors p = ancestors (butlast p) @ [p]"
    using assms(4) by (cases p rule: rev_cases) (simp_all add: ancestors_def)
  have dirs: "list_all (is_dir s) (ancestors (butlast p))"
    using wf_ancestor [OF assms(1,3)] assms(3) by (simp only: ancestors_def list_all_iff) auto
  have "\<not> is_file s q" if "q \<in> set (ancestors p)" for q
  proof (cases "q = p")
    case True
    then show ?thesis using assms(5) by (simp add: is_file_def)
  next
    case False
    with that anc dirs not_dir_and_file show ?thesis by (auto simp: list_all_iff)
  qed
  then have "\<not> list_ex (is_file s) (ancestors p)" by (auto simp: list_ex_iff)
  moreover have "fold add_dir (ancestors p) s = put_node p (Dir (creator s)) s"
    unfolding anc using fold_add_dir_stay [OF dirs] assms(5) by (simp add: add_dir_def exists_path_def)
  ultimately show ?thesis
    using assms(2) by (simp add: folder_create_recursively_def folder_canonicalize_def and_then_def map_err_def
        std_create_dir_all_def std_metadata_def ok_def)
qed

lemma calm_write:
  assumes "calm s" and "is_dir s (butlast p)" and "\<not> is_dir s p"
  shows "writer_write_all p b s = (Inr (), put_node p (File (meta_for s p) b) s)"
  using assms
  by (simp add: writer_write_all_def writer_write_all_bytes_def map_err_def std_write_succeeds creatable_def)

lemma calm_create:
  assumes "wf_fs s" and "calm s" and "is_dir s (seeds sv)" and "node_at s (create_seedling_path sv n) = None"
    and "get_next_id sv s = (Inr i, s)" and "mounts d = []"
    and "print_definition (codecs sv) d = Some raw" "is_utf8 raw" "parse_definition (codecs sv) raw = Some d"
  obtains t where "seedbank_create sv n v d s = (Inr (), t)" "calm t"
    "content t (id_path sv n) = Some (show_u16 i)" "content t (version_path sv n) = Some (show_u16 v)"
    "content t (definition_path sv n) = Some raw"
proof -
  let ?p = "create_seedling_path sv n"
  have pp: "butlast ?p = seeds sv" "?p \<noteq> []" by (simp_all add: create_seedling_path_def)
  define s1 where "s1 = put_node ?p (Dir (creator s)) s"
  have make: "folder_create_recursively ?p s = (Inr ?p, s1)"
    unfolding s1_def by (rule calm_create_folder) (use assms pp in simp_all)
  have none: "node_at s (?p @ [x]) = None" for x
  proof (rule ccontr)
    assume "node_at s (?p @ [x]) \<noteq> None"
    then have "is_dir s ?p" using wf_parent [OF assms(1), of "?p @ [x]"] by (simp add: exists_path_def)
    then show False using assms(4) by (simp add: is_dir_def)
  qed
  have fresh: "\<not> is_dir s (?p @ [x])" for x using none by (simp add: is_dir_def)
  define put where "put = (\<lambda>x b t. put_node (?p @ [x]) (File (meta_for t (?p @ [x])) b) t)"
  have writing: "writer_write_all (?p @ [x]) b t = (Inr (), put x b t)"
    if "calm t" "is_dir t ?p" "\<not> is_dir t (?p @ [x])" for x b t
    unfolding put_def by (rule calm_write) (use that in simp_all)
  define s2 where "s2 = put ''id'' (show_u16 i) s1"
  define s3 where "s3 = put ''seedling.toml'' raw s2"
  define s4 where "s4 = put ''version'' (show_u16 v) s3"
  have states: "calm s1" "calm s2" "calm s3" "calm s4" "is_dir s1 ?p" "is_dir s2 ?p" "is_dir s3 ?p"
    "\<not> is_dir s1 (?p @ [''id''])" "\<not> is_dir s2 (?p @ [''seedling.toml''])" "\<not> is_dir s3 (?p @ [''version''])"
    using assms(2) fresh by (auto simp: s1_def s2_def s3_def s4_def put_def)
  have "write_id sv n i s1 = (Inr (), s2)"
    by (simp add: write_id_def map_err_def id_path_def writing states s2_def)
  moreover have "write_definition sv n v None d s2 = (Inr (), s4)"
    by (simp add: write_definition_def purge_mounts_def create_mount_lookup_def assms write_mounts_def
        write_version_def definition_path_def version_path_def map_err_def and_then_def ok_def
        writing states flip: s3_def s4_def)
  moreover have "seedling_exists sv n s = (Inr False, s)"
    using assms(4) by (simp add: seedling_exists_def gets_def folder_exists_def exists_path_def)
  ultimately have create: "seedbank_create sv n v d s = (Inr (), s4)"
    by (simp add: seedbank_create_def and_then_def map_err_def assms(5) make)
  show thesis
    by (rule that [OF create states(4)])
      (simp_all add: s4_def s3_def s2_def put_def id_path_def version_path_def definition_path_def)
qed


lemma demo_next_id_calm: "get_next_id demo_server (demo_store []) = (Inr 1, demo_store [])"
proof -
  have "list_seedlings demo_server (demo_store []) = (Inr [''a''], demo_store [])"
    using demo_names [of "[]"]
    by (simp add: list_seedlings_def folder_entries_def std_read_dir_def call_def next_outcome_def
        demo_store_def and_then_def map_err_def split: prod.splits sum.splits)
  moreover have "first_unused 4096 [0] 0 = Some 1"
    by (simp add: first_unused.simps)
  ultimately show ?thesis
    by (simp add: get_next_id_def and_then_def demo_id ok_def MAX_SEEDLINGS_def List.map_filter_simps)
qed


section \<open>A torn id\<close>

lemma collect_results_blocked:
  assumes "x \<in> set xs" and "\<And>t. later s t \<Longrightarrow> \<exists>e. fst (f x t) = Inl e" and "\<And>x. reads_tree (f x)"
  shows "\<exists>e. fst (collect_results f xs s) = Inl e"
proof (rule ccontr)
  assume "\<not> ?thesis"
  then obtain ys t where run: "collect_results f xs s = (Inr ys, t)"
    by (metis obj_sumE prod.collapse)
  from collect_results_elems(2) [OF run assms(3)] assms(1)
  obtain y u v where "later s u" "f x u = (Inr y, v)" by blast
  with assms(2) [of u] show False by auto
qed

text \<open>
  One seedling whose id file does not hold a number, as an interrupted write of the file leaves
  it, blocks the creation of every further seedling until it is deleted: ids are collected from all
  seedlings before a new one is given out.
\<close>

theorem broken_id_blocks_creation:
  assumes "draws truthful s" and "is_name sv n" and "is_dir s (create_seedling_path sv n)"
    and "content s (id_path sv n) = Some raw" and "id_from_str (trim raw) = Inl e"
  shows "fst (seedbank_create sv m v d s) \<noteq> Inr () \<and> content (snd (seedbank_create sv m v d s)) = content s"
proof -
  have blocked: "\<exists>e. fst (used_id sv n t) = Inl e" if "later s t" for t
  proof -
    obtain x u where rd: "reader_read_all (id_path sv n) t = (x, u)" by (cases "reader_read_all (id_path sv n) t") auto
    have raw: "content t (id_path sv n) = Some raw" using that assms(4) by (simp add: later_content)
    show ?thesis
    proof (cases x)
      case (Inl e')
      with truthful_missing [OF draws_later [OF that assms(1)] _ raw] rd show ?thesis
        by (simp add: used_id_def attempt_then load_id_def fail_def)
    next
      case (Inr b)
      with rd unix_files.read_ok raw have "b = raw" by force
      with Inr rd assms(5) show ?thesis
        by (simp add: used_id_def attempt_then load_id_def map_err_def of_result_def fail_def)
    qed
  qed
  have "\<exists>e. fst (get_next_id sv s) = Inl e"
  proof (cases "fst (list_seedlings sv s)")
    case (Inl e')
    then show ?thesis by (cases "list_seedlings sv s") (simp add: get_next_id_def and_then_def)
  next
    case (Inr names)
    then obtain t where t: "list_seedlings sv s = (Inr names, t)" by (metis prod.collapse)
    have st: "later s t" using t by (rule reads_treeD [OF list_seedlings_reads])
    have "n \<in> set names" using list_seedlings_result(1) [OF t assms(2,3)] .
    then have "\<exists>e. fst (collect_results (used_id sv) names t) = Inl e"
      by (rule collect_results_blocked) (use blocked later_trans [OF st] used_id_reads in blast)+
    with t show ?thesis
      by (cases "collect_results (used_id sv) names t") (auto simp: get_next_id_def and_then_def)
  qed
  then obtain e' u where nxt: "get_next_id sv s = (Inl e', u)" by (metis prod.collapse)
  have "content u = content s" by (rule reads_tree_content [OF get_next_id_reads nxt])
  with nxt show ?thesis
    by (simp add: seedbank_create_def seedling_exists_def and_then_def gets_def fail_def)
qed

definition torn_store :: fs where
  "torn_store = put_node [''seeds'', ''b''] (Dir demo_meta)
     (put_node [''seeds'', ''b'', ''id''] (File demo_meta (take 0 (show_u16 1))) (demo_store []))"

theorem broken_id_blocks_creation_witness:
  "fst (seedbank_create demo_server ''c'' 1 demo_definition torn_store) \<noteq> Inr ()"
proof -
  have "trim [] = []" by (rule trim_plain) simp
  then have e: "id_from_str (trim []) = Inl (IdParseIntError ParseEmpty)"
    by (simp add: id_from_str_def parse_uint_def)
  have b: "is_name demo_server ''b''" by code_simp
  have truthful: "draws truthful torn_store"
    by (simp add: torn_store_def draws_def demo_store_def)
  have dir: "is_dir torn_store (create_seedling_path demo_server ''b'')"
    by (simp add: torn_store_def path_defs demo_server_def)
  have raw: "content torn_store (id_path demo_server ''b'') = Some []"
    by (simp add: torn_store_def path_defs demo_server_def)
  from broken_id_blocks_creation [OF truthful b dir raw e] show ?thesis by blast
qed

end
