(* ===== verification/Releases.thy ===== *)
theory Releases
  imports Text "HOL-Library.List_Lexorder" "HOL-Library.Char_ord"
begin

text \<open>
  Releases of douglas: version numbers and the signature trailer of a binary (src/verify.rs), the
  metadata of a release with its conflicts and differences (release/src/lib.rs), the signing tool
  (xtask/src/main.rs), and the choice of the versions that are kept for a rollback
  (src/bootstrap/retention.rs).  A \<open>BTreeMap\<close> is its entries in the order of their keys; JSON and
  ed25519 come from libraries and are parameters, records of functions.
\<close>

section \<open>Versions\<close>

datatype version = Version (major: "8 word") (minor: "8 word") (patch: "8 word")

text \<open>The derived order: the fields in the order of their declaration.\<close>

instantiation version :: linorder
begin

definition less_eq_version :: "version \<Rightarrow> version \<Rightarrow> bool" where
  "less_eq_version v w \<longleftrightarrow>
     major v < major w \<or> (major v = major w \<and>
       (minor v < minor w \<or> (minor v = minor w \<and> patch v \<le> patch w)))"

definition less_version :: "version \<Rightarrow> version \<Rightarrow> bool" where
  "less_version v w \<longleftrightarrow>
     major v < major w \<or> (major v = major w \<and>
       (minor v < minor w \<or> (minor v = minor w \<and> patch v < patch w)))"

instance
  by standard (auto simp: less_eq_version_def less_version_def intro: version.expand)

end

definition version_to_string :: "version \<Rightarrow> string" where
  "version_to_string v =
     show_nat (unat (major v)) @ ''.'' @ show_nat (unat (minor v)) @ ''.'' @ show_nat (unat (patch v))"

definition parse_u8 :: "string \<Rightarrow> 8 word option" where
  "parse_u8 s = (case parse_uint 255 s of Inl _ \<Rightarrow> None | Inr n \<Rightarrow> Some (word_of_nat n))"

text \<open>\<open>next()\<close> of the parser: the number in the next part, if there is a part and it is one.\<close>

definition next_number :: "string list \<Rightarrow> 8 word option" where
  "next_number parts = (case parts of [] \<Rightarrow> None | p # _ \<Rightarrow> parse_u8 p)"

definition version_from_str :: "string \<Rightarrow> version option" where
  "version_from_str t =
     (let parts = split_on CHR ''.'' t
      in case next_number parts of
           None \<Rightarrow> None
         | Some a \<Rightarrow> (case next_number (drop 1 parts) of
             None \<Rightarrow> None
           | Some b \<Rightarrow> (case next_number (drop 2 parts) of
               None \<Rightarrow> None
             | Some c \<Rightarrow> (let v = Version a b c in if version_to_string v = t then Some v else None))))"

lemma parse_u8_show [simp]: "parse_u8 (show_nat (unat w)) = Some w"
proof -
  have "unat w \<le> 255" using unsigned_less [of w, where 'a = nat] by simp
  then show ?thesis by (simp add: parse_u8_def parse_uint_show)
qed

lemma split_version [simp]:
  "split_on CHR ''.'' (version_to_string v) =
     [show_nat (unat (major v)), show_nat (unat (minor v)), show_nat (unat (patch v))]"
  by (simp add: version_to_string_def split_on_app split_on_no_sep digits_no_dot)

lemma version_from_str_Some: "version_from_str t = Some v \<longleftrightarrow> t = version_to_string v"
  by (auto simp: version_from_str_def next_number_def Let_def split: option.splits if_splits)

lemma version_to_string_inj [simp]: "version_to_string v = version_to_string w \<longleftrightarrow> v = w"
  by (metis option.inject version_from_str_Some)

text \<open>
  A text is read as a version exactly when it is what that version prints as, so no two texts name
  the same version and every printed version is read back.
\<close>

theorem release_version_round_trip: "version_from_str t = Some v \<longleftrightarrow> version_to_string v = t"
  by (auto simp: version_from_str_Some)

section \<open>Release metadata\<close>

record release_metadata =
  format :: "8 word"
  core :: "(string \<times> 16 word) list"

record install_marker =
  installed_version :: string
  metadata :: release_metadata

text \<open>The entries of a \<open>BTreeMap\<close> stand in strictly increasing order of their keys.\<close>

definition btree :: "(string \<times> 'v) list \<Rightarrow> bool" where
  "btree kvs \<longleftrightarrow> sorted_wrt (<) (map fst kvs)"

fun btree_insert :: "string \<Rightarrow> 'v \<Rightarrow> (string \<times> 'v) list \<Rightarrow> (string \<times> 'v) list" where
  "btree_insert k v [] = [(k, v)]"
| "btree_insert k v ((k', v') # kvs) =
     (if k < k' then (k, v) # (k', v') # kvs
      else if k = k' then (k, v) # kvs
      else (k', v') # btree_insert k v kvs)"

definition DATA_FORMAT :: "8 word" where
  "DATA_FORMAT = 1"

definition core_versions :: "(string \<times> 16 word) list" where
  "core_versions = [(''traefik'', 1), (''openbao'', 1)]"

definition metadata_current :: release_metadata where
  "metadata_current =
     \<lparr>format = DATA_FORMAT, core = fold (\<lambda>(k, v). btree_insert k v) core_versions []\<rparr>"

datatype conflict =
    FormatNewer "8 word" "8 word"
  | CoreNewer string "16 word" "16 word"
  | CoreUnknown string "16 word"

definition core_conflict :: "(string \<times> 16 word) list \<Rightarrow> string \<times> 16 word \<Rightarrow> conflict option" where
  "core_conflict running = (\<lambda>(seedling, installed).
     (case map_of running seedling of
        None \<Rightarrow> Some (CoreUnknown seedling installed)
      | Some running_version \<Rightarrow>
          if running_version < installed then Some (CoreNewer seedling installed running_version)
          else None))"

definition start_conflicts :: "install_marker \<Rightarrow> release_metadata \<Rightarrow> conflict list" where
  "start_conflicts marker running =
     (if format running < format (metadata marker)
      then [FormatNewer (format (metadata marker)) (format running)] else []) @
     List.map_filter (core_conflict (core running)) (core (metadata marker))"

datatype difference =
    FormatDiffers "8 word" "8 word"
  | CoreVersion string "16 word" "16 word"
  | CoreAdded string "16 word"
  | CoreRemoved string "16 word"

definition changed_core :: "(string \<times> 16 word) list \<Rightarrow> string \<times> 16 word \<Rightarrow> difference option" where
  "changed_core new_core = (\<lambda>(seedling, from_version).
     (case map_of new_core seedling of
        None \<Rightarrow> Some (CoreRemoved seedling from_version)
      | Some to_version \<Rightarrow>
          if to_version \<noteq> from_version then Some (CoreVersion seedling from_version to_version)
          else None))"

definition added_core :: "(string \<times> 16 word) list \<Rightarrow> string \<times> 16 word \<Rightarrow> difference option" where
  "added_core old_core = (\<lambda>(seedling, version).
     (if map_of old_core seedling = None then Some (CoreAdded seedling version) else None))"

definition differences :: "release_metadata \<Rightarrow> release_metadata \<Rightarrow> difference list" where
  "differences old new =
     (if format old \<noteq> format new then [FormatDiffers (format old) (format new)] else []) @
     List.map_filter (changed_core (core new)) (core old) @
     List.map_filter (added_core (core old)) (core new)"

lemma map_filter_Nil_iff: "List.map_filter f xs = [] \<longleftrightarrow> (\<forall>x \<in> set xs. f x = None)"
  by (induction xs) (auto simp: List.map_filter_simps split: option.split)

lemma btree_distinct: "btree kvs \<Longrightarrow> distinct (map fst kvs)"
  and btree_sorted: "btree kvs \<Longrightarrow> sorted (map fst kvs)"
  by (simp_all add: btree_def strict_sorted_iff)

lemma btree_eqI:
  assumes "btree xs" "btree ys" "map_of xs = map_of ys"
  shows "xs = ys"
proof (rule map_sorted_distinct_set_unique [of fst])
  have "map_of xs k = Some v \<longleftrightarrow> map_of ys k = Some v" for k v
    by (simp add: assms(3))
  then have "(k, v) \<in> set xs \<longleftrightarrow> (k, v) \<in> set ys" for k v
    by (simp add: btree_distinct [OF assms(1)] btree_distinct [OF assms(2)])
  then show same: "set xs = set ys" by (auto simp: set_eq_iff)
  have "inj_on fst (set xs)"
    using btree_distinct [OF assms(1)] by (simp add: distinct_map)
  then show "inj_on fst (set xs \<union> set ys)" by (simp add: same)
qed (use assms in \<open>auto simp: btree_sorted btree_distinct\<close>)

lemma btree_insert_keys: "set (map fst (btree_insert k v kvs)) = insert k (set (map fst kvs))"
  by (induction k v kvs rule: btree_insert.induct) auto

lemma btree_insert_btree: "btree kvs \<Longrightarrow> btree (btree_insert k v kvs)"
proof (induction k v kvs rule: btree_insert.induct)
  case (2 k v k' v' kvs)
  then have "btree kvs" "\<forall>x \<in> set (map fst kvs). k' < x" by (simp_all add: btree_def)
  with 2 show ?case
    using btree_insert_keys [of k v kvs] by (auto simp: btree_def)
qed (simp add: btree_def)

lemma metadata_current_btree: "btree (core metadata_current)"
  by (simp add: metadata_current_def core_versions_def btree_insert_btree) (simp add: btree_def)

text \<open>What conflicts and differences say of the entries.\<close>

lemma no_conflicts_iff:
  "start_conflicts marker running = [] \<longleftrightarrow> format (metadata marker) \<le> format running \<and>
     (\<forall>(k, i) \<in> set (core (metadata marker)). \<exists>r. map_of (core running) k = Some r \<and> i \<le> r)"
  by (auto simp: start_conflicts_def map_filter_Nil_iff core_conflict_def split: option.splits if_splits)

lemma no_differences_iff:
  "differences old new = [] \<longleftrightarrow> format old = format new \<and>
     (\<forall>(k, i) \<in> set (core old). map_of (core new) k = Some i) \<and>
     (\<forall>(k, i) \<in> set (core new). map_of (core old) k \<noteq> None)"
  by (auto simp: differences_def map_filter_Nil_iff changed_core_def added_core_def
      split: option.splits if_splits)

lemma no_differences_same:
  assumes "btree (core old)" "btree (core new)"
  shows "differences old new = [] \<longleftrightarrow> old = new"
proof
  assume none: "differences old new = []"
  have "map_of (core old) k = Some v \<longleftrightarrow> map_of (core new) k = Some v" for k v
  proof
    assume "map_of (core old) k = Some v"
    then show "map_of (core new) k = Some v"
      using none by (auto simp: no_differences_iff dest!: map_of_SomeD)
  next
    assume new: "map_of (core new) k = Some v"
    then obtain w where "map_of (core old) k = Some w"
      using none by (fastforce simp: no_differences_iff dest!: map_of_SomeD)
    moreover from this have "map_of (core new) k = Some w"
      using none by (auto simp: no_differences_iff dest!: map_of_SomeD)
    ultimately show "map_of (core old) k = Some v" using new by simp
  qed
  then have "map_of (core old) = map_of (core new)"
    by (metis (no_types, opaque_lifting) ext option.exhaust)
  with none assms show "old = new"
    by (cases old, cases new) (auto simp: no_differences_iff intro: btree_eqI)
next
  assume "old = new"
  with assms show "differences old new = []"
    by (auto simp: no_differences_iff btree_distinct weak_map_of_SomeI)
qed

lemma no_conflicts_antisym:
  assumes "btree (core old)" "btree (core new)"
    and there: "start_conflicts \<lparr>installed_version = v, metadata = old\<rparr> new = []"
    and home: "start_conflicts \<lparr>installed_version = w, metadata = new\<rparr> old = []"
  shows "old = new"
proof -
  have "map_of (core old) k = Some i \<Longrightarrow> map_of (core new) k = Some i" for k i
  proof -
    assume i: "map_of (core old) k = Some i"
    then obtain r where r: "map_of (core new) k = Some r" "i \<le> r"
      using there by (fastforce simp: no_conflicts_iff dest: map_of_SomeD)
    then obtain i' where "map_of (core old) k = Some i'" "r \<le> i'"
      using home by (fastforce simp: no_conflicts_iff dest: map_of_SomeD)
    with i r show ?thesis by simp
  qed
  moreover have "map_of (core new) k = Some i \<Longrightarrow> map_of (core old) k \<noteq> None" for k i
    using home by (fastforce simp: no_conflicts_iff dest: map_of_SomeD)
  ultimately have "differences old new = []"
    using there home assms(1,2) by (auto simp: no_differences_iff no_conflicts_iff btree_distinct)
  then show ?thesis using assms(1,2) by (simp add: no_differences_same)
qed

lemma no_conflicts_refl:
  "btree (core m) \<Longrightarrow> start_conflicts \<lparr>installed_version = v, metadata = m\<rparr> m = []"
  by (auto simp: no_conflicts_iff btree_distinct)

text \<open>
  Two releases have no differences exactly when their metadata is the same, and exactly when each
  of them can start against the data the other one installed: what the upgrade takes for reversible
  is what the start of either binary accepts.
\<close>

theorem differences_mean_one_way:
  assumes "btree (core old)" "btree (core new)"
  shows "(differences old new = [] \<longleftrightarrow> old = new) \<and>
    (differences old new = [] \<longleftrightarrow>
       start_conflicts \<lparr>installed_version = v, metadata = old\<rparr> new = [] \<and>
       start_conflicts \<lparr>installed_version = w, metadata = new\<rparr> old = [])"
  using no_differences_same [OF assms] no_conflicts_antisym [OF assms] no_conflicts_refl assms
  by blast

theorem differences_mean_one_way_witness:
  "(differences metadata_current (metadata_current\<lparr>format := 2\<rparr>) = [] \<longleftrightarrow>
      metadata_current = metadata_current\<lparr>format := 2\<rparr>) \<and>
   (differences metadata_current (metadata_current\<lparr>format := 2\<rparr>) = [] \<longleftrightarrow>
      start_conflicts \<lparr>installed_version = ''0.1.0'', metadata = metadata_current\<rparr>
        (metadata_current\<lparr>format := 2\<rparr>) = [] \<and>
      start_conflicts \<lparr>installed_version = ''0.2.0'', metadata = metadata_current\<lparr>format := 2\<rparr>\<rparr>
        metadata_current = [])"
  by (rule differences_mean_one_way) (simp_all add: metadata_current_btree)

section \<open>Metadata and signature at the end of a binary\<close>

abbreviation LENGTH_LEN :: nat where
  "LENGTH_LEN \<equiv> 4"

datatype release_error = Malformed string

record release_json =
  metadata_to_json :: "release_metadata \<Rightarrow> string + string"
  metadata_of_json :: "string \<Rightarrow> string + release_metadata"

fun le_bytes :: "nat \<Rightarrow> nat \<Rightarrow> string" where
  "le_bytes 0 n = []"
| "le_bytes (Suc k) n = char_of n # le_bytes k (n div 256)"

fun from_le_bytes :: "string \<Rightarrow> nat" where
  "from_le_bytes [] = 0"
| "from_le_bytes (c # cs) = of_char c + 256 * from_le_bytes cs"

definition attach :: "release_json \<Rightarrow> string \<Rightarrow> release_metadata \<Rightarrow> release_error + string" where
  "attach js payload m =
     (case metadata_to_json js m of
        Inl e \<Rightarrow> Inl (Malformed e)
      | Inr json \<Rightarrow>
          if 2 ^ 32 \<le> length json then Inl (Malformed ''metadata is too large'')
          else Inr (payload @ json @ le_bytes LENGTH_LEN (length json)))"

definition detach :: "release_json \<Rightarrow> string \<Rightarrow> release_error + (string \<times> release_metadata)" where
  "detach js payload =
     (if length payload < LENGTH_LEN then Inl (Malformed ''missing length'')
      else
        (let length_start = length payload - LENGTH_LEN;
             len = from_le_bytes (drop length_start payload)
         in if length_start < len then Inl (Malformed ''length exceeds the payload'')
            else
              (let json_start = length_start - len
               in case metadata_of_json js (take len (drop json_start payload)) of
                    Inl e \<Rightarrow> Inl (Malformed e)
                  | Inr m \<Rightarrow> Inr (take json_start payload, m))))"

definition strip_metadata :: "release_json \<Rightarrow> string \<Rightarrow> release_error + string" where
  "strip_metadata js payload =
     (case detach js payload of
        Inl e \<Rightarrow> Inl e
      | Inr (rest, _) \<Rightarrow> Inr (take (length rest) payload))"

lemma le_bytes_length [simp]: "length (le_bytes k n) = k"
  by (induction k arbitrary: n) simp_all

lemma le_bytes_round_trip: "n < 256 ^ k \<Longrightarrow> from_le_bytes (le_bytes k n) = n"
  by (induction k arbitrary: n) (simp_all add: less_mult_imp_div_less mult.commute)

text \<open>The JSON library reads back what it writes.\<close>

definition faithful_json :: "release_json \<Rightarrow> bool" where
  "faithful_json js \<longleftrightarrow> (\<forall>m json. metadata_to_json js m = Inr json \<longrightarrow> metadata_of_json js json = Inr m)"

lemma attach_Inr:
  "attach js payload m = Inr data \<longleftrightarrow>
     (\<exists>json. metadata_to_json js m = Inr json \<and> length json < 2 ^ 32 \<and>
        data = payload @ json @ le_bytes LENGTH_LEN (length json))"
  by (auto simp: attach_def split: sum.splits if_splits)

lemma detach_attach:
  assumes "faithful_json js" and "attach js payload m = Inr data"
  shows "detach js data = Inr (payload, m)"
proof -
  obtain json where json: "metadata_to_json js m = Inr json" "length json < 2 ^ 32"
    "data = payload @ json @ le_bytes LENGTH_LEN (length json)"
    using assms(2) by (auto simp: attach_Inr)
  moreover have "length json < 256 ^ LENGTH_LEN" using json(2) by simp
  then have "from_le_bytes (le_bytes LENGTH_LEN (length json)) = length json"
    by (rule le_bytes_round_trip)
  moreover have "metadata_of_json js json = Inr m"
    using assms(1) json(1) by (simp add: faithful_json_def)
  ultimately show ?thesis by (simp add: detach_def Let_def)
qed

lemma strip_attach:
  "faithful_json js \<Longrightarrow> attach js payload m = Inr data \<Longrightarrow> strip_metadata js data = Inr payload"
  using detach_attach [of js payload m data] by (auto simp: strip_metadata_def attach_Inr)

definition TRAILER_MAGIC :: string where
  "TRAILER_MAGIC = ''SAW_KERF''"

abbreviation VERSION_LEN :: nat where
  "VERSION_LEN \<equiv> 3"

abbreviation SIGNATURE_LEN :: nat where
  "SIGNATURE_LEN \<equiv> 64"

definition TRAILER_LEN :: nat where
  "TRAILER_LEN = VERSION_LEN + SIGNATURE_LEN + length TRAILER_MAGIC"

record release =
  release_version :: version
  release_meta :: release_metadata

datatype trailer_error = MissingTrailer | Mismatch | TrailerMetadata release_error

definition byte_of_char :: "char \<Rightarrow> 8 word" where
  "byte_of_char c = word_of_nat (of_char c)"

definition version_bytes :: "version \<Rightarrow> string" where
  "version_bytes v = map (\<lambda>b. char_of (unat b)) [major v, minor v, patch v]"

text \<open>\<open>verify message signature\<close> is the check of an ed25519 signature under the embedded key.\<close>

definition verify_trailer :: "release_json \<Rightarrow> (string \<Rightarrow> string \<Rightarrow> bool) \<Rightarrow> string \<Rightarrow>
    trailer_error + release" where
  "verify_trailer js verify data =
     (if length data < TRAILER_LEN then Inl MissingTrailer
      else
        (let payload = take (length data - TRAILER_LEN) data;
             trailer = drop (length data - TRAILER_LEN) data;
             vbytes = take VERSION_LEN trailer;
             rest = drop VERSION_LEN trailer;
             sig = take SIGNATURE_LEN rest;
             magic = drop SIGNATURE_LEN rest
         in if magic \<noteq> TRAILER_MAGIC then Inl MissingTrailer
            else if \<not> verify (payload @ vbytes) sig then Inl Mismatch
            else (case detach js payload of
                Inl e \<Rightarrow> Inl (TrailerMetadata e)
              | Inr (_, m) \<Rightarrow>
                  Inr \<lparr>release_version =
                        Version (byte_of_char (vbytes ! 0)) (byte_of_char (vbytes ! 1)) (byte_of_char (vbytes ! 2)),
                       release_meta = m\<rparr>)))"

definition strip_existing_trailer :: "string \<Rightarrow> bool \<times> string" where
  "strip_existing_trailer data =
     (if length data < TRAILER_LEN then (False, data)
      else if drop (length data - length TRAILER_MAGIC) data = TRAILER_MAGIC
      then (True, take (length data - TRAILER_LEN) data)
      else (False, data))"

definition signed_bytes :: "release_json \<Rightarrow> (string \<Rightarrow> string) \<Rightarrow> string \<Rightarrow> version \<Rightarrow> release_metadata \<Rightarrow>
    release_error + string" where
  "signed_bytes js sign data v m =
     (case (case strip_existing_trailer data of
              (True, stripped) \<Rightarrow> strip_metadata js stripped
            | (False, plain) \<Rightarrow> Inr plain) of
        Inl e \<Rightarrow> Inl e
      | Inr payload \<Rightarrow>
          (case attach js payload m of
             Inl e \<Rightarrow> Inl e
           | Inr attached \<Rightarrow>
               (let message = attached @ version_bytes v
                in Inr (message @ sign message @ TRAILER_MAGIC))))"

lemma trailer_len [simp]: "TRAILER_LEN = 75" "length TRAILER_MAGIC = 8"
  by (simp_all add: TRAILER_LEN_def TRAILER_MAGIC_def)

lemma version_bytes_length [simp]: "length (version_bytes v) = 3"
  by (simp add: version_bytes_def)

lemma byte_of_char_of [simp]: "byte_of_char (char_of (unat b)) = b"
proof -
  have "unat b < 256" using unsigned_less [of b, where 'a = nat] by simp
  then show ?thesis by (simp add: byte_of_char_def)
qed

lemma char_of_byte [simp]: "char_of (unat (byte_of_char c)) = c"
proof -
  have "(of_char c :: nat) < 256" by (rule nat_of_char_less_256)
  then have "unat (byte_of_char c) = of_char c"
    by (simp add: byte_of_char_def unat_of_nat)
  then show ?thesis by simp
qed

lemma of_version_bytes:
  "Version (byte_of_char (version_bytes v ! 0)) (byte_of_char (version_bytes v ! 1)) (byte_of_char (version_bytes v ! 2)) = v"
  by (cases v) (simp add: version_bytes_def)

lemmas of_version_bytes' = of_version_bytes [unfolded One_nat_def]

lemma version_bytes_of:
  assumes "length bs = 3"
  shows "version_bytes (Version (byte_of_char (bs ! 0)) (byte_of_char (bs ! 1)) (byte_of_char (bs ! 2))) = bs"
proof -
  obtain a b c where "bs = [a, b, c]"
    using assms by (auto simp: numeral_3_eq_3 length_Suc_conv)
  then show ?thesis by (simp add: version_bytes_def)
qed

lemma verify_layout:
  assumes "length vbytes = 3" and "length sig = 64"
  shows "verify_trailer js verify (payload @ vbytes @ sig @ TRAILER_MAGIC) =
    (if \<not> verify (payload @ vbytes) sig then Inl Mismatch
     else (case detach js payload of
         Inl e \<Rightarrow> Inl (TrailerMetadata e)
       | Inr (_, m) \<Rightarrow>
           Inr \<lparr>release_version =
                 Version (byte_of_char (vbytes ! 0)) (byte_of_char (vbytes ! 1)) (byte_of_char (vbytes ! 2)),
                release_meta = m\<rparr>))"
proof -
  have "take VERSION_LEN (vbytes @ sig @ TRAILER_MAGIC) = vbytes" using assms by simp
  then show ?thesis using assms by (simp add: verify_trailer_def Let_def split: sum.split)
qed

text \<open>
  C26: A binary is accepted as a release exactly when it is a payload, three version bytes, a signature of
  64 bytes and the magic, the signature is one of the payload together with the version, and the
  payload ends with metadata: neither the version nor the metadata of an accepted release can be
  changed without a new signature.
\<close>

theorem accepted_release:
  "verify_trailer js verify data = Inr r \<longleftrightarrow>
     (\<exists>payload sig binary. data = payload @ version_bytes (release_version r) @ sig @ TRAILER_MAGIC \<and>
        length sig = SIGNATURE_LEN \<and> verify (payload @ version_bytes (release_version r)) sig \<and>
        detach js payload = Inr (binary, release_meta r))"
proof
  assume acc: "verify_trailer js verify data = Inr r"
  define payload where "payload = take (length data - TRAILER_LEN) data"
  define trailer where "trailer = drop (length data - TRAILER_LEN) data"
  define vbytes sig magic where "vbytes = take VERSION_LEN trailer"
    and "sig = take SIGNATURE_LEN (drop VERSION_LEN trailer)"
    and "magic = drop SIGNATURE_LEN (drop VERSION_LEN trailer)"
  note parts = payload_def trailer_def vbytes_def sig_def magic_def
  have len: "\<not> length data < TRAILER_LEN" and magic: "magic = TRAILER_MAGIC"
    using acc by (auto simp: verify_trailer_def Let_def parts split: if_splits)
  have lens: "length vbytes = 3" "length sig = 64" using len by (simp_all add: parts)
  have data: "data = payload @ vbytes @ sig @ TRAILER_MAGIC"
    unfolding magic [symmetric] by (simp only: parts append_take_drop_id)
  have v: "verify (payload @ vbytes) sig"
    and "\<exists>binary. detach js payload = Inr (binary, release_meta r) \<and> release_version r =
      Version (byte_of_char (vbytes ! 0)) (byte_of_char (vbytes ! 1)) (byte_of_char (vbytes ! 2))"
    using acc unfolding data verify_layout [OF lens]
    by (auto split: if_splits sum.splits)
  then obtain binary where d: "detach js payload = Inr (binary, release_meta r)"
    and "version_bytes (release_version r) = vbytes"
    using version_bytes_of [OF lens(1)] by auto
  with data v lens show "\<exists>payload sig binary.
      data = payload @ version_bytes (release_version r) @ sig @ TRAILER_MAGIC \<and>
      length sig = SIGNATURE_LEN \<and> verify (payload @ version_bytes (release_version r)) sig \<and>
      detach js payload = Inr (binary, release_meta r)"
    by blast
next
  assume "\<exists>payload sig binary. data = payload @ version_bytes (release_version r) @ sig @ TRAILER_MAGIC \<and>
      length sig = SIGNATURE_LEN \<and> verify (payload @ version_bytes (release_version r)) sig \<and>
      detach js payload = Inr (binary, release_meta r)"
  then show "verify_trailer js verify data = Inr r"
    by (auto simp: verify_layout of_version_bytes of_version_bytes')
qed

text \<open>What a signing key promises the holder of the public key.\<close>

definition faithful_key :: "(string \<Rightarrow> string) \<Rightarrow> (string \<Rightarrow> string \<Rightarrow> bool) \<Rightarrow> bool" where
  "faithful_key sign verify \<longleftrightarrow> (\<forall>msg. length (sign msg) = SIGNATURE_LEN \<and> verify msg (sign msg))"

lemma signed_bytes_shape:
  assumes "signed_bytes js sign data v m = Inr result"
  obtains payload attached where "attach js payload m = Inr attached"
    "result = attached @ version_bytes v @ sign (attached @ version_bytes v) @ TRAILER_MAGIC"
    "\<not> fst (strip_existing_trailer data) \<Longrightarrow> payload = data"
  using assms by (auto simp: signed_bytes_def Let_def split: sum.splits prod.splits bool.splits)
    (auto simp: strip_existing_trailer_def split: if_splits)

lemma strip_signed:
  assumes "length sig = 64"
  shows "strip_existing_trailer (attached @ version_bytes v @ sig @ TRAILER_MAGIC) = (True, attached)"
  using assms by (simp add: strip_existing_trailer_def)

text \<open>
  C31: What the signing tool writes is accepted as the release it was told to sign, and signing it again,
  as another version or with other metadata, gives what signing the original binary would have given.
\<close>

theorem signing_round_trip:
  assumes "faithful_json js" and "faithful_key sign verify"
    and "fst (strip_existing_trailer data) = False"
    and "signed_bytes js sign data v m = Inr result"
  shows "verify_trailer js verify result = Inr \<lparr>release_version = v, release_meta = m\<rparr> \<and>
    signed_bytes js sign result v' m' = signed_bytes js sign data v' m'"
proof -
  obtain attached where att: "attach js data m = Inr attached"
    and result: "result = attached @ version_bytes v @ sign (attached @ version_bytes v) @ TRAILER_MAGIC"
    using signed_bytes_shape [OF assms(4)] assms(3) by metis
  have sig: "length (sign msg) = 64" "verify msg (sign msg)" for msg
    using assms(2) by (simp_all add: faithful_key_def)
  have "detach js attached = Inr (data, m)" by (rule detach_attach [OF assms(1) att])
  then have "verify_trailer js verify result = Inr \<lparr>release_version = v, release_meta = m\<rparr>"
    by (simp add: result verify_layout sig of_version_bytes')
  moreover have "strip_existing_trailer data = (False, data)"
    using assms(3) by (auto simp: strip_existing_trailer_def split: if_splits)
  then have "signed_bytes js sign result v' m' = signed_bytes js sign data v' m'"
    by (simp add: signed_bytes_def result strip_signed sig strip_attach [OF assms(1) att])
  ultimately show ?thesis by blast
qed

text \<open>A run of the tool with toy libraries: JSON that only counts, a signature of 64 dots.\<close>

definition toy_json :: release_json where
  "toy_json =
     \<lparr>metadata_to_json = (\<lambda>m. if m = metadata_current then Inr ''M'' else Inl ''unsupported''),
      metadata_of_json = (\<lambda>s. if s = ''M'' then Inr metadata_current else Inl ''invalid'')\<rparr>"

definition toy_sign :: "string \<Rightarrow> string" where
  "toy_sign msg = replicate 64 (last (CHR ''.'' # msg))"

lemma toy_faithful:
  "faithful_json toy_json" "faithful_key toy_sign (\<lambda>msg sig. sig = toy_sign msg)"
  by (auto simp: faithful_json_def faithful_key_def toy_json_def toy_sign_def split: if_splits)

theorem signing_round_trip_witness:
  "\<exists>result. signed_bytes toy_json toy_sign ''ELF'' (Version 0 1 0) metadata_current = Inr result \<and>
     verify_trailer toy_json (\<lambda>msg sig. sig = toy_sign msg) result =
       Inr \<lparr>release_version = Version 0 1 0, release_meta = metadata_current\<rparr>"
proof -
  have "\<exists>result. signed_bytes toy_json toy_sign ''ELF'' (Version 0 1 0) metadata_current = Inr result"
    by (simp add: signed_bytes_def strip_existing_trailer_def attach_def toy_json_def Let_def)
  moreover have "fst (strip_existing_trailer ''ELF'') = False"
    by (simp add: strip_existing_trailer_def)
  ultimately show ?thesis
    using signing_round_trip [OF toy_faithful] by blast
qed

section \<open>Versions kept for a rollback\<close>

definition RETAINED_COUNT :: nat where
  "RETAINED_COUNT = 3"

definition PREFIX :: string where
  "PREFIX = ''douglas-''"

definition retained_name :: "version \<Rightarrow> string" where
  "retained_name v = PREFIX @ version_to_string v"

definition parse_retained :: "string \<Rightarrow> version option" where
  "parse_retained name = Option.bind (strip_prefix PREFIX name) version_from_str"

datatype rollback_target_error =
    NothingToRollBackTo
  | NotKept version string
  | NotOlder version version

definition kept_versions :: "string list \<Rightarrow> version list" where
  "kept_versions names = sort (List.map_filter parse_retained names)"

definition rollback_target :: "string list \<Rightarrow> version \<Rightarrow> version option \<Rightarrow>
    rollback_target_error + version" where
  "rollback_target names current requested =
     (let kept = kept_versions names
      in case requested of
           Some v \<Rightarrow>
             if current \<le> v then Inl (NotOlder v current)
             else if v \<in> set kept then Inr v
             else Inl (NotKept v (join_with '', '' (map version_to_string kept)))
         | None \<Rightarrow>
             (case List.find (\<lambda>v. v < current) (rev kept) of
                Some v \<Rightarrow> Inr v
              | None \<Rightarrow> Inl NothingToRollBackTo))"

text \<open>A stable sort by the reversed version.\<close>

definition expired :: "string list \<Rightarrow> nat \<Rightarrow> string list" where
  "expired names keep =
     (let retained = List.map_filter (\<lambda>name. map_option (\<lambda>v. (v, name)) (parse_retained name)) names
      in map snd (drop keep (rev (sort_key fst (rev retained)))))"

lemma parse_retained_Some: "parse_retained name = Some v \<longleftrightarrow> name = retained_name v"
  by (auto simp: parse_retained_def retained_name_def strip_prefix_Some version_from_str_Some
      split: bind_splits)

lemma retained_name_inj [simp]: "retained_name v = retained_name w \<longleftrightarrow> v = w"
  by (simp add: retained_name_def)

lemma set_kept [simp]: "set (kept_versions names) = {v. retained_name v \<in> set names}"
  by (auto simp: kept_versions_def set_map_filter_iff parse_retained_Some)

lemma sorted_kept [simp]: "sorted (kept_versions names)"
  by (simp add: kept_versions_def)

lemma find_rev_sorted:
  assumes "sorted xs"
  shows "List.find (\<lambda>x. x < c) (rev xs) =
    (if {x \<in> set xs. x < c} = {} then None else Some (Max {x \<in> set xs. x < c}))"
  using assms
proof (induction xs rule: rev_induct)
  case (snoc x xs)
  show ?case
  proof (cases "x < c")
    case True
    then have "Max {y \<in> set (xs @ [x]). y < c} = x"
      using snoc.prems by (intro Max_eqI) (auto simp: sorted_append)
    with True show ?thesis by auto
  next
    case False
    then have "{y \<in> set (xs @ [x]). y < c} = {y \<in> set xs. y < c}" by auto
    with False snoc show ?thesis by (simp add: sorted_append)
  qed
qed simp

text \<open>
  Without a wish the rollback goes to the greatest kept version below the running one, and is refused
  when there is none; a wish is granted exactly when that version is older than the running one and
  kept.
\<close>

theorem rollback_goes_to_greatest_kept:
  "rollback_target names current None =
     (let older = {v. retained_name v \<in> set names \<and> v < current}
      in if older = {} then Inl NothingToRollBackTo else Inr (Max older)) \<and>
   (rollback_target names current (Some v) = Inr w \<longleftrightarrow>
      w = v \<and> v < current \<and> retained_name v \<in> set names)"
  by (auto simp: rollback_target_def Let_def find_rev_sorted)

text \<open>In a strictly descending list, what stands behind the first \<open>k\<close> has at least \<open>k\<close> above it.\<close>

lemma drop_descending:
  assumes "sorted_wrt (\<lambda>a b. f b < f a) ys"
  shows "x \<in> set (drop k ys) \<longleftrightarrow> x \<in> set ys \<and> k \<le> card {y \<in> set ys. (f x :: 'a :: linorder) < f y}"
  using assms
proof (induction ys arbitrary: k)
  case (Cons y ys)
  have smaller: "f z < f y" if "z \<in> set ys" for z using Cons.prems that by simp
  show ?case
  proof (cases "x \<in> set ys")
    case True
    have "{z \<in> set (y # ys). f x < f z} = insert y {z \<in> set ys. f x < f z}"
      using smaller [OF True] by auto
    moreover have "y \<notin> set ys" using smaller by blast
    ultimately have "card {z \<in> set (y # ys). f x < f z} = Suc (card {z \<in> set ys. f x < f z})"
      by simp
    with True Cons show ?thesis by (cases k) auto
  next
    case False
    have "{z. (z = y \<or> z \<in> set ys) \<and> f y < f z} = {}" using smaller by force
    then have "card {z. (z = y \<or> z \<in> set ys) \<and> f y < f z} = 0" by (simp only: card.empty)
    with False show ?thesis by (cases k) (auto dest: in_set_dropD simp del: card_0_eq)
  qed
qed simp

definition retained_of :: "string list \<Rightarrow> (version \<times> string) list" where
  "retained_of names = List.map_filter (\<lambda>name. map_option (\<lambda>v. (v, name)) (parse_retained name)) names"

lemma retained_of_set: "(v, name) \<in> set (retained_of names) \<longleftrightarrow> name = retained_name v \<and> name \<in> set names"
  by (auto simp: retained_of_def set_map_filter_iff parse_retained_Some)

lemma retained_of_distinct: "distinct names \<Longrightarrow> distinct (map fst (retained_of names))"
proof (induction names)
  case (Cons n names)
  have "v \<notin> fst ` set (retained_of names)" if "parse_retained n = Some v" for v
  proof
    assume "v \<in> fst ` set (retained_of names)"
    then have "retained_name v \<in> set names" by (auto simp: retained_of_set)
    with that Cons.prems show False by (simp add: parse_retained_Some)
  qed
  with Cons show ?case
    by (auto simp: retained_of_def List.map_filter_simps split: option.split)
qed (simp add: retained_of_def List.map_filter_simps)

lemma expired_iff:
  assumes "distinct names"
  shows "name \<in> set (expired names keep) \<longleftrightarrow>
    (\<exists>v. name = retained_name v \<and> name \<in> set names \<and>
       keep \<le> card {w. retained_name w \<in> set names \<and> v < w})"
proof -
  define ys where "ys = rev (sort_key fst (rev (retained_of names)))"
  have "distinct (map fst ys)"
    using retained_of_distinct [OF assms] by (simp add: ys_def rev_map [symmetric] distinct_map)
  moreover have "sorted_wrt (\<lambda>a b. fst b \<le> fst a) ys"
    using sorted_sort_key [of fst "rev (retained_of names)"] by (simp add: ys_def sorted_wrt_rev sorted_map)
  ultimately have desc: "sorted_wrt (\<lambda>a b. fst b < fst a) ys"
    by (auto simp: sorted_wrt_iff_nth_less distinct_conv_nth less_le)
  have set_ys: "(v, n) \<in> set ys \<longleftrightarrow> n = retained_name v \<and> n \<in> set names" for v n
    by (simp add: ys_def retained_of_set)
  have count: "card {y \<in> set ys. v < fst y} = card {w. retained_name w \<in> set names \<and> v < w}" for v
  proof -
    have "{y \<in> set ys. v < fst y} =
        (\<lambda>w. (w, retained_name w)) ` {w. retained_name w \<in> set names \<and> v < w}"
      by (auto simp: set_ys)
    moreover have "inj_on (\<lambda>w. (w, retained_name w)) A" for A by (simp add: inj_on_def)
    ultimately show ?thesis by (simp only: card_image)
  qed
  have "name \<in> set (expired names keep) \<longleftrightarrow> (\<exists>v. (v, name) \<in> set (drop keep ys))"
    by (force simp: expired_def ys_def retained_of_def Let_def)
  then show ?thesis by (auto simp: drop_descending [OF desc] set_ys count)
qed

text \<open>
  Pruning with \<open>expired\<close> removes exactly the kept versions that have at least \<open>keep\<close> kept versions above
  them; nothing else in the directory is touched.
\<close>

theorem expired_versions:
  assumes "distinct names"
  shows "name \<in> set (expired names keep) \<longleftrightarrow>
    (\<exists>v. name = retained_name v \<and> name \<in> set names \<and>
       keep \<le> card {w. retained_name w \<in> set names \<and> v < w})"
  by (rule expired_iff [OF assms])

theorem expired_versions_witness:
  "(''douglas-0.1.0'' \<in> set (expired [''douglas-0.2.0'', ''douglas'', ''douglas-0.1.0''] 1)) \<longleftrightarrow>
    (\<exists>v. ''douglas-0.1.0'' = retained_name v \<and>
       ''douglas-0.1.0'' \<in> set [''douglas-0.2.0'', ''douglas'', ''douglas-0.1.0''] \<and>
       1 \<le> card {w. retained_name w \<in> set [''douglas-0.2.0'', ''douglas'', ''douglas-0.1.0''] \<and> v < w})"
  by (rule expired_versions) simp

end
