(* ===== verification/Config.thy ===== *)
theory Config
  imports FileSystem
begin

text \<open>
  The directory layout of douglas (config/src/lib.rs): the names of the services and one function per
  path.
\<close>

section \<open>Names\<close>

definition BRACT :: string where "BRACT = ''bract''"
definition RESIN :: string where "RESIN = ''resin''"
definition SEEDBANK :: string where "SEEDBANK = ''seedbank''"
definition WOODWARD :: string where "WOODWARD = ''woodward''"

section \<open>Folders\<close>

record douglas_folders =
  logs :: path
  transients :: path
  configs :: path
  seedlings_root :: path
  identity :: path

definition douglas_folders_new :: douglas_folders where
  "douglas_folders_new =
     \<lparr>logs = [''var'', ''log'', ''douglas''], transients = [''run'', ''douglas''],
      configs = [''etc'', ''douglas''], seedlings_root = [''var'', ''lib'', ''douglas''],
      identity = [''var'', ''lib'', ''douglas-identity'']\<rparr>"

definition log_dir :: "douglas_folders \<Rightarrow> string \<Rightarrow> path" where
  "log_dir d name = logs d @ [name]"

definition service_log_file :: "douglas_folders \<Rightarrow> string \<Rightarrow> path" where
  "service_log_file d name = log_dir d name @ [name @ ''.log'']"

definition socket_dir :: "douglas_folders \<Rightarrow> string \<Rightarrow> path" where
  "socket_dir d name = transients d @ [name]"

definition socket_file :: "douglas_folders \<Rightarrow> string \<Rightarrow> path" where
  "socket_file d name = socket_dir d name @ [name @ ''.sock'']"

definition heartbeat_dir :: "douglas_folders \<Rightarrow> string \<Rightarrow> path" where
  "heartbeat_dir d name = transients d @ [name @ ''-heartbeat'']"

definition service_heartbeat_file :: "douglas_folders \<Rightarrow> string \<Rightarrow> path" where
  "service_heartbeat_file d name = heartbeat_dir d name @ [''heartbeat'']"

definition seedling_root :: "douglas_folders \<Rightarrow> string \<Rightarrow> path" where
  "seedling_root d name = seedlings_root d @ [name]"

definition seedling_mounts :: "douglas_folders \<Rightarrow> path" where
  "seedling_mounts d = seedlings_root d @ [''mounts'']"

definition seedling_mounts_dir :: "douglas_folders \<Rightarrow> string \<Rightarrow> path" where
  "seedling_mounts_dir d seedling = seedling_mounts d @ [seedling]"

definition seedling_mount :: "douglas_folders \<Rightarrow> string \<Rightarrow> string \<Rightarrow> path" where
  "seedling_mount d seedling mount = seedling_mounts_dir d seedling @ [mount]"

definition services_dir :: "douglas_folders \<Rightarrow> path" where
  "services_dir d = seedlings_root d @ [''services'']"

definition rolodex_dir :: "douglas_folders \<Rightarrow> path" where
  "rolodex_dir d = seedlings_root d @ [''rolodex'']"

definition credentials_dir :: "douglas_folders \<Rightarrow> path" where
  "credentials_dir d = seedlings_root d @ [''credentials'']"

definition credential_file :: "douglas_folders \<Rightarrow> string \<Rightarrow> path" where
  "credential_file d name = credentials_dir d @ [name]"

definition supervisor_dir :: "douglas_folders \<Rightarrow> path" where
  "supervisor_dir d = transients d @ [WOODWARD]"

definition supervisor_failure_marker :: "douglas_folders \<Rightarrow> string \<Rightarrow> path" where
  "supervisor_failure_marker d service = supervisor_dir d @ [service @ ''.failed'']"

definition binary_dir :: "douglas_folders \<Rightarrow> path" where
  "binary_dir d = seedlings_root d @ [''bin'']"

definition binary_link :: "douglas_folders \<Rightarrow> path" where
  "binary_link d = binary_dir d @ [''douglas'']"

definition install_marker_file :: "douglas_folders \<Rightarrow> path" where
  "install_marker_file d = seedlings_root d @ [''install-marker.json'']"

definition upgrade_journal_file :: "douglas_folders \<Rightarrow> path" where
  "upgrade_journal_file d = seedlings_root d @ [''upgrade-journal.json'']"

lemma marker_outside_binary_dir [simp]:
  "install_marker_file d \<noteq> binary_dir d @ [n]" "upgrade_journal_file d \<noteq> binary_dir d @ [n]"
  "binary_dir d @ [n] \<noteq> install_marker_file d" "binary_dir d @ [n] \<noteq> upgrade_journal_file d"
  "install_marker_file d \<noteq> upgrade_journal_file d" "binary_dir d \<noteq> upgrade_journal_file d"
  by (auto simp: install_marker_file_def upgrade_journal_file_def binary_dir_def)

end
