(* ===== verification/StagedCopy.thy ===== *)
theory StagedCopy
  imports FileFrames Config
begin

text \<open>
  Copying a binary into place (src/bootstrap/staged_copy.rs): the copy is made under a staging name,
  given the owner of the original, and renamed onto its target.  The lemmas before say what each
  system call does to the nodes of the tree, whatever is refused or torn.
\<close>

section \<open>System calls and single nodes\<close>

lemma call_nodes:
  assumes "call m s = (r, t)"
  obtains (ran) s' where "same_tree s s'" "node_at s' = node_at s" "m s' = (r, t)"
  | (disturbed) k where "r = Inl k" "node_at t = node_at s"
  using assms by (rule call_cases) (auto dest: same_tree_node_at intro: ran disturbed)

lemma std_copy_nodes:
  assumes "std_copy from to s = (r, t)" and "from \<noteq> to"
  shows "\<And>q. q \<noteq> to \<Longrightarrow> node_at t q = node_at s q"
    and "r = Inr () \<Longrightarrow> \<exists>m m' b. node_at s from = Some (File m b) \<and> node_at t to = Some (File m' b) \<and>
      mode m' = mode m"
proof -
  obtain x s' where n: "next_outcome s = (x, s')" by (cases "next_outcome s") auto
  have same: "node_at s' = node_at s" by (rule same_tree_node_at [OF next_outcome_same [OF n]])
  show "\<And>q. q \<noteq> to \<Longrightarrow> node_at t q = node_at s q"
    and "r = Inr () \<Longrightarrow> \<exists>m m' b. node_at s from = Some (File m b) \<and> node_at t to = Some (File m' b) \<and>
      mode m' = mode m"
    using assms same n
    by (auto simp: std_copy_def Let_def split: outcome.splits option.splits node.splits)
qed

lemma std_set_meta_nodes:
  assumes "std_set_meta f p s = (r, t)"
  shows "\<And>q. q \<noteq> p \<Longrightarrow> node_at t q = node_at s q"
    and "r = Inr () \<Longrightarrow> \<exists>n. node_at s p = Some n \<and> node_at t p = Some (set_meta (f (node_meta n)) n)"
    and "r \<noteq> Inr () \<Longrightarrow> node_at t = node_at s"
  using assms unfolding std_set_meta_def
  by (auto elim!: call_nodes split: option.splits)

lemma std_remove_file_nodes:
  assumes "std_remove_file p s = (r, t)"
  shows "\<And>q. q \<noteq> p \<Longrightarrow> node_at t q = node_at s q"
  using assms unfolding std_remove_file_def
  by (auto elim!: call_nodes split: option.splits node.splits)

lemma deleter_delete_nodes:
  assumes "deleter_delete p s = (r, t)"
  shows "\<And>q. q \<noteq> p \<Longrightarrow> node_at t q = node_at s q"
proof -
  obtain r' t' where rm: "std_remove_file p s = (r', t')" by (cases "std_remove_file p s") auto
  then show "\<And>q. q \<noteq> p \<Longrightarrow> node_at t q = node_at s q"
    using assms std_remove_file_nodes [OF rm]
    by (auto simp: deleter_delete_def and_then_def gets_run map_err_def ok_def split: if_splits sum.splits)
qed

lemma std_rename_file_nodes:
  assumes "std_rename from to s = (r, t)" and "node_at s from = Some (File m b)" and "from \<noteq> to"
  shows "r = Inr () \<Longrightarrow> node_at t = (node_at s)(from := None, to := Some (File m b))"
    and "r \<noteq> Inr () \<Longrightarrow> node_at t = node_at s"
  using assms unfolding std_rename_def
  by (auto elim!: call_nodes simp: rename_body_def fun_eq_iff split: option.splits)

lemma reads_nodes: "reads_tree m \<Longrightarrow> m s = (r, t) \<Longrightarrow> node_at t = node_at s"
  by (simp add: reads_treeD same_tree_node_at)

lemma reads_ownership: "reads_tree (get_user_and_group_ownership p)" "reads_tree (get_mode p)"
  unfolding get_user_and_group_ownership_def get_mode_def by (intro reads_tree_intros)+

lemma get_ownership_node:
  assumes "get_user_and_group_ownership p s = (Inr (u, g), t)"
  shows "\<exists>n. node_at s p = Some n \<and> u = user (node_meta n) \<and> g = group (node_meta n)"
  using assms unfolding get_user_and_group_ownership_def std_metadata_def
  by (auto elim!: and_then_InrE map_err_InrE call_nodes simp: prog_simps split: option.splits if_splits)

section \<open>Copying with the owner of the original\<close>

definition copy_keeping_owner :: "path \<Rightarrow> path \<Rightarrow> (fs, fs_error, unit) prog" where
  "copy_keeping_owner from to =
     and_then (attempt
         (and_then (copier_copy from to) (\<lambda>_.
          and_then (get_user_and_group_ownership from) (\<lambda>(u, g).
          change_user_and_group_ownership to u g))))
       (\<lambda>result. case result of
          Inl e \<Rightarrow> and_then (ignore (deleter_delete to)) (\<lambda>_. fail e)
        | Inr u \<Rightarrow> ok u)"

definition install_copy :: "path \<Rightarrow> path \<Rightarrow> path \<Rightarrow> (fs, fs_error, unit) prog" where
  "install_copy from staging target =
     and_then (copy_keeping_owner from staging) (\<lambda>_.
     and_then (attempt (renamer_rename staging target))
       (\<lambda>result. case result of
          Inl e \<Rightarrow> and_then (ignore (deleter_delete staging)) (\<lambda>_. fail e)
        | Inr u \<Rightarrow> ok u))"

lemma change_ownership_nodes:
  assumes "change_user_and_group_ownership p u g s = (r, t)"
  shows "\<And>q. q \<noteq> p \<Longrightarrow> node_at t q = node_at s q"
    and "r = Inr () \<Longrightarrow> \<exists>n. node_at s p = Some n \<and>
      node_at t p = Some (set_meta ((node_meta n)\<lparr>user := u, group := g\<rparr>) n)"
proof -
  obtain r' t' where st: "std_set_meta (\<lambda>m. m\<lparr>user := u, group := g\<rparr>) p s = (r', t')"
    by (cases "std_set_meta (\<lambda>m. m\<lparr>user := u, group := g\<rparr>) p s") auto
  from assms st std_set_meta_nodes [OF st]
  show "\<And>q. q \<noteq> p \<Longrightarrow> node_at t q = node_at s q"
    and "r = Inr () \<Longrightarrow> \<exists>n. node_at s p = Some n \<and>
      node_at t p = Some (set_meta ((node_meta n)\<lparr>user := u, group := g\<rparr>) n)"
    by (auto simp: change_user_and_group_ownership_def and_then_def gets_run map_err_def fail_run
        split: if_splits sum.splits)
qed

text \<open>The three calls that make the copy.\<close>

lemma copied_nodes:
  assumes "and_then (copier_copy from to) (\<lambda>_. and_then (get_user_and_group_ownership from)
      (\<lambda>(u, g). change_user_and_group_ownership to u g)) s = (r, t)" and "from \<noteq> to"
  shows "(\<forall>q. q \<noteq> to \<longrightarrow> node_at t q = node_at s q) \<and>
    (r = Inr () \<longrightarrow> node_at t to = node_at s from \<and> is_file s from)"
proof -
  obtain rc sc where c: "std_copy from to s = (rc, sc)" by (cases "std_copy from to s") auto
  note copied = std_copy_nodes [OF c assms(2)]
  show ?thesis
  proof (cases rc)
    case (Inl k)
    then have "r \<noteq> Inr ()" "t = sc" using assms(1) c
      by (auto simp: and_then_def copier_copy_def map_err_def)
    then show ?thesis using copied by simp
  next
    case (Inr x)
    obtain ro so where o: "get_user_and_group_ownership from sc = (ro, so)"
      by (cases "get_user_and_group_ownership from sc") auto
    have read: "node_at so = node_at sc" by (rule reads_nodes [OF reads_ownership(1) o])
    show ?thesis
    proof (cases ro)
      case (Inl e)
      then have "r \<noteq> Inr ()" "t = so" using assms(1) c Inr o
        by (auto simp: and_then_def copier_copy_def map_err_def)
      then show ?thesis using copied read by simp
    next
      case (Inr ug)
      obtain u g where ug: "ug = (u, g)" by (cases ug)
      have ch: "change_user_and_group_ownership to u g so = (r, t)"
        using assms(1) c \<open>rc = Inr x\<close> o Inr ug by (simp add: and_then_def copier_copy_def map_err_def)
      note changed = change_ownership_nodes [OF ch]
      obtain m m' b where nodes: "node_at s from = Some (File m b)" "node_at sc to = Some (File m' b)"
        "mode m' = mode m" using copied(2) \<open>rc = Inr x\<close> by auto
      have "u = user m" "g = group m"
        using get_ownership_node [OF o [unfolded Inr ug]] copied(1) assms(2) nodes by auto
      then have "r = Inr () \<Longrightarrow> node_at t to = node_at s from"
        using changed(2) read nodes by (cases m; cases m') auto
      then show ?thesis using changed(1) read copied(1) nodes by (auto simp: is_file_def)
    qed
  qed
qed

lemma copy_keeping_owner_nodes:
  assumes "copy_keeping_owner from to s = (r, t)" and "from \<noteq> to"
  shows "\<And>q. q \<noteq> to \<Longrightarrow> node_at t q = node_at s q"
    and "r = Inr () \<Longrightarrow> node_at t to = node_at s from \<and> is_file s from"
proof -
  let ?copy = "and_then (copier_copy from to) (\<lambda>_. and_then (get_user_and_group_ownership from)
      (\<lambda>(u, g). change_user_and_group_ownership to u g))"
  obtain r1 s1 where c: "?copy s = (r1, s1)" by (cases "?copy s") auto
  note copied = copied_nodes [OF c assms(2)]
  obtain r2 s2 where d: "deleter_delete to s1 = (r2, s2)" by (cases "deleter_delete to s1") auto
  from assms(1) c d have "r = r1" "t = (case r1 of Inl _ \<Rightarrow> s2 | Inr _ \<Rightarrow> s1)"
    by (auto simp: copy_keeping_owner_def and_then_def attempt_def prog_simps split: sum.splits)
  then show "\<And>q. q \<noteq> to \<Longrightarrow> node_at t q = node_at s q"
    and "r = Inr () \<Longrightarrow> node_at t to = node_at s from \<and> is_file s from"
    using copied deleter_delete_nodes [OF d] by (auto split: sum.splits)
qed

lemma install_copy_nodes:
  assumes "install_copy from staging target s = (r, t)" and "from \<noteq> staging" "staging \<noteq> target"
  shows "\<And>q. q \<noteq> staging \<Longrightarrow> q \<noteq> target \<Longrightarrow> node_at t q = node_at s q"
    and "r = Inr () \<Longrightarrow> node_at t target = node_at s from \<and> node_at t staging = None \<and> is_file s from"
    and "r \<noteq> Inr () \<Longrightarrow> node_at t target = node_at s target"
proof -
  obtain r1 s1 where c: "copy_keeping_owner from staging s = (r1, s1)"
    by (cases "copy_keeping_owner from staging s") auto
  note copied = copy_keeping_owner_nodes [OF c assms(2)]
  obtain r2 s2 where n: "std_rename staging target s1 = (r2, s2)"
    by (cases "std_rename staging target s1") auto
  obtain r3 s3 where d: "deleter_delete staging s2 = (r3, s3)" by (cases "deleter_delete staging s2") auto
  have "(\<forall>q. q \<noteq> staging \<longrightarrow> q \<noteq> target \<longrightarrow> node_at t q = node_at s q) \<and>
    (r = Inr () \<longrightarrow> node_at t target = node_at s from \<and> node_at t staging = None \<and> is_file s from) \<and>
    (r \<noteq> Inr () \<longrightarrow> node_at t target = node_at s target)"
  proof (cases r1)
    case (Inl e)
    then show ?thesis using assms c copied by (auto simp: install_copy_def and_then_def)
  next
    case (Inr x)
    then obtain m b where f: "node_at s1 staging = Some (File m b)"
      using copied by (auto simp: is_file_def split: option.splits node.splits)
    note renamed = std_rename_file_nodes [OF n f assms(3)]
    show ?thesis
    proof (cases r2)
      case (Inl k)
      then have "t = s3" "r \<noteq> Inr ()" using assms(1) c \<open>r1 = Inr x\<close> n d
        by (auto simp: install_copy_def and_then_def attempt_def prog_simps renamer_rename_def map_err_def)
      then show ?thesis
        using renamed(2) Inl copied assms(3) deleter_delete_nodes [OF d] by auto
    next
      case (Inr y)
      then have "t = s2" "r = Inr ()" using assms(1) c \<open>r1 = Inr x\<close> n
        by (auto simp: install_copy_def and_then_def attempt_def prog_simps renamer_rename_def map_err_def)
      then show ?thesis using renamed(1) Inr copied \<open>r1 = Inr x\<close> assms(3) f by auto
    qed
  qed
  then show "\<And>q. q \<noteq> staging \<Longrightarrow> q \<noteq> target \<Longrightarrow> node_at t q = node_at s q"
    and "r = Inr () \<Longrightarrow> node_at t target = node_at s from \<and> node_at t staging = None \<and> is_file s from"
    and "r \<noteq> Inr () \<Longrightarrow> node_at t target = node_at s target" by blast+
qed

text \<open>
  C16: Installing a binary is all or nothing, whatever call is refused or torn: on success the target is
  the original with its bytes, mode and owner and the staging file is gone, on failure the target is
  what it was; no other path is touched either way.
\<close>

theorem install_copy_all_or_nothing:
  assumes "from \<noteq> staging" and "staging \<noteq> target"
    and "install_copy from staging target s = (r, t)"
  shows "node_at t target = node_at s (case r of Inr _ \<Rightarrow> from | Inl _ \<Rightarrow> target) \<and>
    (case r of Inr _ \<Rightarrow> is_file s from \<and> node_at t staging = None | Inl _ \<Rightarrow> True) \<and>
    (q \<in> {staging, target} \<or> node_at t q = node_at s q)"
  using install_copy_nodes [OF assms(3,1,2)] by (cases r) auto

definition demo_bin :: fs where
  "demo_bin =
     \<lparr>nodes = [([], Dir root_meta), ([''old''], File root_meta ''v1''), ([''new''], File root_meta ''v2'')],
      outcomes = [], creator = root_meta, known_users = [''root''], known_groups = [''root'']\<rparr>"

theorem install_copy_all_or_nothing_witness:
  "node_at (snd (install_copy [''new''] [''part''] [''old''] demo_bin)) [''old''] =
     Some (File root_meta ''v2'')"
proof -
  obtain r t where run: "install_copy [''new''] [''part''] [''old''] demo_bin = (r, t)"
    by (cases "install_copy [''new''] [''part''] [''old''] demo_bin") auto
  have "fst (install_copy [''new''] [''part''] [''old''] demo_bin) = Inr ()" by code_simp
  with run have "r = Inr ()" by simp
  with install_copy_all_or_nothing [OF _ _ run, of "[]"] have "node_at t [''old''] = node_at demo_bin [''new'']"
    by simp
  then show ?thesis by (simp add: run) (simp add: demo_bin_def node_at_def)
qed

section \<open>Undisturbed copies\<close>

text \<open>\<open>quiet s t\<close>: still undisturbed if it was, with the same users and groups.\<close>

definition quiet :: "fs \<Rightarrow> fs \<Rightarrow> bool" where
  "quiet s t \<longleftrightarrow> (calm s \<longrightarrow> calm t) \<and> known_users t = known_users s \<and> known_groups t = known_groups s"

definition owner_known :: "fs \<Rightarrow> path \<Rightarrow> bool" where
  "owner_known s p \<longleftrightarrow> (case node_at s p of
     Some n \<Rightarrow> user (node_meta n) \<in> set (known_users s) \<and> group (node_meta n) \<in> set (known_groups s)
   | None \<Rightarrow> False)"

lemma quiet_put [simp]: "quiet s (put_node p n t) = quiet s t"
  and quiet_drop [simp]: "quiet s (drop_nodes P t) = quiet s t"
  by (simp_all add: quiet_def put_node_def drop_nodes_def calm_def)

lemma creatable_put [simp]:
  "creatable s p = None \<Longrightarrow> creatable (put_node p (File m b) s) q =
     (if q = p then None else if butlast q = p \<and> \<not> is_dir s q then Some OtherKind else creatable s q)"
  by (auto simp: creatable_def split: if_splits)

lemma install_copy_succeeds:
  assumes calm: "calm s" and owner: "owner_known s from" and "is_file s from"
    and "creatable s staging = None" "creatable s target = None"
    and "from \<noteq> staging" "staging \<noteq> target" "butlast target \<noteq> staging"
  shows "\<exists>t. install_copy from staging target s = (Inr (), t) \<and> quiet s t \<and>
    node_at t = (node_at s)(staging := None, target := node_at s from)"
proof -
  obtain m b where f: "node_at s from = Some (File m b)"
    using assms(3) by (auto simp: is_file_def split: option.splits node.splits)
  define m1 where "m1 = (meta_for s staging)\<lparr>mode := mode m\<rparr>"
  define s1 where "s1 = put_node staging (File m1 b) s"
  define s2 where "s2 = put_node staging (File m b) s1"
  have m: "m1\<lparr>user := user m, group := group m\<rparr> = m" by (simp add: m1_def)
  have calms: "calm s1" "calm s2" using calm by (simp_all add: s1_def s2_def)
  have known: "known_users s1 = known_users s" "known_groups s1 = known_groups s"
    by (simp_all add: s1_def put_node_def)
  have copy: "std_copy from staging s = (Inr (), s1)"
    using calm f assms(4,6) by (simp add: std_copy_def Let_def s1_def m1_def)
  have own: "get_user_and_group_ownership from s1 = (Inr (user m, group m), s1)"
    using owner f assms(6) calms known
    by (simp add: get_user_and_group_ownership_def and_then_def map_err_def std_metadata_def gets_run
        ok_run owner_known_def s1_def)
  have ch: "change_user_and_group_ownership staging (user m) (group m) s1 = (Inr (), s2)"
    using owner f calms known m
    by (simp add: change_user_and_group_ownership_def and_then_def map_err_def std_set_meta_def gets_run
        owner_known_def) (simp add: s1_def s2_def)
  have "creatable s2 target = None"
    using assms(4,5,7,8) by (simp add: s2_def s1_def)
  then have "std_rename staging target s2 =
      (Inr (), put_node target (File m b) (drop_nodes (\<lambda>q. q = staging) s2))"
    using calms assms(7) by (simp add: std_rename_def rename_body_def s2_def)
  then have "install_copy from staging target s =
      (Inr (), put_node target (File m b) (drop_nodes (\<lambda>q. q = staging) s2))"
    using copy own ch
    by (simp add: install_copy_def copy_keeping_owner_def and_then_def attempt_def copier_copy_def
        renamer_rename_def map_err_def ok_run)
  moreover have "quiet s (put_node target (File m b) (drop_nodes (\<lambda>q. q = staging) s2))"
    using calm by (simp add: s2_def s1_def) (simp add: quiet_def)
  ultimately show ?thesis using f assms(7) by (auto simp: s2_def s1_def fun_eq_iff)
qed

end
