(* ===== verification/UpgradeFiles.thy ===== *)
theory UpgradeFiles
  imports Releases StagedCopy
begin

text \<open>
  The files an upgrade works on: reading the release of a binary (src/verify.rs), the install marker
  (src/bootstrap/compatibility.rs), the upgrade journal (src/bootstrap/journal.rs), and choosing and
  staging a kept version (src/bootstrap/rollback.rs).  The JSON library and the signature check are
  parameters; the messages of their errors are not.
\<close>

section \<open>Verifying a binary\<close>

datatype verify_error =
    InvalidPublicKey string
  | ReadFailed path fs_error
  | NotSigned path
  | SignatureMismatch
  | InvalidMetadata release_error
  | UnknownInternalVersion

text \<open>\<open>public_key\<close> is the embedded key: its decoding fails or gives the check of a signature.\<close>

record verifier =
  public_key :: "string + (string \<Rightarrow> string \<Rightarrow> bool)"
  release_codec :: release_json
  current_executable :: "path option"

definition get_external_release :: "verifier \<Rightarrow> path \<Rightarrow> (fs, verify_error, release) prog" where
  "get_external_release V binary =
     (case public_key V of
        Inl e \<Rightarrow> fail (InvalidPublicKey e)
      | Inr verify \<Rightarrow>
          and_then (map_err (ReadFailed binary) (reader_read_all_bytes binary)) (\<lambda>data.
            (case verify_trailer (release_codec V) verify data of
               Inr r \<Rightarrow> ok r
             | Inl MissingTrailer \<Rightarrow> fail (NotSigned binary)
             | Inl Mismatch \<Rightarrow> fail SignatureMismatch
             | Inl (TrailerMetadata e) \<Rightarrow> fail (InvalidMetadata e))))"

definition get_internal_release :: "verifier \<Rightarrow> (fs, verify_error, release) prog" where
  "get_internal_release V =
     (case current_executable V of
        None \<Rightarrow> fail UnknownInternalVersion
      | Some p \<Rightarrow> get_external_release V p)"

section \<open>The install marker\<close>

datatype compatibility_error =
    MarkerUnreadable path fs_error
  | MarkerInvalid path release_error
  | Incompatible "conflict list"
  | MarkerWriteFailed path fs_error

record marker_json =
  marker_to_json :: "install_marker \<Rightarrow> release_error + string"
  marker_of_json :: "string \<Rightarrow> release_error + install_marker"

definition ensure_compatible :: "marker_json \<Rightarrow> douglas_folders \<Rightarrow> release_metadata \<Rightarrow>
    (fs, compatibility_error, unit) prog" where
  "ensure_compatible js d running =
     (let p = install_marker_file d
      in and_then (map_err (MarkerUnreadable p) (read_if_present reader_read_all p)) (\<lambda>raw.
           case raw of
             None \<Rightarrow> ok ()
           | Some raw \<Rightarrow>
               (case marker_of_json js raw of
                  Inl e \<Rightarrow> fail (MarkerInvalid p e)
                | Inr marker \<Rightarrow>
                    (let conflicts = start_conflicts marker running
                     in if conflicts = [] then ok () else fail (Incompatible conflicts)))))"

definition running_version :: "verifier \<Rightarrow> string \<Rightarrow> (fs, verify_error, string) prog" where
  "running_version V unsigned_fallback =
     and_then (attempt (get_internal_release V)) (\<lambda>r.
       case r of
         Inr r \<Rightarrow> ok (version_to_string (release_version r))
       | Inl (NotSigned _) \<Rightarrow> ok unsigned_fallback
       | Inl e \<Rightarrow> fail e)"

definition record_install :: "marker_json \<Rightarrow> douglas_folders \<Rightarrow> string \<Rightarrow> release_metadata \<Rightarrow>
    (fs, compatibility_error, unit) prog" where
  "record_install js d v running =
     (let p = install_marker_file d
      in case marker_to_json js \<lparr>installed_version = v, metadata = running\<rparr> of
           Inl e \<Rightarrow> fail (MarkerInvalid p e)
         | Inr json \<Rightarrow> map_err (MarkerWriteFailed p) (writer_write_all p json))"

section \<open>The upgrade journal\<close>

record upgrade_journal =
  journal_from :: string
  journal_to :: string
  previous_binary :: path
  journal_pid :: "32 word"

datatype journal_error =
    JournalSerialize path
  | JournalUnreadable path fs_error
  | JournalInvalid path
  | JournalWriteFailed path fs_error
  | JournalRemoveFailed path fs_error

record journal_json =
  journal_to_json :: "upgrade_journal \<Rightarrow> string option"
  journal_of_json :: "string \<Rightarrow> upgrade_journal option"

definition journal_record :: "journal_json \<Rightarrow> douglas_folders \<Rightarrow> upgrade_journal \<Rightarrow>
    (fs, journal_error, unit) prog" where
  "journal_record js d j =
     (let p = upgrade_journal_file d
      in case journal_to_json js j of
           None \<Rightarrow> fail (JournalSerialize p)
         | Some json \<Rightarrow> map_err (JournalWriteFailed p) (writer_write_all p json))"

definition journal_load :: "journal_json \<Rightarrow> douglas_folders \<Rightarrow>
    (fs, journal_error, upgrade_journal option) prog" where
  "journal_load js d =
     (let p = upgrade_journal_file d
      in and_then (map_err (JournalUnreadable p) (read_if_present reader_read_all p)) (\<lambda>raw.
           case raw of
             None \<Rightarrow> ok None
           | Some raw \<Rightarrow>
               (case journal_of_json js raw of
                  None \<Rightarrow> fail (JournalInvalid p)
                | Some j \<Rightarrow> ok (Some j))))"

definition journal_clear :: "douglas_folders \<Rightarrow> (fs, journal_error, unit) prog" where
  "journal_clear d =
     (let p = upgrade_journal_file d
      in and_then (attempt (deleter_delete p)) (\<lambda>r.
           case r of
             Inl e \<Rightarrow> if \<not> is_not_found e then fail (JournalRemoveFailed p e) else ok ()
           | Inr _ \<Rightarrow> ok ()))"

text \<open>\<open>alive pid\<close> is what \<open>is_active_pid\<close> answers, \<open>None\<close> an error.\<close>

definition is_interrupted :: "('pid \<Rightarrow> bool option) \<Rightarrow> 'pid \<Rightarrow> bool" where
  "is_interrupted alive pid \<longleftrightarrow> alive pid = Some False"

section \<open>Rolling back: choosing and staging a kept version\<close>

definition STAGING_NAME :: string where
  "STAGING_NAME = ''douglas-rollback.staging''"

datatype rollback_error =
    NotAVersion string
  | Listing fs_error
  | Target rollback_target_error
  | Staging fs_error

definition retained_path :: "path \<Rightarrow> version \<Rightarrow> path" where
  "retained_path dir v = dir @ [retained_name v]"

definition choose_target :: "douglas_folders \<Rightarrow> version \<Rightarrow> string option \<Rightarrow> (fs, rollback_error, version) prog" where
  "choose_target d current requested =
     and_then (case requested of
         None \<Rightarrow> ok None
       | Some t \<Rightarrow> (case version_from_str t of None \<Rightarrow> fail (NotAVersion t) | Some v \<Rightarrow> ok (Some v)))
       (\<lambda>wish. and_then (map_err Listing (folder_entries (binary_dir d))) (\<lambda>entries.
         case rollback_target (map entry_name entries) current wish of
           Inl e \<Rightarrow> fail (Target e)
         | Inr v \<Rightarrow> ok v))"

definition staging_file :: "douglas_folders \<Rightarrow> path" where
  "staging_file d = binary_dir d @ [STAGING_NAME]"

definition stage :: "douglas_folders \<Rightarrow> version \<Rightarrow> (fs, rollback_error, path) prog" where
  "stage d v =
     (let kept = retained_path (binary_dir d) v; staging = staging_file d
      in map_err Staging (and_then (copy_keeping_owner kept staging) (\<lambda>_. ok staging)))"

definition unstage :: "path \<Rightarrow> (fs, 'e, unit) prog" where
  "unstage staging = ignore (deleter_delete staging)"

section \<open>What the files guarantee\<close>

lemma map_err_run: "map_err f m s = (case m s of (r, t) \<Rightarrow> (map_sum f id r, t))"
  by (auto simp: map_err_def split: prod.split sum.split)

lemma record_install_written:
  assumes "record_install js d v m s = (Inr (), t)"
  shows "\<exists>json. marker_to_json js \<lparr>installed_version = v, metadata = m\<rparr> = Inr json \<and>
    writer_write_all (install_marker_file d) json s = (Inr (), t)"
  using assms by (auto simp: record_install_def Let_def prog_simps split: sum.splits elim: map_err_InrE)

lemma marker_read_back:
  assumes "record_install js d v m s = (Inr (), t)" and "calm t"
    and "case marker_to_json js \<lparr>installed_version = v, metadata = m\<rparr> of
      Inl _ \<Rightarrow> True
    | Inr json \<Rightarrow> is_utf8 json \<and> marker_of_json js json = Inr \<lparr>installed_version = v, metadata = m\<rparr>"
  shows "fst (ensure_compatible js d running t) =
    (let conflicts = start_conflicts \<lparr>installed_version = v, metadata = m\<rparr> running
     in if conflicts = [] then Inr () else Inl (Incompatible conflicts))"
proof -
  obtain json where "marker_to_json js \<lparr>installed_version = v, metadata = m\<rparr> = Inr json"
    and w: "writer_write_all (install_marker_file d) json s = (Inr (), t)"
    using record_install_written [OF assms(1)] by auto
  with assms(3) have "is_utf8 json" "marker_of_json js json = Inr \<lparr>installed_version = v, metadata = m\<rparr>"
    by simp_all
  with unix_files.present_after_write [OF w assms(2)] show ?thesis
    by (simp add: ensure_compatible_def Let_def and_then_def map_err_def prog_simps)
qed

text \<open>
  Undisturbed, the start of a release is refused after the installation of another one was recorded
  exactly when the two conflict, with the list of all their conflicts; in particular a release can
  always be started again on the data it installed.
\<close>

theorem recorded_install_decides_start:
  assumes "record_install js d v m s = (Inr (), t)" and "calm t"
    and "case marker_to_json js \<lparr>installed_version = v, metadata = m\<rparr> of
      Inl _ \<Rightarrow> True
    | Inr json \<Rightarrow> is_utf8 json \<and> marker_of_json js json = Inr \<lparr>installed_version = v, metadata = m\<rparr>"
    and "btree (core m)"
  shows "fst (ensure_compatible js d running t) =
      (let conflicts = start_conflicts \<lparr>installed_version = v, metadata = m\<rparr> running
       in if conflicts = [] then Inr () else Inl (Incompatible conflicts)) \<and>
    fst (ensure_compatible js d m t) = Inr ()"
  using marker_read_back [OF assms(1-3)] no_conflicts_refl [OF assms(4)] by simp

definition demo_marker_json :: marker_json where
  "demo_marker_json =
     \<lparr>marker_to_json = (\<lambda>m. Inr ''{}''),
      marker_of_json = (\<lambda>s. Inr \<lparr>installed_version = ''0.1.0'', metadata = metadata_current\<rparr>)\<rparr>"

definition demo_douglas :: douglas_folders where
  "demo_douglas =
     \<lparr>logs = [''log''], transients = [''run''], configs = [''etc''], seedlings_root = [],
      identity = [''id'']\<rparr>"

theorem recorded_install_decides_start_witness:
  "\<exists>t. record_install demo_marker_json demo_douglas ''0.1.0'' metadata_current demo_bin = (Inr (), t) \<and>
     fst (ensure_compatible demo_marker_json demo_douglas metadata_current t) = Inr ()"
proof -
  define t where "t = snd (record_install demo_marker_json demo_douglas ''0.1.0'' metadata_current demo_bin)"
  have run: "record_install demo_marker_json demo_douglas ''0.1.0'' metadata_current demo_bin = (Inr (), t)"
    unfolding t_def by code_simp
  moreover have "calm t" unfolding t_def calm_def by code_simp
  moreover have "is_utf8 ''{}''" by code_simp
  moreover from this have "case marker_to_json demo_marker_json
      \<lparr>installed_version = ''0.1.0'', metadata = metadata_current\<rparr> of
      Inl _ \<Rightarrow> True
    | Inr json \<Rightarrow> is_utf8 json \<and> marker_of_json demo_marker_json json =
        Inr \<lparr>installed_version = ''0.1.0'', metadata = metadata_current\<rparr>"
    by (simp add: demo_marker_json_def)
  ultimately show ?thesis
    using recorded_install_decides_start [OF run] metadata_current_btree by blast
qed

end
