(* ===== verification/Services.thy ===== *)
theory Services
  imports UpgradeFiles Blueprint
begin

text \<open>
  Stopping the services of douglas: \<open>kill_service\<close>, \<open>KillService\<close> and \<open>StopBract\<close> of
  src/bootstrap/mod.rs, the plan of \<open>douglas stop\<close> (src/bootstrap/stop.rs), the reading of a
  heartbeat (heartbeat/src/lib.rs).  A host is its file system and everything outside it, of a type
  the model does not look into; \<open>machine\<close> is what the code asks of the operating system, of the
  running bract and of docker.  Each of these may change the host in any way: other processes run
  meanwhile.
\<close>

section \<open>The host and the machine\<close>

record 'o host =
  tree :: fs
  outside :: 'o

type_synonym pid = "32 word"

datatype os_error =
    ProcessExitStatusError "int option" string string
  | OtherOsError string

datatype bract_stop_outcome = BractStopped | BractStopFailed string | BractStopTimedOut

datatype docker_status = Created | Running | Paused | Restarting | Removing | Exited | Dead

record 'o machine =
  folders :: douglas_folders
  own_pid :: pid
  os_kill :: "pid \<Rightarrow> ('o host, os_error, unit) prog"
  os_is_active_pid :: "pid \<Rightarrow> ('o host, os_error, bool) prog"
  os_execute_with_output :: "path \<Rightarrow> string list \<Rightarrow> ('o host, os_error, string \<times> string) prog"
  os_sleep :: "nat \<Rightarrow> 'o host \<Rightarrow> 'o host"
  bract_stop :: "bool \<Rightarrow> nat \<Rightarrow> 'o host \<Rightarrow> bract_stop_outcome \<times> 'o host"
  list_containers :: "('o host, string, string list) prog"
  container_status :: "string \<Rightarrow> ('o host, string, docker_status) prog"
  stop_container :: "string \<Rightarrow> ('o host, string, unit) prog"
  heartbeat_pid :: "string \<Rightarrow> string + pid"
  follow_binary_link :: "fs_error + path"
  journal_codec :: journal_json

text \<open>\<open>upgrade_error\<close> of src/bootstrap/upgrade.rs, and what else a step of a plan can fail with.\<close>

datatype upgrade_error =
    MustBeRoot
  | Missing path
  | InvalidExecutable verify_error
  | InvalidUpgrade
  | InvalidRollback
  | CannotRollBack "difference list"
  | OneWay "difference list"
  | StartFailed string string
  | CannotRun os_error
  | Unhealthy string string

datatype step_error =
    FileSystem fs_error
  | HeartbeatFileError fs_error
  | HeartbeatInvalid string
  | OsFailure os_error
  | JournalFailure journal_error
  | UpgradeFailure upgrade_error

type_synonym ('o, 'a) step = "('o host, step_error, 'a) prog"

text \<open>A file system routine on a host.\<close>

definition on_tree :: "('e \<Rightarrow> step_error) \<Rightarrow> (fs, 'e, 'a) prog \<Rightarrow> ('o, 'a) step" where
  "on_tree err m h = (case m (tree h) of (r, t) \<Rightarrow> (map_sum err id r, h\<lparr>tree := t\<rparr>))"

lemma map_sum_Inr_iff: "map_sum f id r = Inr a \<longleftrightarrow> r = Inr a"
  by (cases r) simp_all

lemma on_tree_Inr:
  "on_tree err m h = (Inr a, h') \<longleftrightarrow> (\<exists>t. m (tree h) = (Inr a, t) \<and> h' = h\<lparr>tree := t\<rparr>)"
  by (auto simp: on_tree_def map_sum_Inr_iff split: prod.split)

section \<open>Heartbeats and killing a service\<close>

definition read_heartbeat :: "'o machine \<Rightarrow> string \<Rightarrow> ('o, pid) step" where
  "read_heartbeat M service =
     and_then (on_tree HeartbeatFileError (reader_read_all (service_heartbeat_file (folders M) service)))
       (\<lambda>raw. case heartbeat_pid M raw of Inl e \<Rightarrow> fail (HeartbeatInvalid e) | Inr pid \<Rightarrow> ok pid)"

definition kill_service :: "'o machine \<Rightarrow> string \<Rightarrow> ('o, unit) step" where
  "kill_service M service =
     and_then (read_heartbeat M service) (\<lambda>pid. map_err OsFailure (os_kill M pid))"

section \<open>Stopping bract\<close>

text \<open>In seconds.\<close>

definition BRACT_STOP_TIMEOUT :: nat where
  "BRACT_STOP_TIMEOUT = 30"

definition CONTAINER_NAME_PREFIX :: string where
  "CONTAINER_NAME_PREFIX = ''doug.''"

definition AGENT_CONTAINER_NAME_PREFIX :: string where
  "AGENT_CONTAINER_NAME_PREFIX = ''doug-agent.''"

definition is_douglas_container :: "string \<Rightarrow> bool" where
  "is_douglas_container name \<longleftrightarrow>
     strip_prefix CONTAINER_NAME_PREFIX name \<noteq> None \<or> strip_prefix AGENT_CONTAINER_NAME_PREFIX name \<noteq> None"

definition handle_stop_outcome :: "bract_stop_outcome \<Rightarrow> bool" where
  "handle_stop_outcome outcome =
     (case outcome of BractStopped \<Rightarrow> False | BractStopFailed _ \<Rightarrow> True | BractStopTimedOut \<Rightarrow> True)"

definition request_bract_stop :: "'o machine \<Rightarrow> bool \<Rightarrow> ('o, bool) step" where
  "request_bract_stop M including_containers h =
     (case bract_stop M including_containers BRACT_STOP_TIMEOUT h of
        (outcome, h') \<Rightarrow> (Inr (handle_stop_outcome outcome), h'))"

definition try_stop_container :: "'o machine \<Rightarrow> string \<Rightarrow> ('o, unit) step" where
  "try_stop_container M name =
     and_then (attempt (container_status M name)) (\<lambda>r.
       case r of
         Inl _ \<Rightarrow> ok ()
       | Inr status \<Rightarrow> if status \<noteq> Running then ok () else ignore (stop_container M name))"

definition try_stop_douglas_containers :: "'o machine \<Rightarrow> ('o, unit) step" where
  "try_stop_douglas_containers M =
     and_then (attempt (list_containers M)) (\<lambda>r.
       case r of
         Inl _ \<Rightarrow> ok ()
       | Inr containers \<Rightarrow> for_each (try_stop_container M) (filter is_douglas_container containers))"

definition stop_bract :: "'o machine \<Rightarrow> bool \<Rightarrow> ('o, unit) step" where
  "stop_bract M including_containers =
     and_then (request_bract_stop M including_containers) (\<lambda>needs_kill.
       if needs_kill then
         and_then (if including_containers then try_stop_douglas_containers M else ok ()) (\<lambda>_.
           kill_service M BRACT)
       else ok ())"

section \<open>The plan of douglas stop\<close>

datatype running_status = IsRunning | NotRunning

record liveness =
  woodward_status :: running_status
  resin_status :: running_status
  seedbank_status :: running_status
  bract_status :: running_status

datatype stop_state = StopNotRoot | StopRoot liveness

datatype stop_error = StopMustBeRoot

datatype service_step = KillService string | StopBract bool

definition stop_plan :: "stop_state \<Rightarrow> stop_error + service_step list" where
  "stop_plan state =
     (case state of
        StopNotRoot \<Rightarrow> Inl StopMustBeRoot
      | StopRoot l \<Rightarrow> Inr
          ((if woodward_status l = IsRunning then [KillService WOODWARD] else []) @
           (if bract_status l = IsRunning then [StopBract True] else []) @
           (if seedbank_status l = IsRunning then [KillService SEEDBANK] else []) @
           (if resin_status l = IsRunning then [KillService RESIN] else [])))"

fun run_service_step :: "'o machine \<Rightarrow> service_step \<Rightarrow> ('o, unit) step" where
  "run_service_step M (KillService service) = kill_service M service"
| "run_service_step M (StopBract including_containers) = stop_bract M including_containers"

fun service_step_name :: "service_step \<Rightarrow> string" where
  "service_step_name (KillService _) = ''Kill service''"
| "service_step_name (StopBract _) = ''Stopping bract''"

fun service_step_display :: "service_step \<Rightarrow> string" where
  "service_step_display (KillService service) = ''Kill service '' @ service"
| "service_step_display (StopBract _) = ''Stopping Bract''"

definition service_ops :: "'o machine \<Rightarrow> (service_step, 'o host, step_error) command" where
  "service_ops M =
     (default_command service_step_display
        (\<lambda>k h. case run_service_step M k h of (r, h') \<Rightarrow> (r, k, h')))\<lparr>step_name := service_step_name\<rparr>"

section \<open>What the machine leaves alone\<close>

text \<open>The operations of a machine, as changes of the host.\<close>

inductive machine_change :: "'o machine \<Rightarrow> 'o host \<Rightarrow> 'o host \<Rightarrow> bool" for M where
  kill: "os_kill M p h = (r1, h') \<Longrightarrow> machine_change M h h'"
| active: "os_is_active_pid M p h = (r2, h') \<Longrightarrow> machine_change M h h'"
| execute: "os_execute_with_output M f args h = (r3, h') \<Longrightarrow> machine_change M h h'"
| sleep: "os_sleep M n h = h' \<Longrightarrow> machine_change M h h'"
| bract: "bract_stop M b n h = (r4, h') \<Longrightarrow> machine_change M h h'"
| list: "list_containers M h = (r5, h') \<Longrightarrow> machine_change M h h'"
| status: "container_status M c h = (r6, h') \<Longrightarrow> machine_change M h h'"
| stop: "stop_container M c h = (r7, h') \<Longrightarrow> machine_change M h h'"

text \<open>A property of hosts that survives whatever the machine does survives the services' steps.\<close>

definition machine_keeps :: "'o machine \<Rightarrow> ('o host \<Rightarrow> bool) \<Rightarrow> bool" where
  "machine_keeps M I \<longleftrightarrow> (\<forall>h h'. I h \<longrightarrow> machine_change M h h' \<longrightarrow> I h')"

definition tree_keeps :: "('o host \<Rightarrow> bool) \<Rightarrow> bool" where
  "tree_keeps I \<longleftrightarrow> (\<forall>h t. I h \<longrightarrow> later (tree h) t \<longrightarrow> I (h\<lparr>tree := t\<rparr>))"

lemma machine_keepsD: "machine_keeps M I \<Longrightarrow> machine_change M h h' \<Longrightarrow> I h \<Longrightarrow> I h'"
  by (auto simp: machine_keeps_def)

lemma machine_keeps_ops:
  assumes "machine_keeps M I"
  shows "keeps I (os_kill M p)" "keeps I (os_is_active_pid M p)" "keeps I (os_execute_with_output M f args)"
    "keeps I (list_containers M)" "keeps I (container_status M c)" "keeps I (stop_container M c)"
    "keeps I (request_bract_stop M b)" "I h \<Longrightarrow> I (os_sleep M n h)"
proof -
  note change = machine_keepsD [OF assms]
  show "keeps I (os_kill M p)" "keeps I (os_is_active_pid M p)" "keeps I (os_execute_with_output M f args)"
    "keeps I (list_containers M)" "keeps I (container_status M c)" "keeps I (stop_container M c)"
    by (rule keepsI, rule change, rule machine_change.intros, rule prod.collapse [symmetric], assumption)+
  show "I h \<Longrightarrow> I (os_sleep M n h)"
    by (erule change [rotated]) (rule machine_change.sleep [OF refl])
  show "keeps I (request_bract_stop M b)"
    by (auto simp: keeps_def request_bract_stop_def split: prod.split
        intro: change [OF machine_change.bract])
qed

lemma on_tree_reads:
  assumes "tree_keeps I" and "reads_tree m"
  shows "keeps I (on_tree err m)"
proof (rule keepsI)
  fix h assume "I h"
  obtain r t where run: "m (tree h) = (r, t)" by (cases "m (tree h)") auto
  have "later (tree h) t" by (rule reads_treeD [OF assms(2) run])
  with \<open>I h\<close> assms(1) run show "I (snd (on_tree err m h))"
    by (simp add: on_tree_def tree_keeps_def)
qed

lemma service_steps_keep:
  assumes "machine_keeps M I" and "tree_keeps I"
  shows "keeps I (read_heartbeat M service)" "keeps I (kill_service M service)"
    "keeps I (stop_bract M b)" "keeps I (run_service_step M k)"
proof -
  note ops = machine_keeps_ops [OF assms(1)]
  show hb: "keeps I (read_heartbeat M service)" for service
    unfolding read_heartbeat_def
    by (intro keeps_intros on_tree_reads [OF assms(2)] reads_tree_methods)
  show kill: "keeps I (kill_service M service)" for service
    unfolding kill_service_def by (intro keeps_intros hb ops)
  have "keeps I (try_stop_container M c)" for c
    unfolding try_stop_container_def by (intro keeps_intros ops)
  then show stop: "keeps I (stop_bract M b)" for b
    unfolding stop_bract_def try_stop_douglas_containers_def
    by (intro keeps_intros kill ops)
  show "keeps I (run_service_step M k)"
    by (cases k) (simp_all add: kill stop)
qed

end
