(* ===== verification/Upgrades.thy ===== *)
theory Upgrades
  imports Services
begin

text \<open>
  Upgrading and rolling back douglas (src/bootstrap/upgrade.rs): the discovery of the state, the plan,
  and every step with its rollback, run by the executor of \<open>Blueprint\<close> on the host of \<open>Services\<close>.
  Log messages and the relaying of the output of the started binary are not modelled.
\<close>

section \<open>Discovery\<close>

datatype direction = Upgrade | Rollback

text \<open>\<open>Upgradable current candidate one_way is_marked_as_executable is_owned_by_douglas_admin\<close>.\<close>

datatype upgrade_state =
    StateNotRoot
  | StateMissing
  | WrongVersionOrder
  | Upgradable version version "difference list" bool bool

definition ROOT_USER_NAME :: string where
  "ROOT_USER_NAME = ''root''"

definition DOUGLAS_ADMIN_GROUP :: string where
  "DOUGLAS_ADMIN_GROUP = ''douglas-admin''"

definition is_ok_and :: "('a \<Rightarrow> bool) \<Rightarrow> 'e + 'a \<Rightarrow> bool" where
  "is_ok_and P r = (case r of Inl _ \<Rightarrow> False | Inr a \<Rightarrow> P a)"

definition in_order :: "direction \<Rightarrow> version \<Rightarrow> version \<Rightarrow> bool" where
  "in_order direction external internal =
     (case direction of Upgrade \<Rightarrow> internal < external | Rollback \<Rightarrow> external < internal)"

definition discover :: "verifier \<Rightarrow> bool \<Rightarrow> path \<Rightarrow> direction \<Rightarrow> (fs, upgrade_error, upgrade_state) prog" where
  "discover V is_root p direction =
     (if \<not> is_root then ok StateNotRoot
      else and_then (gets (\<lambda>s. exists_path s p)) (\<lambda>present.
        if \<not> present then ok StateMissing
        else
          and_then (map_err InvalidExecutable (get_external_release V p)) (\<lambda>external.
          and_then (map_err InvalidExecutable (get_internal_release V)) (\<lambda>internal.
            if \<not> in_order direction (release_version external) (release_version internal)
            then ok WrongVersionOrder
            else
              and_then (attempt (get_mode p)) (\<lambda>mode.
              and_then (attempt (get_user_and_group_ownership p)) (\<lambda>owner.
                ok (Upgradable (release_version internal) (release_version external)
                  (differences (release_meta internal) (release_meta external))
                  (is_ok_and (\<lambda>m. is_executable_by_owner m \<or> is_executable_by_group m) mode)
                  (is_ok_and (\<lambda>(u, g). u = ROOT_USER_NAME \<and> g = DOUGLAS_ADMIN_GROUP) owner))))))))"

section \<open>The plan\<close>

datatype presentation = Interactive | Plain | Json

datatype upgrade_step =
    MarkExecutable path
  | SetOwnership path string string
  | RetainPreviousBinary version
  | RestartPreviousVersion presentation
  | RecordUpgrade version version
  | ServiceStep service_step
  | OverwriteDouglasExecutable path version bool
  | StartNewVersion presentation
  | ConfirmHealthy nat nat
  | ClearUpgradeRecord

definition stop_services_steps :: "service_step list" where
  "stop_services_steps =
     [KillService WOODWARD, StopBract False, KillService RESIN, KillService SEEDBANK]"

text \<open>In milliseconds.\<close>

definition HEALTH_SOAK :: nat where
  "HEALTH_SOAK = 10000"

definition HEALTH_INTERVAL :: nat where
  "HEALTH_INTERVAL = 1000"

definition upgrade_plan :: "upgrade_state \<Rightarrow> path \<Rightarrow> presentation \<Rightarrow> bool \<Rightarrow> direction \<Rightarrow>
    upgrade_error + upgrade_step list" where
  "upgrade_plan state p presentation allow_one_way direction =
     (case state of
        StateNotRoot \<Rightarrow> Inl MustBeRoot
      | StateMissing \<Rightarrow> Inl (Missing p)
      | WrongVersionOrder \<Rightarrow>
          Inl (case direction of Upgrade \<Rightarrow> InvalidUpgrade | Rollback \<Rightarrow> InvalidRollback)
      | Upgradable current candidate one_way executable owned \<Rightarrow>
          if one_way \<noteq> [] \<and> direction = Upgrade \<and> \<not> allow_one_way then Inl (OneWay one_way)
          else if one_way \<noteq> [] \<and> direction = Rollback then Inl (CannotRollBack one_way)
          else
            (let restorable = one_way = []
             in Inr
               ((if \<not> executable then [MarkExecutable p] else []) @
                (if \<not> owned then [SetOwnership p ROOT_USER_NAME DOUGLAS_ADMIN_GROUP] else []) @
                [RetainPreviousBinary current] @
                (if restorable then [RestartPreviousVersion presentation] else []) @
                [RecordUpgrade current candidate] @
                map ServiceStep stop_services_steps @
                [OverwriteDouglasExecutable p current restorable,
                 StartNewVersion presentation,
                 ConfirmHealthy HEALTH_SOAK HEALTH_INTERVAL,
                 ClearUpgradeRecord])))"

section \<open>The steps on the binaries\<close>

definition file_name :: "path \<Rightarrow> string option" where
  "file_name p = (if p = [] then None else Some (last p))"

definition with_file_name :: "path \<Rightarrow> string \<Rightarrow> path" where
  "with_file_name p name = butlast p @ [name]"

definition partial_path :: "path \<Rightarrow> path option" where
  "partial_path retained =
     map_option (\<lambda>name. with_file_name retained (name @ ''.partial'')) (file_name retained)"

definition staging_path :: "path \<Rightarrow> path option" where
  "staging_path target =
     map_option (\<lambda>name. with_file_name target (name @ ''.upgrade'')) (file_name target)"

definition install_target :: "'o machine \<Rightarrow> (fs, fs_error, path) prog" where
  "install_target M = of_result (follow_binary_link M)"

definition mark_executable :: "path \<Rightarrow> (fs, fs_error, unit) prog" where
  "mark_executable p =
     and_then (get_mode p) (\<lambda>md.
       change_mode p (set_executable_by_owner (set_executable_by_group md True) True))"

definition prune :: "path \<Rightarrow> (fs, fs_error, unit) prog" where
  "prune dir =
     and_then (attempt (folder_entries dir)) (\<lambda>r.
       case r of
         Inl _ \<Rightarrow> ok ()
       | Inr entries \<Rightarrow>
           for_each (\<lambda>name. ignore (deleter_delete (dir @ [name])))
             (expired (map entry_name entries) RETAINED_COUNT))"

definition retain_previous :: "'o machine \<Rightarrow> version \<Rightarrow> (fs, fs_error, unit) prog" where
  "retain_previous M v =
     (let dir = binary_dir (folders M)
      in and_then (install_target M) (\<lambda>target.
           (let retained = retained_path dir v
            in case partial_path retained of
                 None \<Rightarrow> fail (InvalidPath retained)
               | Some partial \<Rightarrow>
                   and_then (install_copy target partial retained) (\<lambda>_. prune dir))))"

definition copy_into_place :: "path \<Rightarrow> path \<Rightarrow> (fs, fs_error, unit) prog" where
  "copy_into_place p target =
     (case staging_path target of
        None \<Rightarrow> fail (InvalidPath target)
      | Some staging \<Rightarrow> and_then (install_copy p staging target) (\<lambda>_. ignore (deleter_delete p)))"

definition overwrite :: "'o machine \<Rightarrow> path \<Rightarrow> (fs, fs_error, unit) prog" where
  "overwrite M p =
     and_then (install_target M) (\<lambda>target.
       and_then (attempt (renamer_rename p target)) (\<lambda>r.
         case r of
           Inl e \<Rightarrow> if is_cross_device e then copy_into_place p target else fail e
         | Inr u \<Rightarrow> ok u))"

definition restore_previous :: "'o machine \<Rightarrow> version \<Rightarrow> (fs, fs_error, unit) prog" where
  "restore_previous M previous =
     and_then (install_target M) (\<lambda>target.
       (case staging_path target of
          None \<Rightarrow> fail (InvalidPath target)
        | Some staging \<Rightarrow>
            install_copy (retained_path (binary_dir (folders M)) previous) staging target))"

section \<open>The journal\<close>

definition record_upgrade :: "'o machine \<Rightarrow> version \<Rightarrow> version \<Rightarrow> ('o, unit) step" where
  "record_upgrade M old new =
     on_tree JournalFailure (journal_record (journal_codec M) (folders M)
       \<lparr>journal_from = version_to_string old, journal_to = version_to_string new,
        previous_binary = retained_path (binary_dir (folders M)) old, journal_pid = own_pid M\<rparr>)"

definition clear_record :: "'o machine \<Rightarrow> ('o, unit) step" where
  "clear_record M = ignore (on_tree JournalFailure (journal_clear (folders M)))"

section \<open>Starting the installed version\<close>

definition show_int :: "int \<Rightarrow> string" where
  "show_int i = (if i < 0 then CHR ''-'' # show_nat (nat (- i)) else show_nat (nat i))"

text \<open>\<open>str::lines\<close>: the pieces between newlines, without a last empty one and without a carriage
  return at their end.\<close>

definition strip_cr :: "string \<Rightarrow> string" where
  "strip_cr l = (if l \<noteq> [] \<and> last l = CHR 0x0D then butlast l else l)"

definition str_lines :: "string \<Rightarrow> string list" where
  "str_lines t =
     (let ls = split_on CHR 0x0A t
      in map strip_cr (butlast ls) @ (if last ls = [] then [] else [strip_cr (last ls)]))"

definition FAILURE_DETAIL_LINES :: nat where
  "FAILURE_DETAIL_LINES = 5"

definition failure_detail :: "string \<Rightarrow> string \<Rightarrow> string" where
  "failure_detail stdout stderr =
     (let t = (if trim stderr = [] then stdout else stderr);
          lines = filter (\<lambda>l. trim l \<noteq> []) (str_lines t);
          tail = drop (length lines - FAILURE_DETAIL_LINES) lines
      in if tail = [] then ''no output'' else join_with '' | '' tail)"

definition start_args :: "presentation \<Rightarrow> string list" where
  "start_args presentation =
     [''--output-style'', (case presentation of Json \<Rightarrow> ''json'' | _ \<Rightarrow> ''plain''), ''start'']"

definition start_installed_version :: "'o machine \<Rightarrow> presentation \<Rightarrow> ('o host, upgrade_error, unit) prog" where
  "start_installed_version M presentation =
     and_then (attempt (os_execute_with_output M (binary_link (folders M)) (start_args presentation))) (\<lambda>r.
       case r of
         Inr _ \<Rightarrow> ok ()
       | Inl (ProcessExitStatusError code stdout stderr) \<Rightarrow>
           fail (StartFailed (case code of None \<Rightarrow> ''none'' | Some c \<Rightarrow> show_int c)
             (failure_detail stdout stderr))
       | Inl e \<Rightarrow> fail (CannotRun e))"

definition stop_what_the_new_version_started :: "'o machine \<Rightarrow> ('o, unit) step" where
  "stop_what_the_new_version_started M =
     for_each (\<lambda>k. ignore (run_service_step M k)) stop_services_steps"

definition start_new_version :: "'o machine \<Rightarrow> presentation \<Rightarrow> ('o, unit) step" where
  "start_new_version M presentation =
     and_then (attempt (start_installed_version M presentation)) (\<lambda>r.
       case r of
         Inl e \<Rightarrow> and_then (stop_what_the_new_version_started M) (\<lambda>_. fail (UpgradeFailure e))
       | Inr _ \<Rightarrow> ok ())"

definition restart_previous :: "'o machine \<Rightarrow> presentation \<Rightarrow> ('o, unit) step" where
  "restart_previous M presentation =
     and_then (map_err UpgradeFailure (start_installed_version M presentation)) (\<lambda>_. clear_record M)"

section \<open>Health\<close>

definition CORE_SERVICES :: "string list" where
  "CORE_SERVICES = [BRACT, RESIN, SEEDBANK, WOODWARD]"

definition unhealthy :: "string \<Rightarrow> string \<Rightarrow> step_error" where
  "unhealthy service reason = UpgradeFailure (Unhealthy service reason)"

definition show_pid :: "pid \<Rightarrow> string" where
  "show_pid pid = show_nat (unat pid)"

text \<open>\<open>check_once\<close> on the services that are left; \<open>seen\<close> is the pid a service had at the last poll.\<close>

fun check_services :: "'o machine \<Rightarrow> string list \<Rightarrow> (string \<rightharpoonup> pid) \<Rightarrow> ('o, string \<rightharpoonup> pid) step" where
  "check_services M [] seen = ok seen"
| "check_services M (service # services) seen =
     and_then (map_err (\<lambda>_. unhealthy service ''its heartbeat could not be read'') (read_heartbeat M service))
       (\<lambda>pid.
         and_then (map_err (\<lambda>_. unhealthy service ''its process could not be checked'') (os_is_active_pid M pid))
           (\<lambda>alive.
             if \<not> alive then fail (unhealthy service (''process '' @ show_pid pid @ '' is not running''))
             else
               (case seen service of
                  Some earlier \<Rightarrow>
                    if earlier \<noteq> pid
                    then fail (unhealthy service (''restarted (process '' @ show_pid earlier @ '' -> '' @ show_pid pid @ '')''))
                    else check_services M services (seen(service \<mapsto> pid))
                | None \<Rightarrow> check_services M services (seen(service \<mapsto> pid)))))"

definition check_once :: "'o machine \<Rightarrow> (string \<rightharpoonup> pid) \<Rightarrow> ('o, string \<rightharpoonup> pid) step" where
  "check_once M = check_services M CORE_SERVICES"

definition polls :: "nat \<Rightarrow> nat \<Rightarrow> nat" where
  "polls soak interval = soak div max 1 interval"

definition sleep_step :: "'o machine \<Rightarrow> nat \<Rightarrow> ('o, unit) step" where
  "sleep_step M interval h = (Inr (), os_sleep M interval h)"

fun health_loop :: "'o machine \<Rightarrow> nat \<Rightarrow> nat list \<Rightarrow> (string \<rightharpoonup> pid) \<Rightarrow> ('o, unit) step" where
  "health_loop M interval [] seen = ok ()"
| "health_loop M interval (poll # ps) seen =
     and_then (if 0 < poll then sleep_step M interval else ok ()) (\<lambda>_.
     and_then (check_once M seen) (\<lambda>seen. health_loop M interval ps seen))"

definition confirm_healthy :: "'o machine \<Rightarrow> nat \<Rightarrow> nat \<Rightarrow> ('o, unit) step" where
  "confirm_healthy M soak interval = health_loop M interval [0..<Suc (polls soak interval)] Map.empty"

section \<open>The steps as commands\<close>

definition path_to_string :: "path \<Rightarrow> string" where
  "path_to_string p = ''/'' @ join_with ''/'' p"

fun upgrade_step_display :: "upgrade_step \<Rightarrow> string" where
  "upgrade_step_display (MarkExecutable p) = ''Mark '' @ path_to_string p @ '' executable''"
| "upgrade_step_display (SetOwnership p u g) =
     ''Set ownership on '' @ [CHR 0x27] @ path_to_string p @ [CHR 0x27] @ '' to user '' @ [CHR 0x27] @ u @
     [CHR 0x27] @ '' group '' @ [CHR 0x27] @ g @ [CHR 0x27]"
| "upgrade_step_display (RetainPreviousBinary v) = ''Keep the current version for rollback''"
| "upgrade_step_display (RestartPreviousVersion pr) = ''Bring the previous version back up if the upgrade fails''"
| "upgrade_step_display (RecordUpgrade old new) = ''Record the upgrade in progress''"
| "upgrade_step_display (ServiceStep k) = service_step_display k"
| "upgrade_step_display (OverwriteDouglasExecutable p v b) = ''Overwrite current version with new version''"
| "upgrade_step_display (StartNewVersion pr) = ''Start the new version''"
| "upgrade_step_display (ConfirmHealthy soak interval) = ''Confirm the new version is healthy''"
| "upgrade_step_display ClearUpgradeRecord = ''Clear the upgrade record''"

fun upgrade_step_name :: "upgrade_step \<Rightarrow> string" where
  "upgrade_step_name (SetOwnership p u g) = ''Set ownership''"
| "upgrade_step_name (ServiceStep k) = service_step_name k"
| "upgrade_step_name k = upgrade_step_display k"

fun upgrade_run :: "'o machine \<Rightarrow> upgrade_step \<Rightarrow> ('o, unit) step" where
  "upgrade_run M (MarkExecutable p) = on_tree FileSystem (mark_executable p)"
| "upgrade_run M (SetOwnership p u g) = on_tree FileSystem (change_user_and_group_ownership p u g)"
| "upgrade_run M (RetainPreviousBinary v) = on_tree FileSystem (retain_previous M v)"
| "upgrade_run M (RestartPreviousVersion pr) = ok ()"
| "upgrade_run M (RecordUpgrade old new) = record_upgrade M old new"
| "upgrade_run M (ServiceStep k) = run_service_step M k"
| "upgrade_run M (OverwriteDouglasExecutable p v restorable) = on_tree FileSystem (overwrite M p)"
| "upgrade_run M (StartNewVersion pr) = start_new_version M pr"
| "upgrade_run M (ConfirmHealthy soak interval) = confirm_healthy M soak interval"
| "upgrade_run M ClearUpgradeRecord = clear_record M"

fun upgrade_undo :: "'o machine \<Rightarrow> upgrade_step \<Rightarrow> ('o, unit) step" where
  "upgrade_undo M (RestartPreviousVersion pr) = restart_previous M pr"
| "upgrade_undo M (OverwriteDouglasExecutable p v restorable) =
     (if \<not> restorable then ok () else on_tree FileSystem (restore_previous M v))"
| "upgrade_undo M (StartNewVersion pr) = stop_what_the_new_version_started M"
| "upgrade_undo M _ = ok ()"

definition upgrade_ops :: "'o machine \<Rightarrow> (upgrade_step, 'o host, step_error) command" where
  "upgrade_ops M =
     \<lparr>step_name = upgrade_step_name, step_display = upgrade_step_display, skips = (\<lambda>k h. False),
      perform = (\<lambda>k h. case upgrade_run M k h of (r, h') \<Rightarrow> (r, k, h')),
      undo = (\<lambda>k h. case upgrade_undo M k h of (r, h') \<Rightarrow> (r, k, h'))\<rparr>"

text \<open>\<open>perform\<close> of src/bootstrap/upgrade.rs, without the set-up of its clients.\<close>

definition upgrade_perform :: "'o machine \<Rightarrow> verifier \<Rightarrow> bool \<Rightarrow> bool \<Rightarrow> bool \<Rightarrow> direction \<Rightarrow> path \<Rightarrow>
    presentation \<Rightarrow> (step_error \<Rightarrow> string) \<Rightarrow> ('o host, upgrade_error + string, unit) prog" where
  "upgrade_perform M V is_root plan_only allow_one_way direction p presentation display h =
     (case discover V is_root p direction (tree h) of
        (Inl e, t) \<Rightarrow> (Inl (Inl e), h\<lparr>tree := t\<rparr>)
      | (Inr state, t) \<Rightarrow>
          (case upgrade_plan state p presentation allow_one_way direction of
             Inl e \<Rightarrow> (Inl (Inl e), h\<lparr>tree := t\<rparr>)
           | Inr plan \<Rightarrow>
               if plan_only then (Inr (), h\<lparr>tree := t\<rparr>)
               else execute_plan (upgrade_ops M) display plan Inr (h\<lparr>tree := t\<rparr>)))"

text \<open>\<open>rollback\<close> of src/commands/rollback.rs: the kept version is staged, installed like an upgrade,
  and the staging file removed whatever came of it.\<close>

datatype rollback_failure =
    RollbackNotRoot
  | RunningUnknown verify_error
  | NotChosen rollback_error
  | RollbackFailed

definition rollback_command :: "'o machine \<Rightarrow> verifier \<Rightarrow> bool \<Rightarrow> bool \<Rightarrow> string option \<Rightarrow> presentation \<Rightarrow>
    (step_error \<Rightarrow> string) \<Rightarrow> ('o host, rollback_failure, unit) prog" where
  "rollback_command M V is_root plan_only to presentation display h =
     (if \<not> is_root then (Inl RollbackNotRoot, h)
      else (case get_internal_release V (tree h) of
        (Inl e, t) \<Rightarrow> (Inl (RunningUnknown e), h\<lparr>tree := t\<rparr>)
      | (Inr release, t) \<Rightarrow>
          (case and_then (choose_target (folders M) (release_version release) to)
                  (stage (folders M)) t of
             (Inl e, t') \<Rightarrow> (Inl (NotChosen e), h\<lparr>tree := t'\<rparr>)
           | (Inr staged, t') \<Rightarrow>
               (case upgrade_perform M V is_root plan_only False Rollback staged presentation display
                       (h\<lparr>tree := t'\<rparr>) of
                  (result, h') \<Rightarrow>
                    (case result of Inl _ \<Rightarrow> Inl RollbackFailed | Inr _ \<Rightarrow> Inr (),
                     h'\<lparr>tree := snd (deleter_delete staged (tree h'))\<rparr>)))))"

end
