(* ===== verification/UpgradeSafety.thy ===== *)
theory UpgradeSafety
  imports Upgrades
begin

text \<open>
  A failed upgrade leaves the old binary in place: the steps of an upgrade as compensating commands.
  \<open>holds ps s t\<close> frames the files at \<open>ps\<close>, the directories, and the calm of the file system.
  \<open>facts\<close> are what a host may offer a rollback; a host is as good as another when it offers
  everything that one did.  The steps keep every fact except that overwriting replaces the binary,
  which its rollback undoes from the copy kept aside.
\<close>

section \<open>Framing nodes and directories\<close>

definition holds :: "path set \<Rightarrow> fs \<Rightarrow> fs \<Rightarrow> bool" where
  "holds ps s t \<longleftrightarrow> quiet s t \<and> is_dir t = is_dir s \<and> (\<forall>p \<in> ps. node_at t p = node_at s p)"

lemma holds_refl [simp]: "holds ps s s"
  by (simp add: holds_def quiet_def)

lemma holds_trans: "holds ps s t \<Longrightarrow> holds ps t u \<Longrightarrow> holds ps s u"
  by (simp add: holds_def quiet_def)

lemma holds_subset: "holds ps s t \<Longrightarrow> qs \<subseteq> ps \<Longrightarrow> holds qs s t"
  by (auto simp: holds_def)

lemma later_quiet: "later s t \<Longrightarrow> quiet s t"
  by (auto simp: later_def quiet_def same_tree_def calm_def)

lemma later_node_at: "later s t \<Longrightarrow> node_at t = node_at s"
  by (rule same_tree_node_at [OF later_same])

lemma later_holds: "later s t \<Longrightarrow> holds ps s t"
  using same_tree_queries(1) [OF later_same, of s t] later_node_at [of s t]
  by (simp add: holds_def later_quiet)

lemma holds_call:
  assumes "\<And>t. holds ps s t \<Longrightarrow> holds ps s (snd (m t))"
  shows "keeps (holds ps s) (call m)"
proof (rule keepsI)
  fix t assume t: "holds ps s t"
  obtain r u where c: "call m t = (r, u)" by (cases "call m t") auto
  from c have "holds ps s u"
  proof (cases rule: call_later)
    case (ran t')
    with assms [of t'] t later_holds holds_trans show ?thesis by fastforce
  next
    case (disturbed k)
    with t later_holds holds_trans show ?thesis by blast
  qed
  with c show "holds ps s (snd (call m t))" by simp
qed

lemma holds_put_file:
  "holds ps s t \<Longrightarrow> creatable t q = None \<Longrightarrow> q \<notin> ps \<Longrightarrow> holds ps s (put_node q (File m b) t)"
  by (auto simp: holds_def creatable_def fun_eq_iff split: if_splits)

lemma holds_put_meta:
  "holds ps s t \<Longrightarrow> node_at t q = Some n \<Longrightarrow> q \<notin> ps \<Longrightarrow> holds ps s (put_node q (set_meta m n) t)"
proof -
  assume "holds ps s t" "node_at t q = Some n" "q \<notin> ps"
  moreover from this(2) have "is_dir t q \<longleftrightarrow> (\<exists>m'. set_meta m n = Dir m')"
    by (cases n) (simp_all add: is_dir_def)
  ultimately show ?thesis by (auto simp: holds_def fun_eq_iff)
qed

lemma holds_drop_file:
  "holds ps s t \<Longrightarrow> \<not> is_dir t q \<Longrightarrow> q \<notin> ps \<Longrightarrow> holds ps s (drop_nodes (\<lambda>p. p = q) t)"
  by (auto simp: holds_def fun_eq_iff)

lemma holds_reads: "reads_tree m \<Longrightarrow> keeps (holds ps s) m"
proof (rule keepsI)
  fix t assume "reads_tree m" "holds ps s t"
  then show "holds ps s (snd (m t))"
    using reads_treeD [of m t] later_holds holds_trans by (cases "m t") fastforce
qed

lemma holds_std:
  "q \<notin> ps \<Longrightarrow> keeps (holds ps s) (std_copy p q)" "q \<notin> ps \<Longrightarrow> keeps (holds ps s) (std_write q b)"
  "q \<notin> ps \<Longrightarrow> keeps (holds ps s) (std_set_meta f q)" "q \<notin> ps \<Longrightarrow> keeps (holds ps s) (std_remove_file q)"
proof -
  have drawn: "holds ps s u" if "holds ps s t" "next_outcome t = (x, u)" for t u x
    using that next_outcome_later later_holds holds_trans by blast
  show "q \<notin> ps \<Longrightarrow> keeps (holds ps s) (std_copy p q)" "q \<notin> ps \<Longrightarrow> keeps (holds ps s) (std_write q b)"
    by (auto intro!: keepsI holds_put_file simp: std_copy_def std_write_def Let_def
        split: prod.splits outcome.splits option.splits node.splits dest: drawn)
  show "q \<notin> ps \<Longrightarrow> keeps (holds ps s) (std_set_meta f q)" unfolding std_set_meta_def
    by (rule holds_call) (auto intro: holds_put_meta split: option.split)
  show "q \<notin> ps \<Longrightarrow> keeps (holds ps s) (std_remove_file q)" unfolding std_remove_file_def
    by (rule holds_call) (auto intro!: holds_drop_file simp: is_dir_def split: option.split node.split)
qed

lemma holds_methods:
  "p \<notin> ps \<Longrightarrow> keeps (holds ps s) (deleter_delete p)"
  "p \<notin> ps \<Longrightarrow> keeps (holds ps s) (change_mode p md)"
  "p \<notin> ps \<Longrightarrow> keeps (holds ps s) (change_user_and_group_ownership p u g)"
  "p \<notin> ps \<Longrightarrow> keeps (holds ps s) (writer_write_all p b)"
  "p \<notin> ps \<Longrightarrow> keeps (holds ps s) (copier_copy q p)"
  unfolding method_defs by (intro keeps_intros holds_std; assumption)+

lemma creatable_drop_file:
  "creatable s p = None \<Longrightarrow> \<not> is_dir s q \<Longrightarrow> creatable (drop_nodes (\<lambda>r. r = q) s) p = None"
  by (auto simp: creatable_def split: if_splits)

lemma holds_rename_file:
  assumes "from \<notin> ps" "to \<notin> ps" and "is_file s from" and "std_rename from to s = (r, t)"
  shows "holds ps s t"
proof -
  obtain m b where f: "node_at s from = Some (File m b)"
    using assms(3) by (auto simp: is_file_def split: option.splits node.splits)
  from assms(4)[unfolded std_rename_def] show ?thesis
  proof (cases rule: call_later)
    case (ran s')
    then have "node_at s' from = Some (File m b)" "holds ps s s'"
      using f later_holds later_node_at by auto
    with ran(2) assms(1,2) show ?thesis
      by (auto simp: rename_body_def is_dir_def split: option.splits if_splits
          intro!: holds_put_file holds_drop_file creatable_drop_file)
  qed (simp add: later_holds)
qed

lemma holds_copy_keeping_owner: "to \<notin> ps \<Longrightarrow> keeps (holds ps s) (copy_keeping_owner from to)"
  unfolding copy_keeping_owner_def
  by (intro keeps_intros holds_methods holds_reads reads_ownership; assumption)

lemma holds_install_copy:
  assumes "staging \<notin> ps" "target \<notin> ps" and "from \<noteq> staging"
  shows "keeps (holds ps s) (install_copy from staging target)"
proof (rule keepsI)
  fix t assume t: "holds ps s t"
  obtain r1 s1 where c: "copy_keeping_owner from staging t = (r1, s1)"
    by (cases "copy_keeping_owner from staging t") auto
  have h1: "holds ps s s1" by (rule keeps_result [OF holds_copy_keeping_owner [OF assms(1)] t c])
  show "holds ps s (snd (install_copy from staging target t))"
  proof (cases r1)
    case (Inl e)
    with c h1 show ?thesis by (simp add: install_copy_def and_then_def)
  next
    case (Inr x)
    obtain r2 s2 where n: "std_rename staging target s1 = (r2, s2)"
      by (cases "std_rename staging target s1") auto
    have "is_file s1 staging"
      using copy_keeping_owner_nodes(2) [OF c assms(3)] Inr by (auto simp: is_file_def)
    then have h2: "holds ps s s2"
      using holds_rename_file [OF assms(1,2) _ n] h1 holds_trans by blast
    then have "holds ps s (snd (deleter_delete staging s2))"
      by (rule keepsD [OF holds_methods(1) [OF assms(1)]])
    with h2 Inr c n show ?thesis
      by (simp add: install_copy_def and_then_def attempt_def renamer_rename_def map_err_def prog_simps
          split: sum.split)
  qed
qed

lemma holds_prune:
  assumes "\<And>name. dir @ [name] \<in> ps \<Longrightarrow> name \<notin> set (expired (map fst (children t dir)) RETAINED_COUNT)"
    and "holds ps s t"
  shows "holds ps s (snd (prune dir t))"
proof -
  obtain r u where e: "folder_entries dir t = (r, u)" by (cases "folder_entries dir t") auto
  have hu: "holds ps s u" by (rule keeps_result [OF holds_reads [OF reads_tree_methods(3)] assms(2) e])
  show ?thesis
  proof (cases r)
    case (Inl x)
    with e hu show ?thesis by (simp add: prune_def and_then_def attempt_def ok_run)
  next
    case (Inr es)
    have loop: "holds ps s (snd (for_each (\<lambda>name. ignore (deleter_delete (dir @ [name]))) names v))"
      if "\<And>name. name \<in> set names \<Longrightarrow> dir @ [name] \<notin> ps" "holds ps s v" for names v
      using that
    proof (induction names arbitrary: v)
      case (Cons name names)
      then have "holds ps s (snd (deleter_delete (dir @ [name]) v))"
        using keepsD [OF holds_methods(1)] by (metis list.set_intros(1))
      with Cons show ?case by (simp add: and_then_def ignore_run)
    qed (simp add: ok_run)
    have "holds ps s (snd (for_each (\<lambda>name. ignore (deleter_delete (dir @ [name])))
        (expired (map fst (children t dir)) RETAINED_COUNT) u))"
      by (rule loop [OF _ hu]) (use assms(1) in blast)
    with e Inr folder_entries_names [of dir t es u] show ?thesis
      by (simp add: prune_def and_then_def attempt_def)
  qed
qed

section \<open>Names in the directory of the binaries\<close>

lemma retained_name_last: "\<exists>d < 10. last (retained_name v) = digit_char d"
proof -
  have "\<exists>d < 10. last (show_nat n) = digit_char d" for n
    by (rule show_nat_digits [of _ n]) simp
  then show ?thesis by (simp add: retained_name_def version_to_string_def)
qed

lemma retained_name_neq:
  "retained_name w \<noteq> x @ ''.partial''" "retained_name w \<noteq> x @ ''.upgrade''"
proof -
  obtain d where d: "d < 10" "last (retained_name w) = digit_char d" using retained_name_last by blast
  then have "(of_char (last (retained_name w)) :: nat) < 58" by (simp add: of_char_digit)
  then show "retained_name w \<noteq> x @ ''.partial''" "retained_name w \<noteq> x @ ''.upgrade''" by auto
qed

definition partial_of :: "path \<Rightarrow> version \<Rightarrow> path" where
  "partial_of dir v = dir @ [retained_name v @ ''.partial'']"

lemma partial_path_retained: "partial_path (retained_path dir v) = Some (partial_of dir v)"
  by (simp add: partial_path_def file_name_def with_file_name_def retained_path_def partial_of_def)

lemma retained_path_inj [simp]: "retained_path dir v = retained_path dir w \<longleftrightarrow> v = w"
  by (simp add: retained_path_def)

lemma partial_neq [simp]: "partial_of dir v \<noteq> retained_path dir w" "retained_path dir w \<noteq> partial_of dir v"
  using retained_name_neq(1) [of w "retained_name v"] by (auto simp: partial_of_def retained_path_def)

text \<open>\<open>newer_kept\<close>: the kept versions above \<open>v\<close>.\<close>

definition newer_kept :: "fs \<Rightarrow> path \<Rightarrow> version \<Rightarrow> version set" where
  "newer_kept s dir v = {w. exists_path s (retained_path dir w) \<and> v < w}"

lemma expired_children:
  "retained_name v \<in> set (expired (map fst (children s dir)) keep) \<longleftrightarrow>
     exists_path s (retained_path dir v) \<and> keep \<le> card (newer_kept s dir v)"
proof -
  have "name \<in> set (map fst (children s dir)) \<longleftrightarrow> exists_path s (dir @ [name])" for name
  proof -
    have "name \<in> fst ` A \<longleftrightarrow> (\<exists>n. (name, n) \<in> A)" for A :: "(string \<times> node) set" by force
    then show ?thesis by (simp add: children_iff exists_path_def)
  qed
  then show ?thesis
    by (simp add: expired_iff [OF children_distinct] newer_kept_def retained_path_def)
qed

lemma expired_is_retained: "name \<in> set (expired names keep) \<Longrightarrow> \<exists>v. name = retained_name v"
proof -
  assume "name \<in> set (expired names keep)"
  then obtain v where "(v, name) \<in> set (retained_of names)"
    by (auto simp: expired_def retained_of_def [symmetric] Let_def dest!: in_set_dropD)
  then show ?thesis by (auto simp: retained_of_set)
qed

section \<open>Keeping the current version aside\<close>

lemma for_each_ignore: "fst (for_each (\<lambda>x. ignore (f x)) xs s) = Inr ()"
  by (induction xs arbitrary: s) (simp_all add: ok_run and_then_def ignore_run)

lemma prune_succeeds: "prune dir s = (Inr (), snd (prune dir s))"
proof -
  have "fst (prune dir s) = Inr ()"
    by (simp add: prune_def and_then_def attempt_def ok_run for_each_ignore split: prod.split sum.split)
  then show ?thesis by (intro prod_eqI) simp_all
qed

definition install_path :: "'o machine \<Rightarrow> path \<Rightarrow> bool" where
  "install_path M target \<longleftrightarrow> follow_binary_link M = Inr target \<and> target \<noteq> [] \<and>
     (\<forall>v. target \<noteq> retained_path (binary_dir (folders M)) v \<and>
          target \<noteq> partial_of (binary_dir (folders M)) v)"

lemma retain_previous_result:
  assumes "install_path M target" and "retain_previous M v t = (r, u)"
    and dir: "dir = binary_dir (folders M)"
  shows "holds {target} t u"
    and "r \<noteq> Inr () \<Longrightarrow> node_at u (retained_path dir v) = node_at t (retained_path dir v)"
    and "r = Inr () \<Longrightarrow> is_file t target \<and> node_at u (retained_path dir v) =
      (if card (newer_kept t dir v) < RETAINED_COUNT then node_at t target else node_at u (retained_path dir v))"
proof -
  let ?keep = "retained_path dir v" and ?part = "partial_of dir v"
  have apart: "target \<noteq> ?keep" "target \<noteq> ?part" "follow_binary_link M = Inr target"
    using assms(1) dir by (simp_all add: install_path_def)
  obtain r1 t1 where i: "install_copy target ?part ?keep t = (r1, t1)"
    by (cases "install_copy target ?part ?keep t") auto
  note nodes = install_copy_nodes [OF i apart(2) partial_neq(1)]
  have "holds {target} t (snd (install_copy target ?part ?keep t))"
    by (rule keepsD [OF holds_install_copy]) (use apart in auto)
  then have h1: "holds {target} t t1" by (simp add: i)
  have run: "retain_previous M v t =
      (case r1 of Inl e \<Rightarrow> (Inl e, t1) | Inr _ \<Rightarrow> prune dir t1)"
    using i dir apart(3)
    by (simp add: retain_previous_def Let_def install_target_def of_result_run and_then_def
        partial_path_retained split: sum.split)
  obtain u1 where p: "prune dir t1 = (Inr (), u1)" using prune_succeeds by blast
  have targets: "dir @ [name] = target \<Longrightarrow> name \<notin> set (expired (map fst (children t1 dir)) RETAINED_COUNT)" for name
    using assms(1) dir expired_is_retained by (force simp: install_path_def retained_path_def)
  have "holds {target} t (snd (prune dir t1))" by (intro holds_prune h1) (simp add: targets)
  then have h2: "holds {target} t u1" by (simp add: p)
  have same: "node_at t1 (retained_path dir w) = node_at t (retained_path dir w)" if "w \<noteq> v" for w
    using nodes(1) [of "retained_path dir w"] that by simp
  then have "newer_kept t1 dir v = newer_kept t dir v"
    by (auto simp: newer_kept_def exists_path_def)
  then have kept: "node_at u1 ?keep = node_at t1 ?keep"
    if "card (newer_kept t dir v) < RETAINED_COUNT"
    using that holds_prune [of dir "{?keep}" t1 t1] expired_children [of v t1 dir] p
    by (auto simp: holds_def retained_path_def)
  show "holds {target} t u" and "r \<noteq> Inr () \<Longrightarrow> node_at u ?keep = node_at t ?keep"
    and "r = Inr () \<Longrightarrow> is_file t target \<and> node_at u ?keep =
      (if card (newer_kept t dir v) < RETAINED_COUNT then node_at t target else node_at u ?keep)"
    using assms(2) run h1 h2 nodes(2,3) kept p by (auto split: sum.splits)
qed

end
