(* ===== verification/UpgradeRollback.thy ===== *)
theory UpgradeRollback
  imports UpgradeSafety
begin

text \<open>
  The steps of an upgrade as compensating commands, and what that means for an upgrade that fails:
  rolling back raises no further error and puts the old binary back.
\<close>

section \<open>What a host offers a rollback\<close>

definition upgrade_staging :: "path \<Rightarrow> path" where
  "upgrade_staging target = with_file_name target (last target @ ''.upgrade'')"

definition knows_owner :: "node \<Rightarrow> fs \<Rightarrow> bool" where
  "knows_owner n s \<longleftrightarrow> user (node_meta n) \<in> set (known_users s) \<and> group (node_meta n) \<in> set (known_groups s)"

lemma knows_owner_nodes [simp]:
  "knows_owner n (put_node p m s) = knows_owner n s" "knows_owner n (drop_nodes P s) = knows_owner n s"
  by (simp_all add: knows_owner_def put_node_def drop_nodes_def)

text \<open>\<open>old\<close> is the binary that runs before the upgrade, \<open>retained\<close> the path of the copy kept aside.\<close>

definition facts :: "node \<Rightarrow> path \<Rightarrow> path \<Rightarrow> (fs \<Rightarrow> bool) set" where
  "facts old target retained =
     {calm, knows_owner old, \<lambda>s. is_dir s (butlast target), \<lambda>s. \<not> is_dir s target,
      \<lambda>s. \<not> is_dir s (upgrade_staging target), \<lambda>s. node_at s target = Some old,
      \<lambda>s. node_at s retained = Some old}"

definition as_good :: "node \<Rightarrow> path \<Rightarrow> path \<Rightarrow> 'o host \<Rightarrow> 'o host \<Rightarrow> bool" where
  "as_good old target retained h d \<longleftrightarrow>
     (\<forall>f \<in> facts old target retained. f (tree h) \<longrightarrow> f (tree d))"

definition offers_all :: "node \<Rightarrow> path \<Rightarrow> path \<Rightarrow> 'o host \<Rightarrow> bool" where
  "offers_all old target retained h \<longleftrightarrow> (\<forall>f \<in> facts old target retained. f (tree h))"

lemma as_good_refl [simp]: "as_good old target retained h h"
  by (simp add: as_good_def)

lemma as_good_trans:
  "as_good old target retained h d \<Longrightarrow> as_good old target retained d e \<Longrightarrow> as_good old target retained h e"
  by (auto simp: as_good_def)

lemma offers_all_as_good:
  "offers_all old target retained h \<Longrightarrow> as_good old target retained h d \<Longrightarrow> offers_all old target retained d"
  by (auto simp: offers_all_def as_good_def)

lemma all_as_good: "offers_all old target retained d \<Longrightarrow> as_good old target retained h d"
  by (auto simp: offers_all_def as_good_def)

lemma holds_as_good:
  "holds {target, retained} (tree h) (tree d) \<Longrightarrow> as_good old target retained h d"
  by (auto simp: as_good_def facts_def holds_def quiet_def knows_owner_def)

section \<open>What the machine must leave alone\<close>

text \<open>The machine: killing, waiting, starting and stopping touch neither the installed binary nor the
  copy kept aside, whatever else they do to the host.\<close>

definition hands_off :: "'o machine \<Rightarrow> path set \<Rightarrow> bool" where
  "hands_off M ps \<longleftrightarrow> (\<forall>h h'. machine_change M h h' \<longrightarrow> holds ps (tree h) (tree h'))"

text \<open>The old binary can be started again whenever it is installed.\<close>

definition restartable :: "'o machine \<Rightarrow> node \<Rightarrow> path \<Rightarrow> bool" where
  "restartable M old target \<longleftrightarrow> (\<forall>h args. node_at (tree h) target = Some old \<longrightarrow>
     (\<exists>stdio h'. os_execute_with_output M (binary_link (folders M)) args h = (Inr stdio, h')))"

abbreviation keeps_host :: "path set \<Rightarrow> ('o host \<Rightarrow> ('e + 'a) \<times> 'o host) \<Rightarrow> bool" where
  "keeps_host ps m \<equiv> (\<forall>s. keeps (\<lambda>h. holds ps s (tree h)) m)"

lemma hands_off_keeps:
  assumes "hands_off M ps"
  shows "machine_keeps M (\<lambda>h. holds ps s (tree h))" "tree_keeps (\<lambda>h. holds ps s (tree h))"
  using assms holds_trans later_holds
  by (fastforce simp: machine_keeps_def tree_keeps_def hands_off_def)+

lemma on_tree_keeps: "(\<And>s. keeps (holds ps s) m) \<Longrightarrow> keeps_host ps (on_tree err m)"
  by (auto simp: keeps_def on_tree_def split: prod.split) (metis snd_conv)

lemma keeps_hostD: "keeps_host ps m \<Longrightarrow> m h = (r, h') \<Longrightarrow> holds ps (tree h) (tree h')"
  by (metis holds_refl keeps_def snd_conv)

lemma clear_record_keeps:
  assumes "upgrade_journal_file (folders M) \<notin> ps"
  shows "keeps (\<lambda>h. holds ps s (tree h)) (clear_record M)"
proof -
  have "keeps (holds ps s) (journal_clear (folders M))" for s
    unfolding journal_clear_def Let_def using assms by (intro keeps_intros holds_methods)
  then show ?thesis unfolding clear_record_def using on_tree_keeps by (blast intro: keeps_intros)
qed

lemma record_upgrade_keeps:
  assumes "upgrade_journal_file (folders M) \<notin> ps"
  shows "keeps_host ps (record_upgrade M old new)"
  unfolding record_upgrade_def journal_record_def Let_def using assms
  by (intro on_tree_keeps keeps_intros holds_methods)

lemma start_keeps:
  assumes "hands_off M ps"
  shows "keeps (\<lambda>h. holds ps s (tree h)) (start_installed_version M pr)"
proof -
  note ops = machine_keeps_ops [OF hands_off_keeps(1) [OF assms]]
  show ?thesis unfolding start_installed_version_def
    by (intro keeps_intros ops) (simp split: os_error.split add: keeps_intros)
qed

lemma stop_started_keeps:
  assumes "hands_off M ps"
  shows "keeps (\<lambda>h. holds ps s (tree h)) (stop_what_the_new_version_started M)"
  unfolding stop_what_the_new_version_started_def
  by (intro keeps_intros service_steps_keep hands_off_keeps [OF assms])

lemma check_services_keeps:
  assumes "hands_off M ps"
  shows "keeps (\<lambda>h. holds ps s (tree h)) (check_services M services seen)"
proof (induction services arbitrary: seen)
  case (Cons service services)
  note machine = hands_off_keeps [OF assms]
  show ?case unfolding check_services.simps
    by (intro keeps_intros service_steps_keep(1) [OF machine] machine_keeps_ops(2) [OF machine(1)] Cons.IH)
qed (simp add: keeps_intros)

lemma health_loop_keeps:
  assumes "hands_off M ps"
  shows "keeps (\<lambda>h. holds ps s (tree h)) (health_loop M interval ps' seen)"
proof (induction ps' arbitrary: seen)
  case (Cons poll ps')
  have "keeps (\<lambda>h. holds ps s (tree h)) (sleep_step M interval)"
    using machine_keeps_ops(8) [OF hands_off_keeps(1) [OF assms]] by (simp add: keeps_def sleep_step_def)
  with Cons.IH show ?case unfolding health_loop.simps check_once_def
    by (intro keeps_intros check_services_keeps [OF assms])
qed (simp add: keeps_intros)

text \<open>The steps that neither keep a copy nor overwrite the binary.\<close>

definition leaves_binaries :: "path set \<Rightarrow> upgrade_step \<Rightarrow> bool" where
  "leaves_binaries ps k \<longleftrightarrow>
     (case k of
        MarkExecutable p \<Rightarrow> p \<notin> ps
      | SetOwnership p u g \<Rightarrow> p \<notin> ps
      | RetainPreviousBinary v \<Rightarrow> False
      | OverwriteDouglasExecutable p v b \<Rightarrow> False
      | _ \<Rightarrow> True)"

lemma upgrade_run_keeps:
  assumes off: "hands_off M ps" and journal: "upgrade_journal_file (folders M) \<notin> ps"
    and path: "leaves_binaries ps k"
  shows "keeps_host ps (upgrade_run M k)"
proof (cases k)
  case (MarkExecutable p)
  with path have "keeps (holds ps s) (mark_executable p)" for s
    unfolding mark_executable_def leaves_binaries_def
    by (intro keeps_and_then holds_methods holds_reads [OF reads_ownership(2)]) simp
  with MarkExecutable show ?thesis unfolding MarkExecutable upgrade_run.simps by (intro on_tree_keeps)
next
  case (SetOwnership p u g)
  with path show ?thesis
    by (auto simp: leaves_binaries_def intro!: on_tree_keeps holds_methods)
next
  case (StartNewVersion pr)
  have "keeps (\<lambda>h. holds ps s (tree h)) (start_new_version M pr)" for s
    unfolding start_new_version_def
    by (intro keeps_intros start_keeps [OF off] stop_started_keeps [OF off])
  with StartNewVersion show ?thesis by simp
qed (use path in \<open>auto simp: leaves_binaries_def confirm_healthy_def intro!: keeps_intros
    service_steps_keep hands_off_keeps [OF off] health_loop_keeps [OF off]
    clear_record_keeps [OF journal] record_upgrade_keeps [OF journal, rule_format]\<close>)

lemma restart_previous_keeps:
  assumes "hands_off M ps" and "upgrade_journal_file (folders M) \<notin> ps"
  shows "keeps_host ps (restart_previous M pr)"
  unfolding restart_previous_def
  by (intro allI keeps_intros start_keeps [OF assms(1)] clear_record_keeps [OF assms(2)])

lemma restart_previous_succeeds:
  assumes "restartable M old target" and "node_at (tree h) target = Some old"
  shows "\<exists>h'. restart_previous M pr h = (Inr (), h')"
proof -
  obtain stdio h1 where "os_execute_with_output M (binary_link (folders M)) (start_args pr) h = (Inr stdio, h1)"
    using assms by (fastforce simp: restartable_def)
  then show ?thesis
    by (simp add: restart_previous_def start_installed_version_def and_then_def attempt_def map_err_def
        ok_run clear_record_def ignore_run)
qed

section \<open>Overwriting and restoring\<close>

lemma butlast_neq_staging: "target \<noteq> [] \<Longrightarrow> butlast target \<noteq> upgrade_staging target"
  "target \<noteq> [] \<Longrightarrow> butlast target \<noteq> target" "target \<noteq> [] \<Longrightarrow> upgrade_staging target \<noteq> target"
proof -
  assume t: "target \<noteq> []"
  have "length (butlast target) < length target" using t by simp
  moreover have "length (upgrade_staging target) = length target"
    using t by (simp add: upgrade_staging_def with_file_name_def)
  ultimately show "butlast target \<noteq> upgrade_staging target" "butlast target \<noteq> target" by (metis less_irrefl)+
  have "last (upgrade_staging target) \<noteq> last target"
    by (simp add: upgrade_staging_def with_file_name_def)
  then show "upgrade_staging target \<noteq> target" by auto
qed

lemma retained_not_staging: "retained_path dir v \<noteq> upgrade_staging target"
  using retained_name_neq(2) [of v "last target"]
  by (auto simp: retained_path_def upgrade_staging_def with_file_name_def)

lemma staging_path_some: "target \<noteq> [] \<Longrightarrow> staging_path target = Some (upgrade_staging target)"
  by (simp add: staging_path_def upgrade_staging_def file_name_def)

lemma overwrite_calm:
  assumes "follow_binary_link M = Inr target" and "calm s" and "is_file s target" and "p \<noteq> target"
    and "overwrite M p s = (r, t)"
  shows "r = Inr () \<and> (\<exists>m b. t = put_node target (File m b) (drop_nodes (\<lambda>q. q = p) s) \<and>
      node_at s p = Some (File m b)) \<or> r \<noteq> Inr () \<and> t = s"
  using assms
  by (auto simp: overwrite_def install_target_def of_result_run and_then_def attempt_def renamer_rename_def
      map_err_def std_rename_def rename_body_def ok_run fail_run is_cross_device_def creatable_def
      split: option.splits node.splits if_splits)

lemma restore_previous_calm:
  assumes "follow_binary_link M = Inr target" "target \<noteq> []"
    and "calm s" "knows_owner old s" "is_dir s (butlast target)" "\<not> is_dir s target"
    and "\<not> is_dir s (upgrade_staging target)"
    and "node_at s (retained_path (binary_dir (folders M)) v) = Some old" "\<not> (\<exists>m. old = Dir m)"
  shows "\<exists>t. restore_previous M v s = (Inr (), t) \<and> quiet s t \<and>
    node_at t = (node_at s)(upgrade_staging target := None, target := Some old)"
proof -
  let ?keep = "retained_path (binary_dir (folders M)) v" and ?stage = "upgrade_staging target"
  have "is_file s ?keep" using assms(8,9) by (cases old) (auto simp: is_file_def)
  moreover have "butlast ?stage = butlast target" using assms(2)
    by (simp add: upgrade_staging_def with_file_name_def)
  then have "creatable s ?stage = None" "creatable s target = None"
    using assms(5-7) by (simp_all add: creatable_def)
  moreover have "owner_known s ?keep" using assms(4,8) by (simp add: owner_known_def knows_owner_def)
  ultimately have "\<exists>t. install_copy ?keep ?stage target s = (Inr (), t) \<and> quiet s t \<and>
      node_at t = (node_at s)(?stage := None, target := node_at s ?keep)"
    using assms(2,3) butlast_neq_staging retained_not_staging by (intro install_copy_succeeds) auto
  then show ?thesis using assms(1,2,8)
    by (simp add: restore_previous_def install_target_def of_result_run and_then_def staging_path_some)
qed

section \<open>The steps compensate\<close>

definition admissible :: "'o machine \<Rightarrow> node \<Rightarrow> path \<Rightarrow> version \<Rightarrow> upgrade_step \<Rightarrow> 'o host \<Rightarrow> bool" where
  "admissible M old target v k h \<longleftrightarrow>
     (let dir = binary_dir (folders M); retained = retained_path dir v
      in install_path M target \<and> hands_off M {target, retained} \<and> restartable M old target \<and>
         target \<noteq> upgrade_journal_file (folders M) \<and> \<not> (\<exists>m. old = Dir m) \<and>
         (case k of
            RetainPreviousBinary w \<Rightarrow> w = v \<and> node_at (tree h) target = Some old \<and>
              card (newer_kept (tree h) dir v) < RETAINED_COUNT
          | RestartPreviousVersion pr \<Rightarrow> node_at (tree h) target = Some old
          | OverwriteDouglasExecutable p w restorable \<Rightarrow>
              w = v \<and> restorable \<and> p \<notin> {target, retained} \<and> offers_all old target retained h
          | _ \<Rightarrow> leaves_binaries {target, retained} k))"

lemma run_as_good:
  assumes "admissible M old target v k h" and "upgrade_run M k h = (r, h')"
    and "case k of OverwriteDouglasExecutable p w b \<Rightarrow> r \<noteq> Inr () | _ \<Rightarrow> True"
  shows "as_good old target (retained_path (binary_dir (folders M)) v) h h'"
proof -
  let ?dir = "binary_dir (folders M)" and ?keep = "retained_path (binary_dir (folders M)) v"
  have inst: "install_path M target" and off: "hands_off M {target, ?keep}"
    and journal: "upgrade_journal_file (folders M) \<notin> {target, ?keep}"
    using assms(1) by (auto simp: admissible_def Let_def retained_path_def)
  show ?thesis
  proof (cases k)
    case (RetainPreviousBinary w)
    then have w: "w = v" "node_at (tree h) target = Some old"
      "card (newer_kept (tree h) ?dir v) < RETAINED_COUNT"
      using assms(1) by (simp_all add: admissible_def Let_def)
    obtain r1 t where run: "retain_previous M v (tree h) = (r1, t)" "h' = h\<lparr>tree := t\<rparr>"
      using assms(2) RetainPreviousBinary w(1) by (auto simp: on_tree_def split: prod.splits)
    from retain_previous_result [OF inst run(1) refl] w run(2)
    have "holds {target} (tree h) (tree h')"
      "node_at (tree h) ?keep = Some old \<longrightarrow> node_at (tree h') ?keep = Some old"
      by (cases "r1 = Inr ()"; simp)+
    then show ?thesis by (auto simp: as_good_def facts_def holds_def quiet_def knows_owner_def)
  next
    case (OverwriteDouglasExecutable p w b)
    then have o: "offers_all old target ?keep h" "p \<noteq> target" "r \<noteq> Inr ()" "\<not> (\<exists>m. old = Dir m)"
      using assms(1,3) by (simp_all add: admissible_def Let_def)
    obtain r1 t where run: "overwrite M p (tree h) = (r1, t)" "h' = h\<lparr>tree := t\<rparr>" "r = map_sum FileSystem id r1"
      using assms(2) OverwriteDouglasExecutable by (auto simp: on_tree_def split: prod.splits)
    then have "r1 \<noteq> Inr ()" using o(3) by auto
    have "calm (tree h)" "is_file (tree h) target"
      using o(1,4) by (cases old; auto simp: offers_all_def facts_def is_file_def)+
    then have "t = tree h" using overwrite_calm [OF _ _ _ o(2) run(1)] inst \<open>r1 \<noteq> Inr ()\<close>
      by (auto simp: install_path_def)
    then show ?thesis using run(2) by simp
  next
    case (RestartPreviousVersion pr)
    then show ?thesis using assms(2) by (simp add: ok_run)
  qed (use assms(1,2) keeps_hostD [OF upgrade_run_keeps [OF off journal]] holds_as_good
      in \<open>fastforce simp: admissible_def Let_def\<close>)+
qed

lemma undo_overwrite:
  assumes "admissible M old target v (OverwriteDouglasExecutable p w b) h"
    and "upgrade_run M (OverwriteDouglasExecutable p w b) h = (Inr (), h')"
    and retained: "retained = retained_path (binary_dir (folders M)) v"
    and good: "as_good old target retained h' d"
  shows "\<exists>d'. upgrade_undo M (OverwriteDouglasExecutable p w b) d = (Inr (), d') \<and>
    as_good old target retained h d'"
proof -
  have all: "offers_all old target retained h" "w = v" "b" "p \<notin> {target, retained}"
    and inst: "install_path M target" and isfile: "\<not> (\<exists>m. old = Dir m)"
    using assms(1) retained by (simp_all add: admissible_def Let_def)
  have link: "follow_binary_link M = Inr target" "target \<noteq> []" "retained \<noteq> target"
    using inst retained by (auto simp: install_path_def)
  have s: "calm (tree h)" "knows_owner old (tree h)" "is_dir (tree h) (butlast target)"
    "\<not> is_dir (tree h) target" "\<not> is_dir (tree h) (upgrade_staging target)"
    "node_at (tree h) target = Some old" "node_at (tree h) retained = Some old"
    using all(1) by (auto simp: offers_all_def facts_def)
  obtain t where run: "overwrite M p (tree h) = (Inr (), t)" "h' = h\<lparr>tree := t\<rparr>"
    using assms(2) by (auto simp: on_tree_Inr)
  have "is_file (tree h) target" using s(6) isfile by (cases old) (auto simp: is_file_def)
  then obtain m c where t: "t = put_node target (File m c) (drop_nodes (\<lambda>q. q = p) (tree h))"
    "node_at (tree h) p = Some (File m c)"
    using overwrite_calm [OF link(1) s(1) _ _ run(1)] all(4) by auto
  moreover from this have "\<not> is_dir (tree h) p" by (simp add: is_dir_def)
  ultimately have "calm t" "knows_owner old t" "is_dir t (butlast target)" "\<not> is_dir t target"
    "\<not> is_dir t (upgrade_staging target)" "node_at t retained = Some old"
    using s all(4) link(2,3) butlast_neq_staging [OF link(2)] by auto
  then have d: "calm (tree d)" "knows_owner old (tree d)" "is_dir (tree d) (butlast target)"
    "\<not> is_dir (tree d) target" "\<not> is_dir (tree d) (upgrade_staging target)"
    "node_at (tree d) retained = Some old"
    using good run(2) by (auto simp: as_good_def facts_def)
  then obtain u where u: "restore_previous M v (tree d) = (Inr (), u)" "quiet (tree d) u"
    "node_at u = (node_at (tree d))(upgrade_staging target := None, target := Some old)"
    using restore_previous_calm [OF link(1,2), of "tree d" old v] isfile retained by blast
  have "retained \<noteq> upgrade_staging target" using retained retained_not_staging by simp
  then have "offers_all old target retained (d\<lparr>tree := u\<rparr>)"
    using d u isfile link(2,3) butlast_neq_staging [OF link(2)]
    by (cases old) (auto simp: offers_all_def facts_def quiet_def knows_owner_def is_dir_def)
  moreover have "upgrade_undo M (OverwriteDouglasExecutable p w b) d = (Inr (), d\<lparr>tree := u\<rparr>)"
    using u(1) all(2,3) by (simp add: on_tree_def)
  ultimately show ?thesis using all_as_good by blast
qed

lemma undo_other:
  assumes "admissible M old target v k h" and "upgrade_run M k h = (Inr (), h')"
    and retained: "retained = retained_path (binary_dir (folders M)) v"
    and good: "as_good old target retained h' d"
    and "case k of OverwriteDouglasExecutable p w b \<Rightarrow> False | _ \<Rightarrow> True"
  shows "\<exists>d'. upgrade_undo M k d = (Inr (), d') \<and> as_good old target retained h d'"
proof -
  have kept: "as_good old target retained h h'"
    using run_as_good [OF assms(1,2)] assms(5) retained by (cases k) simp_all
  then have hd: "as_good old target retained h d" using good as_good_trans by blast
  have off: "hands_off M {target, retained}" and again: "restartable M old target"
    and journal: "upgrade_journal_file (folders M) \<notin> {target, retained}"
    using assms(1) retained by (auto simp: admissible_def Let_def retained_path_def)
  show ?thesis
  proof (cases k)
    case (RestartPreviousVersion pr)
    then have "node_at (tree h) target = Some old" using assms(1) by (simp add: admissible_def Let_def)
    then have "node_at (tree d) target = Some old" using hd by (simp add: as_good_def facts_def)
    then obtain d' where d': "restart_previous M pr d = (Inr (), d')"
      using restart_previous_succeeds [OF again] by blast
    then have "as_good old target retained d d'"
      using keeps_hostD [OF restart_previous_keeps [OF off journal]] holds_as_good by blast
    with hd d' RestartPreviousVersion show ?thesis using as_good_trans by fastforce
  next
    case (StartNewVersion pr)
    obtain r d' where d': "stop_what_the_new_version_started M d = (r, d')"
      by (cases "stop_what_the_new_version_started M d") auto
    then have "r = Inr ()"
      using for_each_ignore unfolding stop_what_the_new_version_started_def by (metis fst_conv)
    moreover have "as_good old target retained d d'"
      using keeps_result [OF stop_started_keeps [OF off] _ d'] holds_as_good holds_refl by blast
    ultimately show ?thesis using hd d' StartNewVersion as_good_trans by fastforce
  qed (use hd assms(5) in \<open>simp_all add: ok_run\<close>)
qed

text \<open>The contract of the executor's commands holds for the steps of an upgrade.\<close>

interpretation upgrades: compensating "upgrade_ops M"
  "as_good old target (retained_path (binary_dir (folders M)) v)" "admissible M old target v"
  for M :: "'o machine" and old target v
proof
  fix k k' :: upgrade_step and c c' d :: "'o host"
  let ?good = "as_good old target (retained_path (binary_dir (folders M)) v)"
  show "?good c c" by simp
  assume adm: "admissible M old target v k c"
  show "\<exists>k'' d'. undo (upgrade_ops M) k' d = (Inr (), k'', d') \<and> ?good c d'"
    if "perform (upgrade_ops M) k c = (Inr (), k', c')" "?good c' d"
  proof -
    have k: "k' = k" and run: "upgrade_run M k c = (Inr (), c')"
      using that(1) by (auto simp: upgrade_ops_def split: prod.splits)
    have "\<exists>d'. upgrade_undo M k d = (Inr (), d') \<and> ?good c d'"
    proof (cases k)
      case (OverwriteDouglasExecutable p w b)
      with undo_overwrite [OF _ _ refl that(2)] adm run show ?thesis by blast
    qed (use undo_other [OF adm run refl that(2)] in simp_all)
    then show ?thesis by (auto simp: upgrade_ops_def k)
  qed
  show "\<exists>k'' d'. undo (upgrade_ops M) k d = (Inr (), k'', d') \<and> ?good c d'"
    if "skips (upgrade_ops M) k c"
    using that by (simp add: upgrade_ops_def)
qed

section \<open>The run of a plan\<close>

abbreviation admissible_plan :: "'o machine \<Rightarrow> node \<Rightarrow> path \<Rightarrow> version \<Rightarrow> 'o host \<Rightarrow> upgrade_step list \<Rightarrow> bool" where
  "admissible_plan M old target v \<equiv>
     compensating.admissible_run (upgrade_ops M) (admissible M old target v)"

lemma admissible_plan_Cons:
  assumes "admissible M old target v k h"
    and "\<And>h'. upgrade_run M k h = (Inr (), h') \<Longrightarrow> admissible_plan M old target v h' ks"
  shows "admissible_plan M old target v h (k # ks)"
proof -
  have no_skip: "\<not> skips (upgrade_ops M) k h" by (simp add: upgrade_ops_def)
  obtain r h' where run: "upgrade_run M k h = (r, h')" by (cases "upgrade_run M k h") auto
  then have p: "perform (upgrade_ops M) k h = (r, k, h')" by (simp add: upgrade_ops_def)
  show ?thesis
  proof (cases r)
    case (Inl e)
    with no_skip p assms(1) show ?thesis by (auto intro: upgrades.admissible_run.stop)
  next
    case (Inr u)
    with no_skip p run assms show ?thesis by (auto intro: upgrades.admissible_run.step)
  qed
qed

lemma admissible_plan_Nil: "admissible_plan M old target v h []"
  by (rule upgrades.admissible_run.nil)

text \<open>Steps that are admissible wherever they start.\<close>

definition always_admissible :: "'o machine \<Rightarrow> node \<Rightarrow> path \<Rightarrow> version \<Rightarrow> bool" where
  "always_admissible M old target v \<longleftrightarrow>
     (let retained = retained_path (binary_dir (folders M)) v
      in install_path M target \<and> hands_off M {target, retained} \<and> restartable M old target \<and>
         target \<noteq> upgrade_journal_file (folders M) \<and> \<not> (\<exists>m. old = Dir m))"

lemma admissible_iff:
  "admissible M old target v k h \<longleftrightarrow> always_admissible M old target v \<and>
     (let dir = binary_dir (folders M); retained = retained_path dir v
      in (case k of
            RetainPreviousBinary w \<Rightarrow> w = v \<and> node_at (tree h) target = Some old \<and>
              card (newer_kept (tree h) dir v) < RETAINED_COUNT
          | RestartPreviousVersion pr \<Rightarrow> node_at (tree h) target = Some old
          | OverwriteDouglasExecutable p w restorable \<Rightarrow>
              w = v \<and> restorable \<and> p \<notin> {target, retained} \<and> offers_all old target retained h
          | _ \<Rightarrow> leaves_binaries {target, retained} k))"
  by (simp add: admissible_def always_admissible_def Let_def)

lemma admissible_after_overwrite:
  "always_admissible M old target v \<Longrightarrow>
     admissible_plan M old target v h [StartNewVersion pr, ConfirmHealthy soak interval, ClearUpgradeRecord]"
  by (intro admissible_plan_Cons admissible_plan_Nil) (simp_all add: admissible_iff Let_def leaves_binaries_def)

lemma admissible_once_retained:
  assumes "always_admissible M old target v" and "retained = retained_path (binary_dir (folders M)) v"
    and "p \<notin> {target, retained}"
    and "list_all (\<lambda>k. case k of ServiceStep _ \<Rightarrow> True | RecordUpgrade _ _ \<Rightarrow> True
      | RestartPreviousVersion _ \<Rightarrow> True | _ \<Rightarrow> False) ks"
    and "offers_all old target retained h"
  shows "admissible_plan M old target v h
    (ks @ [OverwriteDouglasExecutable p v True, StartNewVersion pr, ConfirmHealthy soak interval, ClearUpgradeRecord])"
  using assms(4,5)
proof (induction ks arbitrary: h)
  case Nil
  have "admissible M old target v (OverwriteDouglasExecutable p v True) h"
    using assms(1-3) Nil(2) by (simp add: admissible_iff Let_def)
  then show ?case using admissible_plan_Cons admissible_after_overwrite [OF assms(1)] by fastforce
next
  case (Cons k ks)
  have "node_at (tree h) target = Some old" using Cons.prems(2) by (auto simp: offers_all_def facts_def)
  then have adm: "admissible M old target v k h"
    using assms(1) Cons.prems(1) by (cases k) (simp_all add: admissible_iff Let_def leaves_binaries_def)
  have "offers_all old target retained h'" if "upgrade_run M k h = (Inr (), h')" for h'
    using run_as_good [OF adm that] Cons.prems offers_all_as_good assms(2) by (cases k) auto
  with Cons adm show ?case by (auto intro!: admissible_plan_Cons)
qed

text \<open>What the host must offer before the upgrade.\<close>

definition upgradable_host :: "node \<Rightarrow> path \<Rightarrow> path \<Rightarrow> version \<Rightarrow> fs \<Rightarrow> bool" where
  "upgradable_host old target dir v s \<longleftrightarrow>
     calm s \<and> knows_owner old s \<and> is_dir s (butlast target) \<and> \<not> is_dir s (upgrade_staging target) \<and>
     node_at s target = Some old \<and> (case old of File _ _ \<Rightarrow> True | Dir _ \<Rightarrow> False) \<and>
     card (newer_kept s dir v) < RETAINED_COUNT"

lemma upgradable_after_retain:
  assumes "always_admissible M old target v" and "dir = binary_dir (folders M)"
    and "upgradable_host old target dir v (tree h)"
    and "upgrade_run M (RetainPreviousBinary v) h = (Inr (), h')"
  shows "offers_all old target (retained_path dir v) h'"
proof -
  have inst: "install_path M target" using assms(1) by (simp add: always_admissible_def Let_def)
  obtain t where run: "retain_previous M v (tree h) = (Inr (), t)" "h' = h\<lparr>tree := t\<rparr>"
    using assms(4) by (auto simp: on_tree_Inr)
  note kept = retain_previous_result [OF inst run(1) assms(2)]
  have "node_at t (retained_path dir v) = Some old"
    using kept(3) assms(3) by (simp add: upgradable_host_def)
  moreover have "\<not> is_dir (tree h) target"
    using assms(3) by (auto simp: upgradable_host_def is_dir_def split: node.splits)
  ultimately show ?thesis
    using kept(1) assms(3) run(2)
    by (auto simp: offers_all_def facts_def upgradable_host_def holds_def quiet_def knows_owner_def)
qed

lemma upgradable_after_meta:
  assumes "upgradable_host old target dir v s" and "p \<noteq> target" "\<And>w. p \<noteq> retained_path dir w"
    and "m = mark_executable p \<or> m = change_user_and_group_ownership p u g" and "m s = (r, t)"
  shows "upgradable_host old target dir v t"
proof -
  let ?ps = "insert target (range (retained_path dir))"
  have k: "keeps (holds ?ps s) m"
    using assms(2-4) by (auto simp: mark_executable_def
        intro!: keeps_and_then holds_methods holds_reads [OF reads_ownership(2)])
  have "holds ?ps s t" by (rule keeps_result [OF k _ assms(5)]) simp
  moreover from this have "newer_kept t dir v = newer_kept s dir v"
    by (auto simp: newer_kept_def exists_path_def holds_def)
  ultimately show ?thesis using assms(1) by (auto simp: upgradable_host_def holds_def quiet_def knows_owner_def)
qed

text \<open>The candidate is none of the files the upgrade works with.\<close>

definition candidate_apart :: "path \<Rightarrow> path \<Rightarrow> path \<Rightarrow> bool" where
  "candidate_apart p target dir \<longleftrightarrow> p \<noteq> target \<and> (\<forall>w. p \<noteq> retained_path dir w)"

lemma plan_admissible:
  assumes always: "always_admissible M old target v" and dir: "dir = binary_dir (folders M)"
    and apart: "candidate_apart p target dir"
    and host: "upgradable_host old target dir v (tree h)"
    and plan: "upgrade_plan (Upgradable v candidate [] executable owned) p pr allow direction = Inr steps"
  shows "admissible_plan M old target v h steps"
proof -
  let ?keep = "retained_path dir v"
  define later_steps where "later_steps = RestartPreviousVersion pr # RecordUpgrade v candidate # map ServiceStep stop_services_steps"
  have steps: "steps = (if \<not> executable then [MarkExecutable p] else []) @
      (if \<not> owned then [SetOwnership p ROOT_USER_NAME DOUGLAS_ADMIN_GROUP] else []) @
      RetainPreviousBinary v # later_steps @ [OverwriteDouglasExecutable p v True, StartNewVersion pr,
        ConfirmHealthy HEALTH_SOAK HEALTH_INTERVAL, ClearUpgradeRecord]"
    using plan by (auto simp: upgrade_plan_def Let_def later_steps_def)
  have p: "p \<notin> {target, ?keep}" "p \<noteq> target" "\<And>w. p \<noteq> retained_path dir w"
    using apart by (auto simp: candidate_apart_def)
  have retain: "admissible_plan M old target v h2 (RetainPreviousBinary v # later_steps @
      [OverwriteDouglasExecutable p v True, StartNewVersion pr,
        ConfirmHealthy HEALTH_SOAK HEALTH_INTERVAL, ClearUpgradeRecord])"
    if h2: "upgradable_host old target dir v (tree h2)" for h2
  proof (rule admissible_plan_Cons)
    show "admissible M old target v (RetainPreviousBinary v) h2"
      using always h2 by (simp add: admissible_iff Let_def upgradable_host_def dir)
  next
    fix h3 assume "upgrade_run M (RetainPreviousBinary v) h2 = (Inr (), h3)"
    then have "offers_all old target ?keep h3" by (rule upgradable_after_retain [OF always dir h2])
    then show "admissible_plan M old target v h3 (later_steps @
      [OverwriteDouglasExecutable p v True, StartNewVersion pr,
        ConfirmHealthy HEALTH_SOAK HEALTH_INTERVAL, ClearUpgradeRecord])"
      using p(1) by (intro admissible_once_retained [OF always])
        (simp_all add: later_steps_def stop_services_steps_def dir)
  qed
  have meta: "admissible_plan M old target v h1 (k # ks)"
    if h1: "upgradable_host old target dir v (tree h1)"
      and k: "k = MarkExecutable p \<or> k = SetOwnership p ROOT_USER_NAME DOUGLAS_ADMIN_GROUP"
      and ks: "\<And>h2. upgradable_host old target dir v (tree h2) \<Longrightarrow> admissible_plan M old target v h2 ks"
    for h1 k ks
  proof (rule admissible_plan_Cons)
    show "admissible M old target v k h1"
      using always p(1) k by (auto simp: admissible_iff Let_def leaves_binaries_def dir)
    fix h2 assume run: "upgrade_run M k h1 = (Inr (), h2)"
    from run k have "upgradable_host old target dir v (tree h2)"
      using upgradable_after_meta [OF h1 p(2,3) disjI1 [OF refl]]
        upgradable_after_meta [OF h1 p(2,3) disjI2 [OF refl]] by (auto simp: on_tree_Inr)
    then show "admissible_plan M old target v h2 ks" by (rule ks)
  qed
  show ?thesis
    unfolding steps using host by (auto intro!: meta retain)
qed

lemma failing_step_as_good:
  assumes "admissible M old target v k d" and "step_fails (upgrade_ops M) d k e d'"
  shows "as_good old target (retained_path (binary_dir (folders M)) v) d d'"
proof -
  have "upgrade_run M k d = (Inl e, d')"
    using assms(2) by (auto simp: step_fails_def upgrade_ops_def split: prod.splits)
  then show ?thesis using run_as_good [OF assms(1)] by (cases k) auto
qed


text \<open>A machine on which no started service stays alive.\<close>

definition demo_machine :: "unit machine" where
  "demo_machine =
     \<lparr>folders = demo_douglas, own_pid = 7, os_kill = (\<lambda>p h. (Inr (), h)),
      os_is_active_pid = (\<lambda>p h. (Inr False, h)), os_execute_with_output = (\<lambda>f args h. (Inr ([], []), h)),
      os_sleep = (\<lambda>n h. h), bract_stop = (\<lambda>b n h. (BractStopped, h)), list_containers = (\<lambda>h. (Inr [], h)),
      container_status = (\<lambda>c h. (Inr Exited, h)), stop_container = (\<lambda>c h. (Inr (), h)),
      heartbeat_pid = (\<lambda>raw. Inr 1), follow_binary_link = Inr [''bin'', ''app''],
      journal_codec = \<lparr>journal_to_json = (\<lambda>j. Some ''{}''), journal_of_json = (\<lambda>s. None)\<rparr>\<rparr>"

definition demo_host :: "version list \<Rightarrow> unit host" where
  "demo_host kept =
     \<lparr>tree =
        \<lparr>nodes = [([], Dir root_meta), ([''bin''], Dir root_meta), ([''bin'', ''app''], File root_meta ''v1''),
            ([''new''], File root_meta ''v2'')] @ map (\<lambda>v. ([''bin'', retained_name v], File root_meta ''v'')) kept,
         outcomes = [], creator = root_meta, known_users = [''root''], known_groups = [''root'']\<rparr>,
      outside = ()\<rparr>"

lemma demo_machine_still: "machine_change demo_machine h h' \<Longrightarrow> h' = h"
  by (erule machine_change.cases) (simp_all add: demo_machine_def)

lemma app_not_retained: "''app'' \<noteq> retained_name v" "''app'' \<noteq> x @ ''.partial''"
  by (simp_all add: retained_name_def PREFIX_def)

lemma demo_install: "install_path demo_machine [''bin'', ''app'']"
  by (simp add: install_path_def demo_machine_def demo_douglas_def binary_dir_def retained_path_def partial_of_def
      app_not_retained)

lemma demo_hands_off: "hands_off demo_machine ps"
  by (auto simp: hands_off_def dest: demo_machine_still)

lemma demo_always: "always_admissible demo_machine (File root_meta ''v1'') [''bin'', ''app''] v"
proof -
  have "upgrade_journal_file (folders demo_machine) \<noteq> [''bin'', ''app'']"
    by (simp add: upgrade_journal_file_def demo_machine_def demo_douglas_def)
  moreover have "restartable demo_machine (File root_meta ''v1'') [''bin'', ''app'']"
    by (simp add: restartable_def demo_machine_def)
  ultimately show ?thesis
    using demo_install by (simp add: always_admissible_def Let_def demo_hands_off)
qed

lemma demo_bin_dir: "binary_dir (folders demo_machine) = [''bin'']"
  by (simp add: demo_machine_def demo_douglas_def binary_dir_def)

lemma demo_newer: "newer_kept (tree (demo_host kept)) [''bin''] v = {w \<in> set kept. v < w}"
proof -
  have "map_of (map (\<lambda>v. ([''bin'', retained_name v], n)) kept) [''bin'', retained_name w] = None \<longleftrightarrow> w \<notin> set kept"
    for w and n :: node by (induction kept) auto
  then have "exists_path (tree (demo_host kept)) (retained_path [''bin''] w) \<longleftrightarrow> w \<in> set kept" for w
    by (simp add: exists_path_def node_at_def demo_host_def retained_path_def app_not_retained [symmetric]
        del: not_None_eq)
  then show ?thesis by (auto simp: newer_kept_def)
qed

lemma demo_upgradable:
  "upgradable_host (File root_meta ''v1'') [''bin'', ''app''] [''bin''] (Version 0 1 0) (tree (demo_host []))"
  unfolding upgradable_host_def demo_newer
  by (simp add: demo_host_def calm_def knows_owner_def is_dir_def node_at_def root_meta_def RETAINED_COUNT_def
      upgrade_staging_def with_file_name_def)

text \<open>A step that always fails keeps a run from succeeding.\<close>

lemma completes_performs:
  "completes ops c ks ks' d \<Longrightarrow> k \<in> set ks \<Longrightarrow> (\<And>c. \<not> skips ops k c) \<Longrightarrow>
     \<exists>c k' c'. perform ops k c = (Inr (), k', c')"
  by (induction rule: completes.induct) auto

lemma demo_never_healthy: "fst (confirm_healthy demo_machine soak interval h) \<noteq> Inr ()"
proof -
  have "\<exists>e t. check_once demo_machine seen h = (Inl e, t)" for seen h
    by (cases "read_heartbeat demo_machine BRACT h"; cases "fst (read_heartbeat demo_machine BRACT h)")
      (auto simp: check_once_def CORE_SERVICES_def and_then_def map_err_def fail_run demo_machine_def)
  then obtain e t where "check_once demo_machine Map.empty h = (Inl e, t)" by blast
  then show ?thesis
    by (simp add: confirm_healthy_def upt_conv_Cons and_then_def ok_run del: upt_Suc)
qed


section \<open>When three newer versions are kept\<close>

text \<open>Undisturbed, pruning removes what it set out to remove.\<close>

lemma delete_calm:
  assumes "calm s" and "\<not> is_dir s p"
  shows "\<exists>t. deleter_delete p s = (Inr (), t) \<and> quiet s t \<and> node_at t = (node_at s)(p := None)"
proof (cases "node_at s p")
  case None
  then show ?thesis
    by (auto simp: deleter_delete_def and_then_def gets_run exists_path_def ok_run quiet_def fun_eq_iff)
next
  case (Some n)
  then obtain m b where "n = File m b" using assms(2) by (cases n) (auto simp: is_dir_def)
  with Some assms(1) show ?thesis
    by (auto simp: deleter_delete_def and_then_def gets_run exists_path_def map_err_def std_remove_file_def
        fun_eq_iff) (simp add: quiet_def drop_nodes_def calm_def)
qed

lemma deleter_delete_gone:
  assumes "deleter_delete p s = (r, t)" and "node_at s p = None"
  shows "node_at t p = None"
  using assms by (simp add: deleter_delete_def and_then_def gets_run exists_path_def ok_run)

lemma for_each_ignore_Cons:
  "for_each (\<lambda>x. ignore (g x)) (n # ns) s = for_each (\<lambda>x. ignore (g x)) ns (snd (g n s))"
  unfolding for_each.simps and_then_def ignore_run by simp

lemma delete_all_gone:
  "node_at s p = None \<Longrightarrow>
     node_at (snd (for_each (\<lambda>name. ignore (deleter_delete (dir @ [name]))) names s)) p = None"
proof (induction names arbitrary: s)
  case (Cons n names)
  obtain r t where d: "deleter_delete (dir @ [n]) s = (r, t)" by (cases "deleter_delete (dir @ [n]) s") auto
  have "node_at t p = None"
    using deleter_delete_nodes [OF d, of p] deleter_delete_gone [OF d] Cons.prems by (cases "p = dir @ [n]") auto
  with Cons.IH [OF this] d show ?case by (simp only: for_each_ignore_Cons snd_conv)
qed (simp add: ok_run)

lemma delete_all_calm:
  assumes "calm s" and "\<And>name. name \<in> set names \<Longrightarrow> \<not> is_dir s (dir @ [name])" and "name \<in> set names"
  shows "node_at (snd (for_each (\<lambda>name. ignore (deleter_delete (dir @ [name]))) names s)) (dir @ [name]) = None"
  using assms
proof (induction names arbitrary: s)
  case (Cons n names)
  obtain t where t: "deleter_delete (dir @ [n]) s = (Inr (), t)" "quiet s t"
    "node_at t = (node_at s)(dir @ [n] := None)"
    using delete_calm [OF Cons.prems(1), of "dir @ [n]"] Cons.prems(2) by auto
  have calm: "calm t" using t(2) Cons.prems(1) by (simp add: quiet_def)
  have dirs: "\<not> is_dir t (dir @ [x])" if "x \<in> set names" for x
    using Cons.prems(2) [of x] that by (auto simp: is_dir_def t(3))
  show ?case
  proof (cases "name \<in> set names")
    case True
    with Cons.IH [OF calm dirs] t(1) show ?thesis by (simp only: for_each_ignore_Cons snd_conv)
  next
    case False
    then have "node_at t (dir @ [name]) = None" using Cons.prems(3) by (simp add: t(3))
    then show ?thesis
      unfolding for_each_ignore_Cons t(1) snd_conv by (rule delete_all_gone)
  qed
qed simp

lemma prune_expired:
  assumes "calm s" and "is_dir s dir" and "retained_name v \<in> set (expired (map fst (children s dir)) RETAINED_COUNT)"
    and "\<And>w. \<not> is_dir s (retained_path dir w)"
  shows "node_at (snd (prune dir s)) (retained_path dir v) = None"
proof -
  obtain es where e: "folder_entries dir s = (Inr es, s)"
    using assms(1,2)
    by (auto simp: folder_entries_def std_read_dir_def is_dir_def map_err_def and_then_def ok_run
        split: option.splits node.splits)
  have "node_at (snd (for_each (\<lambda>name. ignore (deleter_delete (dir @ [name])))
      (expired (map fst (children s dir)) RETAINED_COUNT) s)) (dir @ [retained_name v]) = None"
    using assms(4) expired_is_retained
    by (intro delete_all_calm [OF assms(1) _ assms(3)]) (force simp: retained_path_def)
  with e folder_entries_names [OF e] show ?thesis
    by (simp add: prune_def and_then_def attempt_def retained_path_def)
qed

lemma restore_without_copy:
  assumes "install_path M target" and "calm t"
    and "node_at t (retained_path (binary_dir (folders M)) v) = None"
  shows "fst (restore_previous M v t) = Inl (IoErrorAtPath (retained_path (binary_dir (folders M)) v) NotFound)"
  using assms
  by (simp add: restore_previous_def install_target_def of_result_run install_path_def and_then_def
      staging_path_some install_copy_def copy_keeping_owner_def attempt_def copier_copy_def map_err_def
      std_copy_def fail_run ignore_run)

lemma retain_loses_copy:
  assumes inst: "install_path M target" and dir: "dir = binary_dir (folders M)"
    and "retain_previous M v s = (Inr (), t)" and "calm s" and "is_dir s dir"
    and "\<And>w. \<not> is_dir s (retained_path dir w)" and many: "RETAINED_COUNT \<le> card (newer_kept s dir v)"
  shows "node_at t (retained_path dir v) = None" and "calm t"
proof -
  let ?keep = "retained_path dir v" and ?part = "partial_of dir v"
  have apart: "target \<noteq> ?part" "target \<noteq> ?keep" "follow_binary_link M = Inr target"
    using inst dir by (simp_all add: install_path_def)
  obtain r1 t1 where i: "install_copy target ?part ?keep s = (r1, t1)"
    by (cases "install_copy target ?part ?keep s") auto
  note nodes = install_copy_nodes [OF i apart(1) partial_neq(1)]
  have run: "r1 = Inr ()" "prune dir t1 = (Inr (), t)"
    using assms(3) i dir apart(3)
    by (auto simp: retain_previous_def Let_def install_target_def of_result_run and_then_def
        partial_path_retained split: sum.splits)
  have "holds {} s (snd (install_copy target ?part ?keep s))"
    by (rule keepsD [OF holds_install_copy]) (use apart in auto)
  then have h: "holds {} s t1" by (simp add: i)
  then have t1: "calm t1" "is_dir t1 dir" "\<And>w. \<not> is_dir t1 (retained_path dir w)"
    using assms(4-6) by (auto simp: holds_def quiet_def)
  have "newer_kept t1 dir v = newer_kept s dir v"
    using nodes(1) by (auto simp: newer_kept_def exists_path_def)
  moreover have "exists_path t1 ?keep"
    using nodes(2) run(1) by (auto simp: exists_path_def is_file_def split: option.splits)
  ultimately show "node_at t ?keep = None"
    using prune_expired [OF t1(1,2) _ t1(3)] many run(2) by (simp add: expired_children)
  have "holds {target} s t" using retain_previous_result(1) [OF inst assms(3) dir] .
  then show "calm t" using assms(4) by (simp add: holds_def quiet_def)
qed

text \<open>
  C33: When three versions above the running one are kept, as after a rollback by several versions, keeping
  the running version aside throws the copy away at once, and restoring it later fails.
\<close>

theorem retained_copy_pruned:
  assumes "install_path M target" and "dir = binary_dir (folders M)"
    and "retain_previous M v s = (Inr (), t)" and "calm s" and "is_dir s dir"
    and "\<And>w. \<not> is_dir s (retained_path dir w)" and "RETAINED_COUNT \<le> card (newer_kept s dir v)"
  shows "node_at t (retained_path dir v) = None \<and>
    fst (restore_previous M v t) = Inl (IoErrorAtPath (retained_path dir v) NotFound)"
  using retain_loses_copy [OF assms] restore_without_copy [OF assms(1)] assms(2) by simp

theorem retained_copy_pruned_witness:
  "\<exists>t. retain_previous demo_machine (Version 0 1 0)
       (tree (demo_host [Version 0 2 0, Version 0 3 0, Version 0 4 0])) = (Inr (), t) \<and>
     node_at t (retained_path [''bin''] (Version 0 1 0)) = None"
proof -
  let ?kept = "[Version 0 2 0, Version 0 3 0, Version 0 4 0]"
  let ?s = "tree (demo_host ?kept)" and ?target = "[''bin'', ''app'']" and ?v = "Version 0 1 0"
  have nodes: "node_at ?s (retained_path [''bin''] w) = (if w \<in> set ?kept then Some (File root_meta ''v'') else None)" for w
    by (simp add: node_at_def demo_host_def retained_path_def app_not_retained [symmetric])
  have dirs: "is_dir ?s [''bin'']" "\<And>w. \<not> is_dir ?s (retained_path [''bin''] w)" "calm ?s"
    by (simp add: is_dir_def demo_host_def node_at_def, simp add: is_dir_def nodes, simp add: calm_def demo_host_def)
  have part: "\<not> is_dir ?s (partial_of [''bin''] ?v)"
    using retained_name_neq(1) by (auto simp: partial_of_def is_dir_def node_at_def demo_host_def app_not_retained)
  have "is_file ?s ?target" "owner_known ?s ?target"
    by (simp_all add: is_file_def owner_known_def demo_host_def node_at_def root_meta_def)
  then obtain t1 where "install_copy ?target (partial_of [''bin''] ?v) (retained_path [''bin''] ?v) ?s = (Inr (), t1)"
    using install_copy_succeeds [of ?s ?target "partial_of [''bin''] ?v" "retained_path [''bin''] ?v"]
      dirs part demo_install [unfolded install_path_def demo_bin_dir]
    by (auto simp: creatable_def partial_of_def retained_path_def)
  moreover obtain t where "prune [''bin''] t1 = (Inr (), t)" using prune_succeeds by blast
  ultimately have "retain_previous demo_machine ?v ?s = (Inr (), t)"
    using demo_install
    by (auto simp: retain_previous_def Let_def install_target_def of_result_run and_then_def
        demo_bin_dir partial_path_retained install_path_def)
  moreover have "newer_kept ?s [''bin''] ?v = set ?kept"
    unfolding demo_newer by (auto simp: less_version_def)
  then have "RETAINED_COUNT \<le> card (newer_kept ?s [''bin''] ?v)"
    by (simp add: RETAINED_COUNT_def)
  ultimately show ?thesis
    using retained_copy_pruned [OF demo_install demo_bin_dir [symmetric] _ dirs(3,1,2)] by blast
qed

end
