(* ===== verification/Digests.thy ===== *)
theory Digests
  imports RefinedStrings
begin

unbundle bit_operations_syntax

text \<open>
  Digests (resin/src/digest.rs): the text \<open>sha256:\<close> followed by sixty-four lower-case hexadecimal
  digits, and the thirty-two bytes it stands for.  The crates \<open>sha2\<close> and \<open>hex\<close> are parameters: of the
  hash only the length of its result is used, of the encoder that it writes every byte as two
  lower-case digits.
\<close>

section \<open>The crates \<open>sha2\<close> and \<open>hex\<close>\<close>

type_synonym hash = "string \<Rightarrow> string"
type_synonym encoder = "string \<Rightarrow> string"

definition documented_hash :: "hash \<Rightarrow> bool" where
  "documented_hash sha \<longleftrightarrow> (\<forall>bytes. length (sha bytes) = 32)"

definition hex_char :: "nat \<Rightarrow> char" where
  "hex_char n = (if n < 10 then digit_char n else char_of (n + 87))"

definition hex_byte :: "char \<Rightarrow> string" where
  "hex_byte c = [hex_char (of_char c div 16), hex_char (of_char c mod 16)]"

definition documented_hex :: "encoder \<Rightarrow> bool" where
  "documented_hex enc \<longleftrightarrow> (\<forall>bytes. enc bytes = concat (map hex_byte bytes))"

text \<open>Instances, for evaluating on concrete inputs.\<close>

definition padded_hash :: hash where
  "padded_hash bytes = take 32 (bytes @ replicate 32 CHR ''0'')"

definition table_hex :: encoder where
  "table_hex bytes = concat (map hex_byte bytes)"

lemma padded_hash_documented: "documented_hash padded_hash"
  by (auto simp: documented_hash_def padded_hash_def)

lemma table_hex_documented: "documented_hex table_hex"
  by (simp add: documented_hex_def table_hex_def)

section \<open>Digests\<close>

datatype digest = Digest string

datatype digest_error = InvalidDigest

fun digest_text :: "digest \<Rightarrow> string" where
  "digest_text (Digest t) = t"

definition digest_hex :: "digest \<Rightarrow> string" where
  "digest_hex d = drop (length ''sha256:'') (digest_text d)"

definition digest_from_str :: "string \<Rightarrow> digest_error + digest" where
  "digest_from_str value =
     (case strip_prefix ''sha256:'' value of
        None \<Rightarrow> Inl InvalidDigest
      | Some h \<Rightarrow>
          if length h = 64 \<and> list_all hex_lower h then Inr (Digest value) else Inl InvalidDigest)"

definition is_digest :: "string \<Rightarrow> bool" where
  "is_digest test = (case digest_from_str test of Inr _ \<Rightarrow> True | Inl _ \<Rightarrow> False)"

definition digest_from_bytes :: "encoder \<Rightarrow> string \<Rightarrow> digest_error + digest" where
  "digest_from_bytes enc bytes =
     (if length bytes \<noteq> 32 then Inl InvalidDigest else Inr (Digest (''sha256:'' @ enc bytes)))"

definition digest_from_hex :: "string \<Rightarrow> digest_error + digest" where
  "digest_from_hex h = digest_from_str (''sha256:'' @ h)"

text \<open>\<open>char::to_digit(16)\<close>; \<open>as_bytes\<close> unwraps it, so \<open>None\<close> is a panic.\<close>

definition to_hex_digit :: "char \<Rightarrow> nat option" where
  "to_hex_digit c =
     (if is_digit c then Some (of_char c - 48)
      else if char_in CHR ''a'' CHR ''f'' c then Some (of_char c - 87)
      else if char_in CHR ''A'' CHR ''F'' c then Some (of_char c - 55)
      else None)"

definition byte_of_digits :: "nat \<Rightarrow> nat \<Rightarrow> char" where
  "byte_of_digits hi lo = char_of (unat (push_bit 4 (of_nat hi) OR of_nat lo :: 8 word))"

fun digit_pairs :: "string \<Rightarrow> string option" where
  "digit_pairs (a # b # s) =
     (case (to_hex_digit a, to_hex_digit b) of
        (Some hi, Some lo) \<Rightarrow> map_option (\<lambda>bytes. byte_of_digits hi lo # bytes) (digit_pairs s)
      | _ \<Rightarrow> None)"
| "digit_pairs s = Some []"

definition digest_bytes :: "digest \<Rightarrow> string option" where
  "digest_bytes d = digit_pairs (digest_hex d)"

text \<open>What the parser accepts.\<close>

definition valid_digest :: "digest \<Rightarrow> bool" where
  "valid_digest d \<longleftrightarrow> digest_from_str (digest_text d) = Inr d"

lemma digest_from_str_Inr:
  "digest_from_str s = Inr d \<longleftrightarrow>
     d = Digest s \<and> (\<exists>h. s = ''sha256:'' @ h \<and> length h = 64 \<and> list_all hex_lower h)"
proof (cases "strip_prefix ''sha256:'' s")
  case None
  then have "s \<noteq> ''sha256:'' @ h" for h using strip_prefix_append by (metis option.distinct(1))
  with None show ?thesis by (simp add: digest_from_str_def)
next
  case (Some h)
  then have "s = ''sha256:'' @ h" by (simp only: strip_prefix_Some)
  with Some show ?thesis by (auto simp: digest_from_str_def split: if_splits)
qed

lemma parsed_digest: "digest_from_str s = Inr d \<Longrightarrow> valid_digest d \<and> digest_text d = s"
  by (auto simp: valid_digest_def digest_from_str_Inr)

lemma valid_digest_iff:
  "valid_digest d \<longleftrightarrow> (\<exists>h. d = Digest (''sha256:'' @ h) \<and> length h = 64 \<and> list_all hex_lower h)"
  by (cases d) (auto simp: valid_digest_def digest_from_str_Inr)

lemma valid_hex: "valid_digest d \<Longrightarrow> length (digest_hex d) = 64 \<and> list_all hex_lower (digest_hex d)"
  by (auto simp: valid_digest_iff digest_hex_def)

lemma digest_hex_inj: "valid_digest d \<Longrightarrow> valid_digest e \<Longrightarrow> digest_hex d = digest_hex e \<longleftrightarrow> d = e"
  by (auto simp: valid_digest_iff digest_hex_def)

section \<open>Bytes and digits\<close>

lemma hex_char_code: "n < 16 \<Longrightarrow> of_char (hex_char n) = (if n < 10 then 48 + n else 87 + n)"
  by (simp add: hex_char_def of_char_digit)

lemma hex_char_digit:
  assumes "n < 16"
  shows "to_hex_digit (hex_char n) = Some n" and "hex_lower (hex_char n)"
  using hex_char_code [OF assms] assms
  by (simp_all add: to_hex_digit_def is_digit_def hex_lower_def char_in_def split: if_splits)

lemma hex_lower_digit:
  assumes "hex_lower c"
  shows "\<exists>n < 16. to_hex_digit c = Some n \<and> c = hex_char n"
proof -
  have code: "c = hex_char n" if "of_char c = (of_char (hex_char n) :: nat)" for n
    using that by simp
  show ?thesis
  proof (cases "is_digit c")
    case True
    then have "48 \<le> (of_char c :: nat)" "of_char c \<le> (57 :: nat)" by (simp_all add: is_digit_def char_in_def)
    then show ?thesis using True code [of "of_char c - 48"] hex_char_code [of "of_char c - 48"]
      by (intro exI [of _ "of_char c - 48"]) (simp add: to_hex_digit_def)
  next
    case False
    then have a: "char_in CHR ''a'' CHR ''f'' c" using assms by (simp add: hex_lower_def)
    then have "97 \<le> (of_char c :: nat)" "of_char c \<le> (102 :: nat)" by (simp_all add: char_in_def)
    then show ?thesis using False a code [of "of_char c - 87"] hex_char_code [of "of_char c - 87"]
      by (intro exI [of _ "of_char c - 87"]) (simp add: to_hex_digit_def)
  qed
qed

lemma byte_of_digits_code:
  assumes "hi < 16" and "lo < 16"
  shows "of_char (byte_of_digits hi lo) = 16 * hi + lo"
proof -
  have high: "\<not> bit lo n" if "4 \<le> n" for n
  proof -
    have "lo < 2 ^ n" using assms(2) power_increasing [OF that, of "2 :: nat"] by simp
    then show ?thesis by (simp add: bit_iff_odd)
  qed
  have "push_bit 4 (of_nat hi) AND of_nat lo = (0 :: 8 word)"
    by (rule bit_word_eqI) (auto simp: bit_simps high not_le dest: high)
  then have "push_bit 4 (of_nat hi) OR of_nat lo = push_bit 4 (of_nat hi) + (of_nat lo :: 8 word)"
    using word_plus_and_or [of "push_bit 4 (of_nat hi) :: 8 word" "of_nat lo"] by simp
  also have "\<dots> = of_nat (16 * hi + lo)" by (simp add: push_bit_eq_mult)
  finally have "unat (push_bit 4 (of_nat hi) OR of_nat lo :: 8 word) = (16 * hi + lo) mod 2 ^ 8"
    by (simp only: unat_of_nat) simp
  with assms show ?thesis by (simp add: byte_of_digits_def)
qed

lemma digit_bounds: "(of_char c :: nat) div 16 < 16" "(of_char c :: nat) mod 16 < 16"
  using nat_of_char_less_256 [of c] by (simp_all add: less_mult_imp_div_less)

lemma byte_of_its_digits: "byte_of_digits (of_char c div 16) (of_char c mod 16) = c"
proof -
  have "of_char (byte_of_digits (of_char c div 16) (of_char c mod 16)) = (of_char c :: nat)"
    using digit_bounds [of c] by (simp add: byte_of_digits_code)
  then show ?thesis by simp
qed

lemma byte_digits: "hi < 16 \<Longrightarrow> lo < 16 \<Longrightarrow> hex_byte (byte_of_digits hi lo) = [hex_char hi, hex_char lo]"
  by (simp add: hex_byte_def byte_of_digits_code)

lemma digit_pairs_encoded: "digit_pairs (concat (map hex_byte bytes)) = Some bytes"
  by (induction bytes) (simp_all add: hex_byte_def hex_char_digit(1) digit_bounds byte_of_its_digits)

lemma encoded_hex: "list_all hex_lower (concat (map hex_byte bytes)) \<and> length (concat (map hex_byte bytes)) = 2 * length bytes"
  by (induction bytes) (simp_all add: hex_byte_def hex_char_digit(2) digit_bounds)

lemma digit_pairs_decoded:
  "list_all hex_lower s \<Longrightarrow> even (length s) \<Longrightarrow>
   \<exists>bytes. digit_pairs s = Some bytes \<and> concat (map hex_byte bytes) = s \<and> 2 * length bytes = length s"
proof (induction s rule: induct_list012)
  case (3 a b s)
  then obtain bytes where "digit_pairs s = Some bytes" "concat (map hex_byte bytes) = s" "2 * length bytes = length s"
    by auto
  moreover obtain hi lo where "hi < 16" "to_hex_digit a = Some hi" "a = hex_char hi"
    and "lo < 16" "to_hex_digit b = Some lo" "b = hex_char lo"
    using 3(3) hex_lower_digit [of a] hex_lower_digit [of b] by auto
  ultimately show ?case by (auto simp: byte_digits)
qed auto

lemma digest_of_bytes:
  assumes "documented_hex enc" and "length bytes = 32"
  shows "\<exists>d. digest_from_bytes enc bytes = Inr d \<and> valid_digest d \<and> digest_bytes d = Some bytes"
  using assms encoded_hex [of bytes] digit_pairs_encoded [of bytes]
  by (simp add: digest_from_bytes_def documented_hex_def valid_digest_iff digest_bytes_def digest_hex_def)

lemma bytes_of_digest:
  assumes "documented_hex enc" and "valid_digest d"
  shows "\<exists>bytes. digest_bytes d = Some bytes \<and> length bytes = 32 \<and> digest_from_bytes enc bytes = Inr d"
proof -
  obtain h where d: "d = Digest (''sha256:'' @ h)" "length h = 64" "list_all hex_lower h"
    using assms(2) by (auto simp: valid_digest_iff)
  obtain bytes where "digit_pairs h = Some bytes" "concat (map hex_byte bytes) = h" "2 * length bytes = length h"
    using digit_pairs_decoded [OF d(3)] d(2) by auto
  with d assms(1) show ?thesis
    by (simp add: digest_bytes_def digest_hex_def digest_from_bytes_def documented_hex_def)
qed

lemma digest_bytes_inj:
  assumes "valid_digest d" and "valid_digest e"
  shows "digest_bytes d = digest_bytes e \<longleftrightarrow> d = e"
  using bytes_of_digest [OF table_hex_documented assms(1)] bytes_of_digest [OF table_hex_documented assms(2)]
  by auto

text \<open>Reading and writing digests are inverse.  Whatever text the parser accepts, \<open>as_bytes\<close> of the
  digest returns, without a panic, thirty-two bytes whose digest is that very text; and the digest of
  thirty-two bytes is accepted by the parser and gives the bytes back.\<close>

theorem digest_round_trip:
  assumes "documented_hex enc" and "digest_from_str text = Inr d"
    and "digest_from_bytes enc bytes = Inr e"
  shows "digest_bytes e = Some bytes \<and> digest_from_str (digest_text e) = Inr e \<and>
    map_option (digest_from_bytes enc) (digest_bytes d) = Some (Inr (Digest text))"
proof -
  have d: "valid_digest d" "digest_text d = text" using parsed_digest [OF assms(2)] by simp_all
  have "map_option (digest_from_bytes enc) (digest_bytes d) = Some (Inr d)"
    using bytes_of_digest [OF assms(1) d(1)] by auto
  moreover have "d = Digest text" using d(2) by (cases d) simp
  moreover have "length bytes = 32" using assms(3) by (simp add: digest_from_bytes_def split: if_splits)
  ultimately show ?thesis using digest_of_bytes [OF assms(1)] assms(3) by (force simp: valid_digest_def)
qed

theorem digest_round_trip_witness:
  "map_option (digest_from_bytes table_hex) (digest_bytes (Digest (''sha256:'' @ concat (replicate 32 ''ab'')))) =
     Some (Inr (Digest (''sha256:'' @ concat (replicate 32 ''ab''))))"
proof -
  have parsed: "digest_from_str (''sha256:'' @ concat (replicate 32 ''ab'')) =
      Inr (Digest (''sha256:'' @ concat (replicate 32 ''ab'')))"
    by code_simp
  have made: "digest_from_bytes table_hex (replicate 32 CHR ''x'') =
      Inr (Digest (''sha256:'' @ table_hex (replicate 32 CHR ''x'')))"
    by (simp add: digest_from_bytes_def)
  show ?thesis
    using digest_round_trip [OF table_hex_documented parsed made] by simp
qed

end
