(* ===== verification/ResinTypes.thy ===== *)
theory ResinTypes
  imports DockerTypes FileFrames
begin

text \<open>
  The crate \<open>resin_types\<close>: names of local repositories (resin_types/src/name.rs), upstream registries
  and repositories (resin_types/src/repository.rs), and the folder every repository is stored in.
  The folders are safe to use as paths and a repository can be read back from its folder, which is
  what \<open>FileRepositoryStore::list\<close> relies on.
\<close>

section \<open>Text\<close>

text \<open>\<open>str::split_once\<close> with a separator of several characters.\<close>

fun split_once_text :: "string \<Rightarrow> string \<Rightarrow> (string \<times> string) option" where
  "split_once_text sep [] = (if sep = [] then Some ([], []) else None)"
| "split_once_text sep (c # cs) =
     (case strip_prefix sep (c # cs) of
        Some r \<Rightarrow> Some ([], r)
      | None \<Rightarrow> map_option (\<lambda>(a, b). (c # a, b)) (split_once_text sep cs))"

text \<open>\<open>replace('/', "%2F")\<close> and \<open>replace("%2F", "/")\<close>.\<close>

definition escape_slashes :: "string \<Rightarrow> string" where
  "escape_slashes s = concat (map (\<lambda>c. if c = CHR ''/'' then ''%2F'' else [c]) s)"

fun unescape_slashes :: "string \<Rightarrow> string" where
  "unescape_slashes (a # b # c # s) =
     (if [a, b, c] = ''%2F'' then CHR ''/'' # unescape_slashes s else a # unescape_slashes (b # c # s))"
| "unescape_slashes s = s"

definition lower_char :: "char \<Rightarrow> char" where
  "lower_char c = (if is_upper c then char_of ((of_char c :: nat) + 32) else c)"

definition to_ascii_lowercase :: "string \<Rightarrow> string" where
  "to_ascii_lowercase s = map lower_char s"

section \<open>Names\<close>

datatype name_error = NameCannotBeEmpty | NameTooLong | NameInvalid

fun name_error_of :: "refined_error \<Rightarrow> name_error" where
  "name_error_of CannotBeEmpty = NameCannotBeEmpty"
| "name_error_of TooLong = NameTooLong"
| "name_error_of (InvalidName _) = NameInvalid"

definition repository_component_from_str :: "regex \<Rightarrow> string \<Rightarrow> name_error + string" where
  "repository_component_from_str im s = map_sum name_error_of id (validated_from_str im name_pattern 255 s)"

record repo_name =
  repo_name :: string
  repo_namespace :: "string option"

definition from_namespaced :: "regex \<Rightarrow> string \<Rightarrow> string \<Rightarrow> name_error + repo_name" where
  "from_namespaced im ns name =
     (case repository_component_from_str im ns of
        Inl e \<Rightarrow> Inl e
      | Inr ns \<Rightarrow>
          (case repository_component_from_str im name of
             Inl e \<Rightarrow> Inl e
           | Inr name \<Rightarrow>
               if length ns + length name + 1 > 255 then Inl NameTooLong
               else Inr \<lparr>repo_name = name, repo_namespace = Some ns\<rparr>))"

definition fs_safe :: "repo_name \<Rightarrow> string" where
  "fs_safe n = (case repo_namespace n of Some ns \<Rightarrow> ns @ ''%2F'' @ repo_name n | None \<Rightarrow> repo_name n)"

definition split_name :: "string \<Rightarrow> (string \<times> string) option" where
  "split_name value =
     (case split_once_text ''%2F'' value of
        Some p \<Rightarrow> Some p
      | None \<Rightarrow> split_once_text ''/'' value)"

definition show_name :: "repo_name \<Rightarrow> string" where
  "show_name n = (case repo_namespace n of Some ns \<Rightarrow> ns @ ''/'' @ repo_name n | None \<Rightarrow> repo_name n)"

definition repo_name_from_str :: "regex \<Rightarrow> string \<Rightarrow> name_error + repo_name" where
  "repo_name_from_str im value =
     (case split_name value of
        Some (ns, name) \<Rightarrow> from_namespaced im ns name
      | None \<Rightarrow> map_sum id (\<lambda>name. \<lparr>repo_name = name, repo_namespace = None\<rparr>)
          (repository_component_from_str im value))"

section \<open>Repositories\<close>

datatype repository_error = InvalidComponent name_error | UnknownUpstream string | NotLocal string

datatype upstream = DockerHub | OtherRegistry string

fun canonical_host :: "upstream \<Rightarrow> string" where
  "canonical_host DockerHub = ''docker.io''"
| "canonical_host (OtherRegistry r) = r"

fun api_host :: "upstream \<Rightarrow> string" where
  "api_host DockerHub = ''registry-1.docker.io''"
| "api_host (OtherRegistry r) = r"

definition upstream_from_str :: "regex \<Rightarrow> string \<Rightarrow> repository_error + upstream" where
  "upstream_from_str im value =
     (let host = to_ascii_lowercase value
      in if host \<in> set [''docker.io'', ''index.docker.io'', ''registry-1.docker.io''] then Inr DockerHub
         else (case registry_from_str im host of
                 Inl _ \<Rightarrow> Inl (UnknownUpstream value)
               | Inr r \<Rightarrow> Inr (OtherRegistry r)))"

definition path_for_upstream :: "regex \<Rightarrow> upstream \<Rightarrow> string list \<Rightarrow> repository_error + string list" where
  "path_for_upstream im u segments =
     (case collect_sum (repository_component_from_str im) segments of
        Inl e \<Rightarrow> Inl (InvalidComponent e)
      | Inr components \<Rightarrow>
          if u = DockerHub \<and> length components = 1
          then (case repository_component_from_str im ''library'' of
                  Inl e \<Rightarrow> Inl (InvalidComponent e)
                | Inr l \<Rightarrow> Inr (l # components))
          else Inr components)"

definition show_repository_path :: "string list \<Rightarrow> string" where
  "show_repository_path components = join_with ''/'' components"

datatype repository = LocalRepository repo_name | UpstreamRepository upstream "string list"

definition repository_from_str :: "regex \<Rightarrow> string \<Rightarrow> repository_error + repository" where
  "repository_from_str im value =
     (case split_on CHR ''/'' value of
        [single] \<Rightarrow> map_sum InvalidComponent LocalRepository (repo_name_from_str im single)
      | host # segments \<Rightarrow>
          if length segments = 1 \<and> \<not> looks_like_host host
          then map_sum InvalidComponent LocalRepository (from_namespaced im host (hd segments))
          else if looks_like_host host then
            (case upstream_from_str im host of
               Inl e \<Rightarrow> Inl e
             | Inr u \<Rightarrow> map_sum id (UpstreamRepository u) (path_for_upstream im u segments))
          else Inl (UnknownUpstream value)
      | [] \<Rightarrow> Inl (UnknownUpstream value))"

fun show_repository :: "repository \<Rightarrow> string" where
  "show_repository (LocalRepository n) = show_name n"
| "show_repository (UpstreamRepository u p) = canonical_host u @ ''/'' @ show_repository_path p"

fun storage_path :: "repository \<Rightarrow> path" where
  "storage_path (LocalRepository n) = [''local'', fs_safe n]"
| "storage_path (UpstreamRepository u p) =
     [''upstream'', canonical_host u, escape_slashes (show_repository_path p)]"

fun as_upstream :: "repository \<Rightarrow> (upstream \<times> string list) option" where
  "as_upstream (UpstreamRepository u p) = Some (u, p)"
| "as_upstream (LocalRepository _) = None"

fun require_local :: "repository \<Rightarrow> repository_error + repo_name" where
  "require_local (LocalRepository n) = Inr n"
| "require_local (UpstreamRepository u p) = Inl (NotLocal (show_repository (UpstreamRepository u p)))"

section \<open>The repositories on disk\<close>

text \<open>\<open>FileRepositoryStore\<close> (resin/src/repository_store.rs).\<close>

definition directory_entries :: "path \<Rightarrow> (fs, fs_error, string list) prog" where
  "directory_entries p =
     and_then (gets (\<lambda>s. folder_exists s p)) (\<lambda>present.
       if \<not> present then ok []
       else and_then (folder_entries p)
         (\<lambda>es. ok (map entry_name (filter (\<lambda>e. entry_kind e = DirectoryKind) es))))"

definition listed_local :: "regex \<Rightarrow> string \<Rightarrow> repository option" where
  "listed_local im name = (case repo_name_from_str im name of Inr n \<Rightarrow> Some (LocalRepository n) | Inl _ \<Rightarrow> None)"

definition list_local :: "regex \<Rightarrow> path \<Rightarrow> (fs, fs_error, repository list) prog" where
  "list_local im root =
     and_then (directory_entries (root @ [''local''])) (\<lambda>names. ok (List.map_filter (listed_local im) names))"

definition listed_upstream :: "regex \<Rightarrow> string \<Rightarrow> string \<Rightarrow> repository option" where
  "listed_upstream im host escaped =
     (case repository_from_str im (host @ ''/'' @ unescape_slashes escaped) of
        Inr r \<Rightarrow> Some r
      | Inl _ \<Rightarrow> None)"

definition list_upstream :: "regex \<Rightarrow> path \<Rightarrow> (fs, fs_error, repository list) prog" where
  "list_upstream im root =
     and_then (directory_entries (root @ [''upstream''])) (\<lambda>hosts.
     and_then (collect_results (\<lambda>host.
         and_then (directory_entries (root @ [''upstream'', host]))
           (\<lambda>paths. ok (List.map_filter (listed_upstream im host) paths))) hosts)
       (\<lambda>found. ok (concat found)))"

definition list_repositories :: "regex \<Rightarrow> path \<Rightarrow> (fs, fs_error, repository list) prog" where
  "list_repositories im root =
     and_then (list_local im root) (\<lambda>local.
     and_then (list_upstream im root) (\<lambda>upstream. ok (local @ upstream)))"

definition delete_repository :: "path \<Rightarrow> repository \<Rightarrow> (fs, fs_error, unit) prog" where
  "delete_repository root r = folder_deleter_delete (root @ storage_path r)"

section \<open>Well-formed names and repositories\<close>

lemma component_Inr:
  "repository_component_from_str im s = Inr t \<longleftrightarrow> t = s \<and> s \<noteq> [] \<and> length s \<le> 255 \<and> im name_pattern s"
  by (auto simp: repository_component_from_str_def validated_from_str_def)

lemma component_same: "repository_component_from_str im s = Inr t \<Longrightarrow> t = s"
  by (simp add: component_Inr)

abbreviation is_component :: "regex \<Rightarrow> string \<Rightarrow> bool" where
  "is_component im s \<equiv> repository_component_from_str im s = Inr s"

definition is_repo_name :: "regex \<Rightarrow> repo_name \<Rightarrow> bool" where
  "is_repo_name im n \<longleftrightarrow> is_component im (repo_name n) \<and>
     (case repo_namespace n of
        None \<Rightarrow> True
      | Some ns \<Rightarrow> is_component im ns \<and> length ns + length (repo_name n) + 1 \<le> 255)"

fun is_upstream :: "regex \<Rightarrow> upstream \<Rightarrow> bool" where
  "is_upstream im DockerHub = True"
| "is_upstream im (OtherRegistry h) \<longleftrightarrow> looks_like_host h \<and> upstream_from_str im h = Inr (OtherRegistry h)"

fun is_repository :: "regex \<Rightarrow> repository \<Rightarrow> bool" where
  "is_repository im (LocalRepository n) = is_repo_name im n"
| "is_repository im (UpstreamRepository u p) \<longleftrightarrow>
     is_upstream im u \<and> p \<noteq> [] \<and> list_all (is_component im) p \<and> (u = DockerHub \<longrightarrow> length p \<noteq> 1)"

lemma from_namespaced_Inr:
  "from_namespaced im ns name = Inr n \<longleftrightarrow>
     is_component im ns \<and> is_component im name \<and> length ns + length name + 1 \<le> 255 \<and>
     n = \<lparr>repo_name = name, repo_namespace = Some ns\<rparr>"
proof
  show "from_namespaced im ns name = Inr n \<Longrightarrow> is_component im ns \<and> is_component im name \<and>
      length ns + length name + 1 \<le> 255 \<and> n = \<lparr>repo_name = name, repo_namespace = Some ns\<rparr>"
    by (auto simp: from_namespaced_def split: sum.splits if_splits dest!: component_same)
qed (simp add: from_namespaced_def)

lemma parsed_name: "repo_name_from_str im s = Inr n \<Longrightarrow> is_repo_name im n"
  by (auto simp: repo_name_from_str_def from_namespaced_Inr is_repo_name_def component_Inr map_sum_def
      split: option.splits sum.splits)

lemma lower_char_idem: "lower_char (lower_char c) = lower_char c"
proof (cases "is_upper c")
  case True
  then have "65 \<le> (of_char c :: nat)" and "of_char c \<le> (90 :: nat)"
    by (simp_all add: is_upper_def char_in_def)
  then have "of_char (lower_char c) = (of_char c :: nat) + 32"
    using True by (simp add: lower_char_def)
  with \<open>65 \<le> of_char c\<close> have "\<not> is_upper (lower_char c)" by (simp add: is_upper_def char_in_def)
  then show ?thesis by (simp add: lower_char_def)
qed (simp add: lower_char_def)

lemma lower_char_other: "\<not> is_upper d \<Longrightarrow> \<not> is_lower d \<Longrightarrow> lower_char c = d \<longleftrightarrow> c = d"
proof -
  assume d: "\<not> is_upper d" "\<not> is_lower d"
  have "lower_char c \<noteq> d \<and> c \<noteq> d" if "is_upper c"
  proof -
    have "65 \<le> (of_char c :: nat)" and "of_char c \<le> (90 :: nat)"
      using that by (simp_all add: is_upper_def char_in_def)
    moreover from this have "of_char (lower_char c) = (of_char c :: nat) + 32"
      using that by (simp add: lower_char_def)
    ultimately have "is_lower (lower_char c)" by (simp add: is_lower_def char_in_def)
    with d that show ?thesis by metis
  qed
  then show ?thesis by (auto simp: lower_char_def)
qed

lemma lowercase_idem: "to_ascii_lowercase (to_ascii_lowercase s) = to_ascii_lowercase s"
  by (simp add: to_ascii_lowercase_def lower_char_idem)

lemma lowercase_host: "looks_like_host s \<Longrightarrow> looks_like_host (to_ascii_lowercase s)"
proof -
  have "d \<in> set (to_ascii_lowercase s)" if "d \<in> set s" "\<not> is_upper d" for d
    using that by (force simp: to_ascii_lowercase_def lower_char_def)
  moreover have "to_ascii_lowercase ''localhost'' = ''localhost''" by code_simp
  moreover have "\<not> is_upper CHR ''.''" "\<not> is_upper CHR '':''" by code_simp+
  ultimately show "looks_like_host s \<Longrightarrow> ?thesis" unfolding looks_like_host_def by metis
qed

lemma parsed_upstream: "upstream_from_str im h = Inr u \<Longrightarrow> looks_like_host h \<Longrightarrow> is_upstream im u"
  using lowercase_host [of h]
  by (auto simp: upstream_from_str_def Let_def lowercase_idem registry_from_str_def validated_from_str_def
      split: if_splits sum.splits)

lemma collect_sum_components:
  "collect_sum (repository_component_from_str im) xs = Inr ys \<Longrightarrow> ys = xs \<and> list_all (is_component im) xs"
  by (induction xs arbitrary: ys) (auto simp: component_Inr split: sum.splits)

lemma collect_components: "list_all (is_component im) xs \<Longrightarrow> collect_sum (repository_component_from_str im) xs = Inr xs"
  by (induction xs) simp_all

lemma parsed_path:
  "path_for_upstream im u xs = Inr p \<Longrightarrow> xs \<noteq> [] \<Longrightarrow>
   p \<noteq> [] \<and> list_all (is_component im) p \<and> (u = DockerHub \<longrightarrow> length p \<noteq> 1)"
  by (auto simp: path_for_upstream_def component_Inr split: sum.splits if_splits
      dest!: collect_sum_components)

lemma parsed_repository: "repository_from_str im s = Inr r \<Longrightarrow> is_repository im r"
  unfolding repository_from_str_def
  by (auto simp: map_sum_def from_namespaced_Inr is_repo_name_def component_Inr
      split: list.splits if_splits sum.splits dest!: parsed_name parsed_path intro: parsed_upstream)

section \<open>A repository is found again in its folder\<close>

lemma split_once_text_None:
  "c \<notin> set s \<Longrightarrow> split_once_text (c # sep) s = None"
  by (induction s) (auto simp: strip_prefix_def split: option.splits if_splits)

lemma split_once_text_append:
  "c \<notin> set a \<Longrightarrow> split_once_text (c # sep) (a @ c # sep @ b) = Some (a, b)"
proof (induction a)
  case Nil
  then show ?case using strip_prefix_append [of "c # sep" b] by simp
next
  case (Cons d a)
  then have "strip_prefix (c # sep) (d # a @ c # sep @ b) = None"
    by (auto simp: strip_prefix_def)
  with Cons show ?case by simp
qed

lemma escape_word: "CHR ''/'' \<notin> set s \<Longrightarrow> escape_slashes s = s"
  by (induction s) (auto simp: escape_slashes_def)

lemma escape_chars: "c \<in> set (escape_slashes s) \<Longrightarrow> c \<noteq> CHR ''/''"
  by (auto simp: escape_slashes_def split: if_splits)

lemma escape_nonempty: "s \<noteq> [] \<Longrightarrow> escape_slashes s \<noteq> []"
  by (cases s) (auto simp: escape_slashes_def)

lemma unescape_plain: "c \<noteq> CHR ''%'' \<Longrightarrow> unescape_slashes (c # s) = c # unescape_slashes s"
  by (cases s rule: unescape_slashes.cases) (auto split: list.splits)

lemma unescape_escape: "CHR ''%'' \<notin> set s \<Longrightarrow> unescape_slashes (escape_slashes s) = s"
proof (induction s)
  case (Cons c s)
  then show ?case by (auto simp: escape_slashes_def unescape_plain)
qed (simp add: escape_slashes_def)

lemma component_words:
  assumes "documented_regex im" and "is_component im s"
  shows "\<forall>c \<in> set s. word_char c" and "s \<noteq> []" and "alnum (hd s)"
  using assms accepted_words(1) [of im s] accepted_start(1) [of im "hd s" "tl s"]
  by (auto simp: component_Inr)

lemma component_separators:
  assumes "documented_regex im" and "is_component im s"
  shows "CHR ''/'' \<notin> set s" and "CHR ''%'' \<notin> set s"
proof -
  have "\<not> word_char CHR ''/''" and "\<not> word_char CHR ''%''" by code_simp+
  with component_words(1) [OF assms] show "CHR ''/'' \<notin> set s" and "CHR ''%'' \<notin> set s" by blast+
qed

lemma name_from_folder:
  assumes im: "documented_regex im" and n: "is_repo_name im n"
  shows "repo_name_from_str im (fs_safe n) = Inr n"
proof (cases "repo_namespace n")
  case None
  then have c: "is_component im (repo_name n)" using n by (simp add: is_repo_name_def)
  then have "split_name (repo_name n) = None"
    using component_separators [OF im] by (simp add: split_name_def split_once_text_None)
  with c None show ?thesis by (simp add: repo_name_from_str_def fs_safe_def)
next
  case (Some ns)
  then have c: "is_component im ns" "is_component im (repo_name n)" "length ns + length (repo_name n) + 1 \<le> 255"
    using n by (simp_all add: is_repo_name_def)
  then have "split_name (fs_safe n) = Some (ns, repo_name n)"
    using component_separators(2) [OF im c(1)] Some split_once_text_append [of "CHR ''%''" ns "''2F''" "repo_name n"]
    by (simp add: split_name_def fs_safe_def)
  moreover have "from_namespaced im ns (repo_name n) = Inr n"
    using c Some by (auto simp: from_namespaced_Inr intro: repo_name.equality)
  ultimately show ?thesis by (simp add: repo_name_from_str_def)
qed

lemma path_reparsed:
  assumes "list_all (is_component im) p" and "p \<noteq> []" and "u = DockerHub \<longrightarrow> length p \<noteq> 1"
  shows "path_for_upstream im u p = Inr p"
  using assms collect_components by (auto simp: path_for_upstream_def)

lemma host_no_slash:
  assumes im: "documented_regex im" and u: "is_upstream im u"
  shows "CHR ''/'' \<notin> set (canonical_host u)" and "canonical_host u \<noteq> []"
    and "looks_like_host (canonical_host u)" and "alnum (hd (canonical_host u))"
    and "upstream_from_str im (canonical_host u) = Inr u"
proof -
  have hub: "looks_like_host ''docker.io''" "alnum (hd ''docker.io'')"
    "upstream_from_str im ''docker.io'' = Inr DockerHub"
    by (simp add: looks_like_host_def, code_simp)
      (simp add: upstream_from_str_def Let_def to_ascii_lowercase_def lower_char_def is_upper_def char_in_def)
  have other: "CHR ''/'' \<notin> set h \<and> h \<noteq> [] \<and> alnum (hd h)"
    if "upstream_from_str im h = Inr (OtherRegistry h)" for h
  proof -
    have h: "im registry_pattern h" "h \<noteq> []"
      using that by (auto simp: upstream_from_str_def Let_def registry_from_str_def validated_from_str_def
          split: if_splits)
    then show ?thesis
      using accepted_words(6) [OF im] accepted_start(4) [OF im, of "hd h" "tl h"] word_char_separators by auto
  qed
  from u hub other show "CHR ''/'' \<notin> set (canonical_host u)" and "canonical_host u \<noteq> []"
    and "looks_like_host (canonical_host u)" and "alnum (hd (canonical_host u))"
    and "upstream_from_str im (canonical_host u) = Inr u"
    by (cases u; auto)+
qed

lemma upstream_reparsed:
  assumes im: "documented_regex im" and r: "is_repository im (UpstreamRepository u p)"
  shows "repository_from_str im (show_repository (UpstreamRepository u p)) = Inr (UpstreamRepository u p)"
proof -
  have u: "is_upstream im u" and p: "p \<noteq> []" "list_all (is_component im) p" "u = DockerHub \<longrightarrow> length p \<noteq> 1"
    using r by simp_all
  note h = host_no_slash [OF im u]
  have "CHR ''/'' \<notin> set s" if "s \<in> set p" for s
    using p(2) that component_separators(1) [OF im] by (simp add: list_all_iff)
  then have "split_on CHR ''/'' (show_repository (UpstreamRepository u p)) = canonical_host u # p"
    using h(1) p(1) by (simp add: split_on_app show_repository_path_def split_join)
  moreover obtain a ps where "p = a # ps" using p(1) by (cases p) auto
  ultimately show ?thesis
    using h(3,5) path_reparsed [OF p(2,1,3)] by (simp add: repository_from_str_def)
qed

text \<open>What \<open>list_local\<close> and \<open>list_upstream\<close> make of a folder, and what a path may contain.\<close>

definition repository_at :: "regex \<Rightarrow> path \<Rightarrow> repository option" where
  "repository_at im p =
     (case p of
        [kind, name] \<Rightarrow> if kind = ''local'' then listed_local im name else None
      | [kind, host, name] \<Rightarrow> if kind = ''upstream'' then listed_upstream im host name else None
      | _ \<Rightarrow> None)"

definition safe_component :: "string \<Rightarrow> bool" where
  "safe_component c \<longleftrightarrow> c \<noteq> [] \<and> CHR ''/'' \<notin> set c \<and> c \<noteq> ''.'' \<and> c \<noteq> ''..''"

lemma safe_start: "alnum (hd c) \<Longrightarrow> c \<noteq> [] \<Longrightarrow> CHR ''/'' \<notin> set c \<Longrightarrow> safe_component c"
proof -
  have "\<not> alnum CHR ''.''" by code_simp
  then show "alnum (hd c) \<Longrightarrow> c \<noteq> [] \<Longrightarrow> CHR ''/'' \<notin> set c \<Longrightarrow> ?thesis"
    by (auto simp: safe_component_def)
qed

lemma joined_components:
  assumes "\<forall>s \<in> set p. s \<noteq> [] \<and> CHR ''%'' \<notin> set s \<and> alnum (hd s)" and "p \<noteq> []"
  shows "CHR ''%'' \<notin> set (join_with ''/'' p)" and "join_with ''/'' p \<noteq> []" and "alnum (hd (join_with ''/'' p))"
  using assms by (induction p rule: induct_list012) (simp_all add: hd_append)

lemma escape_head: "alnum (hd s) \<Longrightarrow> s \<noteq> [] \<Longrightarrow> hd (escape_slashes s) = hd s"
  using alnum_separators [of "hd s"] by (cases s) (simp_all add: escape_slashes_def)

lemma repository_folder:
  assumes im: "documented_regex im" and r: "is_repository im r"
  shows "repository_at im (storage_path r) = Some r \<and> list_all safe_component (storage_path r)"
proof (cases r)
  case (LocalRepository n)
  then have n: "is_repo_name im n" using r by simp
  have parts: "is_component im (repo_name n)" "repo_namespace n = Some ns \<Longrightarrow> is_component im ns" for ns
    using n by (auto simp: is_repo_name_def)
  have "CHR ''/'' \<notin> set (fs_safe n)" "fs_safe n \<noteq> []" "alnum (hd (fs_safe n))"
    using component_words(2,3) [OF im] component_separators(1) [OF im] parts
    by (auto simp: fs_safe_def split: option.split)
  then have "list_all safe_component (storage_path r)"
    using LocalRepository safe_start by (simp add: safe_component_def)
  moreover have "repository_at im (storage_path r) = Some r"
    using LocalRepository name_from_folder [OF im n] by (simp add: repository_at_def listed_local_def)
  ultimately show ?thesis by simp
next
  case (UpstreamRepository u p)
  then have u: "is_upstream im u" and p: "p \<noteq> []" "list_all (is_component im) p" using r by simp_all
  note h = host_no_slash [OF im u]
  have parts: "s \<noteq> [] \<and> CHR ''%'' \<notin> set s \<and> alnum (hd s)" if "s \<in> set p" for s
    using p(2) that component_words(2,3) [OF im] component_separators(2) [OF im] by (simp add: list_all_iff)
  have chars: "CHR ''%'' \<notin> set (show_repository_path p)" "show_repository_path p \<noteq> []"
    "alnum (hd (show_repository_path p))"
    using joined_components [of p] parts p(1) by (simp_all add: show_repository_path_def)
  then have "unescape_slashes (escape_slashes (show_repository_path p)) = show_repository_path p"
    by (simp add: unescape_escape)
  then have listed: "repository_at im (storage_path r) = Some r"
    using UpstreamRepository upstream_reparsed [OF im] r
    by (simp add: repository_at_def listed_upstream_def)
  have "safe_component (escape_slashes (show_repository_path p))"
    using chars escape_head escape_nonempty escape_chars by (intro safe_start) auto
  then show ?thesis
    using UpstreamRepository h safe_start listed by (simp add: safe_component_def)
qed

text \<open>A repository that was parsed from a request is stored in a folder from which \<open>list\<close> reads the
  same repository back, so two repositories never share a folder; and no component of the folder's
  path is empty, is \<open>.\<close> or \<open>..\<close>, or contains a separator.\<close>

theorem repository_read_back:
  assumes "documented_regex im" and "repository_from_str im s = Inr r"
  shows "repository_at im (storage_path r) = Some r \<and> list_all safe_component (storage_path r)"
  by (rule repository_folder [OF assms(1) parsed_repository [OF assms(2)]])

theorem repository_read_back_witness:
  "repository_at table_regex [''upstream'', ''docker.io'', ''library%2Fnginx''] =
     Some (UpstreamRepository DockerHub [''library'', ''nginx''])"
proof -
  have parsed: "repository_from_str table_regex ''Docker.io/nginx'' =
      Inr (UpstreamRepository DockerHub [''library'', ''nginx''])"
    by code_simp
  have "storage_path (UpstreamRepository DockerHub [''library'', ''nginx'']) =
      [''upstream'', ''docker.io'', ''library%2Fnginx'']"
    by code_simp
  then show ?thesis using repository_read_back [OF table_regex_documented parsed] by simp
qed

text \<open>The text of a repository is not read back when the namespace of a local one looks like a host:
  the name \<open>a.b%2Fc\<close> is printed as \<open>a.b/c\<close>, which is the upstream repository \<open>c\<close> of \<open>a.b\<close>.\<close>

lemma dotted_namespace_misread:
  "repository_from_str table_regex ''a.b%2Fc'' = Inr (LocalRepository \<lparr>repo_name = ''c'', repo_namespace = Some ''a.b''\<rparr>) \<and>
   repository_from_str table_regex (show_repository (LocalRepository \<lparr>repo_name = ''c'', repo_namespace = Some ''a.b''\<rparr>)) =
     Inr (UpstreamRepository (OtherRegistry ''a.b'') [''c''])"
  by code_simp

end
