(* ===== verification/FileAppends.thy ===== *)
theory FileAppends
  imports FileFrames
begin

unbundle bit_operations_syntax

text \<open>
  The part of \<open>file_system\<close> that writes at the end of a file: \<open>UnixFileAppender\<close> and
  \<open>UnixBufferedFileWriter\<close> (file_system/src/lib.rs).  The writer opens its file for appending, without
  truncating it, and deletes the file when it is dropped before \<open>close\<close>.  No other program renames or
  deletes the file of an open writer, so that its path stands for its handle.
\<close>

section \<open>Appending\<close>

definition content_or_empty :: "fs \<Rightarrow> path \<Rightarrow> string" where
  "content_or_empty s p = (case content s p of Some b \<Rightarrow> b | None \<Rightarrow> [])"

definition meta_or :: "(meta \<Rightarrow> meta) \<Rightarrow> fs \<Rightarrow> path \<Rightarrow> meta" where
  "meta_or f s p = (case node_at s p of Some n \<Rightarrow> node_meta n | None \<Rightarrow> f (creator s))"

text \<open>\<open>OpenOptions::create(true).append(true).open\<close>; a file that is created gets its mode from \<open>f\<close>.\<close>

definition std_open_append :: "(meta \<Rightarrow> meta) \<Rightarrow> path \<Rightarrow> (fs, io_kind, unit) prog" where
  "std_open_append f p = call (\<lambda>s.
     (case creatable s p of
        Some k \<Rightarrow> (Inl k, s)
      | None \<Rightarrow> (Inr (), put_node p (File (meta_or f s p) (content_or_empty s p)) s)))"

text \<open>\<open>write_all\<close> on the open handle; a torn write leaves a prefix behind.\<close>

definition std_append :: "path \<Rightarrow> string \<Rightarrow> (fs, io_kind, unit) prog" where
  "std_append p bytes s =
     (case next_outcome s of
        (Refuse k, s') \<Rightarrow> (Inl k, s')
      | (outcome, s') \<Rightarrow>
          (case node_at s' p of
             Some (File m b) \<Rightarrow>
               (case outcome of
                  Torn n \<Rightarrow> (Inl OtherKind, put_node p (File m (b @ take n bytes)) s')
                | _ \<Rightarrow> (Inr (), put_node p (File m (b @ bytes)) s'))
           | _ \<Rightarrow> (Inl OtherKind, s')))"

definition appender_append_all_bytes :: "path \<Rightarrow> string \<Rightarrow> (fs, fs_error, unit) prog" where
  "appender_append_all_bytes p bytes =
     and_then (gets (\<lambda>s. folder_parent p \<noteq> None \<and> \<not> is_dir s (butlast p))) (\<lambda>orphan.
       if orphan then fail (ParentNotFoundError (butlast p))
       else map_err (IoErrorAtPath p)
         (and_then (std_open_append
             (\<lambda>m. m\<lparr>mode := mode_bits OwnerReadWriteGroupReadWrite AND NOT 0x007\<rparr>) p)
           (\<lambda>_. std_append p bytes)))"

definition appender_append :: "path \<Rightarrow> string \<Rightarrow> (fs, fs_error, unit) prog" where
  "appender_append p contents = appender_append_all_bytes p contents"

section \<open>The buffered writer\<close>

definition create_buffered_file_writer :: "path \<Rightarrow> (fs, fs_error, unit) prog" where
  "create_buffered_file_writer p = map_err IoError (std_open_append (\<lambda>m. m) p)"

definition buffered_write_all :: "path \<Rightarrow> string \<Rightarrow> (fs, fs_error, unit) prog" where
  "buffered_write_all p bytes = map_err IoError (std_append p bytes)"

definition drop_buffered_writer :: "bool \<Rightarrow> path \<Rightarrow> fs \<Rightarrow> fs" where
  "drop_buffered_writer closed p s = (if closed then s else snd (deleter_delete p s))"

section \<open>What appending does and does not touch\<close>

lemma frame_open_append [frame_intros]: "\<not> P p \<Longrightarrow> keeps (agrees P s) (std_open_append f p)"
  unfolding std_open_append_def by (rule frame_call) (auto simp: agrees_put_file split: option.split)

lemma frame_append [frame_intros]: "\<not> P p \<Longrightarrow> keeps (agrees P s) (std_append p b)"
proof (rule keepsI)
  fix t assume "\<not> P p" and t: "agrees P s t"
  obtain x u where n: "next_outcome t = (x, u)" by (cases "next_outcome t") auto
  then have "agrees P s u" using t agrees_same next_outcome_same by blast
  with n \<open>\<not> P p\<close> show "agrees P s (snd (std_append p b t))"
    by (auto simp: std_append_def agrees_put_file split: outcome.split option.split node.split)
qed

lemma frame_append_methods [frame_intros]:
  "\<not> P p \<Longrightarrow> keeps (agrees P s) (appender_append_all_bytes p b)"
  "\<not> P p \<Longrightarrow> keeps (agrees P s) (create_buffered_file_writer p)"
  "\<not> P p \<Longrightarrow> keeps (agrees P s) (buffered_write_all p b)"
  unfolding appender_append_all_bytes_def create_buffered_file_writer_def buffered_write_all_def
  by (intro keeps_intros frame_intros; simp; fail)+

lemma std_append_file:
  assumes "node_at s p = Some (File m b)"
  shows "content s p = Some b" and "content_or_empty s p = b"
    and "content (put_node p (File m c) s) = (content s)(p := Some c)"
  using assms by (simp_all add: content_def content_or_empty_def fun_eq_iff)

lemma std_append_cases:
  assumes "std_append p bytes s = (r, t)"
  obtains (written) "r = Inr ()" "content s p \<noteq> None"
      "content t = (content s)(p := Some (content_or_empty s p @ bytes))"
  | (unwritten) e where "r = Inl e" "content t = content s"
  | (torn) e k where "r = Inl e" "content t = (content s)(p := Some (content_or_empty s p @ take k bytes))"
proof -
  obtain x u where n: "next_outcome s = (x, u)" by (cases "next_outcome s") auto
  have c: "content u = content s" "content_or_empty u p = content_or_empty s p"
    using content_same [OF next_outcome_same [OF n]] by (simp_all add: content_or_empty_def)
  show thesis
  proof (cases "\<exists>m b. node_at u p = Some (File m b)")
    case True
    then obtain m b where f: "node_at u p = Some (File m b)" by blast
    note kept = std_append_file [OF f]
    show thesis
    proof (cases x)
      case Proceed
      then show thesis using assms n f kept c written by (auto simp: std_append_def)
    next
      case (Refuse k)
      then show thesis using assms n c unwritten by (auto simp: std_append_def)
    next
      case (Torn k)
      then show thesis using assms n f kept c torn by (auto simp: std_append_def)
    qed
  next
    case False
    then have "\<exists>e. r = Inl e \<and> t = u"
      using assms n by (auto simp: std_append_def split: outcome.splits option.splits node.splits)
    then show thesis using c unwritten by auto
  qed
qed

lemma open_append_result:
  assumes "std_open_append f p s = (r, t)"
  shows "content t = (if r = Inr () then (content s)(p := Some (content_or_empty s p)) else content s)"
  using assms unfolding std_open_append_def
proof (cases rule: call_cases)
  case (ran u)
  have "content u = content s" using ran by (simp add: content_same)
  with ran show ?thesis by (auto simp: fun_eq_iff content_or_empty_def split: option.splits)
next
  case (disturbed k)
  then show ?thesis by (simp add: content_same)
qed

lemma append_all_bytes_cases:
  assumes "appender_append_all_bytes p bytes s = (r, t)"
  obtains (written) "r = Inr ()" "content t = (content s)(p := Some (content_or_empty s p @ bytes))"
  | (unwritten) e where "r = Inl e" "content t = content s"
  | (partly) e k where "r = Inl e" "content t = (content s)(p := Some (content_or_empty s p @ take k bytes))"
proof (cases "folder_parent p \<noteq> None \<and> \<not> is_dir s (butlast p)")
  case True
  with assms have "\<exists>e. r = Inl e \<and> t = s" by (auto simp: appender_append_all_bytes_def and_then_def prog_simps)
  then show thesis using unwritten by auto
next
  case False
  define f where "f = (\<lambda>m :: meta. m\<lparr>mode := mode_bits OwnerReadWriteGroupReadWrite AND NOT 0x007\<rparr>)"
  obtain q u where o: "std_open_append f p s = (q, u)" by (cases "std_open_append f p s") auto
  note opened = open_append_result [OF o]
  have run: "appender_append_all_bytes p bytes s =
      map_err (IoErrorAtPath p) (and_then (std_open_append f p) (\<lambda>_. std_append p bytes)) s"
    using False by (auto simp: appender_append_all_bytes_def and_then_def prog_simps f_def)
  show thesis
  proof (cases q)
    case (Inl k)
    then show thesis using run assms o opened unwritten by (auto simp: map_err_def and_then_def)
  next
    case (Inr _)
    obtain q' v where a: "std_append p bytes u = (q', v)" by (cases "std_append p bytes u") auto
    have rt: "r = map_sum (IoErrorAtPath p) id q'" "t = v"
      using Inr run assms o a by (auto simp: map_err_def and_then_def split: sum.splits)
    have c: "content u = (content s)(p := Some (content_or_empty s p))"
      "content_or_empty u p = content_or_empty s p"
      using opened Inr by (simp_all add: content_or_empty_def)
    from a show thesis
    proof (cases rule: std_append_cases)
      case (unwritten e)
      then show thesis using rt c partly [of _ 0] by simp
    qed (use rt c written partly in auto)
  qed
qed

end
