(* ===== verification/BlobStore.thy ===== *)
theory BlobStore
  imports Digests ResinTypes FileAppends
begin

text \<open>
  The store of blobs and manifests of the registry: where a blob is kept (resin/src/blob_paths.rs,
  \<open>LocalBlobRoot\<close> of resin/src/lib.rs), the commit of a verified file \<open>BlobCommit\<close>, and
  \<open>FileBlobStore\<close> (resin/src/blob_store.rs).  A reader of the network is the list of what its peer
  will send, with everything it has handed out so far; reading it may fail at any point.  A \<open>None\<close> of
  \<open>digest_bytes\<close>, which would be a panic, does not occur for the digests that the parser accepts.
\<close>

section \<open>Readers\<close>

datatype read = Chunk string | Broken string

record source =
  pending :: "read list"
  delivered :: string

text \<open>\<open>AsyncReadExt::read\<close> into a buffer of \<open>n\<close> bytes.\<close>

definition read_some :: "nat \<Rightarrow> source \<Rightarrow> (string + string) \<times> source" where
  "read_some n src =
     (case pending src of
        [] \<Rightarrow> (Inr [], src)
      | Broken e # rs \<Rightarrow> (Inl e, src\<lparr>pending := rs\<rparr>)
      | Chunk b # rs \<Rightarrow>
          if length b \<le> n then (Inr b, \<lparr>pending = rs, delivered = delivered src @ b\<rparr>)
          else (Inr (take n b), \<lparr>pending = Chunk (drop n b) # rs, delivered = delivered src @ take n b\<rparr>))"

definition outstanding :: "source \<Rightarrow> nat" where
  "outstanding src = sum_list (map (\<lambda>r. case r of Chunk b \<Rightarrow> length b | Broken _ \<Rightarrow> 0) (pending src))"

lemma read_some_result:
  "read_some n src = (Inr b, src') \<Longrightarrow>
   length b \<le> n \<and> delivered src' = delivered src @ b \<and> outstanding src = length b + outstanding src'"
  by (auto simp: read_some_def outstanding_def split: list.splits read.splits if_splits)

lemma read_some_error: "read_some n src = (Inl e, src') \<Longrightarrow> delivered src' = delivered src"
  by (auto simp: read_some_def split: list.splits read.splits if_splits)

text \<open>The inner loop fills the buffer until the reader reports its end.\<close>

function fill_buffer :: "nat \<Rightarrow> string \<Rightarrow> source \<Rightarrow> (string + string) \<times> source" where
  "fill_buffer cap acc src =
     (if length acc < cap then
        (case read_some (cap - length acc) src of
           (Inl e, src') \<Rightarrow> (Inl e, src')
         | (Inr b, src') \<Rightarrow> if b = [] then (Inr acc, src') else fill_buffer cap (acc @ b) src')
      else (Inr acc, src))"
  by pat_completeness auto

termination fill_buffer
  by (relation "measure (\<lambda>(cap, acc, src). cap - length acc)") (auto intro: diff_less_mono2)

declare fill_buffer.simps [simp del]

lemma fill_buffer_result:
  "fill_buffer cap acc src = (Inr b, src') \<Longrightarrow>
   \<exists>c. b = acc @ c \<and> delivered src' = delivered src @ c \<and> outstanding src = length c + outstanding src'"
proof (induction cap acc src rule: fill_buffer.induct)
  case (1 cap acc src)
  show ?case
  proof (cases "length acc < cap")
    case True
    obtain r src1 where rd: "read_some (cap - length acc) src = (r, src1)"
      by (cases "read_some (cap - length acc) src") auto
    show ?thesis
    proof (cases r)
      case (Inl e)
      with 1(2) True rd show ?thesis by (subst (asm) fill_buffer.simps) simp
    next
      case (Inr c)
      with read_some_result rd have c: "delivered src1 = delivered src @ c"
        "outstanding src = length c + outstanding src1" by blast+
      show ?thesis
      proof (cases "c = []")
        case True
        with 1(2) \<open>length acc < cap\<close> rd Inr c show ?thesis by (subst (asm) fill_buffer.simps) simp
      next
        case False
        with 1(2) True rd Inr have "fill_buffer cap (acc @ c) src1 = (Inr b, src')"
          by (subst (asm) fill_buffer.simps) simp
        with 1(1) [OF True rd [symmetric, unfolded Inr]] Inr False c show ?thesis by auto
      qed
    qed
  qed (use 1(2) in \<open>subst (asm) fill_buffer.simps, simp\<close>)
qed

section \<open>Where a blob is kept\<close>

definition create_sharded_blob_root :: "path \<Rightarrow> digest \<Rightarrow> path" where
  "create_sharded_blob_root root d =
     root @ [''blobs'', ''sha256'', take 2 (digest_hex d), digest_hex d]"

record blob_paths =
  final_root :: path
  final_file :: path
  mediatype_file :: path

definition blob_file_paths :: "path \<Rightarrow> digest \<Rightarrow> blob_paths" where
  "blob_file_paths root d =
     (let r = create_sharded_blob_root root d
      in \<lparr>final_root = r, final_file = r @ [digest_hex d],
          mediatype_file = r @ [digest_hex d @ ''.mediatype'']\<rparr>)"

datatype resource_kind = BlobKind | ManifestKind

text \<open>\<open>LocalBlobRoot::get\<close>.\<close>

definition local_blob_root :: "path \<Rightarrow> repository \<Rightarrow> resource_kind \<Rightarrow> (fs, fs_error, path) prog" where
  "local_blob_root root r kind =
     (if kind = ManifestKind
      then and_then (folder_create_recursively (root @ storage_path r @ [''_manifests'', ''revisions'']))
             (\<lambda>_. ok (root @ storage_path r @ [''_manifests'', ''revisions'']))
      else ok (root @ storage_path r))"

section \<open>Committing a file\<close>

record blob_commit =
  commit_temp :: path
  commit_final :: path
  commit_mediatype :: path
  completed :: bool

type_synonym committing = "blob_commit \<times> fs"

definition blob_commit_new :: "path \<Rightarrow> blob_paths \<Rightarrow> blob_commit" where
  "blob_commit_new temp paths =
     \<lparr>commit_temp = temp, commit_final = final_file paths, commit_mediatype = mediatype_file paths,
      completed = False\<rparr>"

definition on_files :: "(fs, 'e, 'a) prog \<Rightarrow> ('c \<times> fs, 'e, 'a) prog" where
  "on_files m x = (case m (snd x) of (r, t) \<Rightarrow> (r, (fst x, t)))"

definition mark_completed :: "(committing, fs_error, unit) prog" where
  "mark_completed x = (Inr (), ((fst x)\<lparr>completed := True\<rparr>, snd x))"

definition commit_clean_up :: "(committing, fs_error, unit) prog" where
  "commit_clean_up x =
     and_then (on_files (deleter_delete (commit_temp (fst x)))) (\<lambda>_.
     and_then (on_files (deleter_delete (commit_final (fst x)))) (\<lambda>_.
     and_then (on_files (deleter_delete (commit_mediatype (fst x)))) (\<lambda>_. mark_completed))) x"

definition commit_complete :: "string \<Rightarrow> (committing, fs_error, unit) prog" where
  "commit_complete mediatype x =
     and_then (on_files (renamer_rename (commit_temp (fst x)) (commit_final (fst x)))) (\<lambda>_.
     and_then (attempt (on_files (writer_write_all (commit_mediatype (fst x)) mediatype)))
       (\<lambda>r. case r of
          Inr _ \<Rightarrow> mark_completed
        | Inl e \<Rightarrow> and_then commit_clean_up (\<lambda>_. fail e))) x"

text \<open>\<open>Drop for BlobCommit\<close>.\<close>

definition drop_commit :: "committing \<Rightarrow> fs" where
  "drop_commit x = (if completed (fst x) then snd x else snd (snd (commit_clean_up x)))"

section \<open>The store\<close>

datatype failure = FileFailure fs_error | ReadFailure string | RemoteFailure string

datatype store_error =
    DigestNotFound string
  | FailedToRetrieveDigest string failure
  | StoreDigestError digest_error
  | DigestMismatch digest digest
  | StoreNotLocal string
  | UnsupportedUpstream string

text \<open>\<open>create_blob_store_error\<close>.\<close>

definition failing :: "digest \<Rightarrow> ('s, fs_error, 'a) prog \<Rightarrow> ('s, store_error, 'a) prog" where
  "failing d m = map_err (\<lambda>e. FailedToRetrieveDigest (digest_text d) (FileFailure e)) m"

type_synonym reading = "source \<times> fs"

text \<open>The outer loop of \<open>hashed_read_to_temp_file\<close>: what it returns is what went into the hasher.\<close>

function copy_hashed :: "nat \<Rightarrow> digest \<Rightarrow> path \<Rightarrow> string \<Rightarrow> reading \<Rightarrow> (store_error + string) \<times> reading" where
  "copy_hashed cap d temp hashed (src, s) =
     (case fill_buffer cap [] src of
        (Inl e, src') \<Rightarrow> (Inl (FailedToRetrieveDigest (digest_text d) (ReadFailure e)), (src', s))
      | (Inr b, src') \<Rightarrow>
          if b = [] then (Inr hashed, (src', s))
          else
            (case buffered_write_all temp b s of
               (Inl e, t) \<Rightarrow> (Inl (FailedToRetrieveDigest (digest_text d) (FileFailure e)), (src', t))
             | (Inr _, t) \<Rightarrow> copy_hashed cap d temp (hashed @ b) (src', t)))"
  by pat_completeness auto

termination copy_hashed
  by (relation "measure (\<lambda>(cap, d, temp, hashed, src, s). outstanding src)")
    (auto dest!: fill_buffer_result [OF sym])

declare copy_hashed.simps [simp del]

definition buffer_len :: nat where
  "buffer_len = 1024 * 64"

definition hashed_read_to_temp_file ::
    "hash \<Rightarrow> digest \<Rightarrow> path \<Rightarrow> (reading, store_error, string) prog" where
  "hashed_read_to_temp_file sha d temp =
     and_then (on_files (failing d (create_buffered_file_writer temp))) (\<lambda>_ x.
       case copy_hashed buffer_len d temp [] x of
         (Inl e, (src, s)) \<Rightarrow> (Inl e, (src, drop_buffered_writer False temp s))
       | (Inr hashed, (src, s)) \<Rightarrow> (Inr (sha hashed), (src, drop_buffered_writer True temp s)))"

definition create_unverified_file :: "path \<Rightarrow> digest \<Rightarrow> (fs, fs_error, blob_commit) prog" where
  "create_unverified_file blob_root claimed =
     (let paths = blob_file_paths blob_root claimed
      in and_then (folder_create_recursively (final_root paths))
           (\<lambda>_. ok (blob_commit_new (final_root paths @ [digest_hex claimed @ ''.tmp'']) paths)))"

definition store_exists :: "path \<Rightarrow> repository \<Rightarrow> digest \<Rightarrow> resource_kind \<Rightarrow> (fs, store_error, bool) prog" where
  "store_exists root r d kind =
     and_then (failing d (local_blob_root root r kind)) (\<lambda>blob_root.
       gets (\<lambda>s. exists_path s (final_file (blob_file_paths blob_root d))))"

text \<open>What \<open>save\<close> does with the bytes it has received: commit them when they are what was claimed.\<close>

definition commit_received :: "encoder \<Rightarrow> digest \<Rightarrow> string \<Rightarrow> string \<Rightarrow> (committing, store_error, unit) prog" where
  "commit_received enc claimed mediatype computed =
     (if digest_bytes claimed \<noteq> Some computed
      then and_then (failing claimed commit_clean_up) (\<lambda>_.
             fail (case digest_from_bytes enc computed of
                     Inl e \<Rightarrow> StoreDigestError e
                   | Inr d \<Rightarrow> DigestMismatch claimed d))
      else failing claimed (commit_complete mediatype))"

definition save_unverified ::
    "encoder \<Rightarrow> hash \<Rightarrow> digest \<Rightarrow> string \<Rightarrow> blob_commit \<Rightarrow> (reading, store_error, unit) prog" where
  "save_unverified enc sha claimed mediatype c x =
     (case hashed_read_to_temp_file sha claimed (commit_temp c) x of
        (Inl e, (src, s)) \<Rightarrow> (Inl e, (src, drop_commit (c, s)))
      | (Inr computed, (src, s)) \<Rightarrow>
          (case commit_received enc claimed mediatype computed (c, s) of
             (r, y) \<Rightarrow> (r, (src, drop_commit y))))"

definition store_save ::
    "encoder \<Rightarrow> hash \<Rightarrow> path \<Rightarrow> repository \<Rightarrow> digest \<Rightarrow> string \<Rightarrow> resource_kind \<Rightarrow> (reading, store_error, unit) prog" where
  "store_save enc sha root r claimed mediatype kind =
     and_then (on_files (store_exists root r claimed kind)) (\<lambda>present.
       if present then ok ()
       else
         and_then (on_files (failing claimed (local_blob_root root r kind))) (\<lambda>blob_root.
         and_then (on_files (failing claimed (create_unverified_file blob_root claimed)))
           (save_unverified enc sha claimed mediatype)))"

text \<open>\<open>get\<close> answers with a reader of the file: its bytes.\<close>

definition create_reader :: "path \<Rightarrow> (fs, fs_error, string) prog" where
  "create_reader p =
     and_then (gets (\<lambda>s. file_exists s p))
       (\<lambda>present. if \<not> present then fail (NotFoundError p) else reader_read_all_bytes p)"

definition store_get :: "path \<Rightarrow> repository \<Rightarrow> digest \<Rightarrow> resource_kind \<Rightarrow> (fs, store_error, string) prog" where
  "store_get root r d kind =
     and_then (failing d (local_blob_root root r kind)) (\<lambda>blob_root.
       let p = final_file (blob_file_paths blob_root d)
       in and_then (gets (\<lambda>s. exists_path s p)) (\<lambda>present.
            if \<not> present then fail (DigestNotFound (digest_text d))
            else failing d (create_reader p)))"

record stats =
  stat_size :: nat
  stat_mediatype :: string

definition store_stats :: "path \<Rightarrow> repository \<Rightarrow> digest \<Rightarrow> resource_kind \<Rightarrow> (fs, store_error, stats) prog" where
  "store_stats root r d kind =
     and_then (failing d (local_blob_root root r kind)) (\<lambda>blob_root.
       let paths = blob_file_paths blob_root d
       in and_then (gets (\<lambda>s. exists_path s (final_file paths))) (\<lambda>present.
            if present then
              and_then (failing d (inspect_read_metadata (final_file paths))) (\<lambda>entry.
              and_then (failing d (reader_read_all (mediatype_file paths))) (\<lambda>mediatype.
                ok \<lparr>stat_size = entry_size entry, stat_mediatype = trim mediatype\<rparr>))
            else fail (DigestNotFound (digest_text d))))"

definition store_delete :: "path \<Rightarrow> repository \<Rightarrow> digest \<Rightarrow> resource_kind \<Rightarrow> (fs, store_error, unit) prog" where
  "store_delete root r d kind =
     and_then (failing d (local_blob_root root r kind)) (\<lambda>blob_root.
       let paths = blob_file_paths blob_root d
       in and_then (gets (\<lambda>s. exists_path s (final_file paths))) (\<lambda>present.
            if present then
              and_then (failing d (folder_entries (final_root paths))) (\<lambda>entries.
                for_each (\<lambda>e. failing d (deleter_delete (final_root paths @ [entry_name e])))
                  (filter (\<lambda>e. entry_kind e = FileKind) entries))
            else fail (DigestNotFound (digest_text d))))"

definition store_resolve_reference :: "string \<Rightarrow> store_error + digest" where
  "store_resolve_reference reference =
     (case digest_from_str reference of Inr d \<Rightarrow> Inr d | Inl _ \<Rightarrow> Inl (DigestNotFound reference))"

end
