(* ===== verification/BlobIntegrity.thy ===== *)
theory BlobIntegrity
  imports BlobStore
begin

text \<open>
  What the registry stores under a digest has that digest: facts about readers, the copying loop and
  \<open>BlobCommit\<close> for every outcome of every system call, and from them the integrity of
  \<open>FileBlobStore\<close>.  The one gap is a temporary file that an interrupted \<open>save\<close> left behind.
\<close>

section \<open>Programs on files under another state\<close>

lemma on_files_run [prog_simps]: "m s = (r, t) \<Longrightarrow> on_files m (c, s) = (r, (c, t))"
  by (simp add: on_files_def)

lemma on_files_cases:
  assumes "on_files m x = (r, y)"
  obtains c s t where "x = (c, s)" "y = (c, t)" "m s = (r, t)"
  using assms by (cases x) (auto simp: on_files_def split: prod.splits)

section \<open>Removing and renaming files\<close>

text \<open>\<open>loses S s t\<close>: files in \<open>S\<close> may be gone in \<open>t\<close>, every other content is as in \<open>s\<close>.\<close>

definition loses :: "path set \<Rightarrow> fs \<Rightarrow> fs \<Rightarrow> bool" where
  "loses S s t \<longleftrightarrow> (\<forall>q. content t q = content s q \<or> q \<in> S \<and> content t q = None)"

lemma loses_refl [simp]: "loses S s s"
  by (simp add: loses_def)

lemma loses_trans: "loses S s t \<Longrightarrow> loses S t u \<Longrightarrow> loses S s u"
  unfolding loses_def by metis

lemma loses_content: "loses S s t \<Longrightarrow> content t q = Some b \<Longrightarrow> content s q = Some b"
  unfolding loses_def by (metis option.distinct(1))

lemma loses_mono: "loses S s t \<Longrightarrow> S \<subseteq> T \<Longrightarrow> loses T s t"
  unfolding loses_def by blast

lemma delete_loses:
  assumes "deleter_delete p s = (r, t)" and "p \<in> S"
  shows "loses S s t" and "r = Inr () \<Longrightarrow> content t p = None"
  using deleter_delete_content [OF assms(1)] assms(2) by (cases r; auto simp: loses_def)+

lemma rename_file:
  assumes "renamer_rename p q s = (r, t)" and "content s p = Some b" and "p \<noteq> q"
  shows "r = Inr () \<Longrightarrow> content t = (content s)(p := None, q := Some b)"
    and "r \<noteq> Inr () \<Longrightarrow> content t = content s"
proof -
  obtain r' where run: "std_rename p q s = (r', t)" and r: "r = map_sum (IoErrorAtPath p) id r'"
    using assms(1) by (auto simp: renamer_rename_def map_err_def split: prod.splits sum.splits)
  have "(r' = Inr () \<longrightarrow> content t = (content s)(p := None, q := Some b)) \<and> (r' \<noteq> Inr () \<longrightarrow> content t = content s)"
    using run unfolding std_rename_def
  proof (cases rule: call_cases)
    case (ran u)
    then have c: "content u = content s" using content_same by blast
    then obtain m where "node_at u p = Some (File m b)"
      using assms(2) by (auto simp: content_def split: option.splits node.splits dest: fun_cong [of _ _ p])
    with ran assms(3) show ?thesis
      by (auto simp: rename_body_def fun_eq_iff simp flip: c split: option.splits)
  qed (auto simp: content_same)
  with r show "r = Inr () \<Longrightarrow> content t = (content s)(p := None, q := Some b)"
    and "r \<noteq> Inr () \<Longrightarrow> content t = content s"
    by (cases r'; simp)+
qed

lemma write_all_content:
  assumes "writer_write_all p b s = (r, t)"
  shows "r = Inr () \<Longrightarrow> content t = (content s)(p := Some b)" and "q \<noteq> p \<Longrightarrow> content t q = content s q"
proof -
  obtain r' where "std_write p b s = (r', t)" "r = map_sum (IoErrorAtPath p) id r'"
    using assms by (auto simp: writer_write_all_def writer_write_all_bytes_def map_err_def split: prod.splits sum.splits)
  then show "r = Inr () \<Longrightarrow> content t = (content s)(p := Some b)" and "q \<noteq> p \<Longrightarrow> content t q = content s q"
    using std_write_content [of p b s r' t] by (cases r'; simp)+
qed

section \<open>The commit\<close>

abbreviation commit_files :: "blob_commit \<Rightarrow> path set" where
  "commit_files c \<equiv> {commit_temp c, commit_final c, commit_mediatype c}"

lemma clean_up_loses:
  assumes "commit_clean_up (c, s) = (r, (c', t))"
  shows "loses (commit_files c) s t"
    and "c' = (if r = Inr () then c\<lparr>completed := True\<rparr> else c)"
    and "r = Inr () \<Longrightarrow> content t (commit_final c) = None"
proof -
  let ?S = "commit_files c"
  obtain r1 s1 where d1: "deleter_delete (commit_temp c) s = (r1, s1)" by fastforce
  obtain r2 s2 where d2: "deleter_delete (commit_final c) s1 = (r2, s2)" by fastforce
  obtain r3 s3 where d3: "deleter_delete (commit_mediatype c) s2 = (r3, s3)" by fastforce
  have l: "loses ?S s s1" "loses ?S s1 s2" "loses ?S s2 s3"
    using delete_loses(1) [OF d1, of ?S] delete_loses(1) [OF d2, of ?S] delete_loses(1) [OF d3, of ?S] by simp_all
  note trans = l loses_trans [OF l(1,2)] loses_trans [OF loses_trans [OF l(1,2)] l(3)]
  have run: "r = Inl e1 \<and> t = s1 \<and> c' = c" if "r1 = Inl e1" for e1
    using assms d1 that by (simp add: commit_clean_up_def and_then_def on_files_def)
  have run2: "r = Inl e2 \<and> t = s2 \<and> c' = c" if "r1 = Inr ()" "r2 = Inl e2" for e2
    using assms d1 d2 that by (simp add: commit_clean_up_def and_then_def on_files_def)
  have run3: "r = r3 \<and> t = s3 \<and> c' = (if r = Inr () then c\<lparr>completed := True\<rparr> else c)"
    if "r1 = Inr ()" "r2 = Inr ()"
    using assms d1 d2 d3 that
    by (cases r3) (auto simp: commit_clean_up_def and_then_def on_files_def mark_completed_def)
  consider e1 where "r1 = Inl e1" | e2 where "r1 = Inr ()" "r2 = Inl e2" | "r1 = Inr ()" "r2 = Inr ()"
    by (cases r1; cases r2) auto
  then have "loses ?S s t \<and> c' = (if r = Inr () then c\<lparr>completed := True\<rparr> else c) \<and>
      (r = Inr () \<longrightarrow> content t (commit_final c) = None)"
  proof cases
    case 3
    have "content s2 (commit_final c) = None" using delete_loses(2) [OF d2, of ?S] 3 by simp
    then have "content s3 (commit_final c) = None" using l(3) unfolding loses_def by metis
    with run3 [OF 3] trans(5) show ?thesis by simp
  qed (use run run2 trans in auto)
  then show "loses ?S s t" and "c' = (if r = Inr () then c\<lparr>completed := True\<rparr> else c)"
    and "r = Inr () \<Longrightarrow> content t (commit_final c) = None"
    by blast+
qed

lemma drop_loses: "loses (commit_files c) s (drop_commit (c, s))"
proof (cases "completed c")
  case False
  obtain r c' t where "commit_clean_up (c, s) = (r, (c', t))" by (metis prod.exhaust)
  with clean_up_loses(1) [OF this] False show ?thesis by (simp add: drop_commit_def)
qed (simp add: drop_commit_def)

lemma commit_complete_cases:
  assumes run: "commit_complete mt (c, s) = (r, (c', t))" and temp: "content s (commit_temp c) = Some b"
    and paths: "commit_temp c \<noteq> commit_final c"
  obtains (unmoved) e where "r = Inl e" "content t = content s" "c' = c"
  | (committed) "r = Inr ()" "c' = c\<lparr>completed := True\<rparr>"
      "content t = (content s)(commit_temp c := None, commit_final c := Some b, commit_mediatype c := Some mt)"
  | (undone) e u where "r = Inl e" "c' = c \<or> c' = c\<lparr>completed := True\<rparr>" "loses (commit_files c) u t"
      "\<And>q. q \<noteq> commit_mediatype c \<Longrightarrow>
        content u q = ((content s)(commit_temp c := None, commit_final c := Some b)) q"
proof -
  obtain r1 s1 where rn: "renamer_rename (commit_temp c) (commit_final c) s = (r1, s1)" by fastforce
  obtain r2 s2 where w: "writer_write_all (commit_mediatype c) mt s1 = (r2, s2)" by fastforce
  obtain r3 c3 s3 where k: "commit_clean_up (c, s2) = (r3, (c3, s3))" by (metis prod.exhaust)
  note rn' = rename_file [OF rn temp paths] and w' = write_all_content [OF w] and k' = clean_up_loses [OF k]
  show thesis
  proof (cases r1)
    case (Inl e)
    then have "r = Inl e \<and> t = s1 \<and> c' = c"
      using run rn by (simp add: commit_complete_def and_then_def on_files_def)
    with Inl rn'(2) show thesis by (intro unmoved) auto
  next
    case (Inr u)
    show thesis
    proof (cases r2)
      case (Inr v)
      then have "r = Inr () \<and> t = s2 \<and> c' = c\<lparr>completed := True\<rparr>"
        using run rn w \<open>r1 = Inr u\<close>
        by (simp add: commit_complete_def and_then_def on_files_def attempt_def mark_completed_def)
      with Inr \<open>r1 = Inr u\<close> rn'(1) w'(1) show thesis by (intro committed) simp_all
    next
      case (Inl e)
      have "(\<exists>e'. r = Inl e') \<and> t = s3 \<and> c' = c3"
        using run rn w k \<open>r1 = Inr u\<close> Inl
        by (auto simp: commit_complete_def and_then_def on_files_def attempt_def prog_simps split: sum.splits)
      moreover have "content s2 q = ((content s)(commit_temp c := None, commit_final c := Some b)) q"
        if "q \<noteq> commit_mediatype c" for q
        using \<open>r1 = Inr u\<close> rn'(1) w'(2) [OF that] by simp
      ultimately show thesis using k'(1,2) undone [of _ s2] by (auto split: if_splits)
    qed
  qed
qed

section \<open>The copying loop\<close>

lemma copy_hashed_result:
  "copy_hashed cap d temp hashed (src, s) = (r, (src', t)) \<Longrightarrow> content s temp = Some b \<Longrightarrow>
   (\<forall>q. q \<noteq> temp \<longrightarrow> content t q = content s q) \<and>
   (\<forall>h. r = Inr h \<longrightarrow> (\<exists>c. h = hashed @ c \<and> content t temp = Some (b @ c) \<and> delivered src' = delivered src @ c))"
proof (induction cap d temp hashed "(src, s)" arbitrary: src s r src' t b rule: copy_hashed.induct)
  case (1 cap d temp hashed src s)
  obtain r1 src1 where fb: "fill_buffer cap [] src = (r1, src1)" by fastforce
  show ?case
  proof (cases r1)
    case (Inl e)
    then show ?thesis using "1.prems" fb by (subst (asm) copy_hashed.simps) auto
  next
    case (Inr c)
    have c: "delivered src1 = delivered src @ c" using fill_buffer_result [of cap "[]" src c src1] fb Inr by auto
    show ?thesis
    proof (cases "c = []")
      case True
      then show ?thesis using "1.prems" fb Inr c by (subst (asm) copy_hashed.simps) auto
    next
      case False
      obtain r2 s2 where w: "std_append temp c s = (r2, s2)" by fastforce
      then have bw: "buffered_write_all temp c s = (map_sum IoError id r2, s2)"
        by (auto simp: buffered_write_all_def map_err_def split: sum.splits)
      from w show ?thesis
      proof (cases rule: std_append_cases)
        case written
        then have n: "content s2 temp = Some (b @ c)" and o: "\<forall>q. q \<noteq> temp \<longrightarrow> content s2 q = content s q"
          using "1.prems"(2) by (simp_all add: content_or_empty_def)
        have rec: "copy_hashed cap d temp (hashed @ c) (src1, s2) = (r, (src', t))"
          using "1.prems"(1) fb Inr False bw written by (subst (asm) copy_hashed.simps) auto
        have "(\<forall>q. q \<noteq> temp \<longrightarrow> content t q = content s2 q) \<and>
           (\<forall>h. r = Inr h \<longrightarrow> (\<exists>c'. h = (hashed @ c) @ c' \<and> content t temp = Some ((b @ c) @ c') \<and>
              delivered src' = delivered src1 @ c'))"
          by (rule "1.hyps" [OF fb [symmetric, unfolded Inr] refl False _ refl rec n]) (simp add: bw written)
        with o c show ?thesis by fastforce
      next
        case (unwritten e)
        then show ?thesis using "1.prems" fb Inr False bw by (subst (asm) copy_hashed.simps) auto
      next
        case (torn e k)
        then show ?thesis using "1.prems" fb Inr False bw by (subst (asm) copy_hashed.simps) auto
      qed
    qed
  qed
qed

lemma hashed_read_result:
  assumes "hashed_read_to_temp_file sha d temp (src, s) = (r, (src', t))"
  shows "(\<forall>q. q \<noteq> temp \<longrightarrow> content t q = content s q) \<and>
    (\<forall>h. r = Inr h \<longrightarrow> (\<exists>c. h = sha c \<and> content t temp = Some (content_or_empty s temp @ c) \<and>
       delivered src' = delivered src @ c))"
proof -
  obtain r1 s1 where o: "std_open_append (\<lambda>m. m) temp s = (r1, s1)" by fastforce
  note opened = open_append_result [OF o]
  obtain r2 src2 s2 where c: "copy_hashed buffer_len d temp [] (src, s1) = (r2, (src2, s2))"
    by (metis prod.exhaust)
  have open_run: "on_files (failing d (create_buffered_file_writer temp)) (src, s) =
      (map_sum (\<lambda>k. FailedToRetrieveDigest (digest_text d) (FileFailure (IoError k))) id r1, (src, s1))"
    using o by (cases r1) (simp_all add: on_files_def failing_def create_buffered_file_writer_def map_err_def)
  show ?thesis
  proof (cases r1)
    case (Inl k)
    then show ?thesis using assms open_run opened by (auto simp: hashed_read_to_temp_file_def and_then_def)
  next
    case (Inr u)
    then have s1: "content s1 temp = Some (content_or_empty s temp)" "\<forall>q. q \<noteq> temp \<longrightarrow> content s1 q = content s q"
      using opened by simp_all
    note copied = copy_hashed_result [OF c s1(1)]
    show ?thesis
    proof (cases r2)
      case (Inl e)
      obtain x u' where del: "deleter_delete temp s2 = (x, u')" by fastforce
      have "r = Inl e \<and> t = u'"
        using assms open_run \<open>r1 = Inr u\<close> c Inl del
        by (simp add: hashed_read_to_temp_file_def and_then_def drop_buffered_writer_def)
      then show ?thesis using copied s1(2) delete_loses(1) [OF del, of "{temp}"]
        by (auto simp: loses_def) metis+
    next
      case (Inr h)
      then have "r = Inr (sha h) \<and> t = s2 \<and> src' = src2"
        using assms open_run \<open>r1 = Inr u\<close> c
        by (simp add: hashed_read_to_temp_file_def and_then_def drop_buffered_writer_def)
      then show ?thesis using copied s1(2) Inr by auto
    qed
  qed
qed

section \<open>Saving\<close>

lemma content_kept:
  assumes "\<And>s. keeps (agrees (\<lambda>_. True) s) m" and "m s = (r, t)"
  shows "content t = content s"
  using keeps_result [OF assms(1) agrees_refl assms(2)] by (simp add: agrees_def fun_eq_iff)

definition blob_root_of :: "path \<Rightarrow> repository \<Rightarrow> resource_kind \<Rightarrow> path" where
  "blob_root_of root r kind =
     root @ storage_path r @ (if kind = ManifestKind then [''_manifests'', ''revisions''] else [])"

definition temp_file :: "path \<Rightarrow> digest \<Rightarrow> path" where
  "temp_file blob_root d = final_root (blob_file_paths blob_root d) @ [digest_hex d @ ''.tmp'']"

lemma local_blob_root_result:
  assumes "local_blob_root root r kind s = (x, t)"
  shows "content t = content s" and "x = Inr p \<Longrightarrow> p = blob_root_of root r kind"
proof -
  have "keeps (agrees (\<lambda>_. True) s) (local_blob_root root r kind)" for s
    unfolding local_blob_root_def by (intro keeps_intros frame_intros)
  then show "content t = content s" using assms by (rule content_kept)
  show "x = Inr p \<Longrightarrow> p = blob_root_of root r kind"
    using assms by (auto simp: local_blob_root_def blob_root_of_def prog_simps and_then_def
        split: if_splits sum.splits prod.splits)
qed

lemma create_unverified_result:
  assumes "create_unverified_file blob_root d s = (x, t)"
  shows "content t = content s"
    and "x = Inr c \<Longrightarrow> c = blob_commit_new (temp_file blob_root d) (blob_file_paths blob_root d)"
proof -
  have "keeps (agrees (\<lambda>_. True) s) (create_unverified_file blob_root d)" for s
    unfolding create_unverified_file_def Let_def by (intro keeps_intros frame_intros)
  then show "content t = content s" using assms by (rule content_kept)
  show "x = Inr c \<Longrightarrow> c = blob_commit_new (temp_file blob_root d) (blob_file_paths blob_root d)"
    using assms by (auto simp: create_unverified_file_def temp_file_def Let_def prog_simps and_then_def
        split: sum.splits prod.splits)
qed

lemma blob_files_distinct:
  "temp_file p d \<noteq> final_file (blob_file_paths p d)" "mediatype_file (blob_file_paths p d) \<noteq> final_file (blob_file_paths p d)"
  "temp_file p d \<noteq> mediatype_file (blob_file_paths p d)"
  by (simp_all add: temp_file_def blob_file_paths_def Let_def)

text \<open>Committing what was received: when it is what was claimed the final file holds the temporary
  one afterwards, or nothing, or what it held; otherwise nothing is stored.\<close>

lemma commit_received_result:
  assumes run: "commit_received enc d mt computed (c, s) = (r, (c', t))"
    and temp: "content s (commit_temp c) = Some b"
    and paths: "commit_temp c \<noteq> commit_final c" "commit_mediatype c \<noteq> commit_final c" "commit_temp c \<noteq> commit_mediatype c"
    and fresh: "\<not> completed c"
  shows "\<forall>q. q \<notin> commit_files c \<longrightarrow> content (drop_commit (c', t)) q = content s q"
    and "content (drop_commit (c', t)) (commit_final c) \<in> {content s (commit_final c), None} \<or>
      digest_bytes d = Some computed \<and> content (drop_commit (c', t)) (commit_final c) = Some b"
    and "r = Inr () \<Longrightarrow> digest_bytes d = Some computed \<and>
      content (drop_commit (c', t)) = (content s)(commit_temp c := None, commit_final c := Some b, commit_mediatype c := Some mt)"
proof -
  let ?S = "commit_files c" and ?u = "drop_commit (c', t)"
  have "(\<forall>q. q \<notin> ?S \<longrightarrow> content ?u q = content s q) \<and>
    (content ?u (commit_final c) \<in> {content s (commit_final c), None} \<or>
      digest_bytes d = Some computed \<and> content ?u (commit_final c) = Some b) \<and>
    (r = Inr () \<longrightarrow> digest_bytes d = Some computed \<and>
      content ?u = (content s)(commit_temp c := None, commit_final c := Some b, commit_mediatype c := Some mt))"
  proof (cases "digest_bytes d = Some computed")
    case False
    obtain r1 c1 s1 where k: "commit_clean_up (c, s) = (r1, (c1, s1))" by (metis prod.exhaust)
    have "(\<exists>e. r = Inl e) \<and> c' = c1 \<and> t = s1"
      using run False k by (cases r1) (auto simp: commit_received_def and_then_def failing_def map_err_def prog_simps)
    moreover have "commit_files c1 = ?S" using clean_up_loses(2) [OF k] by (simp split: if_splits)
    ultimately have "loses ?S s ?u" "\<exists>e. r = Inl e"
      using clean_up_loses(1) [OF k] drop_loses [of c1 s1] loses_trans by auto
    then show ?thesis by (auto simp: loses_def)
  next
    case True
    obtain r1 c1 s1 where k: "commit_complete mt (c, s) = (r1, (c1, s1))" by (metis prod.exhaust)
    have eq: "r = map_sum (\<lambda>e. FailedToRetrieveDigest (digest_text d) (FileFailure e)) id r1 \<and> c' = c1 \<and> t = s1"
      using run True k by (cases r1) (auto simp: commit_received_def failing_def map_err_def)
    from k temp paths(1) show ?thesis
    proof (cases rule: commit_complete_cases)
      case (unmoved e)
      then have "loses ?S s ?u" using eq drop_loses [of c s1] by (simp add: loses_def)
      then show ?thesis using unmoved eq by (auto simp: loses_def)
    next
      case committed
      then show ?thesis using eq paths True by (simp add: drop_commit_def)
    next
      case (undone e u)
      then have "commit_files c1 = ?S" by auto
      then have l: "loses ?S u ?u" using eq undone(3) drop_loses [of c1 s1] loses_trans by auto
      have u: "content u (commit_final c) = Some b" "\<forall>q. q \<notin> ?S \<longrightarrow> content u q = content s q"
        using undone(4) paths by auto
      then have "\<forall>q. q \<notin> ?S \<longrightarrow> content ?u q = content s q" using l unfolding loses_def by metis
      moreover have "content ?u (commit_final c) = Some b \<or> content ?u (commit_final c) = None"
        using l u(1) unfolding loses_def by metis
      ultimately show ?thesis using True eq undone(1) by auto
    qed
  qed
  then show "\<forall>q. q \<notin> ?S \<longrightarrow> content ?u q = content s q"
    and "content ?u (commit_final c) \<in> {content s (commit_final c), None} \<or>
      digest_bytes d = Some computed \<and> content ?u (commit_final c) = Some b"
    and "r = Inr () \<Longrightarrow> digest_bytes d = Some computed \<and>
      content ?u = (content s)(commit_temp c := None, commit_final c := Some b, commit_mediatype c := Some mt)"
    by blast+
qed

text \<open>The bytes that came from the reader are in the final file, after whatever the temporary file
  held before, and they have the claimed digest.\<close>

definition received ::
    "hash \<Rightarrow> digest \<Rightarrow> source \<Rightarrow> source \<Rightarrow> path \<Rightarrow> path \<Rightarrow> fs \<Rightarrow> fs \<Rightarrow> bool" where
  "received sha d src src' temp final s t \<longleftrightarrow>
     (\<exists>b. content t final = Some (content_or_empty s temp @ b) \<and> digest_bytes d = Some (sha b) \<and>
        delivered src' = delivered src @ b)"

lemma save_unverified_result:
  assumes run: "save_unverified enc sha d mt c (src, s) = (r, (src', t))"
    and paths: "commit_temp c \<noteq> commit_final c" "commit_mediatype c \<noteq> commit_final c" "commit_temp c \<noteq> commit_mediatype c"
    and fresh: "\<not> completed c"
  shows "\<forall>q. q \<notin> commit_files c \<longrightarrow> content t q = content s q"
    and "content t (commit_final c) \<in> {content s (commit_final c), None} \<or>
      received sha d src src' (commit_temp c) (commit_final c) s t"
    and "r = Inr () \<Longrightarrow> received sha d src src' (commit_temp c) (commit_final c) s t \<and>
      content t (commit_mediatype c) = Some mt"
proof -
  let ?S = "commit_files c"
  obtain r1 src1 s1 where h: "hashed_read_to_temp_file sha d (commit_temp c) (src, s) = (r1, (src1, s1))"
    by (metis prod.exhaust)
  note read = hashed_read_result [OF h]
  then have off: "\<forall>q. q \<noteq> commit_temp c \<longrightarrow> content s1 q = content s q" by blast
  have "(\<forall>q. q \<notin> ?S \<longrightarrow> content t q = content s q) \<and>
    (content t (commit_final c) \<in> {content s (commit_final c), None} \<or>
      received sha d src src' (commit_temp c) (commit_final c) s t) \<and>
    (r = Inr () \<longrightarrow> received sha d src src' (commit_temp c) (commit_final c) s t \<and>
      content t (commit_mediatype c) = Some mt)"
  proof (cases r1)
    case (Inl e)
    then have "r = Inl e \<and> t = drop_commit (c, s1)" using run h by (simp add: save_unverified_def)
    then show ?thesis using off drop_loses [of c s1] paths by (auto simp: loses_def) metis+
  next
    case (Inr computed)
    then obtain b where b: "computed = sha b" "content s1 (commit_temp c) = Some (content_or_empty s (commit_temp c) @ b)"
      "delivered src1 = delivered src @ b" using read by blast
    obtain r2 c2 s2 where cr: "commit_received enc d mt computed (c, s1) = (r2, (c2, s2))" by (metis prod.exhaust)
    have out: "r = r2 \<and> src' = src1 \<and> t = drop_commit (c2, s2)"
      using run h Inr cr by (simp add: save_unverified_def)
    note kept = commit_received_result [OF cr b(2) paths fresh]
    have rec: "content t (commit_final c) = Some (content_or_empty s (commit_temp c) @ b) \<Longrightarrow>
        digest_bytes d = Some computed \<Longrightarrow> received sha d src src' (commit_temp c) (commit_final c) s t"
      using b out by (auto simp: received_def)
    show ?thesis using kept off out paths rec by auto
  qed
  then show "\<forall>q. q \<notin> ?S \<longrightarrow> content t q = content s q"
    and "content t (commit_final c) \<in> {content s (commit_final c), None} \<or>
      received sha d src src' (commit_temp c) (commit_final c) s t"
    and "r = Inr () \<Longrightarrow> received sha d src src' (commit_temp c) (commit_final c) s t \<and>
      content t (commit_mediatype c) = Some mt"
    by blast+
qed

lemma store_exists_result:
  assumes "store_exists root r d kind s = (x, t)"
  shows "content t = content s"
    and "x = Inr b \<Longrightarrow> b = exists_path t (final_file (blob_file_paths (blob_root_of root r kind) d))"
proof -
  obtain y u where g: "local_blob_root root r kind s = (y, u)" by fastforce
  note root = local_blob_root_result [OF g]
  show "content t = content s"
    and "x = Inr b \<Longrightarrow> b = exists_path t (final_file (blob_file_paths (blob_root_of root r kind) d))"
    using assms g root by (cases y; auto simp: store_exists_def failing_def and_then_def map_err_def prog_simps)+
qed

text \<open>What \<open>save\<close> answers and leaves behind, for every outcome of every system call.\<close>

definition save_outcome ::
    "hash \<Rightarrow> path \<Rightarrow> digest \<Rightarrow> string \<Rightarrow> reading \<Rightarrow> store_error + unit \<Rightarrow> reading \<Rightarrow> bool" where
  "save_outcome sha p d mt x res y \<longleftrightarrow>
     (case (x, y) of ((src, s), (src', t)) \<Rightarrow>
        let paths = blob_file_paths p d in
        (\<forall>q. q \<notin> {temp_file p d, final_file paths, mediatype_file paths} \<longrightarrow> content t q = content s q) \<and>
        (content t (final_file paths) \<in> {content s (final_file paths), None} \<or>
           received sha d src src' (temp_file p d) (final_file paths) s t) \<and>
        (res = Inr () \<longrightarrow>
           content t = content s \<and> src' = src \<and> exists_path t (final_file paths) \<or>
           received sha d src src' (temp_file p d) (final_file paths) s t \<and>
           content t (mediatype_file paths) = Some mt))"

lemma received_same: "content u = content s \<Longrightarrow> received sha d a b p q u t = received sha d a b p q s t"
  by (simp add: received_def content_or_empty_def)

lemma store_save_outcome:
  assumes "store_save enc sha root r d mt kind (src, s) = (res, (src', t))"
  shows "save_outcome sha (blob_root_of root r kind) d mt (src, s) res (src', t)"
proof -
  let ?p = "blob_root_of root r kind" and ?c = "blob_commit_new (temp_file (blob_root_of root r kind) d)
    (blob_file_paths (blob_root_of root r kind) d)"
  have quiet: "save_outcome sha ?p d mt (src, s) (Inl e) (src, u)" if "content u = content s" for e u
    using that by (simp add: save_outcome_def Let_def)
  obtain x1 s1 where e: "store_exists root r d kind s = (x1, s1)" by fastforce
  note present = store_exists_result [OF e]
  obtain x2 s2 where g: "local_blob_root root r kind s1 = (x2, s2)" by fastforce
  note rooted = local_blob_root_result [OF g]
  obtain x3 s3 where k: "create_unverified_file ?p d s2 = (x3, s3)" by fastforce
  note made = create_unverified_result [OF k]
  consider (broken) e1 where "x1 = Inl e1" | (there) "x1 = Inr True"
    | (rootless) e2 where "x1 = Inr False" "x2 = Inl e2"
    | (folderless) e3 where "x1 = Inr False" "x2 = Inr ?p" "x3 = Inl e3"
    | (open_file) "x1 = Inr False" "x2 = Inr ?p" "x3 = Inr ?c"
  proof -
    assume 1: "\<And>e1. x1 = Inl e1 \<Longrightarrow> thesis" "x1 = Inr True \<Longrightarrow> thesis"
      "\<And>e2. x1 = Inr False \<Longrightarrow> x2 = Inl e2 \<Longrightarrow> thesis"
      "\<And>e3. x1 = Inr False \<Longrightarrow> x2 = Inr ?p \<Longrightarrow> x3 = Inl e3 \<Longrightarrow> thesis"
      "x1 = Inr False \<Longrightarrow> x2 = Inr ?p \<Longrightarrow> x3 = Inr ?c \<Longrightarrow> thesis"
    show thesis
    proof (cases x1)
      case (Inr b)
      then show thesis using 1 rooted(2) made(2) by (cases b; cases x2; cases x3) simp_all
    qed (rule 1)
  qed
  then show ?thesis
  proof cases
    case there
    then have "res = Inr () \<and> src' = src \<and> t = s1"
      using assms e by (simp add: store_save_def on_files_def and_then_def prog_simps)
    then show ?thesis using present there by (simp add: save_outcome_def Let_def)
  next
    case open_file
    then have run: "save_unverified enc sha d mt ?c (src, s3) = (res, (src', t))"
      using assms e g k by (simp add: store_save_def on_files_def and_then_def failing_def map_err_def)
    have c: "commit_temp ?c = temp_file ?p d" "commit_final ?c = final_file (blob_file_paths ?p d)"
      "commit_mediatype ?c = mediatype_file (blob_file_paths ?p d)" "\<not> completed ?c"
      by (simp_all add: blob_commit_new_def)
    have same: "content s3 = content s" using present(1) rooted(1) made(1) by simp
    show ?thesis
      using save_unverified_result [OF run] blob_files_distinct [of ?p d] c
      by (simp add: save_outcome_def Let_def same received_same [OF same])
  next
    case (broken e1)
    then have "res = Inl e1 \<and> src' = src \<and> t = s1"
      using assms e by (simp add: store_save_def on_files_def and_then_def)
    then show ?thesis using quiet present(1) by simp
  next
    case (rootless e2)
    then have "(\<exists>e. res = Inl e) \<and> src' = src \<and> t = s2"
      using assms e g by (auto simp: store_save_def on_files_def and_then_def failing_def map_err_def)
    then show ?thesis using quiet present(1) rooted(1) by auto
  next
    case (folderless e3)
    then have "(\<exists>e. res = Inl e) \<and> src' = src \<and> t = s3"
      using assms e g k by (auto simp: store_save_def on_files_def and_then_def failing_def map_err_def)
    then show ?thesis using quiet present(1) rooted(1) made(1) by auto
  qed
qed

section \<open>Integrity of the store\<close>

definition verified :: "hash \<Rightarrow> fs \<Rightarrow> bool" where
  "verified sha s \<longleftrightarrow>
     (\<forall>p d b. valid_digest d \<longrightarrow> content s (final_file (blob_file_paths p d)) = Some b \<longrightarrow>
        digest_bytes d = Some (sha b))"

lemma verifiedD:
  "verified sha s \<Longrightarrow> valid_digest d \<Longrightarrow> content s (final_file (blob_file_paths p d)) = Some b \<Longrightarrow>
   digest_bytes d = Some (sha b)"
  by (simp add: verified_def)

lemma verified_same: "content t = content s \<Longrightarrow> verified sha t = verified sha s"
  by (simp add: verified_def)

lemma verified_loses: "verified sha s \<Longrightarrow> loses S s t \<Longrightarrow> verified sha t"
  unfolding verified_def using loses_content by blast

text \<open>No file of one blob is the final file of another.\<close>

lemma final_file_other:
  assumes "valid_digest d" and "valid_digest e"
  shows "final_file (blob_file_paths p d) \<noteq> temp_file q e"
    and "final_file (blob_file_paths p d) \<noteq> mediatype_file (blob_file_paths q e)"
    and "final_file (blob_file_paths p d) = final_file (blob_file_paths q e) \<Longrightarrow> d = e"
proof -
  have len: "length (digest_hex d) = 64" "length (digest_hex e) = 64" using assms valid_hex by blast+
  have longer: "digest_hex d \<noteq> digest_hex e @ x" if "x \<noteq> []" for x
  proof
    assume "digest_hex d = digest_hex e @ x"
    from arg_cong [OF this, of length] len that show False by simp
  qed
  from longer [of "''.tmp''"] longer [of "''.mediatype''"]
  have "digest_hex d \<noteq> digest_hex e @ ''.tmp''" "digest_hex d \<noteq> digest_hex e @ ''.mediatype''"
    by simp_all
  then show "final_file (blob_file_paths p d) \<noteq> temp_file q e"
    and "final_file (blob_file_paths p d) \<noteq> mediatype_file (blob_file_paths q e)"
    by (simp_all add: temp_file_def blob_file_paths_def Let_def)
  assume "final_file (blob_file_paths p d) = final_file (blob_file_paths q e)"
  then have "digest_hex d = digest_hex e" by (simp add: blob_file_paths_def Let_def)
  then show "d = e" using digest_hex_inj [OF assms] by simp
qed

lemma save_keeps_verified:
  assumes v: "verified sha s" and d: "valid_digest d"
    and fresh: "content s (temp_file (blob_root_of root r kind) d) = None"
    and run: "store_save enc sha root r d mt kind (src, s) = (res, (src', t))"
  shows "verified sha t"
  unfolding verified_def
proof (intro allI impI)
  fix p e b assume e: "valid_digest e" and c: "content t (final_file (blob_file_paths p e)) = Some b"
  let ?p = "blob_root_of root r kind"
  let ?f = "final_file (blob_file_paths ?p d)"
  have out: "content t q = content s q" if "q \<notin> {temp_file ?p d, ?f, mediatype_file (blob_file_paths ?p d)}" for q
    using store_save_outcome [OF run] that by (simp add: save_outcome_def Let_def)
  show "digest_bytes e = Some (sha b)"
  proof (cases "final_file (blob_file_paths p e) = ?f")
    case True
    then have "e = d" using final_file_other(3) [OF e d] by blast
    moreover have "content t ?f \<in> {content s ?f, None} \<or> received sha d src src' (temp_file ?p d) ?f s t"
      using store_save_outcome [OF run] by (simp add: save_outcome_def Let_def)
    ultimately show ?thesis
      using c True verifiedD [OF v d, of ?p b] fresh by (auto simp: received_def content_or_empty_def)
  next
    case False
    then have "content t (final_file (blob_file_paths p e)) = content s (final_file (blob_file_paths p e))"
      using out final_file_other(1,2) [OF e d] by blast
    with c verifiedD [OF v e] show ?thesis by simp
  qed
qed

lemma store_get_result:
  assumes "store_get root r d kind s = (x, t)"
  shows "content t = content s"
    and "x = Inr b \<Longrightarrow> content s (final_file (blob_file_paths (blob_root_of root r kind) d)) = Some b"
proof -
  obtain y u where g: "local_blob_root root r kind s = (y, u)" by fastforce
  note root = local_blob_root_result [OF g]
  have cr: "content w = content v \<and> (x' = Inr b' \<longrightarrow> content v p = Some b')"
    if "create_reader p v = (x', w)" for p v x' w b'
    using that std_read_content(1) [of p v] std_read_content(2) [of p v]
    by (auto simp: create_reader_def reader_read_all_bytes_def and_then_def map_err_def prog_simps content_same
        split: if_splits prod.splits sum.splits)
  show "content t = content s"
    and "x = Inr b \<Longrightarrow> content s (final_file (blob_file_paths (blob_root_of root r kind) d)) = Some b"
    using assms g root cr
    by (cases y; force simp: store_get_def failing_def and_then_def map_err_def prog_simps Let_def
        split: if_splits prod.splits sum.splits)+
qed

section \<open>An example\<close>

text \<open>A reader that sends a single short chunk, and the run of \<open>save\<close> on it.\<close>

lemma copy_single:
  assumes "b \<noteq> []" and "length b < cap"
  shows "copy_hashed cap d temp [] (\<lparr>pending = [Chunk b], delivered = []\<rparr>, s) =
    (case buffered_write_all temp b s of
       (Inl e, t) \<Rightarrow> (Inl (FailedToRetrieveDigest (digest_text d) (FileFailure e)), (\<lparr>pending = [], delivered = b\<rparr>, t))
     | (Inr _, t) \<Rightarrow> (Inr b, (\<lparr>pending = [], delivered = b\<rparr>, t)))"
proof -
  have fill: "fill_buffer cap [] \<lparr>pending = [Chunk b], delivered = []\<rparr> = (Inr b, \<lparr>pending = [], delivered = b\<rparr>)"
    "fill_buffer cap [] \<lparr>pending = [], delivered = b\<rparr> = (Inr [], \<lparr>pending = [], delivered = b\<rparr>)"
    using assms by (subst fill_buffer.simps, simp add: read_some_def, subst fill_buffer.simps, simp add: read_some_def)
      (subst fill_buffer.simps, simp add: read_some_def)
  show ?thesis
    using assms fill by (subst copy_hashed.simps) (auto simp: copy_hashed.simps [of _ _ _ b] split: prod.split sum.split)
qed

definition save_single :: "encoder \<Rightarrow> hash \<Rightarrow> digest \<Rightarrow> string \<Rightarrow> string \<Rightarrow> blob_commit \<Rightarrow> fs \<Rightarrow> (store_error + unit) \<times> fs" where
  "save_single enc sha d mt b c s =
     (case and_then (failing d (create_buffered_file_writer (commit_temp c)))
        (\<lambda>_. failing d (buffered_write_all (commit_temp c) b)) s of
        (Inl e, t) \<Rightarrow> (Inl e, t)
      | (Inr _, t) \<Rightarrow> (case commit_received enc d mt (sha b) (c, t) of (r, y) \<Rightarrow> (r, drop_commit y)))"

lemma save_unverified_single:
  assumes "b \<noteq> []" and "length b < buffer_len" and "save_single enc sha d mt b c s = (Inr (), t)"
  shows "save_unverified enc sha d mt c (\<lparr>pending = [Chunk b], delivered = []\<rparr>, s) =
    (Inr (), (\<lparr>pending = [], delivered = b\<rparr>, t))"
  using assms(3) copy_single [OF assms(1,2), of d "commit_temp c"]
  unfolding save_single_def save_unverified_def hashed_read_to_temp_file_def
  by (auto simp: and_then_def failing_def map_err_def on_files_def drop_buffered_writer_def
      split: prod.splits sum.splits)

definition example_repository :: repository where
  "example_repository = LocalRepository \<lparr>repo_name = ''a'', repo_namespace = None\<rparr>"

definition example_digest :: digest where
  "example_digest = Digest (''sha256:78'' @ concat (replicate 31 ''30''))"

abbreviation example_root :: path where
  "example_root \<equiv> blob_root_of [] example_repository BlobKind"

definition example_tree :: "string option \<Rightarrow> fs" where
  "example_tree stale =
     \<lparr>nodes = (case stale of None \<Rightarrow> [] | Some b \<Rightarrow> [(temp_file example_root example_digest, File root_meta b)]) @
        map (\<lambda>n. (take n (final_root (blob_file_paths example_root example_digest)), Dir root_meta)) [0..<7],
      outcomes = [], creator = root_meta, known_users = [], known_groups = []\<rparr>"

lemma example_valid: "valid_digest example_digest"
  unfolding valid_digest_def by code_simp

abbreviation example_commit :: blob_commit where
  "example_commit \<equiv>
     blob_commit_new (temp_file example_root example_digest) (blob_file_paths example_root example_digest)"

lemma example_steps:
  "store_exists [] example_repository example_digest BlobKind (example_tree st) = (Inr False, example_tree st)"
  "create_unverified_file example_root example_digest (example_tree st) = (Inr example_commit, example_tree st)"
  "fst (save_single table_hex padded_hash example_digest ''text'' ''x'' example_commit (example_tree st)) = Inr ()"
  if "st \<in> {None, Some ''old''}"
  using that by (elim insertE emptyE; simp only:; code_simp)+

definition example_after :: "string option \<Rightarrow> fs" where
  "example_after st =
     snd (save_single table_hex padded_hash example_digest ''text'' ''x'' example_commit (example_tree st))"

lemma example_save:
  assumes "st \<in> {None, Some ''old''}"
  shows "store_save table_hex padded_hash [] example_repository example_digest ''text'' BlobKind
    (\<lparr>pending = [Chunk ''x''], delivered = []\<rparr>, example_tree st) =
    (Inr (), (\<lparr>pending = [], delivered = ''x''\<rparr>, example_after st))"
proof -
  have t: "save_single table_hex padded_hash example_digest ''text'' ''x'' example_commit (example_tree st) =
      (Inr (), example_after st)"
    using example_steps(3) [OF assms] by (simp add: example_after_def prod_eq_iff)
  have "save_unverified table_hex padded_hash example_digest ''text'' example_commit
      (\<lparr>pending = [Chunk ''x''], delivered = []\<rparr>, example_tree st) =
      (Inr (), (\<lparr>pending = [], delivered = ''x''\<rparr>, example_after st))"
    by (rule save_unverified_single [OF _ _ t]) (simp_all add: buffer_len_def)
  moreover have "local_blob_root [] example_repository BlobKind = ok example_root"
    by (simp add: local_blob_root_def blob_root_of_def)
  ultimately show ?thesis
    using example_steps(1,2) [OF assms]
    by (auto simp: store_save_def and_then_def on_files_def failing_def map_err_def prog_simps)
qed

lemma example_get: "fst (store_get [] example_repository example_digest BlobKind (example_after None)) = Inr ''x''"
  by code_simp



text \<open>C24: A temporary file that an interrupted \<open>save\<close> left behind is appended to, not replaced.  The next
  \<open>save\<close> of the blob then checks the digest of the bytes it receives, reports success and stores them
  after the stale ones.\<close>

theorem interrupted_save_corrupts:
  assumes "content s (temp_file (blob_root_of root r kind) d) = Some stale"
    and "store_save enc sha root r d mt kind (\<lparr>pending = ps, delivered = []\<rparr>, s) = (Inr (), (src', t))"
    and "delivered src' \<noteq> []"
  shows "content t (final_file (blob_file_paths (blob_root_of root r kind) d)) = Some (stale @ delivered src') \<and>
    digest_bytes d = Some (sha (delivered src'))"
  using store_save_outcome [OF assms(2)] assms(1,3)
  by (auto simp: save_outcome_def Let_def received_def content_or_empty_def)

theorem interrupted_save_corrupts_witness:
  "content (example_after (Some ''old'')) (final_file (blob_file_paths example_root example_digest)) = Some ''oldx'' \<and>
   digest_bytes example_digest = Some (padded_hash ''x'') \<and> padded_hash ''oldx'' \<noteq> padded_hash ''x''"
proof -
  have stale: "content (example_tree (Some ''old'')) (temp_file example_root example_digest) = Some ''old''"
    by (simp add: content_def node_at_def example_tree_def)
  have "padded_hash ''oldx'' \<noteq> padded_hash ''x''" by code_simp
  with interrupted_save_corrupts [OF stale example_save] show ?thesis by simp
qed

end
