(* ===== verification/BlobUploads.thy ===== *)
theory BlobUploads
  imports BlobIntegrity
begin

text \<open>
  Uploads in chunks: \<open>FileBlobUploader\<close> (resin/src/blob_uploader.rs).  The uploads that have been started
  are kept under a mutex, the received bytes in a temporary file each.  \<open>write_chunk\<close> takes the hasher
  out of the upload, reads and appends without holding the mutex, and puts the hasher back; while it
  runs other requests are served.  Its parts are therefore separate operations, and a task stands for a
  \<open>write_chunk\<close> between two of them.  A hasher is the bytes it has been fed.  An identifier is its text.
\<close>

section \<open>State\<close>

record partial_upload =
  upload_temp :: path
  hasher :: "string option"
  offset :: nat
  upload_done :: bool

record write_task =
  task_name :: repo_name
  task_uuid :: string
  task_path :: path
  task_hasher :: string
  task_start :: nat
  task_written :: nat

record uploader =
  uploads :: "(repo_name \<times> (string \<times> partial_upload) list) list"
  poisoned :: bool
  files :: fs
  tasks :: "write_task list"

datatype upload_error =
    UnknownUuid string repo_name
  | UploadDigestMismatch digest digest
  | UploadFileError fs_error
  | UploadDigestError digest_error
  | NetworkError string
  | HashFailure
  | RangeMismatch nat nat

datatype upload_failure = Failed upload_error | Panicked

type_synonym 'a uploading = "(uploader, upload_failure, 'a) prog"

definition registry_root :: "path \<Rightarrow> repo_name \<Rightarrow> path" where
  "registry_root root n = root @ storage_path (LocalRepository n)"

definition temp_root :: "path \<Rightarrow> repo_name \<Rightarrow> path" where
  "temp_root root n = registry_root root n @ [''tmp'']"

definition upload_temp_file :: "path \<Rightarrow> repo_name \<Rightarrow> string \<Rightarrow> path" where
  "upload_temp_file root n uuid = temp_root root n @ [uuid]"

definition partial_upload_new :: "path \<Rightarrow> partial_upload" where
  "partial_upload_new temp = \<lparr>upload_temp = temp, hasher = Some [], offset = 0, upload_done = False\<rparr>"

text \<open>\<open>Drop for PartialUpload\<close>.\<close>

definition drop_upload :: "partial_upload \<Rightarrow> fs \<Rightarrow> fs" where
  "drop_upload up s = (if upload_done up then s else snd (deleter_delete (upload_temp up) s))"

text \<open>The map of maps.\<close>

definition lookup_upload :: "uploader \<Rightarrow> repo_name \<Rightarrow> string \<Rightarrow> partial_upload option" where
  "lookup_upload st n u = (case map_of (uploads st) n of None \<Rightarrow> None | Some us \<Rightarrow> map_of us u)"

definition put_upload :: "repo_name \<Rightarrow> string \<Rightarrow> partial_upload \<Rightarrow> uploader \<Rightarrow> uploader" where
  "put_upload n u up st =
     st\<lparr>uploads := AList.update n
        (AList.update u up (case map_of (uploads st) n of None \<Rightarrow> [] | Some us \<Rightarrow> us)) (uploads st)\<rparr>"

definition remove_upload :: "repo_name \<Rightarrow> string \<Rightarrow> uploader \<Rightarrow> uploader" where
  "remove_upload n u st =
     (case map_of (uploads st) n of
        None \<Rightarrow> st
      | Some us \<Rightarrow>
          let us' = AList.delete u us
          in if us' = [] then st\<lparr>uploads := AList.delete n (uploads st)\<rparr>
             else st\<lparr>uploads := AList.update n us' (uploads st)\<rparr>)"

text \<open>\<open>state.lock().unwrap()\<close> panics once a thread has panicked while holding the mutex.\<close>

definition locked :: "'a uploading \<Rightarrow> 'a uploading" where
  "locked m st = (if poisoned st then (Inl Panicked, st) else m st)"

definition of_files :: "(fs, fs_error, 'a) prog \<Rightarrow> 'a uploading" where
  "of_files m st =
     (case m (files st) of
        (Inl e, t) \<Rightarrow> (Inl (Failed (UploadFileError e)), st\<lparr>files := t\<rparr>)
      | (Inr a, t) \<Rightarrow> (Inr a, st\<lparr>files := t\<rparr>))"

section \<open>Operations\<close>

definition upload_start :: "path \<Rightarrow> string \<Rightarrow> repo_name \<Rightarrow> string uploading" where
  "upload_start root uuid n =
     and_then (of_files (folder_create_recursively (temp_root root n))) (\<lambda>_.
       locked (\<lambda>st.
         let replaced = (case lookup_upload st n uuid of None \<Rightarrow> files st | Some old \<Rightarrow> drop_upload old (files st))
         in (Inr uuid, (put_upload n uuid (partial_upload_new (upload_temp_file root n uuid)) st)\<lparr>files := replaced\<rparr>)))"

text \<open>The first part of \<open>write_chunk\<close>, under the mutex.\<close>

definition write_begin :: "repo_name \<Rightarrow> string \<Rightarrow> nat \<Rightarrow> write_task uploading" where
  "write_begin n uuid expected =
     locked (\<lambda>st.
       (case lookup_upload st n uuid of
          None \<Rightarrow> (Inl (Failed (UnknownUuid uuid n)), st)
        | Some up \<Rightarrow>
            if expected \<noteq> offset up then (Inl (Failed (RangeMismatch (offset up) expected)), st)
            else
              (case hasher up of
                 None \<Rightarrow> (Inl (Failed HashFailure), st)
               | Some h \<Rightarrow>
                   (Inr \<lparr>task_name = n, task_uuid = uuid, task_path = upload_temp up, task_hasher = h,
                      task_start = offset up, task_written = 0\<rparr>,
                    put_upload n uuid (up\<lparr>hasher := None\<rparr>) st))))"

text \<open>One turn of its loop, with a non-empty chunk.\<close>

definition write_turn :: "write_task \<Rightarrow> string \<Rightarrow> write_task uploading" where
  "write_turn k chunk =
     and_then (of_files (appender_append_all_bytes (task_path k) chunk))
       (\<lambda>_. ok (k\<lparr>task_hasher := task_hasher k @ chunk, task_written := task_written k + length chunk\<rparr>))"

text \<open>Its last part, under the mutex again.\<close>

definition write_end :: "write_task \<Rightarrow> nat uploading" where
  "write_end k =
     locked (\<lambda>st.
       (case lookup_upload st (task_name k) (task_uuid k) of
          None \<Rightarrow> (Inl (Failed HashFailure), st)
        | Some up \<Rightarrow>
            (Inr (task_start k + task_written k),
             put_upload (task_name k) (task_uuid k)
               (up\<lparr>hasher := Some (task_hasher k), offset := task_start k + task_written k\<rparr>) st)))"

text \<open>The loop itself, when no other request is served meanwhile; \<open>65536\<close> is its buffer.\<close>

function write_loop :: "nat \<Rightarrow> source \<Rightarrow> write_task \<Rightarrow> write_task uploading" where
  "write_loop cap src k st =
     (case read_some cap src of
        (Inl e, src') \<Rightarrow> (Inl (Failed (NetworkError e)), st)
      | (Inr chunk, src') \<Rightarrow>
          if chunk = [] then (Inr k, st)
          else
            (case write_turn k chunk st of
               (Inl e, st') \<Rightarrow> (Inl e, st')
             | (Inr k', st') \<Rightarrow> write_loop cap src' k' st'))"
  by pat_completeness auto

termination write_loop
  by (relation "measure (\<lambda>(cap, src, k, st). outstanding src)") (auto dest!: read_some_result [OF sym])

declare write_loop.simps [simp del]

definition write_chunk :: "repo_name \<Rightarrow> string \<Rightarrow> nat \<Rightarrow> source \<Rightarrow> nat uploading" where
  "write_chunk n uuid expected src =
     and_then (write_begin n uuid expected) (\<lambda>k.
     and_then (write_loop 65536 src k) write_end)"

definition upload_complete ::
    "encoder \<Rightarrow> hash \<Rightarrow> path \<Rightarrow> repo_name \<Rightarrow> string \<Rightarrow> digest \<Rightarrow> string \<Rightarrow> unit uploading" where
  "upload_complete enc sha root n uuid claimed mediatype =
     locked (\<lambda>st.
       (case lookup_upload st n uuid of
          None \<Rightarrow> (Inl (Failed (UnknownUuid uuid n)), st)
        | Some up \<Rightarrow>
            let st = remove_upload n uuid st in
            (case hasher up of
               None \<Rightarrow> (Inl Panicked, st\<lparr>poisoned := True, files := drop_upload up (files st)\<rparr>)
             | Some h \<Rightarrow>
                 if digest_bytes claimed \<noteq> Some (sha h)
                 then (Inl (Failed (case digest_from_bytes enc (sha h) of
                                      Inl e \<Rightarrow> UploadDigestError e
                                    | Inr d \<Rightarrow> UploadDigestMismatch claimed d)),
                       st\<lparr>files := drop_upload up (files st)\<rparr>)
                 else
                   (let paths = blob_file_paths (registry_root root n) claimed
                    in (case folder_create_recursively (final_root paths) (files st) of
                          (Inl e, t) \<Rightarrow> (Inl (Failed (UploadFileError e)), st\<lparr>files := drop_upload up t\<rparr>)
                        | (Inr _, t) \<Rightarrow>
                            (case commit_complete mediatype (blob_commit_new (upload_temp up) paths, t) of
                               (r, y) \<Rightarrow> (map_sum (\<lambda>e. Failed (UploadFileError e)) id r,
                                          st\<lparr>files := drop_commit y\<rparr>)))))))"

definition upload_abort :: "repo_name \<Rightarrow> string \<Rightarrow> unit uploading" where
  "upload_abort n uuid =
     locked (\<lambda>st.
       (case lookup_upload st n uuid of
          None \<Rightarrow> (Inl (Failed (UnknownUuid uuid n)), st)
        | Some up \<Rightarrow>
            (let st = remove_upload n uuid st in (Inr (), st\<lparr>files := drop_upload up (files st)\<rparr>))))"

definition upload_status :: "repo_name \<Rightarrow> string \<Rightarrow> nat uploading" where
  "upload_status n uuid =
     locked (\<lambda>st.
       (case lookup_upload st n uuid of
          Some up \<Rightarrow> (Inr (offset up), st)
        | None \<Rightarrow> (Inl (Failed (UnknownUuid uuid n)), st)))"

text \<open>\<open>Uuid::parse_str\<close> is a parameter: the text of the identifier that a file name stands for.\<close>

definition purge_repository :: "(string \<Rightarrow> string option) \<Rightarrow> repo_name \<Rightarrow> path \<Rightarrow> unit uploading" where
  "purge_repository parse_uuid n root st =
     and_then (of_files (folder_entries root)) (\<lambda>es.
       for_each (\<lambda>e. of_files (deleter_delete (root @ [entry_name e])))
         (filter (\<lambda>e. entry_kind e = FileKind \<and>
            (case parse_uuid (entry_name e) of
               Some uuid \<Rightarrow> lookup_upload st n uuid = None
             | None \<Rightarrow> False)) es)) st"

definition upload_purge :: "regex \<Rightarrow> (string \<Rightarrow> string option) \<Rightarrow> path \<Rightarrow> unit uploading" where
  "upload_purge im parse_uuid root =
     locked (and_then (of_files (folder_entries root)) (\<lambda>es.
       for_each (\<lambda>n. purge_repository parse_uuid n (temp_root root n))
         (List.map_filter (\<lambda>e.
            if entry_kind e \<noteq> DirectoryKind then None
            else (case repo_name_from_str im (entry_name e) of Inr n \<Rightarrow> Some n | Inl _ \<Rightarrow> None)) es)))"

end
