(* ===== verification/UploadSafety.thy ===== *)
theory UploadSafety
  imports BlobUploads
begin

text \<open>
  Uploads of many clients at once: a step relation in which the parts of several \<open>write_chunk\<close> calls
  and the other requests alternate in any order, with any call of the file system failing.  The
  invariant ties every upload to its temporary file; from it, a blob is only ever stored under its
  digest.  Then what a broken chunk does to the mutex.
\<close>

section \<open>The map of uploads\<close>

lemma lookup_put:
  "lookup_upload (put_upload n u up st) m v = (if m = n \<and> v = u then Some up else lookup_upload st m v)"
  by (auto simp: lookup_upload_def put_upload_def update_conv' split: option.split)

lemma lookup_remove:
  "lookup_upload (remove_upload n u st) m v = (if m = n \<and> v = u then None else lookup_upload st m v)"
proof (cases "map_of (uploads st) n")
  case (Some us)
  have "map_of us v = None" if "AList.delete u us = []" "v \<noteq> u" for v
    using that delete_conv [of u us v] by simp
  with Some show ?thesis
    by (auto simp: lookup_upload_def remove_upload_def Let_def update_conv' delete_conv' split: option.split)
qed (auto simp: lookup_upload_def remove_upload_def)

lemma map_fields [simp]:
  "files (put_upload n u up st) = files st" "tasks (put_upload n u up st) = tasks st"
  "poisoned (put_upload n u up st) = poisoned st"
  "files (remove_upload n u st) = files st" "tasks (remove_upload n u st) = tasks st"
  "poisoned (remove_upload n u st) = poisoned st"
  by (simp_all add: put_upload_def remove_upload_def Let_def split: option.split)

lemma lookup_fields [simp]:
  "lookup_upload (st\<lparr>files := t\<rparr>) n u = lookup_upload st n u"
  "lookup_upload (st\<lparr>tasks := ks\<rparr>) n u = lookup_upload st n u"
  "lookup_upload (st\<lparr>poisoned := b\<rparr>) n u = lookup_upload st n u"
  by (simp_all add: lookup_upload_def)

section \<open>Paths\<close>

lemma temp_file_inj:
  assumes "documented_regex im" and "is_repo_name im n" and "is_repo_name im m"
  shows "upload_temp_file root n u = upload_temp_file root m v \<longleftrightarrow> n = m \<and> u = v"
proof -
  have "storage_path (LocalRepository n) = storage_path (LocalRepository m) \<Longrightarrow> n = m"
    using repository_folder [OF assms(1), of "LocalRepository n"] repository_folder [OF assms(1), of "LocalRepository m"]
      assms(2,3) by (metis is_repository.simps(1) option.inject repository.inject(1))
  then show ?thesis
    by (auto simp: upload_temp_file_def temp_root_def registry_root_def)
qed

lemma temp_not_blob:
  "upload_temp_file root n u \<noteq> final_file (blob_file_paths (registry_root root m) d)"
  "upload_temp_file root n u \<noteq> mediatype_file (blob_file_paths (registry_root root m) d)"
proof -
  have "length (upload_temp_file root n u) = length root + 4"
    "length (final_file (blob_file_paths (registry_root root m) d)) = length root + 7"
    "length (mediatype_file (blob_file_paths (registry_root root m) d)) = length root + 7"
    by (simp_all add: upload_temp_file_def temp_root_def registry_root_def blob_file_paths_def Let_def
        create_sharded_blob_root_def)
  then show "upload_temp_file root n u \<noteq> final_file (blob_file_paths (registry_root root m) d)"
    "upload_temp_file root n u \<noteq> mediatype_file (blob_file_paths (registry_root root m) d)"
    by auto
qed

lemma temp_not_final:
  assumes "valid_digest d"
  shows "upload_temp_file root n u \<noteq> final_file (blob_file_paths p d)"
proof
  assume eq: "upload_temp_file root n u = final_file (blob_file_paths p d)"
  have "last (butlast (upload_temp_file root n u)) = ''tmp''"
    "last (butlast (final_file (blob_file_paths p d))) = digest_hex d"
    by (simp_all add: upload_temp_file_def temp_root_def blob_file_paths_def Let_def
        create_sharded_blob_root_def butlast_append)
  with eq have "digest_hex d = ''tmp''" by simp
  then show False using valid_hex [OF assms] by simp
qed

section \<open>Steps\<close>

definition fresh_upload :: "path \<Rightarrow> repo_name \<Rightarrow> string \<Rightarrow> uploader \<Rightarrow> bool" where
  "fresh_upload root n u st \<longleftrightarrow>
     lookup_upload st n u = None \<and> content (files st) (upload_temp_file root n u) = None \<and>
     list_all (\<lambda>k. task_path k \<noteq> upload_temp_file root n u) (tasks st)"

text \<open>Identifiers are not reused (\<open>Uuid::now_v7\<close>), names and digests come from the parsers, and nobody
  makes a directory with the name of an upload.\<close>

inductive upload_step :: "regex \<Rightarrow> encoder \<Rightarrow> hash \<Rightarrow> path \<Rightarrow> uploader \<Rightarrow> uploader \<Rightarrow> bool"
  for im enc sha root where
  start: "upload_step im enc sha root st (snd (upload_start root u n st))"
    if "is_repo_name im n" and "fresh_upload root n u st"
| write_begins: "upload_step im enc sha root st (t\<lparr>tasks := k # tasks t\<rparr>)"
    if "write_begin n u expected st = (Inr k, t)"
| write_turns: "upload_step im enc sha root st (t\<lparr>tasks := xs @ k' # ys\<rparr>)"
    if "tasks st = xs @ k # ys" and "write_turn k chunk st = (Inr k', t)"
| write_breaks: "upload_step im enc sha root st (t\<lparr>tasks := xs @ ys\<rparr>)"
    if "tasks st = xs @ k # ys" and "write_turn k chunk st = (Inl e, t)"
| read_breaks: "upload_step im enc sha root st (st\<lparr>tasks := xs @ ys\<rparr>)"
    if "tasks st = xs @ k # ys"
| write_ends: "upload_step im enc sha root st ((snd (write_end k st))\<lparr>tasks := xs @ ys\<rparr>)"
    if "tasks st = xs @ k # ys"
| complete: "upload_step im enc sha root st (snd (upload_complete enc sha root n u d mt st))"
    if "valid_digest d" and "\<not> is_dir (files st) (upload_temp_file root n u)"
| abort: "upload_step im enc sha root st (snd (upload_abort n u st))"

inductive uploads_reachable :: "regex \<Rightarrow> encoder \<Rightarrow> hash \<Rightarrow> path \<Rightarrow> fs \<Rightarrow> uploader \<Rightarrow> bool"
  for im enc sha root s0 where
  initial: "uploads_reachable im enc sha root s0 \<lparr>uploads = [], poisoned = False, files = s0, tasks = []\<rparr>"
| further: "uploads_reachable im enc sha root s0 t"
    if "uploads_reachable im enc sha root s0 st" and "upload_step im enc sha root st t"

section \<open>The invariant\<close>

definition upload_ok :: "regex \<Rightarrow> path \<Rightarrow> uploader \<Rightarrow> repo_name \<Rightarrow> string \<Rightarrow> partial_upload \<Rightarrow> bool" where
  "upload_ok im root st n u up \<longleftrightarrow>
     is_repo_name im n \<and> upload_temp up = upload_temp_file root n u \<and> \<not> upload_done up \<and>
     (\<forall>h. hasher up = Some h \<longrightarrow>
        content_or_empty (files st) (upload_temp up) = h \<and> offset up = length h \<and>
        (\<forall>k \<in> set (tasks st). task_path k \<noteq> upload_temp up))"

definition task_ok :: "regex \<Rightarrow> path \<Rightarrow> uploader \<Rightarrow> write_task \<Rightarrow> bool" where
  "task_ok im root st k \<longleftrightarrow>
     is_repo_name im (task_name k) \<and> task_path k = upload_temp_file root (task_name k) (task_uuid k) \<and>
     (lookup_upload st (task_name k) (task_uuid k) \<noteq> None \<longrightarrow>
        content_or_empty (files st) (task_path k) = task_hasher k \<and>
        task_start k + task_written k = length (task_hasher k))"

definition uploads_ok :: "regex \<Rightarrow> hash \<Rightarrow> path \<Rightarrow> uploader \<Rightarrow> bool" where
  "uploads_ok im sha root st \<longleftrightarrow>
     (\<forall>n u up. lookup_upload st n u = Some up \<longrightarrow> upload_ok im root st n u up) \<and>
     (\<forall>k \<in> set (tasks st). task_ok im root st k) \<and>
     distinct (map task_path (tasks st)) \<and> verified sha (files st)"

lemma uploads_okD:
  assumes "uploads_ok im sha root st"
  shows "lookup_upload st n u = Some up \<Longrightarrow> upload_ok im root st n u up"
    and "k \<in> set (tasks st) \<Longrightarrow> task_ok im root st k"
    and "distinct (map task_path (tasks st))" and "verified sha (files st)"
  using assms by (auto simp: uploads_ok_def)

text \<open>Changing files that no upload uses.\<close>

lemma uploads_ok_files:
  assumes ok: "uploads_ok im sha root st" and v: "verified sha t"
    and same: "\<And>n u. lookup_upload st n u \<noteq> None \<Longrightarrow> is_repo_name im n \<Longrightarrow>
      content t (upload_temp_file root n u) = content (files st) (upload_temp_file root n u)"
  shows "uploads_ok im sha root (st\<lparr>files := t\<rparr>)"
proof -
  have "upload_ok im root (st\<lparr>files := t\<rparr>) n u up" if l: "lookup_upload st n u = Some up" for n u up
    using uploads_okD(1) [OF ok l] same [of n u] l by (auto simp: upload_ok_def content_or_empty_def)
  moreover have "task_ok im root (st\<lparr>files := t\<rparr>) k" if "k \<in> set (tasks st)" for k
    using uploads_okD(2) [OF ok that] same [of "task_name k" "task_uuid k"]
    by (auto simp: task_ok_def content_or_empty_def)
  ultimately show ?thesis using v uploads_okD(3) [OF ok] by (simp add: uploads_ok_def)
qed

lemma upload_ok_cong: "files t = files st \<Longrightarrow> tasks t = tasks st \<Longrightarrow> upload_ok im root t = upload_ok im root st"
  by (simp add: upload_ok_def fun_eq_iff)

lemma uploads_ok_remove:
  assumes ok: "uploads_ok im sha root st"
  shows "uploads_ok im sha root (remove_upload n u st)"
proof -
  have "task_ok im root (remove_upload n u st) k" if "k \<in> set (tasks st)" for k
    using uploads_okD(2) [OF ok that] by (auto simp: task_ok_def lookup_remove)
  then show ?thesis
    using uploads_okD(1,3,4) [OF ok] upload_ok_cong [of "remove_upload n u st" st]
    by (simp add: uploads_ok_def lookup_remove)
qed

lemma uploads_ok_poison: "uploads_ok im sha root (st\<lparr>poisoned := b\<rparr>) = uploads_ok im sha root st"
proof -
  have "task_ok im root (st\<lparr>poisoned := b\<rparr>) = task_ok im root st"
    by (simp add: task_ok_def fun_eq_iff)
  then show ?thesis using upload_ok_cong [of "st\<lparr>poisoned := b\<rparr>" st] by (simp add: uploads_ok_def)
qed

lemma other_path:
  assumes "distinct (map f (xs @ k # ys))" and "j \<in> set (xs @ ys)"
  shows "f j \<noteq> f k"
proof -
  have "f k \<notin> f ` set (xs @ ys)" using assms(1) by auto
  with assms(2) show ?thesis by (metis imageI)
qed

lemma uploads_ok_fewer:
  assumes ok: "uploads_ok im sha root st" and sub: "tasks st = xs @ k # ys"
  shows "uploads_ok im sha root (st\<lparr>tasks := xs @ ys\<rparr>)"
proof -
  have "upload_ok im root (st\<lparr>tasks := xs @ ys\<rparr>) n u up" if l: "lookup_upload st n u = Some up" for n u up
    using uploads_okD(1) [OF ok l] sub by (auto simp: upload_ok_def)
  moreover have "task_ok im root (st\<lparr>tasks := xs @ ys\<rparr>) j" if "j \<in> set (xs @ ys)" for j
    using uploads_okD(2) [OF ok, of j] sub that by (auto simp: task_ok_def)
  ultimately show ?thesis using uploads_okD(3,4) [OF ok] sub by (simp add: uploads_ok_def)
qed

lemma verified_off_blobs:
  assumes "verified sha s" and "\<And>q. q \<noteq> upload_temp_file root n u \<Longrightarrow> content t q = content s q"
  shows "verified sha t"
  unfolding verified_def
proof (intro allI impI)
  fix p d b assume d: "valid_digest d" and c: "content t (final_file (blob_file_paths p d)) = Some b"
  then have "content s (final_file (blob_file_paths p d)) = Some b"
    using assms(2) temp_not_final [OF d, of root n u p] by metis
  with assms(1) d show "digest_bytes d = Some (sha b)" by (rule verifiedD)
qed

section \<open>Every step keeps the invariant\<close>

lemma upload_start_keeps:
  assumes im: "documented_regex im" and ok: "uploads_ok im sha root st"
    and n: "is_repo_name im n" and fresh: "fresh_upload root n u st"
  shows "uploads_ok im sha root (snd (upload_start root u n st))"
proof -
  obtain r t where c: "folder_create_recursively (temp_root root n) (files st) = (r, t)" by fastforce
  have "keeps (agrees (\<lambda>_. True) s) (folder_create_recursively (temp_root root n))" for s
    by (rule frame_methods)
  then have same: "content t = content (files st)" using c by (rule content_kept)
  have ok': "uploads_ok im sha root (st\<lparr>files := t\<rparr>)"
    using uploads_okD(4) [OF ok] verified_same [OF same] by (intro uploads_ok_files [OF ok]) (simp_all add: same)
  let ?new = "put_upload n u (partial_upload_new (upload_temp_file root n u)) (st\<lparr>files := t\<rparr>)"
  have "upload_ok im root ?new m v up" if l: "lookup_upload ?new m v = Some up" for m v up
  proof (cases "m = n \<and> v = u")
    case True
    then have up: "up = partial_upload_new (upload_temp_file root n u)" using l by (simp add: lookup_put)
    have "content t (upload_temp_file root n u) = None" using same fresh by (simp add: fresh_upload_def)
    moreover have "\<forall>k \<in> set (tasks st). task_path k \<noteq> upload_temp_file root n u"
      using fresh by (simp add: fresh_upload_def list_all_iff)
    ultimately show ?thesis
      using True n by (simp add: up upload_ok_def partial_upload_new_def content_or_empty_def)
  next
    case False
    then show ?thesis using l uploads_okD(1) [OF ok', of m v up] by (auto simp: lookup_put upload_ok_def split: if_splits)
  qed
  moreover have "task_ok im root ?new k" if k: "k \<in> set (tasks st)" for k
  proof -
    have "\<not> (task_name k = n \<and> task_uuid k = u)"
      using uploads_okD(2) [OF ok k] fresh k by (auto simp: task_ok_def fresh_upload_def list_all_iff)
    then show ?thesis using uploads_okD(2) [OF ok', of k] k by (auto simp: task_ok_def lookup_put)
  qed
  ultimately have new: "uploads_ok im sha root ?new" using uploads_okD(3,4) [OF ok'] by (simp add: uploads_ok_def)
  show ?thesis
  proof (cases r)
    case (Inl e)
    then show ?thesis using c ok' by (simp add: upload_start_def of_files_def and_then_def)
  next
    case (Inr x)
    have "?new\<lparr>files := t\<rparr> = ?new" by (simp add: put_upload_def)
    then have "uploads_ok im sha root (?new\<lparr>files := t\<rparr>)" using new by (rule ssubst)
    then show ?thesis using Inr c ok' fresh
      by (simp add: upload_start_def of_files_def and_then_def locked_def Let_def fresh_upload_def)
  qed
qed

lemma begin_keeps:
  assumes im: "documented_regex im" and ok: "uploads_ok im sha root st"
    and run: "write_begin n u expected st = (Inr k, t)"
  shows "uploads_ok im sha root (t\<lparr>tasks := k # tasks t\<rparr>)"
proof -
  obtain up h where l: "lookup_upload st n u = Some up" and h: "hasher up = Some h"
    and k: "k = \<lparr>task_name = n, task_uuid = u, task_path = upload_temp up, task_hasher = h,
      task_start = offset up, task_written = 0\<rparr>" and t: "t = put_upload n u (up\<lparr>hasher := None\<rparr>) st"
    using run by (auto simp: write_begin_def locked_def split: if_splits option.splits)
  note this_ok = uploads_okD(1) [OF ok l]
  have "upload_ok im root (t\<lparr>tasks := k # tasks t\<rparr>) m v p"
    if lp: "lookup_upload (t\<lparr>tasks := k # tasks t\<rparr>) m v = Some p" for m v p
  proof (cases "m = n \<and> v = u")
    case True
    then show ?thesis using lp t this_ok by (auto simp: lookup_put upload_ok_def)
  next
    case False
    then have "upload_ok im root st m v p" using lp t uploads_okD(1) [OF ok] by (auto simp: lookup_put)
    then show ?thesis using False this_ok temp_file_inj [OF im] t k by (auto simp: upload_ok_def)
  qed
  moreover have "task_ok im root (t\<lparr>tasks := k # tasks t\<rparr>) j" if j: "j \<in> set (k # tasks st)" for j
    using j k h t l this_ok uploads_okD(2) [OF ok, of j]
    by (auto simp: task_ok_def upload_ok_def lookup_put split: if_splits)
  moreover have "upload_temp up \<notin> task_path ` set (tasks st)"
    using this_ok h by (auto simp: upload_ok_def)
  ultimately show ?thesis using uploads_okD(3,4) [OF ok] t k by (simp add: uploads_ok_def)
qed

lemma turn_files:
  assumes "write_turn k chunk st = (r, t)"
  shows "\<exists>c. t = st\<lparr>files := c\<rparr> \<and> (\<forall>q. q \<noteq> task_path k \<longrightarrow> content c q = content (files st) q) \<and>
    (\<forall>k'. r = Inr k' \<longrightarrow> k' = k\<lparr>task_hasher := task_hasher k @ chunk, task_written := task_written k + length chunk\<rparr> \<and>
       content_or_empty c (task_path k) = content_or_empty (files st) (task_path k) @ chunk)"
proof -
  obtain x c where a: "appender_append_all_bytes (task_path k) chunk (files st) = (x, c)" by fastforce
  from a have "(\<forall>q. q \<noteq> task_path k \<longrightarrow> content c q = content (files st) q) \<and>
    (x = Inr () \<longrightarrow> content_or_empty c (task_path k) = content_or_empty (files st) (task_path k) @ chunk)"
    by (cases rule: append_all_bytes_cases) (auto simp: content_or_empty_def)
  then show ?thesis using assms a
    by (cases x) (auto simp: write_turn_def of_files_def and_then_def prog_simps intro!: exI [of _ c])
qed

lemma turn_keeps:
  assumes im: "documented_regex im" and ok: "uploads_ok im sha root st"
    and ks: "tasks st = xs @ k # ys" and run: "write_turn k chunk st = (Inr k', t)"
  shows "uploads_ok im sha root (t\<lparr>tasks := xs @ k' # ys\<rparr>)"
proof -
  obtain c where t: "t = st\<lparr>files := c\<rparr>" and off: "\<And>q. q \<noteq> task_path k \<Longrightarrow> content c q = content (files st) q"
    and k': "k' = k\<lparr>task_hasher := task_hasher k @ chunk, task_written := task_written k + length chunk\<rparr>"
    and app: "content_or_empty c (task_path k) = content_or_empty (files st) (task_path k) @ chunk"
    using turn_files [OF run] by blast
  have kin: "k \<in> set (tasks st)" using ks by simp
  note kok = uploads_okD(2) [OF ok kin]
  let ?t = "t\<lparr>tasks := xs @ k' # ys\<rparr>"
  have "upload_ok im root ?t n u up" if l: "lookup_upload st n u = Some up" for n u up
    using uploads_okD(1) [OF ok l] ks off t k' by (auto simp: upload_ok_def content_or_empty_def)
  moreover have "task_ok im root ?t j" if j: "j \<in> set (xs @ ys)" for j
  proof -
    have "task_path j \<noteq> task_path k" using uploads_okD(3) [OF ok] ks j other_path by metis
    then show ?thesis using uploads_okD(2) [OF ok, of j] ks j t off by (auto simp: task_ok_def content_or_empty_def)
  qed
  moreover have "task_ok im root ?t k'" using kok t k' app by (auto simp: task_ok_def)
  moreover have "verified sha c"
    using uploads_okD(4) [OF ok] off kok verified_off_blobs [of sha "files st" root "task_name k" "task_uuid k" c]
    by (simp add: task_ok_def)
  ultimately show ?thesis using uploads_okD(3) [OF ok] ks t k' by (auto simp: uploads_ok_def)
qed

lemma break_keeps:
  assumes ok: "uploads_ok im sha root st"
    and ks: "tasks st = xs @ k # ys" and run: "write_turn k chunk st = (Inl e, t)"
  shows "uploads_ok im sha root (t\<lparr>tasks := xs @ ys\<rparr>)"
proof -
  obtain c where t: "t = st\<lparr>files := c\<rparr>" and off: "\<And>q. q \<noteq> task_path k \<Longrightarrow> content c q = content (files st) q"
    using turn_files [OF run] by blast
  have kin: "k \<in> set (tasks st)" using ks by simp
  let ?t = "t\<lparr>tasks := xs @ ys\<rparr>"
  have "upload_ok im root ?t n u up" if l: "lookup_upload st n u = Some up" for n u up
    using uploads_okD(1) [OF ok l] ks off t by (auto simp: upload_ok_def content_or_empty_def)
  moreover have "task_ok im root ?t j" if j: "j \<in> set (xs @ ys)" for j
  proof -
    have "task_path j \<noteq> task_path k" using uploads_okD(3) [OF ok] ks j other_path by metis
    then show ?thesis using uploads_okD(2) [OF ok, of j] ks j t off by (auto simp: task_ok_def content_or_empty_def)
  qed
  moreover have "verified sha c"
    using uploads_okD(4) [OF ok] off uploads_okD(2) [OF ok kin]
      verified_off_blobs [of sha "files st" root "task_name k" "task_uuid k" c]
    by (simp add: task_ok_def)
  ultimately show ?thesis using uploads_okD(3) [OF ok] ks t by (auto simp: uploads_ok_def)
qed

lemma end_keeps:
  assumes im: "documented_regex im" and ok: "uploads_ok im sha root st" and ks: "tasks st = xs @ k # ys"
  shows "uploads_ok im sha root ((snd (write_end k st))\<lparr>tasks := xs @ ys\<rparr>)"
proof (cases "poisoned st \<or> lookup_upload st (task_name k) (task_uuid k) = None")
  case True
  then have "snd (write_end k st) = st" by (auto simp: write_end_def locked_def split: option.split)
  then show ?thesis using uploads_ok_fewer [OF ok ks] by simp
next
  case False
  then obtain up where l: "lookup_upload st (task_name k) (task_uuid k) = Some up" and p: "\<not> poisoned st" by auto
  define up' where "up' = up\<lparr>hasher := Some (task_hasher k), offset := task_start k + task_written k\<rparr>"
  let ?t = "(put_upload (task_name k) (task_uuid k) up' st)\<lparr>tasks := xs @ ys\<rparr>"
  have kok: "task_ok im root st k" using uploads_okD(2) [OF ok] ks by simp
  note upok = uploads_okD(1) [OF ok l]
  have other: "task_path j \<noteq> task_path k" if "j \<in> set (xs @ ys)" for j
    using uploads_okD(3) [OF ok] ks that other_path by metis
  have "upload_ok im root ?t m v q" if lq: "lookup_upload ?t m v = Some q" for m v q
  proof (cases "m = task_name k \<and> v = task_uuid k")
    case True
    then have "q = up'" using lq by (simp add: lookup_put)
    moreover have "upload_temp up = task_path k" using upok kok by (simp add: upload_ok_def task_ok_def)
    ultimately show ?thesis using True upok kok l other by (auto simp: upload_ok_def task_ok_def up'_def)
  next
    case False
    then have "upload_ok im root st m v q" using lq uploads_okD(1) [OF ok] by (auto simp: lookup_put)
    then show ?thesis using ks by (auto simp: upload_ok_def)
  qed
  moreover have "task_ok im root ?t j" if j: "j \<in> set (xs @ ys)" for j
  proof -
    have jok: "task_ok im root st j" using uploads_okD(2) [OF ok] ks j by auto
    then have "\<not> (task_name j = task_name k \<and> task_uuid j = task_uuid k)"
      using other [OF j] kok by (auto simp: task_ok_def)
    with jok show ?thesis by (auto simp: task_ok_def lookup_put)
  qed
  ultimately have "uploads_ok im sha root ?t" using uploads_okD(3,4) [OF ok] ks by (simp add: uploads_ok_def)
  then show ?thesis using l p by (simp add: write_end_def locked_def up'_def)
qed

text \<open>Removing an upload and deleting its file, and completing it.\<close>

lemma drop_upload_loses: "loses {upload_temp up} s (drop_upload up s)"
  by (cases "deleter_delete (upload_temp up) s")
    (auto simp: drop_upload_def intro: delete_loses(1))

lemma removed_keeps:
  assumes im: "documented_regex im" and ok: "uploads_ok im sha root st"
    and l: "lookup_upload st n u = Some up" and v: "verified sha t"
    and off: "\<And>m v. upload_temp_file root m v \<noteq> upload_temp up \<Longrightarrow>
      content t (upload_temp_file root m v) = content (files st) (upload_temp_file root m v)"
  shows "uploads_ok im sha root ((remove_upload n u st)\<lparr>files := t\<rparr>)"
proof (rule uploads_ok_files [OF uploads_ok_remove [OF ok] v])
  fix m w
  assume "lookup_upload (remove_upload n u st) m w \<noteq> None" and m: "is_repo_name im m"
  then have "\<not> (m = n \<and> w = u)" by (auto simp: lookup_remove)
  then have "upload_temp_file root m w \<noteq> upload_temp up"
    using uploads_okD(1) [OF ok l] temp_file_inj [OF im m] by (auto simp: upload_ok_def)
  then show "content t (upload_temp_file root m w) = content (files (remove_upload n u st)) (upload_temp_file root m w)"
    using off by simp
qed

lemma dropped_keeps:
  assumes im: "documented_regex im" and ok: "uploads_ok im sha root st"
    and l: "lookup_upload st n u = Some up" and same: "content t = content (files st)"
  shows "uploads_ok im sha root ((remove_upload n u st)\<lparr>files := drop_upload up t\<rparr>)"
proof (rule removed_keeps [OF im ok l])
  have "verified sha t" using uploads_okD(4) [OF ok] verified_same [OF same] by simp
  then show "verified sha (drop_upload up t)" by (rule verified_loses [OF _ drop_upload_loses])
  show "content (drop_upload up t) (upload_temp_file root m v) = content (files st) (upload_temp_file root m v)"
    if "upload_temp_file root m v \<noteq> upload_temp up" for m v
    using drop_upload_loses [of up t] that same by (auto simp: loses_def)
qed

lemma abort_keeps:
  assumes "documented_regex im" and ok: "uploads_ok im sha root st"
  shows "uploads_ok im sha root (snd (upload_abort n u st))"
proof (cases "poisoned st \<or> lookup_upload st n u = None")
  case False
  then obtain up where "lookup_upload st n u = Some up" by auto
  with False dropped_keeps [OF assms this refl] show ?thesis
    by (simp add: upload_abort_def locked_def Let_def)
qed (use ok in \<open>auto simp: upload_abort_def locked_def split: option.split\<close>)

lemma rename_missing:
  assumes "renamer_rename p q s = (r, t)" and "content s p = None" and "\<not> is_dir s p"
  shows "\<exists>e. r = Inl e" and "content t = content s"
proof -
  have missing: "node_at u p = None" if "same_tree s u" for u
    using assms(2,3) that by (auto simp: content_def is_dir_def same_tree_def node_at_def split: option.splits node.splits)
  obtain r' where run: "std_rename p q s = (r', t)" and r: "r = map_sum (IoErrorAtPath p) id r'"
    using assms(1) by (auto simp: renamer_rename_def map_err_def split: prod.splits sum.splits)
  have "(\<exists>e. r' = Inl e) \<and> content t = content s"
    using run unfolding std_rename_def
    by (cases rule: call_cases) (auto simp: rename_body_def missing content_same)
  with r show "\<exists>e. r = Inl e" and "content t = content s" by auto
qed

text \<open>What \<open>complete\<close> leaves of the files, when the hasher is there and the digest is as claimed.\<close>

lemma commit_upload:
  assumes run: "commit_complete mt (c, s) = (r, y)" and c: "c = blob_commit_new temp (blob_file_paths p d)"
    and temp: "content_or_empty s temp = h" "\<not> is_dir s temp"
    and paths: "temp \<noteq> final_file (blob_file_paths p d)" "temp \<noteq> mediatype_file (blob_file_paths p d)"
  shows "\<forall>q. q \<notin> commit_files c \<longrightarrow> content (drop_commit y) q = content s q"
    and "content (drop_commit y) (commit_final c) \<in> {content s (commit_final c), None, Some h}"
    and "r = Inr () \<Longrightarrow> content (drop_commit y) (commit_final c) = Some h \<and>
      content (drop_commit y) (commit_mediatype c) = Some mt"
proof -
  obtain c' t where y: "y = (c', t)" by (cases y)
  have f: "commit_temp c = temp" "commit_final c = final_file (blob_file_paths p d)"
    "commit_mediatype c = mediatype_file (blob_file_paths p d)" "\<not> completed c" using c by (simp_all add: blob_commit_new_def)
  let ?S = "commit_files c" and ?u = "drop_commit y"
  have "(\<forall>q. q \<notin> ?S \<longrightarrow> content ?u q = content s q) \<and>
    content ?u (commit_final c) \<in> {content s (commit_final c), None, Some h} \<and>
    (r = Inr () \<longrightarrow> content ?u (commit_final c) = Some h \<and> content ?u (commit_mediatype c) = Some mt)"
  proof (cases "content s temp")
    case None
    obtain r1 t1 where rn: "renamer_rename temp (commit_final c) s = (r1, t1)" by fastforce
    note missing = rename_missing [OF rn None temp(2)]
    then have "(\<exists>e. r = Inl e) \<and> y = (c, t1)"
      using run rn f by (auto simp: commit_complete_def and_then_def on_files_def)
    moreover have "loses ?S s (drop_commit (c, t1))"
      using drop_loses [of c t1] missing(2) by (simp add: loses_def)
    ultimately show ?thesis by (auto simp: loses_def)
  next
    case (Some b)
    then have b: "b = h" "content s (commit_temp c) = Some h" using temp(1) f by (simp_all add: content_or_empty_def)
    have "commit_temp c \<noteq> commit_final c" using f paths(1) by simp
    with run [unfolded y] b(2) show ?thesis
    proof (cases rule: commit_complete_cases)
      case (unmoved e)
      then have "loses ?S s ?u" using y drop_loses [of c t] by (simp add: loses_def)
      then show ?thesis using unmoved by (auto simp: loses_def)
    next
      case committed
      then show ?thesis using y f paths blob_files_distinct(2) [of p d] by (simp add: drop_commit_def)
    next
      case (undone e u)
      then have "commit_files c' = ?S" by auto
      then have l: "loses ?S u ?u" using y undone(3) drop_loses [of c' t] loses_trans by auto
      have u: "content u (commit_final c) = Some h" "\<forall>q. q \<notin> ?S \<longrightarrow> content u q = content s q"
        using undone(4) paths f blob_files_distinct(2) [of p d] by auto
      then have "\<forall>q. q \<notin> ?S \<longrightarrow> content ?u q = content s q" using l unfolding loses_def by metis
      moreover have "content ?u (commit_final c) = Some h \<or> content ?u (commit_final c) = None"
        using l u(1) unfolding loses_def by metis
      ultimately show ?thesis using undone(1) by auto
    qed
  qed
  then show "\<forall>q. q \<notin> ?S \<longrightarrow> content ?u q = content s q"
    and "content ?u (commit_final c) \<in> {content s (commit_final c), None, Some h}"
    and "r = Inr () \<Longrightarrow> content ?u (commit_final c) = Some h \<and> content ?u (commit_mediatype c) = Some mt"
    by blast+
qed

lemma fold_add_dir_node: "q \<notin> set ps \<Longrightarrow> node_at (fold add_dir ps s) q = node_at s q"
  by (induction ps arbitrary: s) (auto simp: add_dir_def)

lemma create_recursively_elsewhere:
  assumes "folder_create_recursively p s = (r, t)" and "q \<notin> set (ancestors p)"
  shows "node_at t q = node_at s q"
proof -
  obtain x u where mk: "std_create_dir_all p s = (x, u)" by fastforce
  from mk have u: "node_at u q = node_at s q"
    unfolding std_create_dir_all_def
    by (cases rule: call_cases) (use assms(2) in \<open>auto simp: fold_add_dir_node same_tree_node_at split: if_splits\<close>)
  obtain y v where md: "std_metadata p u = (y, v)" by fastforce
  from md have "node_at v q = node_at u q"
    unfolding std_metadata_def
    by (cases rule: call_cases) (auto simp: same_tree_node_at split: option.splits)
  with u show ?thesis
    using assms(1) mk md
    by (auto simp: folder_create_recursively_def folder_canonicalize_def and_then_def map_err_def prog_simps
        split: sum.splits)
qed

lemma temp_not_above_blob:
  "upload_temp_file root n u \<notin> set (ancestors (final_root (blob_file_paths (registry_root root m) d)))"
proof
  assume "upload_temp_file root n u \<in> set (ancestors (final_root (blob_file_paths (registry_root root m) d)))"
  then have "below (upload_temp_file root n u) (final_root (blob_file_paths (registry_root root m) d))"
    by (auto simp: ancestors_def below_def)
  then show False
    by (auto simp: below_append upload_temp_file_def temp_root_def registry_root_def blob_file_paths_def Let_def
        create_sharded_blob_root_def)
qed

lemma complete_cases:
  assumes ok: "uploads_ok im sha root st" and dir: "\<not> is_dir (files st) (upload_temp_file root n u)"
    and run: "upload_complete enc sha root n u d mt st = (r, st')"
  obtains (refused) e where "r = Inl e" "st' = st"
  | (dropped) e b up t where "r = Inl e" "lookup_upload st n u = Some up" "content t = content (files st)"
      "st' = (remove_upload n u st)\<lparr>poisoned := b, files := drop_upload up t\<rparr>"
  | (committed) up h t where "lookup_upload st n u = Some up" "hasher up = Some h" "\<not> poisoned st"
      "digest_bytes d = Some (sha h)" "st' = (remove_upload n u st)\<lparr>files := t\<rparr>"
      "\<And>q. q \<notin> {upload_temp up, final_file (blob_file_paths (registry_root root n) d),
         mediatype_file (blob_file_paths (registry_root root n) d)} \<Longrightarrow> content t q = content (files st) q"
      "content t (final_file (blob_file_paths (registry_root root n) d)) \<in>
         {content (files st) (final_file (blob_file_paths (registry_root root n) d)), None, Some h}"
      "r = Inr () \<Longrightarrow> content t (final_file (blob_file_paths (registry_root root n) d)) = Some h \<and>
         content t (mediatype_file (blob_file_paths (registry_root root n) d)) = Some mt"
proof (cases "poisoned st \<or> lookup_upload st n u = None")
  case True
  then have "\<exists>e. r = Inl e \<and> st' = st"
    using run by (auto simp: upload_complete_def locked_def split: if_splits option.splits)
  then show thesis using refused by blast
next
  case False
  then obtain up where l: "lookup_upload st n u = Some up" and p: "\<not> poisoned st" by auto
  note upok = uploads_okD(1) [OF ok l]
  let ?p = "blob_file_paths (registry_root root n) d" and ?st = "remove_upload n u st"
  have same: "?st\<lparr>poisoned := poisoned st, files := t\<rparr> = ?st\<lparr>files := t\<rparr>" for t
    by (cases ?st) (use map_fields(6) [of n u st] in auto)
  show thesis
  proof (cases "hasher up")
    case None
    then show thesis using run l p dropped [of Panicked up "files st" True]
      by (simp add: upload_complete_def locked_def Let_def)
  next
    case (Some h)
    show thesis
    proof (cases "digest_bytes d = Some (sha h)")
      case False
      then have "(\<exists>e. r = Inl e) \<and> st' = ?st\<lparr>files := drop_upload up (files st)\<rparr>"
        using run l p Some by (auto simp: upload_complete_def locked_def Let_def)
      then show thesis using dropped [OF _ l, of _ "files st" "poisoned st"] same by auto
    next
      case True
      obtain x t where k: "folder_create_recursively (final_root ?p) (files st) = (x, t)" by fastforce
      have "keeps (agrees (\<lambda>_. True) s) (folder_create_recursively (final_root ?p))" for s
        by (rule frame_methods)
      then have kept: "content t = content (files st)" using k by (rule content_kept)
      obtain c where c: "c = blob_commit_new (upload_temp up) ?p" by simp
      obtain r1 y where cc: "commit_complete mt (c, t) = (r1, y)" by (metis prod.exhaust)
      show thesis
      proof (cases x)
        case (Inl e)
        then have "(\<exists>e. r = Inl e) \<and> st' = ?st\<lparr>files := drop_upload up t\<rparr>"
          using run l p Some True k by (auto simp: upload_complete_def locked_def Let_def)
        then show thesis using dropped [OF _ l kept, of _ "poisoned st"] same by auto
      next
        case (Inr a)
        have out: "r = map_sum (\<lambda>e. Failed (UploadFileError e)) id r1" "st' = ?st\<lparr>files := drop_commit y\<rparr>"
          using run l p Some True k Inr cc c by (auto simp: upload_complete_def locked_def Let_def)
        have temp: "upload_temp up = upload_temp_file root n u" using upok by (simp add: upload_ok_def)
        have "content_or_empty t (upload_temp up) = h"
          using upok Some kept by (auto simp: upload_ok_def content_or_empty_def)
        moreover have "\<not> is_dir t (upload_temp up)"
          using dir create_recursively_elsewhere [OF k temp_not_above_blob] by (simp add: temp is_dir_def)
        moreover have "upload_temp up \<noteq> final_file ?p" "upload_temp up \<noteq> mediatype_file ?p"
          using temp_not_blob temp by simp_all
        ultimately have commit:
          "\<forall>q. q \<notin> commit_files c \<longrightarrow> content (drop_commit y) q = content t q"
          "content (drop_commit y) (commit_final c) \<in> {content t (commit_final c), None, Some h}"
          "r1 = Inr () \<Longrightarrow> content (drop_commit y) (commit_final c) = Some h \<and>
            content (drop_commit y) (commit_mediatype c) = Some mt"
          using commit_upload [OF cc c] by blast+
        moreover have "commit_temp c = upload_temp up" "commit_final c = final_file ?p" "commit_mediatype c = mediatype_file ?p"
          using c by (simp_all add: blob_commit_new_def)
        ultimately show thesis
          using committed [OF l Some p True out(2)] out(1) kept by (cases r1) simp_all
      qed
    qed
  qed
qed

lemma verified_commit:
  assumes v: "verified sha s" and d: "valid_digest d" "digest_bytes d = Some (sha h)"
    and off: "\<And>q. q \<notin> {upload_temp_file root n u, final_file (blob_file_paths p d), mediatype_file (blob_file_paths p d)} \<Longrightarrow>
      content t q = content s q"
    and final: "content t (final_file (blob_file_paths p d)) \<in> {content s (final_file (blob_file_paths p d)), None, Some h}"
  shows "verified sha t"
  unfolding verified_def
proof (intro allI impI)
  fix q e b assume e: "valid_digest e" and c: "content t (final_file (blob_file_paths q e)) = Some b"
  show "digest_bytes e = Some (sha b)"
  proof (cases "final_file (blob_file_paths q e) = final_file (blob_file_paths p d)")
    case True
    then have "e = d" using final_file_other(3) [OF e d(1)] by blast
    then show ?thesis using c True final d verifiedD [OF v d(1), of p b] by auto
  next
    case False
    then have "content t (final_file (blob_file_paths q e)) = content s (final_file (blob_file_paths q e))"
      using off final_file_other(2) [OF e d(1)] temp_not_final [OF e] by (metis insertE singletonD)
    with c verifiedD [OF v e] show ?thesis by simp
  qed
qed

lemma complete_keeps:
  assumes im: "documented_regex im" and ok: "uploads_ok im sha root st" and d: "valid_digest d"
    and dir: "\<not> is_dir (files st) (upload_temp_file root n u)"
    and run: "upload_complete enc sha root n u d mt st = (r, st')"
  shows "uploads_ok im sha root st'"
  using ok dir run
proof (cases rule: complete_cases)
  case (refused e)
  then show ?thesis using ok by simp
next
  case (dropped e b up t)
  have "st' = ((remove_upload n u st)\<lparr>files := drop_upload up t\<rparr>)\<lparr>poisoned := b\<rparr>" using dropped(4) by simp
  with dropped_keeps [OF im ok dropped(2,3)] uploads_ok_poison show ?thesis by metis
next
  case (committed up h t)
  have temp: "upload_temp up = upload_temp_file root n u"
    using uploads_okD(1) [OF ok committed(1)] by (simp add: upload_ok_def)
  have "verified sha t"
    using committed(6,7) temp by (intro verified_commit [OF uploads_okD(4) [OF ok] d committed(4)]) auto
  then show ?thesis unfolding committed(5)
    by (rule removed_keeps [OF im ok committed(1)]) (use committed(6) temp_not_blob in auto)
qed

lemma step_keeps:
  assumes im: "documented_regex im"
  shows "upload_step im enc sha root st t \<Longrightarrow> uploads_ok im sha root st \<Longrightarrow> uploads_ok im sha root t"
proof (induction rule: upload_step.induct)
  case (start n u st)
  then show ?case by (intro upload_start_keeps [OF im])
next
  case (write_begins n u expected st k t)
  then show ?case by (intro begin_keeps [OF im])
next
  case (write_turns st xs k ys chunk k' t)
  then show ?case by (intro turn_keeps [OF im])
next
  case (write_breaks st xs k ys chunk e t)
  then show ?case by (intro break_keeps)
next
  case (read_breaks st xs k ys)
  then show ?case by (intro uploads_ok_fewer)
next
  case (write_ends st xs k ys)
  then show ?case by (intro end_keeps [OF im])
next
  case (complete d st n u mt)
  then show ?case using complete_keeps [OF im] by (metis prod.collapse)
next
  case (abort st n u)
  then show ?case by (intro abort_keeps [OF im])
qed

lemma reachable_ok:
  assumes "documented_regex im" and "verified sha s0"
  shows "uploads_reachable im enc sha root s0 st \<Longrightarrow> uploads_ok im sha root st"
proof (induction rule: uploads_reachable.induct)
  case initial
  then show ?case using assms(2) by (simp add: uploads_ok_def lookup_upload_def)
qed (rule step_keeps [OF assms(1)])

text \<open>C1: However the requests of many uploads alternate, and whichever reads and system calls fail,
  an upload that is completed stores under the claimed digest bytes that have it: as many as \<open>status\<close>
  answered before, with the media type of the request; and every other stored blob still has its
  digest.\<close>

theorem completed_upload_has_its_digest:
  assumes "documented_regex im" and "verified sha s0" and "uploads_reachable im enc sha root s0 st"
    and "valid_digest d" and "\<not> is_dir (files st) (upload_temp_file root n u)"
    and "upload_complete enc sha root n u d mt st = (Inr (), st')"
  shows "verified sha (files st') \<and>
    (\<exists>b. content (files st') (final_file (blob_file_paths (registry_root root n) d)) = Some b \<and>
       digest_bytes d = Some (sha b) \<and>
       content (files st') (mediatype_file (blob_file_paths (registry_root root n) d)) = Some mt \<and>
       upload_status n u st = (Inr (length b), st))"
proof -
  have ok: "uploads_ok im sha root st" by (rule reachable_ok [OF assms(1-3)])
  have "verified sha (files st')"
    using complete_keeps [OF assms(1) ok assms(4-6)] uploads_okD(4) by blast
  moreover from ok assms(5,6) have "\<exists>b. content (files st') (final_file (blob_file_paths (registry_root root n) d)) = Some b \<and>
       digest_bytes d = Some (sha b) \<and>
       content (files st') (mediatype_file (blob_file_paths (registry_root root n) d)) = Some mt \<and>
       upload_status n u st = (Inr (length b), st)"
  proof (cases rule: complete_cases)
    case (committed up h t)
    have "offset up = length h" using uploads_okD(1) [OF ok committed(1)] committed(2) by (auto simp: upload_ok_def)
    with committed show ?thesis by (simp add: upload_status_def locked_def)
  qed simp_all
  ultimately show ?thesis by blast
qed

section \<open>A complete upload, and one that breaks\<close>

definition example_name :: repo_name where
  "example_name = \<lparr>repo_name = ''a'', repo_namespace = None\<rparr>"

abbreviation no_uploads :: uploader where
  "no_uploads \<equiv> \<lparr>uploads = [], poisoned = False, files = example_tree None, tasks = []\<rparr>"

definition example_started :: uploader where
  "example_started = snd (upload_start [] ''u'' example_name no_uploads)"

definition example_task :: write_task where
  "example_task = \<lparr>task_name = example_name, task_uuid = ''u'', task_path = upload_temp_file [] example_name ''u'',
     task_hasher = [], task_start = 0, task_written = 0\<rparr>"

definition example_begun :: uploader where
  "example_begun = (snd (write_begin example_name ''u'' 0 example_started))\<lparr>tasks := [example_task]\<rparr>"

definition example_turned :: uploader where
  "example_turned = (snd (write_turn example_task ''x'' example_begun))\<lparr>tasks :=
     [example_task\<lparr>task_hasher := ''x'', task_written := 1\<rparr>]\<rparr>"

definition example_written :: uploader where
  "example_written = (snd (write_end (example_task\<lparr>task_hasher := ''x'', task_written := 1\<rparr>) example_turned))\<lparr>tasks := []\<rparr>"

lemma example_runs:
  "is_repo_name table_regex example_name" "fresh_upload [] example_name ''u'' no_uploads"
  "fst (write_begin example_name ''u'' 0 example_started) = Inr example_task"
  "tasks (snd (write_begin example_name ''u'' 0 example_started)) = []"
  "fst (write_turn example_task ''x'' example_begun) = Inr (example_task\<lparr>task_hasher := ''x'', task_written := 1\<rparr>)"
  "fst (upload_complete table_hex padded_hash [] example_name ''u'' example_digest ''text'' example_written) = Inr ()"
  "\<not> is_dir (files example_written) (upload_temp_file [] example_name ''u'')"
  by code_simp+

lemma no_files: "content (example_tree None) q = None"
  by (auto simp: content_def node_at_def example_tree_def split: option.split node.split dest!: map_of_SomeD)

lemma example_reached: "uploads_reachable table_regex table_hex padded_hash [] (example_tree None) example_written"
proof -
  let ?reached = "uploads_reachable table_regex table_hex padded_hash [] (example_tree None)"
  have 1: "?reached example_started"
    unfolding example_started_def
    by (rule uploads_reachable.further [OF uploads_reachable.initial upload_step.start [OF example_runs(1,2)]])
  have "write_begin example_name ''u'' 0 example_started = (Inr example_task, snd (write_begin example_name ''u'' 0 example_started))"
    by (simp add: prod_eq_iff example_runs(3))
  from uploads_reachable.further [OF 1 upload_step.write_begins [OF this]]
  have 2: "?reached example_begun" by (simp add: example_begun_def example_runs(4))
  have "tasks example_begun = [] @ example_task # []" by (simp add: example_begun_def)
  moreover have "write_turn example_task ''x'' example_begun =
      (Inr (example_task\<lparr>task_hasher := ''x'', task_written := 1\<rparr>), snd (write_turn example_task ''x'' example_begun))"
    by (simp add: prod_eq_iff example_runs(5))
  ultimately have "upload_step table_regex table_hex padded_hash [] example_begun
      ((snd (write_turn example_task ''x'' example_begun))\<lparr>tasks :=
        [] @ (example_task\<lparr>task_hasher := ''x'', task_written := 1\<rparr>) # []\<rparr>)"
    by (rule upload_step.write_turns)
  from uploads_reachable.further [OF 2 this] have 3: "?reached example_turned" by (simp add: example_turned_def)
  have "tasks example_turned = [] @ (example_task\<lparr>task_hasher := ''x'', task_written := 1\<rparr>) # []"
    by (simp add: example_turned_def)
  from uploads_reachable.further [OF 3 upload_step.write_ends [OF this]]
  show ?thesis by (simp add: example_written_def)
qed

theorem completed_upload_has_its_digest_witness:
  "\<exists>st b. upload_complete table_hex padded_hash [] example_name ''u'' example_digest ''text'' example_written = (Inr (), st) \<and>
     content (files st) (final_file (blob_file_paths (registry_root [] example_name) example_digest)) = Some b \<and>
     digest_bytes example_digest = Some (padded_hash b) \<and>
     upload_status example_name ''u'' example_written = (Inr (length b), example_written)"
proof -
  have v: "verified padded_hash (example_tree None)" by (simp add: verified_def no_files)
  obtain st where st: "upload_complete table_hex padded_hash [] example_name ''u'' example_digest ''text'' example_written = (Inr (), st)"
    using example_runs(6) by (metis prod.collapse)
  show ?thesis
    using completed_upload_has_its_digest [OF table_regex_documented v example_reached example_valid example_runs(7) st] st
    by blast
qed

section \<open>A broken chunk\<close>

lemma write_loop_result:
  "write_loop cap src k st = (r, t) \<Longrightarrow>
   (\<exists>c. t = st\<lparr>files := c\<rparr>) \<and> (\<forall>k'. r = Inr k' \<longrightarrow> task_name k' = task_name k \<and> task_uuid k' = task_uuid k)"
proof (induction cap src k st arbitrary: r t rule: write_loop.induct)
  case (1 cap src k st)
  obtain x src' where rd: "read_some cap src = (x, src')" by fastforce
  have same: "\<exists>c. st = st\<lparr>files := c\<rparr>" by (rule exI [of _ "files st"]) simp
  show ?case
  proof (cases x)
    case (Inl e)
    then show ?thesis using 1(2) rd same by (subst (asm) write_loop.simps) auto
  next
    case (Inr chunk)
    obtain y u where w: "write_turn k chunk st = (y, u)" by fastforce
    obtain c where c: "u = st\<lparr>files := c\<rparr>"
      "\<And>k'. y = Inr k' \<Longrightarrow> task_name k' = task_name k \<and> task_uuid k' = task_uuid k"
      using turn_files [OF w] by fastforce
    show ?thesis
    proof (cases "chunk = [] \<or> (\<exists>e. y = Inl e)")
      case True
      then show ?thesis using 1(2) rd Inr w c same by (subst (asm) write_loop.simps) (auto split: if_splits)
    next
      case False
      then obtain k' where y: "y = Inr k'" by (cases y) auto
      then have "write_loop cap src' k' u = (r, t)"
        using 1(2) rd Inr w False by (subst (asm) write_loop.simps) simp
      then have ih: "(\<exists>c. t = u\<lparr>files := c\<rparr>) \<and>
          (\<forall>j. r = Inr j \<longrightarrow> task_name j = task_name k' \<and> task_uuid j = task_uuid k')"
        using False by (intro 1(1) [OF rd [symmetric, unfolded Inr] refl _ w [symmetric, unfolded y] refl]) simp_all
      then obtain c' where "t = u\<lparr>files := c'\<rparr>" by blast
      then have "t = st\<lparr>files := c'\<rparr>" by (simp add: c(1))
      then show ?thesis using ih c(2) [OF y] by metis
    qed
  qed
qed

lemma broken_chunk:
  assumes "\<not> poisoned st" and "lookup_upload st n u = Some up" and "hasher up = Some h"
    and run: "write_chunk n u (offset up) src st = (Inl e, t)"
  shows "lookup_upload t n u = Some (up\<lparr>hasher := None\<rparr>)" and "\<not> poisoned t"
proof -
  let ?k = "\<lparr>task_name = n, task_uuid = u, task_path = upload_temp up, task_hasher = h,
    task_start = offset up, task_written = 0\<rparr>" and ?st = "put_upload n u (up\<lparr>hasher := None\<rparr>) st"
  have b: "write_begin n u (offset up) st = (Inr ?k, ?st)" using assms by (simp add: write_begin_def locked_def)
  obtain x v where l: "write_loop 65536 src ?k ?st = (x, v)" by fastforce
  note loop = write_loop_result [OF l]
  then obtain c where v: "v = ?st\<lparr>files := c\<rparr>" by blast
  have "t = v"
  proof (cases x)
    case (Inl e')
    then show ?thesis using run b l by (simp add: write_chunk_def and_then_def)
  next
    case (Inr k)
    then have "\<exists>m w. write_end k v = (Inr m, w)"
      using loop v assms(1) by (simp add: write_end_def locked_def lookup_put)
    then show ?thesis using run b l Inr by (auto simp: write_chunk_def and_then_def)
  qed
  then show "lookup_upload t n u = Some (up\<lparr>hasher := None\<rparr>)" and "\<not> poisoned t"
    using v assms(1) by (simp_all add: lookup_put)
qed

text \<open>C11: A chunk that breaks off poisons the service.  After a \<open>write_chunk\<close> that failed on the network or
  the disk, \<open>complete\<close> of that upload panics while it holds the mutex, and from then on \<open>status\<close>,
  \<open>write_chunk\<close>, \<open>abort\<close> and \<open>complete\<close> panic for every upload of every repository.\<close>

theorem broken_chunk_poisons_uploads:
  assumes "\<not> poisoned st" and "lookup_upload st n u = Some up" and "hasher up = Some h"
    and "write_chunk n u (offset up) src st = (Inl e, t)"
    and "upload_complete enc sha root n u d mt t = (r, v)"
  shows "r = Inl Panicked \<and> upload_status m w v = (Inl Panicked, v) \<and>
    write_chunk m w k src' v = (Inl Panicked, v) \<and> upload_abort m w v = (Inl Panicked, v) \<and>
    upload_complete enc sha root m w d' mt' v = (Inl Panicked, v)"
proof -
  have "r = Inl Panicked \<and> poisoned v"
    using broken_chunk [OF assms(1-4)] assms(5) by (auto simp: upload_complete_def locked_def Let_def)
  then show ?thesis
    by (simp add: upload_status_def write_chunk_def write_begin_def upload_abort_def upload_complete_def
        locked_def and_then_def)
qed

theorem broken_chunk_poisons_uploads_witness:
  "\<exists>t v. write_chunk example_name ''u'' 0 \<lparr>pending = [Broken ''reset''], delivered = []\<rparr> example_started =
       (Inl (Failed (NetworkError ''reset'')), t) \<and>
     upload_complete table_hex padded_hash [] example_name ''u'' example_digest ''text'' t = (Inl Panicked, v) \<and>
     upload_status \<lparr>repo_name = ''b'', repo_namespace = None\<rparr> ''w'' v = (Inl Panicked, v)"
proof -
  have start: "\<not> poisoned example_started"
    "lookup_upload example_started example_name ''u'' = Some (partial_upload_new (upload_temp_file [] example_name ''u''))"
    by code_simp+
  have "read_some 65536 \<lparr>pending = [Broken ''reset''], delivered = []\<rparr> = (Inl ''reset'', \<lparr>pending = [], delivered = []\<rparr>)"
    by (simp add: read_some_def)
  then have "\<exists>t. write_chunk example_name ''u'' 0 \<lparr>pending = [Broken ''reset''], delivered = []\<rparr> example_started =
      (Inl (Failed (NetworkError ''reset'')), t)"
    using start by (simp add: write_chunk_def write_begin_def locked_def partial_upload_new_def and_then_def write_loop.simps)
  then obtain t where t: "write_chunk example_name ''u'' 0 \<lparr>pending = [Broken ''reset''], delivered = []\<rparr> example_started =
      (Inl (Failed (NetworkError ''reset'')), t)" by blast
  obtain r v where v: "upload_complete table_hex padded_hash [] example_name ''u'' example_digest ''text'' t = (r, v)"
    by fastforce
  have "hasher (partial_upload_new p) = Some [] \<and> offset (partial_upload_new p) = 0" for p
    by (simp add: partial_upload_new_def)
  with broken_chunk_poisons_uploads [OF start _ _ v] t show ?thesis using v by fastforce
qed

text \<open>\<open>purge\<close> looks for names directly below the root, where the folders \<open>local\<close> and \<open>upstream\<close> are, and
  takes \<open>local\<close> for a repository: it fails before it comes to any upload.\<close>

lemma purge_misses_uploads:
  "fst (upload_purge table_regex Some [] example_started) = Inl (Failed (UploadFileError (IoError NotFound))) \<and>
   is_dir (files example_started) (temp_root [] example_name)"
  by code_simp

end
