(* ===== verification/TagStore.thy ===== *)
theory TagStore
  imports UploadSafety "HOL-Library.Char_ord" "HOL-Library.List_Lexorder"
begin

text \<open>
  Tags: \<open>FileTagStore\<close> (resin/src/tag_store.rs), one file per tag whose text is the digest it points at,
  and the pages of the tag list (resin/src/tags.rs).  Strings are ordered byte by byte.  A tag comes from
  the path of a request; \<open>PathBuf::push\<close> of a text that starts with a separator replaces the path.  The
  components \<open>..\<close> of a tag are not resolved here.
\<close>

section \<open>The store\<close>

definition path_components :: "string \<Rightarrow> path" where
  "path_components t = filter (\<lambda>c. c \<noteq> [] \<and> c \<noteq> ''.'') (split_on CHR ''/'' t)"

definition push_path :: "path \<Rightarrow> string \<Rightarrow> path" where
  "push_path p t =
     (if t \<noteq> [] \<and> hd t = CHR ''/'' then path_components t else p @ path_components t)"

datatype tag_error =
    TagFileError fs_error
  | TagDigestError digest_error
  | UnknownRepository string
  | UnknownTag string string

definition tags_path :: "path \<Rightarrow> repository \<Rightarrow> path" where
  "tags_path root r = root @ storage_path r @ [''_manifests'', ''tags'']"

definition assert_repository_exists :: "path \<Rightarrow> repository \<Rightarrow> (fs, tag_error, unit) prog" where
  "assert_repository_exists root r =
     and_then (gets (\<lambda>s. folder_exists s (root @ storage_path r)))
       (\<lambda>present. if present then ok () else fail (UnknownRepository (show_repository r)))"

definition tag_list :: "path \<Rightarrow> repository \<Rightarrow> (fs, tag_error, string list) prog" where
  "tag_list root r =
     and_then (assert_repository_exists root r) (\<lambda>_.
     and_then (gets (\<lambda>s. folder_exists s (tags_path root r))) (\<lambda>present.
       if \<not> present then ok []
       else and_then (map_err TagFileError (folder_entries (tags_path root r)))
         (\<lambda>es. ok (sort (map entry_name (filter (\<lambda>e. entry_kind e = FileKind) es))))))"

definition tag_read :: "path \<Rightarrow> repository \<Rightarrow> string \<Rightarrow> (fs, tag_error, digest) prog" where
  "tag_read root r tag =
     and_then (assert_repository_exists root r) (\<lambda>_.
     let p = push_path (tags_path root r) tag
     in and_then (gets (\<lambda>s. file_exists s p)) (\<lambda>present.
          if present then
            and_then (map_err TagFileError (reader_read_all p))
              (\<lambda>contents. of_result (map_sum TagDigestError id (digest_from_str (trim contents))))
          else fail (UnknownTag (show_repository r) tag)))"

definition tag_write :: "path \<Rightarrow> repository \<Rightarrow> string \<Rightarrow> digest \<Rightarrow> (fs, tag_error, unit) prog" where
  "tag_write root r tag d =
     and_then (assert_repository_exists root r) (\<lambda>_.
     and_then (gets (\<lambda>s. folder_exists s (tags_path root r))) (\<lambda>present.
     and_then (if present then ok ()
               else and_then (map_err TagFileError (folder_create_recursively (tags_path root r))) (\<lambda>_. ok ()))
       (\<lambda>_. map_err TagFileError (writer_write_all (push_path (tags_path root r) tag) (digest_text d)))))"

definition tag_delete :: "path \<Rightarrow> repository \<Rightarrow> string \<Rightarrow> (fs, tag_error, bool) prog" where
  "tag_delete root r tag =
     and_then (assert_repository_exists root r) (\<lambda>_.
     let p = push_path (tags_path root r) tag
     in and_then (gets (\<lambda>s. file_exists s p)) (\<lambda>present.
          if present then and_then (map_err TagFileError (deleter_delete p)) (\<lambda>_. ok True)
          else ok False))"

section \<open>Pages of the tag list\<close>

text \<open>\<open>partition_point\<close> of a sorted slice is the number of elements before the first that fails the
  predicate.\<close>

definition partition_point :: "('a \<Rightarrow> bool) \<Rightarrow> 'a list \<Rightarrow> nat" where
  "partition_point P xs = length (takeWhile P xs)"

definition paginate_tags :: "string list \<Rightarrow> string option \<Rightarrow> nat option \<Rightarrow> string list \<times> bool" where
  "paginate_tags tags last_tag n =
     (let start = (case last_tag of Some l \<Rightarrow> partition_point (\<lambda>t. t \<le> l) tags | None \<Rightarrow> 0);
          remaining = drop start tags
      in (case n of
            Some i \<Rightarrow> if i < length remaining then (take i remaining, True) else (remaining, False)
          | None \<Rightarrow> (remaining, False)))"

text \<open>The \<open>Link\<close> header of \<open>get_tag_list\<close>: where the next page starts.\<close>

definition next_page :: "string list \<times> bool \<Rightarrow> nat option \<Rightarrow> (nat \<times> string) option" where
  "next_page page n =
     (case (n, fst page) of
        (Some i, t # ts) \<Rightarrow> if snd page then Some (i, last (t # ts)) else None
      | _ \<Rightarrow> None)"

text \<open>A client that follows the links, for at most \<open>fuel\<close> pages.\<close>

fun follow_pages :: "nat \<Rightarrow> string list \<Rightarrow> string option \<Rightarrow> nat \<Rightarrow> string list list" where
  "follow_pages 0 tags l n = []"
| "follow_pages (Suc fuel) tags l n =
     (let page = paginate_tags tags l (Some n)
      in fst page # (case next_page page (Some n) of
           Some (i, l') \<Rightarrow> follow_pages fuel tags (Some l') i
         | None \<Rightarrow> []))"

lemma sorted_partition:
  assumes "sorted (xs @ y # ys)" and "distinct (xs @ y # ys)"
  shows "partition_point (\<lambda>t. t \<le> y) (xs @ y # ys) = Suc (length xs)"
proof -
  have le: "\<forall>x \<in> set xs. x \<le> y" and gt: "\<forall>z \<in> set ys. \<not> z \<le> y"
    using assms by (auto simp: sorted_append)
  have "takeWhile (\<lambda>t. t \<le> y) (xs @ y # ys) = xs @ [y]"
    using le gt by (cases ys) (auto simp: takeWhile_append2)
  then show ?thesis by (simp add: partition_point_def)
qed

lemma follow_from:
  assumes sorted: "sorted tags" "distinct tags" and n: "0 < n"
  shows "tags = done_tags @ left \<Longrightarrow> l = (if done_tags = [] then None else Some (last done_tags)) \<Longrightarrow>
    length left < fuel \<Longrightarrow> concat (follow_pages fuel tags l n) = left"
proof (induction fuel arbitrary: done_tags left l)
  case (Suc fuel)
  have start: "(case l of Some l \<Rightarrow> partition_point (\<lambda>t. t \<le> l) tags | None \<Rightarrow> 0) = length done_tags"
  proof (cases "done_tags = []")
    case False
    then have "tags = butlast done_tags @ last done_tags # left" using Suc.prems(1) by simp
    then have "partition_point (\<lambda>t. t \<le> last done_tags) tags = Suc (length (butlast done_tags))"
      using sorted_partition [of "butlast done_tags" "last done_tags" left] sorted by simp
    with False Suc.prems(2) show ?thesis by simp
  qed (simp add: Suc.prems(2))
  have count: "length tags - (case l of Some l \<Rightarrow> partition_point (\<lambda>t. t \<le> l) tags | None \<Rightarrow> 0) = length left"
    unfolding start by (simp add: Suc.prems(1))
  have rest: "drop (case l of Some l \<Rightarrow> partition_point (\<lambda>t. t \<le> l) tags | None \<Rightarrow> 0) tags = left"
    unfolding start by (simp add: Suc.prems(1))
  show ?case
  proof (cases "n < length left")
    case True
    then have page: "paginate_tags tags l (Some n) = (take n left, True)"
      by (simp add: paginate_tags_def Let_def rest count)
    have ne: "take n left \<noteq> []" using n True by auto
    then have "next_page (take n left, True) (Some n) = Some (n, last (take n left))"
      by (auto simp: next_page_def split: list.split)
    moreover have "concat (follow_pages fuel tags (Some (last (take n left))) n) = drop n left"
      using Suc.prems(1,3) ne n True
      by (intro Suc.IH [of "done_tags @ take n left"]) auto
    ultimately show ?thesis using page by simp
  next
    case False
    then have "paginate_tags tags l (Some n) = (left, False)"
      by (simp add: paginate_tags_def Let_def rest count)
    then show ?thesis by (simp add: next_page_def split: list.split)
  qed
qed simp

lemma tag_list_result:
  assumes run: "tag_list root r s = (Inr tags, t)" and wf: "wf_fs s"
  shows "sorted tags" and "distinct tags"
    and "tag \<in> set tags \<longleftrightarrow> is_file s (tags_path root r @ [tag])"
proof -
  let ?p = "tags_path root r"
  have "sorted tags \<and> distinct tags \<and> (\<forall>tag. tag \<in> set tags \<longleftrightarrow> is_file s (?p @ [tag]))"
  proof (cases "folder_exists s ?p")
    case False
    then have "tags = []"
      using run by (auto simp: tag_list_def assert_repository_exists_def and_then_def prog_simps split: if_splits)
    moreover have "\<not> is_file s (?p @ [tag])" for tag
    proof
      assume "is_file s (?p @ [tag])"
      then have "exists_path s (?p @ [tag])" by (auto simp: is_file_def exists_path_def split: option.splits)
      with wf have "is_dir s (butlast (?p @ [tag]))" unfolding wf_fs_def by blast
      then have "folder_exists s ?p" by (auto simp: folder_exists_def exists_path_def is_dir_def split: option.splits)
      with False show False by blast
    qed
    ultimately show ?thesis by simp
  next
    case True
    then obtain es u where es: "folder_entries ?p s = (Inr es, u)"
      and tags: "tags = sort (map entry_name (filter (\<lambda>e. entry_kind e = FileKind) es))"
      using run by (auto simp: tag_list_def assert_repository_exists_def and_then_def map_err_def prog_simps
          split: if_splits prod.splits sum.splits)
    have e: "es = map (\<lambda>(name, n). entry_of ?p name n) (children s ?p)" by (rule folder_entries_result [OF es])
    have names: "map entry_name es = map fst (children s ?p)" by (rule folder_entries_names [OF es])
    have "distinct (map entry_name es)" using names children_distinct by metis
    then have "distinct (map entry_name (filter (\<lambda>e. entry_kind e = FileKind) es))" by (rule distinct_map_filter)
    moreover have "tag \<in> set (map entry_name (filter (\<lambda>e. entry_kind e = FileKind) es)) \<longleftrightarrow> is_file s (?p @ [tag])" for tag
    proof -
      have "tag \<in> set (map entry_name (filter (\<lambda>e. entry_kind e = FileKind) es)) \<longleftrightarrow>
          (\<exists>m b. (tag, File m b) \<in> set (children s ?p))"
        by (auto simp: e entry_of_def image_iff split: node.splits) (metis node.exhaust)+
      then show ?thesis by (auto simp: children_iff is_file_def split: option.split node.split)
    qed
    ultimately show ?thesis by (simp add: tags)
  qed
  then show "sorted tags" and "distinct tags" and "tag \<in> set tags \<longleftrightarrow> is_file s (?p @ [tag])" by auto
qed


definition example_tags :: fs where
  "example_tags =
     \<lparr>nodes = map (\<lambda>n. (take n (tags_path [] example_repository), Dir root_meta)) [0..<5] @
        map (\<lambda>tag. (tags_path [] example_repository @ [tag], File root_meta [])) [''b'', ''latest'', ''a''],
      outcomes = [], creator = root_meta, known_users = [], known_groups = []\<rparr>"

lemma example_tags_tree: "wf_fs example_tags"
proof -
  have "\<forall>(q, n) \<in> set (nodes example_tags). q \<noteq> [] \<longrightarrow> is_dir example_tags (butlast q)" by code_simp
  then have "exists_path example_tags p \<Longrightarrow> p \<noteq> [] \<Longrightarrow> is_dir example_tags (butlast p)" for p
    by (auto simp: exists_path_def node_at_def dest!: map_of_SomeD)
  moreover have "is_dir example_tags []" by code_simp
  ultimately show ?thesis by (auto simp: wf_fs_def)
qed


section \<open>A tag that was written is read back\<close>

lemma push_safe: "safe_component tag \<Longrightarrow> push_path p tag = p @ [tag]"
  by (cases tag) (auto simp: push_path_def path_components_def safe_component_def split_on_no_sep)

lemma write_all_dirs:
  assumes "writer_write_all p b s = (r, t)" and "is_dir s q"
  shows "is_dir t q"
proof -
  obtain r' where w: "std_write p b s = (r', t)"
    using assms(1) by (auto simp: writer_write_all_def writer_write_all_bytes_def map_err_def split: prod.splits sum.splits)
  obtain x u where n: "next_outcome s = (x, u)" by (cases "next_outcome s") auto
  have u: "is_dir u q" using assms(2) next_outcome_same [OF n] by (simp add: same_tree_queries)
  have "is_dir u p \<Longrightarrow> creatable u p \<noteq> None" by (simp add: creatable_def)
  with w n u show ?thesis
    by (auto simp: std_write_def split: outcome.splits option.splits)
qed

lemma create_recursively_dirs:
  assumes "folder_create_recursively p s = (r, t)" and "is_dir s q"
  shows "is_dir t q"
proof -
  have keep: "is_dir v q \<Longrightarrow> is_dir (fold add_dir ps v) q" for ps v
    by (induction ps arbitrary: v) (auto simp: add_dir_def)
  obtain x u where mk: "std_create_dir_all p s = (x, u)" by fastforce
  from mk have u: "is_dir u q"
    unfolding std_create_dir_all_def
    by (cases rule: call_cases) (use assms(2) keep in \<open>auto simp: same_tree_queries split: if_splits\<close>)
  obtain y v where md: "std_metadata p u = (y, v)" by fastforce
  from md have "is_dir v q"
    unfolding std_metadata_def
    by (cases rule: call_cases) (use u in \<open>auto simp: same_tree_queries split: option.splits\<close>)
  with u show ?thesis
    using assms(1) mk md
    by (auto simp: folder_create_recursively_def folder_canonicalize_def and_then_def map_err_def prog_simps
        split: sum.splits)
qed

lemma tag_write_result:
  assumes "tag_write root r tag d s = (x, t)"
  shows "q \<noteq> push_path (tags_path root r) tag \<Longrightarrow> content t q = content s q"
    and "is_dir s q \<Longrightarrow> is_dir t q"
    and "x = Inr () \<Longrightarrow> content t (push_path (tags_path root r) tag) = Some (digest_text d) \<and>
      is_dir s (root @ storage_path r)"
proof -
  let ?p = "push_path (tags_path root r) tag" and ?repo = "root @ storage_path r"
  obtain y u where c: "folder_create_recursively (tags_path root r) s = (y, u)" by fastforce
  have "keeps (agrees (\<lambda>_. True) s) (folder_create_recursively (tags_path root r))" for s
    by (rule frame_methods)
  then have cu: "content u = content s" using c by (rule content_kept)
  have du: "is_dir s q \<Longrightarrow> is_dir u q" for q using create_recursively_dirs [OF c] by blast
  obtain z v where w: "writer_write_all ?p (digest_text d) s = (z, v)" by fastforce
  obtain z' v' where w': "writer_write_all ?p (digest_text d) u = (z', v')" by fastforce
  note wr = write_all_content [OF w] write_all_dirs [OF w] and wr' = write_all_content [OF w'] write_all_dirs [OF w']
  consider "\<not> is_dir s ?repo" | "is_dir s ?repo" "folder_exists s (tags_path root r)"
    | e where "is_dir s ?repo" "\<not> folder_exists s (tags_path root r)" "y = Inl e"
    | a where "is_dir s ?repo" "\<not> folder_exists s (tags_path root r)" "y = Inr a"
    by (cases y) auto
  then have "(\<forall>q. q \<noteq> ?p \<longrightarrow> content t q = content s q) \<and> (\<forall>q. is_dir s q \<longrightarrow> is_dir t q) \<and>
    (x = Inr () \<longrightarrow> content t ?p = Some (digest_text d) \<and> is_dir s ?repo)"
  proof cases
    case 1
    then have "(\<exists>e. x = Inl e) \<and> t = s" using assms
      by (auto simp: tag_write_def assert_repository_exists_def folder_exists_def and_then_def prog_simps)
    then show ?thesis by auto
  next
    case 2
    then have "folder_exists s ?repo" by (auto simp: folder_exists_def exists_path_def is_dir_def split: option.splits)
    then have "x = map_sum TagFileError id z \<and> t = v" using assms 2 w
      by (cases z) (auto simp: tag_write_def assert_repository_exists_def and_then_def map_err_def prog_simps)
    then show ?thesis using wr 2 by (cases z) auto
  next
    case (3 e)
    then have "folder_exists s ?repo" by (auto simp: folder_exists_def exists_path_def is_dir_def split: option.splits)
    then have "(\<exists>e. x = Inl e) \<and> t = u" using assms 3 c
      by (auto simp: tag_write_def assert_repository_exists_def and_then_def map_err_def prog_simps)
    then show ?thesis using cu du by auto
  next
    case (4 a)
    then have "folder_exists s ?repo" by (auto simp: folder_exists_def exists_path_def is_dir_def split: option.splits)
    then have "x = map_sum TagFileError id z' \<and> t = v'" using assms 4 c w'
      by (cases z') (auto simp: tag_write_def assert_repository_exists_def and_then_def map_err_def prog_simps)
    then show ?thesis using wr' 4 cu du by (cases z') auto
  qed
  then show "q \<noteq> ?p \<Longrightarrow> content t q = content s q" and "is_dir s q \<Longrightarrow> is_dir t q"
    and "x = Inr () \<Longrightarrow> content t ?p = Some (digest_text d) \<and> is_dir s ?repo"
    by blast+
qed

lemma digest_text_plain:
  assumes "valid_digest d"
  shows "trim (digest_text d) = digest_text d" and "is_utf8 (digest_text d)"
proof -
  obtain h where d: "digest_text d = ''sha256:'' @ h" "length h = 64" "list_all hex_lower h"
    using assms by (auto simp: valid_digest_iff)
  have hex: "plain_char c" if "hex_lower c" for c
    using that by (auto simp: hex_lower_def is_digit_def char_in_def plain_char_def)
  have "h \<noteq> []" using d(2) by auto
  then have "plain_char (last h)" using hex d(3) by (simp add: list_all_iff)
  with \<open>h \<noteq> []\<close> show "trim (digest_text d) = digest_text d"
    using d(1) by (intro trim_plain) (simp add: plain_char_def)
  have "ascii (digest_text d)" using d(1,3) hex by (auto simp: ascii_def plain_char_def list_all_iff)
  then show "is_utf8 (digest_text d)" by (rule ascii_utf8)
qed

lemma tag_read_stored:
  assumes "valid_digest d" and "calm t" and "is_dir t (root @ storage_path r)"
    and "content t (push_path (tags_path root r) tag) = Some (digest_text d)"
  shows "tag_read root r tag t = (Inr d, t)"
proof -
  let ?p = "push_path (tags_path root r) tag"
  have "folder_exists t (root @ storage_path r)" using assms(3)
    by (auto simp: folder_exists_def exists_path_def is_dir_def split: option.splits)
  moreover have "file_exists t ?p" using assms(4)
    by (auto simp: file_exists_def exists_path_def is_dir_def content_def split: option.splits node.splits)
  moreover have "reader_read_all ?p t = (Inr (digest_text d), t)"
    by (rule unix_files.read_stored [OF assms(2,4) digest_text_plain(2) [OF assms(1)]])
  ultimately show ?thesis using assms(1) digest_text_plain(1) [OF assms(1)]
    by (simp add: tag_read_def assert_repository_exists_def and_then_def map_err_def prog_simps Let_def valid_digest_def)
qed

text \<open>A tag that starts with a separator leaves the store: its file is the path it names.\<close>

lemma absolute_tag_escapes:
  assumes "tag_write root r (CHR ''/'' # tag) d s = (Inr (), t)"
  shows "content t (path_components tag) = Some (digest_text d)"
proof -
  have "push_path (tags_path root r) (CHR ''/'' # tag) = path_components tag"
    by (simp add: push_path_def path_components_def)
  then show ?thesis using tag_write_result(3) [OF assms refl] by simp
qed

end
