(* ===== verification/ProxyStore.thy ===== *)
theory ProxyStore
  imports TagStore
begin

text \<open>
  The store that the registry serves from: \<open>ProxyingBlobStore\<close> (resin/src/proxying_blob_store.rs), the
  local store in front of Docker Hub.  The HTTP client and the exchange of tokens are parameters; a
  request that times out is an error of theirs.  \<open>get\<close> of a blob that is not there answers with a stream
  that is fed by saving the remote body: a \<open>stream\<close> is the bytes the client receives and how it ends.
  Between the lookup and the save other requests are served; \<open>meanwhile\<close> is what they do to the files.
\<close>

section \<open>Requests and responses\<close>

type_synonym header = "string \<times> string"

datatype http_method = GetRequest | HeadRequest

record request =
  request_method :: http_method
  request_path :: string
  request_headers :: "header list"

datatype response =
    OkayResponse "header list" "read list"
  | CreatedResponse "header list" "read list"
  | NoContentResponse "header list"
  | ErrorResponse nat "header list" "string option"

record upstream_client =
  execute :: "string \<Rightarrow> request \<Rightarrow> string + response"
  fetch_token :: "upstream \<Rightarrow> string list \<Rightarrow> string + string option"

definition named_header :: "string \<Rightarrow> header \<Rightarrow> bool" where
  "named_header name h \<longleftrightarrow> to_ascii_lowercase (fst h) = to_ascii_lowercase name"

definition get_header_value :: "header list \<Rightarrow> string \<Rightarrow> store_error \<Rightarrow> store_error + string" where
  "get_header_value hs name e =
     (case List.find (named_header name) hs of Some h \<Rightarrow> Inr (snd h) | None \<Rightarrow> Inl e)"

definition require_docker_hub :: "upstream \<Rightarrow> store_error + unit" where
  "require_docker_hub u = (if u = DockerHub then Inr () else Inl (UnsupportedUpstream (canonical_host u)))"

definition reference_path :: "string list \<Rightarrow> string \<Rightarrow> resource_kind \<Rightarrow> string" where
  "reference_path p reference kind =
     ''/v2/'' @ show_repository_path p @ ''/'' @
       (case kind of BlobKind \<Rightarrow> ''blobs'' | ManifestKind \<Rightarrow> ''manifests'') @ ''/'' @ reference"

definition remote_failed :: "string \<Rightarrow> string \<Rightarrow> store_error" where
  "remote_failed reference details = FailedToRetrieveDigest reference (RemoteFailure details)"

definition authorization_headers :: "string option \<Rightarrow> header list" where
  "authorization_headers token =
     (case token of Some t \<Rightarrow> [(''authorization'', ''Bearer '' @ t)] | None \<Rightarrow> [])"

definition get_media_type :: "header list \<Rightarrow> digest \<Rightarrow> store_error + string" where
  "get_media_type hs d =
     get_header_value hs ''content-type'' (remote_failed (digest_text d) ''Response did not include media type'')"

text \<open>What a request for a reference is answered with, or why not.\<close>

definition remote_request ::
    "upstream_client \<Rightarrow> http_method \<Rightarrow> upstream \<Rightarrow> string list \<Rightarrow> string \<Rightarrow> resource_kind \<Rightarrow> store_error + response" where
  "remote_request c m u p reference kind =
     (case require_docker_hub u of
        Inl e \<Rightarrow> Inl e
      | Inr _ \<Rightarrow>
          (case fetch_token c u p of
             Inl e \<Rightarrow> Inl (remote_failed reference e)
           | Inr token \<Rightarrow>
               map_sum (remote_failed reference) id
                 (execute c (api_host u)
                    \<lparr>request_method = m, request_path = reference_path p reference kind,
                     request_headers = authorization_headers token\<rparr>)))"

definition remote_status :: "upstream \<Rightarrow> string \<Rightarrow> nat \<Rightarrow> string option \<Rightarrow> store_error" where
  "remote_status u reference status body =
     (if status = 404 then DigestNotFound reference
      else if status = 401 \<and> u = DockerHub then DigestNotFound reference
      else remote_failed reference
        (''status '' @ show_nat status @ '': '' @ (case body of Some b \<Rightarrow> b | None \<Rightarrow> [])))"

definition remote_get ::
    "upstream_client \<Rightarrow> upstream \<Rightarrow> string list \<Rightarrow> digest \<Rightarrow> resource_kind \<Rightarrow> store_error + string \<times> read list" where
  "remote_get c u p d kind =
     (case remote_request c GetRequest u p (digest_text d) kind of
        Inl e \<Rightarrow> Inl e
      | Inr (OkayResponse hs body) \<Rightarrow> map_sum id (\<lambda>mt. (mt, body)) (get_media_type hs d)
      | Inr (CreatedResponse hs body) \<Rightarrow> map_sum id (\<lambda>mt. (mt, body)) (get_media_type hs d)
      | Inr (NoContentResponse _) \<Rightarrow> Inl (DigestNotFound (digest_text d))
      | Inr (ErrorResponse status _ body) \<Rightarrow> Inl (remote_status u (digest_text d) status body))"

definition remote_stats ::
    "upstream_client \<Rightarrow> upstream \<Rightarrow> string list \<Rightarrow> digest \<Rightarrow> resource_kind \<Rightarrow> store_error + stats" where
  "remote_stats c u p d kind =
     (case remote_request c HeadRequest u p (digest_text d) kind of
        Inl e \<Rightarrow> Inl e
      | Inr (OkayResponse hs _) \<Rightarrow>
          (case get_media_type hs d of
             Inl e \<Rightarrow> Inl e
           | Inr mt \<Rightarrow>
               (case get_header_value hs ''content-length'' (remote_failed (digest_text d) ''Missing content length'') of
                  Inl e \<Rightarrow> Inl e
                | Inr v \<Rightarrow>
                    (case parse_uint (2 ^ 64 - 1) v of
                       Inl _ \<Rightarrow> Inl (remote_failed (digest_text d) ''Invalid content length'')
                     | Inr n \<Rightarrow> Inr \<lparr>stat_size = n, stat_mediatype = mt\<rparr>)))
      | Inr (ErrorResponse status _ body) \<Rightarrow> Inl (remote_status u (digest_text d) status body)
      | Inr _ \<Rightarrow> Inl (remote_failed (digest_text d) ''Unexpected response''))"

definition remote_exists ::
    "upstream_client \<Rightarrow> upstream \<Rightarrow> string list \<Rightarrow> digest \<Rightarrow> resource_kind \<Rightarrow> store_error + bool" where
  "remote_exists c u p d kind =
     (case remote_stats c u p d kind of
        Inr _ \<Rightarrow> Inr True
      | Inl (DigestNotFound _) \<Rightarrow> Inr False
      | Inl e \<Rightarrow> Inl e)"

definition remote_resolve_reference ::
    "upstream_client \<Rightarrow> upstream \<Rightarrow> string list \<Rightarrow> string \<Rightarrow> resource_kind \<Rightarrow> store_error + digest" where
  "remote_resolve_reference c u p reference kind =
     (case remote_request c HeadRequest u p reference kind of
        Inl e \<Rightarrow> Inl e
      | Inr (OkayResponse hs _) \<Rightarrow>
          (case get_header_value hs ''docker-content-digest''
              (remote_failed reference ''Missing Docker-Content-Digest header'') of
             Inl e \<Rightarrow> Inl e
           | Inr v \<Rightarrow> map_sum (\<lambda>_. remote_failed reference ''Invalid digest'') id (digest_from_str v))
      | Inr (ErrorResponse status _ body) \<Rightarrow> Inl (remote_status u reference status body)
      | Inr _ \<Rightarrow> Inl (remote_failed reference ''Unexpected response''))"

section \<open>The proxying store\<close>

definition not_local :: "repository \<Rightarrow> (store_error + unit)" where
  "not_local r = (case require_local r of Inr _ \<Rightarrow> Inr () | Inl _ \<Rightarrow> Inl (StoreNotLocal (show_repository r)))"

definition proxy_save ::
    "encoder \<Rightarrow> hash \<Rightarrow> path \<Rightarrow> repository \<Rightarrow> digest \<Rightarrow> string \<Rightarrow> resource_kind \<Rightarrow> (reading, store_error, unit) prog" where
  "proxy_save enc sha root r d mt kind =
     and_then (of_result (not_local r)) (\<lambda>_. store_save enc sha root r d mt kind)"

datatype stream = Stream string "store_error option"

definition proxy_get ::
    "upstream_client \<Rightarrow> encoder \<Rightarrow> hash \<Rightarrow> path \<Rightarrow> (fs \<Rightarrow> fs) \<Rightarrow> repository \<Rightarrow> digest \<Rightarrow> resource_kind \<Rightarrow>
     (fs, store_error, stream) prog" where
  "proxy_get c enc sha root meanwhile r d kind s =
     (case store_get root r d kind s of
        (Inr b, t) \<Rightarrow> (Inr (Stream b None), t)
      | (Inl (DigestNotFound _), t) \<Rightarrow>
          (case as_upstream r of
             None \<Rightarrow> (Inl (DigestNotFound (digest_text d)), t)
           | Some (u, p) \<Rightarrow>
               (case remote_get c u p d kind of
                  Inl e \<Rightarrow> (Inl e, t)
                | Inr (mt, body) \<Rightarrow>
                    (case store_save enc sha root r d mt kind (\<lparr>pending = body, delivered = []\<rparr>, meanwhile t) of
                       (Inr _, (src, v)) \<Rightarrow> (Inr (Stream (delivered src) None), v)
                     | (Inl e, (src, v)) \<Rightarrow> (Inr (Stream (delivered src) (Some e)), v))))
      | (Inl e, t) \<Rightarrow> (Inl e, t))"

definition proxy_exists ::
    "upstream_client \<Rightarrow> path \<Rightarrow> repository \<Rightarrow> digest \<Rightarrow> resource_kind \<Rightarrow> (fs, store_error, bool) prog" where
  "proxy_exists c root r d kind =
     and_then (store_exists root r d kind) (\<lambda>present.
       if present then ok True
       else (case as_upstream r of
               None \<Rightarrow> ok False
             | Some (u, p) \<Rightarrow> of_result (remote_exists c u p d kind)))"

definition proxy_stats ::
    "upstream_client \<Rightarrow> path \<Rightarrow> repository \<Rightarrow> digest \<Rightarrow> resource_kind \<Rightarrow> (fs, store_error, stats) prog" where
  "proxy_stats c root r d kind =
     and_then (attempt (store_stats root r d kind)) (\<lambda>x.
       case x of
         Inr st \<Rightarrow> ok st
       | Inl (DigestNotFound _) \<Rightarrow>
           (case as_upstream r of
              None \<Rightarrow> fail (DigestNotFound (digest_text d))
            | Some (u, p) \<Rightarrow> of_result (remote_stats c u p d kind))
       | Inl e \<Rightarrow> fail e)"

definition proxy_delete :: "path \<Rightarrow> repository \<Rightarrow> digest \<Rightarrow> resource_kind \<Rightarrow> (fs, store_error, unit) prog" where
  "proxy_delete root r d kind = and_then (of_result (not_local r)) (\<lambda>_. store_delete root r d kind)"

definition proxy_resolve_reference ::
    "upstream_client \<Rightarrow> repository \<Rightarrow> string \<Rightarrow> resource_kind \<Rightarrow> store_error + digest" where
  "proxy_resolve_reference c r reference kind =
     (case store_resolve_reference reference of
        Inr d \<Rightarrow> Inr d
      | Inl (DigestNotFound _) \<Rightarrow>
          (case as_upstream r of
             None \<Rightarrow> Inl (DigestNotFound reference)
           | Some (u, p) \<Rightarrow> remote_resolve_reference c u p reference kind)
      | Inl e \<Rightarrow> Inl e)"

section \<open>What the client receives\<close>


text \<open>An example: the blob comes from upstream in one chunk.\<close>

definition example_client :: upstream_client where
  "example_client =
     \<lparr>execute = \<lambda>_ _. Inr (OkayResponse [(''Content-Type'', ''text'')] [Chunk ''x'']), fetch_token = \<lambda>_ _. Inr None\<rparr>"

definition example_upstream :: repository where
  "example_upstream = UpstreamRepository DockerHub [''library'', ''a'']"

abbreviation upstream_root :: path where
  "upstream_root \<equiv> blob_root_of [] example_upstream BlobKind"

abbreviation upstream_commit :: blob_commit where
  "upstream_commit \<equiv>
     blob_commit_new (temp_file upstream_root example_digest) (blob_file_paths upstream_root example_digest)"

definition example_made :: fs where
  "example_made = snd (create_unverified_file upstream_root example_digest (example_tree None))"

definition example_cached :: fs where
  "example_cached = snd (save_single table_hex padded_hash example_digest ''text'' ''x'' upstream_commit example_made)"

lemma example_fetch:
  "store_get [] example_upstream example_digest BlobKind (example_tree None) =
     (Inl (DigestNotFound (digest_text example_digest)), example_tree None)"
  "store_exists [] example_upstream example_digest BlobKind (example_tree None) = (Inr False, example_tree None)"
  "create_unverified_file upstream_root example_digest (example_tree None) = (Inr upstream_commit, example_made)"
  "save_single table_hex padded_hash example_digest ''text'' ''x'' upstream_commit example_made = (Inr (), example_cached)"
  "remote_get example_client DockerHub [''library'', ''a''] example_digest BlobKind = Inr (''text'', [Chunk ''x''])"
proof -
  show "store_get [] example_upstream example_digest BlobKind (example_tree None) =
      (Inl (DigestNotFound (digest_text example_digest)), example_tree None)"
    and "store_exists [] example_upstream example_digest BlobKind (example_tree None) = (Inr False, example_tree None)"
    and "remote_get example_client DockerHub [''library'', ''a''] example_digest BlobKind = Inr (''text'', [Chunk ''x''])"
    by code_simp+
  have "fst (create_unverified_file upstream_root example_digest (example_tree None)) = Inr upstream_commit"
    and "fst (save_single table_hex padded_hash example_digest ''text'' ''x'' upstream_commit example_made) = Inr ()"
    by code_simp+
  then show "create_unverified_file upstream_root example_digest (example_tree None) = (Inr upstream_commit, example_made)"
    and "save_single table_hex padded_hash example_digest ''text'' ''x'' upstream_commit example_made = (Inr (), example_cached)"
    by (simp_all add: prod_eq_iff example_made_def example_cached_def)
qed


text \<open>When another request has stored the blob meanwhile, \<open>save\<close> returns without reading, and the
  client's stream ends cleanly after no bytes at all.\<close>

lemma stored_meanwhile_gives_empty_stream:
  assumes "store_get root r d kind s = (Inl (DigestNotFound x), u)" and "as_upstream r = Some (up, p)"
    and "remote_get c up p d kind = Inr (mt, body)"
    and "store_exists root r d kind (meanwhile u) = (Inr True, v)"
  shows "proxy_get c enc sha root meanwhile r d kind s = (Inr (Stream [] None), v)"
  using assms by (simp add: proxy_get_def store_save_def and_then_def on_files_def prog_simps)

end
