(* ===== verification/Manifests.thy ===== *)
theory Manifests
  imports ProxyStore
begin

text \<open>
  The handlers of manifests and blobs (resin/src/manifest.rs, resin/src/blobs.rs) and who may write
  (resin/src/authorize.rs): a reference is a digest or a tag, a manifest that is pushed under a tag is
  stored and then tagged, one that is deleted loses its tags.  The services that know the registered
  seedlings and that are told of a push are parameters; of a response only what depends on the stores is
  kept.
\<close>

section \<open>Errors\<close>

datatype server_error =
    BlobUnknown string
  | ManifestUnknown string
  | BadRequest
  | MethodNotAllowed
  | Internal
  | InvalidRepositoryName
  | SeedlingNotRegistered string
  | SeedlingReserved string

definition to_manifest_error :: "store_error \<Rightarrow> server_error" where
  "to_manifest_error e = (case e of DigestNotFound d \<Rightarrow> ManifestUnknown d | _ \<Rightarrow> Internal)"

definition to_blob_error :: "store_error \<Rightarrow> server_error" where
  "to_blob_error e = (case e of DigestNotFound d \<Rightarrow> BlobUnknown d | _ \<Rightarrow> Internal)"

definition of_repository_error :: "repository_error \<Rightarrow> server_error" where
  "of_repository_error e = (case e of NotLocal _ \<Rightarrow> MethodNotAllowed | _ \<Rightarrow> InvalidRepositoryName)"

section \<open>Who may write\<close>

datatype registration = Registered | NotRegistered | RegistrationInvalidName | Reserved

definition authorize_write :: "(string \<Rightarrow> string + registration) \<Rightarrow> repository \<Rightarrow> server_error + repo_name" where
  "authorize_write registered r =
     (case require_local r of
        Inl e \<Rightarrow> Inl (of_repository_error e)
      | Inr n \<Rightarrow>
          (case registered (show_name n) of
             Inl _ \<Rightarrow> Inl Internal
           | Inr Registered \<Rightarrow> Inr n
           | Inr NotRegistered \<Rightarrow> Inl (SeedlingNotRegistered (show_name n))
           | Inr RegistrationInvalidName \<Rightarrow> Inl InvalidRepositoryName
           | Inr Reserved \<Rightarrow> Inl (SeedlingReserved (show_name n))))"

section \<open>References\<close>

definition get_digest_from_reference ::
    "upstream_client \<Rightarrow> path \<Rightarrow> repository \<Rightarrow> string \<Rightarrow> (fs, server_error, digest) prog" where
  "get_digest_from_reference c root r reference s =
     (case digest_from_str reference of
        Inr d \<Rightarrow> (Inr d, s)
      | Inl _ \<Rightarrow>
          (let resolve = map_sum
                 (\<lambda>e. case e of DigestNotFound _ \<Rightarrow> ManifestUnknown reference | _ \<Rightarrow> Internal) id
                 (proxy_resolve_reference c r reference ManifestKind)
           in (case r of
                 LocalRepository _ \<Rightarrow>
                   (case tag_read root r reference s of
                      (Inr d, t) \<Rightarrow> (Inr d, t)
                    | (Inl (UnknownRepository _), t) \<Rightarrow> (resolve, t)
                    | (Inl (UnknownTag _ _), t) \<Rightarrow> (resolve, t)
                    | (Inl _, t) \<Rightarrow> (Inl BadRequest, t))
               | UpstreamRepository _ _ \<Rightarrow> (resolve, s))))"

section \<open>Reading\<close>

record manifest_info =
  info_size :: nat
  info_mediatype :: string
  info_digest :: digest

definition manifest_info ::
    "upstream_client \<Rightarrow> path \<Rightarrow> repository \<Rightarrow> string \<Rightarrow> (fs, server_error, manifest_info) prog" where
  "manifest_info c root r reference =
     and_then (get_digest_from_reference c root r reference) (\<lambda>d.
     and_then (map_err to_manifest_error (proxy_stats c root r d ManifestKind)) (\<lambda>st.
       ok \<lparr>info_size = stat_size st, info_mediatype = stat_mediatype st, info_digest = d\<rparr>))"

definition read_manifest ::
    "upstream_client \<Rightarrow> encoder \<Rightarrow> hash \<Rightarrow> path \<Rightarrow> (fs \<Rightarrow> fs) \<Rightarrow> repository \<Rightarrow> string \<Rightarrow>
     (fs, server_error, manifest_info \<times> stream) prog" where
  "read_manifest c enc sha root meanwhile r reference =
     and_then (manifest_info c root r reference) (\<lambda>i.
     and_then (map_err to_manifest_error (proxy_get c enc sha root meanwhile r (info_digest i) ManifestKind))
       (\<lambda>body. ok (i, body)))"

definition read_blob_info ::
    "upstream_client \<Rightarrow> path \<Rightarrow> repository \<Rightarrow> string \<Rightarrow> (fs, server_error, nat \<times> digest) prog" where
  "read_blob_info c root r raw =
     (case digest_from_str raw of
        Inl _ \<Rightarrow> fail BadRequest
      | Inr d \<Rightarrow> and_then (map_err to_blob_error (proxy_stats c root r d BlobKind)) (\<lambda>st. ok (stat_size st, d)))"

definition read_blob ::
    "upstream_client \<Rightarrow> encoder \<Rightarrow> hash \<Rightarrow> path \<Rightarrow> (fs \<Rightarrow> fs) \<Rightarrow> repository \<Rightarrow> string \<Rightarrow>
     (fs, server_error, nat \<times> stream) prog" where
  "read_blob c enc sha root meanwhile r raw =
     and_then (read_blob_info c root r raw) (\<lambda>(size, d).
     and_then (map_err to_blob_error (proxy_get c enc sha root meanwhile r d BlobKind)) (\<lambda>body. ok (size, body)))"

definition delete_blob :: "path \<Rightarrow> repository \<Rightarrow> string \<Rightarrow> (fs, server_error, unit) prog" where
  "delete_blob root r raw =
     (case digest_from_str raw of
        Inl _ \<Rightarrow> fail BadRequest
      | Inr d \<Rightarrow> map_err to_blob_error (proxy_delete root r d BlobKind))"

section \<open>Writing\<close>

definition cursor :: "string \<Rightarrow> source" where
  "cursor body = \<lparr>pending = (if body = [] then [] else [Chunk body]), delivered = []\<rparr>"

definition compute_hash :: "encoder \<Rightarrow> hash \<Rightarrow> string \<Rightarrow> server_error + digest" where
  "compute_hash enc sha body = map_sum (\<lambda>_. BadRequest) id (digest_from_bytes enc (sha body))"

definition save_body ::
    "encoder \<Rightarrow> hash \<Rightarrow> path \<Rightarrow> repository \<Rightarrow> digest \<Rightarrow> string \<Rightarrow> string \<Rightarrow> (fs, server_error, unit) prog" where
  "save_body enc sha root r d mt body s =
     (case proxy_save enc sha root r d mt ManifestKind (cursor body, s) of
        (x, (src, t)) \<Rightarrow> (map_sum (\<lambda>_. Internal) id x, t))"

definition content_type :: "string option \<Rightarrow> string" where
  "content_type h = (case h of Some mt \<Rightarrow> mt | None \<Rightarrow> ''application/octet-stream'')"

text \<open>The response names the manifest; bract is told the name of the repository just before it is sent,
  and its answer is only reported.\<close>

record created =
  location :: string
  created_digest :: digest
  notified :: string

definition write_manifest ::
    "encoder \<Rightarrow> hash \<Rightarrow> path \<Rightarrow> repo_name \<Rightarrow> string \<Rightarrow> string option \<Rightarrow> string \<Rightarrow> (fs, server_error, created) prog" where
  "write_manifest enc sha root n reference mt body =
     (let r = LocalRepository n in
      and_then (of_result (compute_hash enc sha body)) (\<lambda>computed.
      and_then
        (case digest_from_str reference of
           Inr claimed \<Rightarrow>
             if computed \<noteq> claimed then fail BadRequest
             else and_then (save_body enc sha root r claimed (content_type mt) body) (\<lambda>_. ok claimed)
         | Inl _ \<Rightarrow>
             and_then (save_body enc sha root r computed (content_type mt) body) (\<lambda>_.
             and_then (map_err (\<lambda>_. Internal) (tag_write root r reference computed)) (\<lambda>_. ok computed)))
        (\<lambda>d. ok \<lparr>location = ''/v2/'' @ show_name n @ ''/manifests/'' @ digest_text d, created_digest = d,
                  notified = show_name n\<rparr>)))"

text \<open>Deleting: the tags that point at the manifest go as well; what goes wrong there is only reported.\<close>

definition remove_tag_pointing_to :: "path \<Rightarrow> repository \<Rightarrow> digest \<Rightarrow> string \<Rightarrow> (fs, server_error, unit) prog" where
  "remove_tag_pointing_to root r d tag =
     and_then (attempt (tag_read root r tag)) (\<lambda>x.
       if x = Inr d then ignore (tag_delete root r tag) else ok ())"

definition remove_tags_pointing_to :: "path \<Rightarrow> repository \<Rightarrow> digest \<Rightarrow> (fs, server_error, unit) prog" where
  "remove_tags_pointing_to root r d =
     and_then (attempt (tag_list root r)) (\<lambda>x.
       case x of
         Inl _ \<Rightarrow> ok ()
       | Inr tags \<Rightarrow> for_each (remove_tag_pointing_to root r d) tags)"

definition delete_manifest :: "path \<Rightarrow> repo_name \<Rightarrow> string \<Rightarrow> (fs, server_error, unit) prog" where
  "delete_manifest root n reference =
     (case digest_from_str reference of
        Inl _ \<Rightarrow> fail MethodNotAllowed
      | Inr d \<Rightarrow>
          and_then (map_err to_manifest_error (proxy_delete root (LocalRepository n) d ManifestKind))
            (\<lambda>_. remove_tags_pointing_to root (LocalRepository n) d))"

section \<open>A reader that holds its bytes\<close>

definition chunk_bytes :: "read \<Rightarrow> string" where
  "chunk_bytes r = (case r of Chunk b \<Rightarrow> b | Broken _ \<Rightarrow> [])"

definition whole_source :: "source \<Rightarrow> string" where
  "whole_source src = delivered src @ concat (map chunk_bytes (pending src))"

fun full_chunk :: "read \<Rightarrow> bool" where
  "full_chunk (Chunk b) \<longleftrightarrow> b \<noteq> []"
| "full_chunk (Broken _) \<longleftrightarrow> False"

definition steady :: "source \<Rightarrow> bool" where
  "steady src \<longleftrightarrow> list_all full_chunk (pending src)"

lemma read_steady:
  assumes "read_some n src = (x, src')" and "steady src" and "0 < n"
  shows "steady src'" and "whole_source src' = whole_source src"
    and "\<exists>b. x = Inr b \<and> (b = [] \<longrightarrow> pending src' = [])"
  using assms
  by (auto simp: read_some_def steady_def whole_source_def chunk_bytes_def split: list.splits read.splits if_splits)

lemma fill_steady:
  "fill_buffer cap acc src = (x, src') \<Longrightarrow> steady src \<Longrightarrow>
   steady src' \<and> whole_source src' = whole_source src \<and>
   (\<exists>b. x = Inr b \<and> (b = acc \<longrightarrow> length acc < cap \<longrightarrow> pending src' = []))"
proof (induction cap acc src arbitrary: x src' rule: fill_buffer.induct)
  case (1 cap acc src)
  show ?case
  proof (cases "length acc < cap")
    case True
    obtain y src1 where rd: "read_some (cap - length acc) src = (y, src1)" by fastforce
    note st = read_steady [OF rd "1.prems"(2)]
    from st(3) True obtain b where y: "y = Inr b" "b = [] \<longrightarrow> pending src1 = []" by auto
    show ?thesis
    proof (cases "b = []")
      case True
      then show ?thesis using "1.prems"(1) \<open>length acc < cap\<close> rd y st
        by (subst (asm) fill_buffer.simps) auto
    next
      case False
      then have rec: "fill_buffer cap (acc @ b) src1 = (x, src')"
        using "1.prems"(1) True rd y by (subst (asm) fill_buffer.simps) simp
      have "\<exists>c. z = (acc @ b) @ c" if "x = Inr z" for z using fill_buffer_result rec that by metis
      then show ?thesis
        using "1.IH" [OF True rd [symmetric, unfolded y(1)] refl False rec] st True False by fastforce
    qed
  qed (use "1.prems" in \<open>subst (asm) fill_buffer.simps, auto\<close>)
qed

lemma copy_steady:
  "copy_hashed cap d temp hashed (src, s) = (Inr h, (src', t)) \<Longrightarrow> steady src \<Longrightarrow> 0 < cap \<Longrightarrow>
   delivered src' = whole_source src"
proof (induction cap d temp hashed "(src, s)" arbitrary: src s h src' t rule: copy_hashed.induct)
  case (1 cap d temp hashed src s)
  obtain x src1 where fb: "fill_buffer cap [] src = (x, src1)" by fastforce
  note st = fill_steady [OF fb "1.prems"(2)]
  then obtain b where x: "x = Inr b" "b = [] \<longrightarrow> pending src1 = []" using "1.prems"(3) by auto
  show ?case
  proof (cases "b = []")
    case True
    then have "src' = src1" using "1.prems"(1) fb x by (subst (asm) copy_hashed.simps) simp
    then show ?thesis using st x True by (simp add: whole_source_def)
  next
    case False
    obtain y u where w: "buffered_write_all temp b s = (y, u)" by fastforce
    obtain a where "y = Inr a" using "1.prems"(1) fb x False w by (subst (asm) copy_hashed.simps) (auto split: sum.splits)
    then have "copy_hashed cap d temp (hashed @ b) (src1, u) = (Inr h, (src', t))"
      using "1.prems"(1) fb x False w by (subst (asm) copy_hashed.simps) simp
    then have "delivered src' = whole_source src1"
      using "1.hyps" [OF fb [symmetric, unfolded x(1)] refl False w [symmetric, unfolded \<open>y = Inr a\<close>] refl] st "1.prems"(3)
      by blast
    then show ?thesis using st by simp
  qed
qed

section \<open>A manifest that was pushed is pulled\<close>

lemma hashed_read_steady:
  assumes "hashed_read_to_temp_file sha d temp (src, s) = (Inr h, (src', t))" and "steady src"
  shows "delivered src' = whole_source src"
proof -
  obtain y u where o: "create_buffered_file_writer temp s = (y, u)" by fastforce
  obtain r v w where c: "copy_hashed buffer_len d temp [] (src, u) = (r, (v, w))" by (metis prod.exhaust)
  have "\<exists>a b. y = Inr a \<and> r = Inr b \<and> src' = v"
    using assms(1) o c
    by (cases y; cases r) (auto simp: hashed_read_to_temp_file_def and_then_def on_files_def failing_def map_err_def)
  then show ?thesis using copy_steady [OF _ assms(2)] c by (auto simp: buffer_len_def)
qed

lemma store_save_fresh:
  assumes run: "store_save enc sha root r d mt kind (src, s) = (Inr (), (src', t))" and st: "steady src"
    and absent: "store_exists root r d kind s = (Inr False, s1)"
    and fresh: "content s (temp_file (blob_root_of root r kind) d) = None" and "delivered src = []"
  shows "content t (final_file (blob_file_paths (blob_root_of root r kind) d)) = Some (whole_source src)"
    and "content t (mediatype_file (blob_file_paths (blob_root_of root r kind) d)) = Some mt"
proof -
  let ?p = "blob_root_of root r kind"
  let ?c = "blob_commit_new (temp_file ?p d) (blob_file_paths ?p d)"
  obtain x2 s2 where g: "local_blob_root root r kind s1 = (x2, s2)" by fastforce
  note rooted = local_blob_root_result [OF g]
  obtain x3 s3 where k: "create_unverified_file ?p d s2 = (x3, s3)" by fastforce
  note made = create_unverified_result [OF k]
  have "x2 = Inr ?p"
    using run absent g rooted(2) by (cases x2) (auto simp: store_save_def and_then_def on_files_def failing_def map_err_def prog_simps)
  moreover from this have "x3 = Inr ?c"
    using run absent g k made(2) by (cases x3) (auto simp: store_save_def and_then_def on_files_def failing_def map_err_def prog_simps)
  ultimately have save: "save_unverified enc sha d mt ?c (src, s3) = (Inr (), (src', t))"
    using run absent g k by (simp add: store_save_def and_then_def on_files_def failing_def map_err_def prog_simps)
  obtain y v w where h: "hashed_read_to_temp_file sha d (commit_temp ?c) (src, s3) = (y, (v, w))" by (metis prod.exhaust)
  have "\<exists>b. y = Inr b \<and> src' = v"
    using save h by (cases y) (auto simp: save_unverified_def split: prod.splits)
  then have del: "delivered src' = whole_source src" using hashed_read_steady [OF _ st] h by auto
  have "content s3 = content s"
    using made(1) rooted(1) store_exists_result(1) [OF absent] by simp
  then have empty: "content_or_empty s3 (temp_file ?p d) = []" using fresh by (simp add: content_or_empty_def)
  have c: "commit_temp ?c = temp_file ?p d" "commit_final ?c = final_file (blob_file_paths ?p d)"
    "commit_mediatype ?c = mediatype_file (blob_file_paths ?p d)" "\<not> completed ?c"
    by (simp_all add: blob_commit_new_def)
  obtain b where b: "content t (final_file (blob_file_paths ?p d)) = Some b" "delivered src' = delivered src @ b"
    "content t (mediatype_file (blob_file_paths ?p d)) = Some mt"
    using save_unverified_result(3) [OF save _ _ _ c(4) refl] blob_files_distinct [of ?p d] empty
    by (auto simp: received_def c)
  show "content t (final_file (blob_file_paths ?p d)) = Some (whole_source src)"
    and "content t (mediatype_file (blob_file_paths ?p d)) = Some mt"
    using b del \<open>delivered src = []\<close> by simp_all
qed

lemma exists_above: "wf_fs t \<Longrightarrow> exists_path t (p @ q) \<Longrightarrow> q \<noteq> [] \<Longrightarrow> is_dir t p"
proof (induction q rule: rev_induct)
  case (snoc x xs)
  then have "is_dir t (p @ xs)" unfolding wf_fs_def by (metis append.assoc append_is_Nil_conv butlast_snoc list.distinct(1))
  then show ?case using snoc by (cases "xs = []") (auto simp: exists_path_def is_dir_def split: option.splits)
qed simp

lemma create_existing:
  assumes "calm t" and wf: "wf_fs t" and dir: "is_dir t q"
  shows "folder_create_recursively q t = (Inr q, t)"
proof -
  have above: "is_dir t a" if an: "a \<in> set (ancestors q)" for a
  proof -
    obtain j where a: "a = take j q" using an unfolding ancestors_def set_map by blast
    show ?thesis
    proof (cases "drop j q = []")
      case True
      then have "a = q" using a by simp
      then show ?thesis using dir by simp
    next
      case False
      have "exists_path t (a @ drop j q)" using dir a by (auto simp: exists_path_def is_dir_def split: option.splits)
      then show ?thesis using exists_above [OF wf] False by blast
    qed
  qed
  have "fold add_dir ps t = t" if "set ps \<subseteq> set (ancestors q)" for ps
    using that
  proof (induction ps)
    case (Cons a ps)
    then have "is_dir t a" using above by simp
    then have "exists_path t a" by (auto simp: exists_path_def is_dir_def split: option.splits)
    with Cons show ?case by (simp add: add_dir_def)
  qed simp
  moreover have "\<not> list_ex (is_file t) (ancestors q)"
  proof -
    have "\<not> is_file t a" if "is_dir t a" for a
      using that by (auto simp: is_file_def is_dir_def split: option.splits node.splits)
    with above show ?thesis by (auto simp: list_ex_iff)
  qed
  moreover obtain n where "node_at t q = Some n" using dir by (auto simp: is_dir_def split: option.splits)
  ultimately show ?thesis using assms(1)
    by (simp add: folder_create_recursively_def folder_canonicalize_def std_create_dir_all_def std_metadata_def
        and_then_def map_err_def prog_simps)
qed

text \<open>Reading a stored manifest back, when nothing interferes.\<close>

lemma stored_is_served:
  assumes calm: "calm t" and wf: "wf_fs t"
    and b: "content t (final_file (blob_file_paths (blob_root_of root r ManifestKind) d)) = Some b"
    and mt: "content t (mediatype_file (blob_file_paths (blob_root_of root r ManifestKind) d)) = Some mt" "is_utf8 mt"
  shows "store_stats root r d ManifestKind t = (Inr \<lparr>stat_size = length b, stat_mediatype = trim mt\<rparr>, t)"
    and "store_get root r d ManifestKind t = (Inr b, t)"
proof -
  let ?p = "blob_root_of root r ManifestKind"
  let ?f = "final_file (blob_file_paths ?p d)" and ?m = "mediatype_file (blob_file_paths ?p d)"
  have f: "?f = ?p @ [''blobs'', ''sha256'', take 2 (digest_hex d), digest_hex d, digest_hex d]"
    by (simp add: blob_file_paths_def Let_def create_sharded_blob_root_def)
  obtain m where node: "node_at t ?f = Some (File m b)" using b by (auto simp: content_def split: option.splits node.splits)
  then have ex: "exists_path t ?f" "file_exists t ?f" by (auto simp: exists_path_def file_exists_def is_dir_def)
  have "is_dir t ?p" using exists_above [OF wf, of ?p] ex(1) f by simp
  then have "folder_create_recursively ?p t = (Inr ?p, t)" by (rule create_existing [OF calm wf])
  then have root: "local_blob_root root r ManifestKind t = (Inr ?p, t)"
    by (simp add: local_blob_root_def blob_root_of_def and_then_def prog_simps)
  have meta: "inspect_read_metadata ?f t = (Inr (entry_of (butlast ?f) (last ?f) (File m b)), t)"
    using calm node f
    by (simp add: inspect_read_metadata_def folder_pop_def std_metadata_def and_then_def map_err_def prog_simps)
  have text_read: "reader_read_all ?m t = (Inr mt, t)" by (rule unix_files.read_stored [OF calm mt])
  show "store_stats root r d ManifestKind t = (Inr \<lparr>stat_size = length b, stat_mediatype = trim mt\<rparr>, t)"
    using root ex meta text_read
    by (simp add: store_stats_def failing_def and_then_def map_err_def prog_simps Let_def entry_of_def)
  have "reader_read_all_bytes ?f t = (Inr b, t)"
    using calm node by (simp add: reader_read_all_bytes_def std_read_calm map_err_def)
  then show "store_get root r d ManifestKind t = (Inr b, t)"
    using root ex by (simp add: store_get_def create_reader_def failing_def and_then_def map_err_def prog_simps Let_def)
qed

lemma tag_off_blobs:
  assumes "safe_component tag"
  shows "final_file (blob_file_paths (blob_root_of root r ManifestKind) d) \<noteq> push_path (tags_path root r) tag"
    and "mediatype_file (blob_file_paths (blob_root_of root r ManifestKind) d) \<noteq> push_path (tags_path root r) tag"
  using assms by (simp_all add: push_safe tags_path_def blob_root_of_def blob_file_paths_def Let_def create_sharded_blob_root_def)


text \<open>An example: the manifest \<open>x\<close> is pushed as \<open>latest\<close>.\<close>

abbreviation manifest_root :: path where
  "manifest_root \<equiv> blob_root_of [] (LocalRepository example_name) ManifestKind"

abbreviation manifest_commit :: blob_commit where
  "manifest_commit \<equiv>
     blob_commit_new (temp_file manifest_root example_digest) (blob_file_paths manifest_root example_digest)"

definition push_1 :: fs where
  "push_1 = snd (store_exists [] (LocalRepository example_name) example_digest ManifestKind (example_tree None))"

definition push_2 :: fs where
  "push_2 = snd (local_blob_root [] (LocalRepository example_name) ManifestKind push_1)"

definition push_3 :: fs where
  "push_3 = snd (create_unverified_file manifest_root example_digest push_2)"

definition push_4 :: fs where
  "push_4 = snd (save_single table_hex padded_hash example_digest ''text'' ''x'' manifest_commit push_3)"

definition push_5 :: fs where
  "push_5 = snd (tag_write [] (LocalRepository example_name) ''latest'' example_digest push_4)"

definition is_tree :: "(path \<times> node) list \<Rightarrow> bool" where
  "is_tree ns \<longleftrightarrow>
     list_all (\<lambda>(q, n). case map_of ns (butlast q) of Some (Dir _) \<Rightarrow> True | _ \<Rightarrow> False) ns \<and>
     list_ex (\<lambda>(q, n). q = []) ns"

lemma is_tree_wf: "is_tree (nodes s) \<Longrightarrow> wf_fs s"
proof -
  assume tree: "is_tree (nodes s)"
  then have parent: "is_dir s (butlast q)" if "exists_path s q" for q
    using that by (force simp: is_tree_def list_all_iff exists_path_def is_dir_def node_at_def dest!: map_of_SomeD)
  moreover have "exists_path s []"
    using tree by (force simp: is_tree_def list_ex_iff exists_path_def node_at_def map_of_eq_None_iff)
  then have "is_dir s []" using parent by force
  ultimately show ?thesis by (simp add: wf_fs_def)
qed

lemma example_push_steps:
  "fst (store_exists [] (LocalRepository example_name) example_digest ManifestKind (example_tree None)) = Inr False"
  "fst (local_blob_root [] (LocalRepository example_name) ManifestKind push_1) = Inr manifest_root"
  "fst (create_unverified_file manifest_root example_digest push_2) = Inr manifest_commit"
  "fst (save_single table_hex padded_hash example_digest ''text'' ''x'' manifest_commit push_3) = Inr ()"
  "fst (tag_write [] (LocalRepository example_name) ''latest'' example_digest push_4) = Inr ()"
  "digest_from_bytes table_hex (padded_hash ''x'') = Inr example_digest"
  "digest_from_str ''latest'' = Inl InvalidDigest"
  "outcomes push_5 = []" "is_tree (nodes push_5)"
  by code_simp+

lemma example_push:
  "write_manifest table_hex padded_hash [] example_name ''latest'' (Some ''text'') ''x'' (example_tree None) =
    (Inr \<lparr>location = ''/v2/'' @ show_name example_name @ ''/manifests/'' @ digest_text example_digest,
          created_digest = example_digest, notified = show_name example_name\<rparr>, push_5)"
proof -
  have s4: "save_single table_hex padded_hash example_digest ''text'' ''x'' manifest_commit push_3 = (Inr (), push_4)"
    using example_push_steps(4) by (simp add: prod_eq_iff push_4_def)
  have unverified: "save_unverified table_hex padded_hash example_digest ''text'' manifest_commit (cursor ''x'', push_3) =
      (Inr (), (\<lparr>pending = [], delivered = ''x''\<rparr>, push_4))"
    unfolding cursor_def using save_unverified_single [OF _ _ s4] by (simp add: buffer_len_def)
  have parts: "store_exists [] (LocalRepository example_name) example_digest ManifestKind (example_tree None) = (Inr False, push_1)"
    "local_blob_root [] (LocalRepository example_name) ManifestKind push_1 = (Inr manifest_root, push_2)"
    "create_unverified_file manifest_root example_digest push_2 = (Inr manifest_commit, push_3)"
    "tag_write [] (LocalRepository example_name) ''latest'' example_digest push_4 = (Inr (), push_5)"
    using example_push_steps(1-3,5)
    by (simp_all add: prod_eq_iff push_1_def push_2_def push_3_def push_5_def)
  have "store_save table_hex padded_hash [] (LocalRepository example_name) example_digest ''text'' ManifestKind
      (cursor ''x'', example_tree None) = (Inr (), (\<lparr>pending = [], delivered = ''x''\<rparr>, push_4))"
    using parts unverified by (simp add: store_save_def and_then_def on_files_def failing_def map_err_def prog_simps)
  then show ?thesis using parts(4) example_push_steps(6,7)
    by (simp add: write_manifest_def compute_hash_def save_body_def proxy_save_def not_local_def content_type_def
        and_then_def map_err_def prog_simps Let_def)
qed


end
