(* ===== verification/Accounts.thy ===== *)
theory Accounts
  imports Services
begin

text \<open>
  Users and groups of the operating system: \<open>LocalQueries\<close> (credentials/src/queries.rs) and
  \<open>LinuxCredentials\<close> (credentials/src/linux_credentials.rs).  The account database is what \<open>getpwnam\<close>
  and \<open>getgrnam\<close> answer from; the commands \<open>useradd\<close>, \<open>usermod\<close>, \<open>groupadd\<close>, \<open>userdel\<close>, \<open>groupdel\<close> and
  \<open>getent\<close> are other programs, so \<open>os\<close> is a parameter.  The mutex of the queries only serialises them.
\<close>

section \<open>The account database\<close>

record user_entry =
  user_uid :: "32 word"
  user_gid :: "32 word"

record group_entry =
  group_gid :: "32 word"
  group_members :: "string list"

record accounts =
  passwd :: "(string \<times> user_entry) list"
  groups :: "(string \<times> group_entry) list"

datatype credentials_error =
    UserNotFoundError string
  | GroupNotFoundError string
  | PrimaryGroupNotFoundError string
  | CredentialsIoError os_error
  | CredentialsGeneralError string

text \<open>Running a command, for its effect and for its output.\<close>

record os_commands =
  os_execute :: "string \<Rightarrow> string list \<Rightarrow> (accounts, os_error, unit) prog"
  os_output :: "string \<Rightarrow> string list \<Rightarrow> (accounts, os_error, string) prog"

section \<open>Queries\<close>

definition get_user_by_name :: "accounts \<Rightarrow> string \<Rightarrow> user_entry option" where
  "get_user_by_name a name = map_of (passwd a) name"

definition get_group_by_name :: "accounts \<Rightarrow> string \<Rightarrow> group_entry option" where
  "get_group_by_name a name = map_of (groups a) name"

definition group_memberships :: "accounts \<Rightarrow> string \<Rightarrow> string list" where
  "group_memberships a name =
     (case get_group_by_name a name of None \<Rightarrow> [] | Some g \<Rightarrow> filter is_utf8 (group_members g))"

definition get_group_id :: "accounts \<Rightarrow> string \<Rightarrow> 32 word option" where
  "get_group_id a name = map_option group_gid (get_group_by_name a name)"

definition get_user_id :: "accounts \<Rightarrow> string \<Rightarrow> 32 word option" where
  "get_user_id a name = map_option user_uid (get_user_by_name a name)"

definition user_exists :: "accounts \<Rightarrow> string \<Rightarrow> bool" where
  "user_exists a name \<longleftrightarrow> get_user_by_name a name \<noteq> None"

definition group_exists :: "accounts \<Rightarrow> string \<Rightarrow> bool" where
  "group_exists a name \<longleftrightarrow> get_group_by_name a name \<noteq> None"

definition get_primary_group_id :: "accounts \<Rightarrow> string \<Rightarrow> 32 word option" where
  "get_primary_group_id a name = map_option user_gid (get_user_by_name a name)"

section \<open>Credentials\<close>

type_synonym 'a accounting = "(accounts, credentials_error, 'a) prog"

definition execute_command :: "os_commands \<Rightarrow> string \<Rightarrow> string list \<Rightarrow> unit accounting" where
  "execute_command os command args = map_err CredentialsIoError (os_execute os command args)"

definition known :: "(accounts \<Rightarrow> 'a option) \<Rightarrow> credentials_error \<Rightarrow> 'a accounting" where
  "known q e = and_then (gets q) (\<lambda>r. case r of None \<Rightarrow> fail e | Some x \<Rightarrow> ok x)"

definition add_to_group :: "os_commands \<Rightarrow> string \<Rightarrow> string \<Rightarrow> unit accounting" where
  "add_to_group os who grp =
     and_then (gets (\<lambda>a. group_exists a grp)) (\<lambda>present.
       if present then execute_command os ''usermod'' [''--append'', ''--groups'', grp, who]
       else fail (GroupNotFoundError grp))"

definition create_user :: "os_commands \<Rightarrow> string \<Rightarrow> string \<Rightarrow> string list \<Rightarrow> (32 word) accounting" where
  "create_user os name primary additional =
     and_then (gets (\<lambda>a. user_exists a name)) (\<lambda>present.
     and_then
       (if present then ok ()
        else execute_command os ''useradd''
          [''--system'', ''--no-create-home'', ''--gid'', primary, ''--home'', ''/nonexistent'',
           ''--shell'', ''/usr/sbin/nologin'', name]) (\<lambda>_.
     and_then (known (\<lambda>a. get_user_id a name) (UserNotFoundError name)) (\<lambda>uid.
     and_then (gets (\<lambda>a. group_memberships a name)) (\<lambda>existing.
     and_then (for_each (add_to_group os name) (filter (\<lambda>g. g \<notin> set existing) additional)) (\<lambda>_.
       ok uid)))))"

definition delete_user :: "os_commands \<Rightarrow> string \<Rightarrow> unit accounting" where
  "delete_user os name =
     and_then (gets (\<lambda>a. user_exists a name)) (\<lambda>present.
       if \<not> present then ok () else execute_command os ''userdel'' [name])"

definition create_group :: "os_commands \<Rightarrow> string \<Rightarrow> (32 word) accounting" where
  "create_group os name =
     and_then (gets (\<lambda>a. get_group_id a name)) (\<lambda>found.
       case found of
         Some gid \<Rightarrow> ok gid
       | None \<Rightarrow>
           and_then (execute_command os ''groupadd'' [name]) (\<lambda>_.
             known (\<lambda>a. get_group_id a name) (GroupNotFoundError name)))"

definition delete_group :: "os_commands \<Rightarrow> string \<Rightarrow> unit accounting" where
  "delete_group os name =
     and_then (gets (\<lambda>a. group_exists a name)) (\<lambda>present.
       if \<not> present then ok () else execute_command os ''groupdel'' [name])"

definition list_users :: "os_commands \<Rightarrow> (string list) accounting" where
  "list_users os =
     and_then (map_err CredentialsIoError (os_output os ''getent'' [''passwd''])) (\<lambda>output.
       if is_utf8 output
       then ok (map (\<lambda>line. case split_once CHR '':'' line of Some (who, _) \<Rightarrow> who | None \<Rightarrow> line)
                    (split_on (CHR 0x0A) output))
       else fail (CredentialsGeneralError ''Could not list users''))"

definition join_group :: "os_commands \<Rightarrow> string \<Rightarrow> string \<Rightarrow> unit accounting" where
  "join_group os who grp = add_to_group os who grp"

text \<open>\<open>groups.iter().position(..)\<close> and \<open>remove\<close> take out the first occurrence.\<close>

definition leave_group :: "os_commands \<Rightarrow> string \<Rightarrow> string \<Rightarrow> unit accounting" where
  "leave_group os who grp =
     and_then (gets (\<lambda>a. user_exists a who)) (\<lambda>present.
       if \<not> present then fail (UserNotFoundError who)
       else
         and_then (gets (\<lambda>a. group_memberships a who)) (\<lambda>memberships.
           if grp \<in> set memberships
           then execute_command os ''usermod'' [''--groups'', join_with '','' (remove1 grp memberships), who]
           else fail (GroupNotFoundError grp)))"

definition get_primary_group :: "string \<Rightarrow> (32 word) accounting" where
  "get_primary_group who =
     and_then (gets (\<lambda>a. user_exists a who)) (\<lambda>present.
       if present then known (\<lambda>a. get_primary_group_id a who) (PrimaryGroupNotFoundError who)
       else fail (UserNotFoundError who))"

definition set_primary_group_id :: "os_commands \<Rightarrow> string \<Rightarrow> 32 word \<Rightarrow> (32 word) accounting" where
  "set_primary_group_id os who gid =
     and_then (gets (\<lambda>a. user_exists a who)) (\<lambda>present.
       if present
       then
         and_then (gets (\<lambda>a. get_primary_group_id a who)) (\<lambda>previous.
         and_then (execute_command os ''usermod'' [''--gid'', show_nat (unat gid), who]) (\<lambda>_.
           ok (case previous of Some g \<Rightarrow> g | None \<Rightarrow> 0)))
       else fail (UserNotFoundError who))"

definition set_primary_group :: "os_commands \<Rightarrow> string \<Rightarrow> string \<Rightarrow> (32 word) accounting" where
  "set_primary_group os who grp =
     and_then (known (\<lambda>a. get_group_id a grp) (GroupNotFoundError grp)) (set_primary_group_id os who)"

section \<open>Groups that exist are kept\<close>

lemma known_Inr: "known q e a = (Inr x, b) \<longleftrightarrow> q a = Some x \<and> b = a"
  by (auto simp: known_def and_then_def prog_simps split: option.splits)

text \<open>\<open>create_group\<close> answers with the id that the database holds afterwards, so asking again is free.\<close>

lemma create_group_again:
  assumes "create_group os n a = (Inr gid, b)"
  shows "get_group_id b n = Some gid \<and> create_group os n b = (Inr gid, b)"
proof -
  have "get_group_id b n = Some gid"
    using assms by (auto simp: create_group_def prog_simps known_Inr elim!: and_then_InrE split: option.splits)
  then show ?thesis by (simp add: create_group_def and_then_def prog_simps)
qed

text \<open>\<open>group_memberships\<close> answers with the members of the group of the given name.  \<open>leave_group\<close> gives it
  the name of the user, and so refuses to take a user out of a group that it is in, unless the group
  named like the user happens to have a member named like the group.\<close>

lemma leave_group_refuses_member:
  assumes "get_group_by_name a grp = Some g" and "who \<in> set (group_members g)" and "user_exists a who"
    and "grp \<notin> set (group_memberships a who)"
  shows "leave_group os who grp a = (Inl (GroupNotFoundError grp), a)"
  using assms by (simp add: leave_group_def and_then_def prog_simps)

end
