(* ===== verification/Garden.thy ===== *)
theory Garden
  imports Accounts SeedbankStore
begin

text \<open>
  The garden: the host as bract sees it.  Its files, its accounts, the docker engine, of which the model
  knows nothing but what the docker client is asked and answers, and the wire to the seedbank.  Here are
  the clients of bract: the seedbank client (seedbank_client/src/lib.rs) in full, on the server of
  \<open>Seedbank\<close>; the docker client (docker/src/client.rs) and the RAM disk (ram_disk/src/lib.rs) as
  interfaces.  Then the names, labels and descriptions of containers (bract_types/src/lib.rs,
  bract/src/labels.rs, bract/src/blueprints/mod.rs, docker_types/src/lib.rs).
\<close>

section \<open>The garden\<close>

datatype client_error =
    MissingSocket
  | ConnectionRefused
  | NoResponse
  | ClientIoError
  | ServerError seedbank_error
  | UnexpectedResponse

text \<open>What happens to the next request to the seedbank: it is served and answered, it never arrives, or it
  is served and the answer is lost.\<close>

datatype wire_event = Delivered | Unsent client_error | Unanswered client_error

record 'd garden =
  disk :: fs
  people :: accounts
  engine :: 'd
  wire :: "wire_event list"

definition on_disk :: "('e \<Rightarrow> 'f) \<Rightarrow> (fs, 'e, 'a) prog \<Rightarrow> ('d garden, 'f, 'a) prog" where
  "on_disk err m g = (case m (disk g) of (r, t) \<Rightarrow> (map_sum err id r, g\<lparr>disk := t\<rparr>))"

text \<open>The account database is the one that the ownership of files is named by.\<close>

definition naming :: "accounts \<Rightarrow> fs \<Rightarrow> fs" where
  "naming a s = s\<lparr>known_users := map fst (passwd a), known_groups := map fst (groups a)\<rparr>"

definition on_people :: "('e \<Rightarrow> 'f) \<Rightarrow> (accounts, 'e, 'a) prog \<Rightarrow> ('d garden, 'f, 'a) prog" where
  "on_people err m g =
     (case m (people g) of (r, a) \<Rightarrow> (map_sum err id r, g\<lparr>people := a, disk := naming a (disk g)\<rparr>))"

definition on_engine :: "('e \<Rightarrow> 'f) \<Rightarrow> ('d, 'e, 'a) prog \<Rightarrow> ('d garden, 'f, 'a) prog" where
  "on_engine err m g = (case m (engine g) of (r, t) \<Rightarrow> (map_sum err id r, g\<lparr>engine := t\<rparr>))"

section \<open>The client of the seedbank\<close>

text \<open>The server behind the socket, and the clock it stamps failures with.\<close>

record bank =
  bank_server :: server
  bank_clock :: nat

type_synonym ('d, 'a) asking = "('d garden, client_error, 'a) prog"

definition next_event :: "'d garden \<Rightarrow> wire_event \<times> 'd garden" where
  "next_event g = (case wire g of [] \<Rightarrow> (Delivered, g) | x # xs \<Rightarrow> (x, g\<lparr>wire := xs\<rparr>))"

definition serve_on :: "bank \<Rightarrow> seedbank_request \<Rightarrow> 'd garden \<Rightarrow> seedbank_response \<times> 'd garden" where
  "serve_on B request g =
     (case seedbank_handle (bank_server B) (bank_clock B) request (disk g) of (r, t) \<Rightarrow> (r, g\<lparr>disk := t\<rparr>))"

definition client_request :: "bank \<Rightarrow> seedbank_request \<Rightarrow> ('d, seedbank_response) asking" where
  "client_request B request g =
     (case next_event g of
        (Delivered, g') \<Rightarrow> (case serve_on B request g' of (r, h) \<Rightarrow> (Inr r, h))
      | (Unsent e, g') \<Rightarrow> (Inl e, g')
      | (Unanswered e, g') \<Rightarrow> (Inl e, snd (serve_on B request g')))"

text \<open>The match on the response, the same in every method: the wanted response, an error of the server, or
  anything else.\<close>

definition ask :: "bank \<Rightarrow> seedbank_request \<Rightarrow> (seedbank_response \<Rightarrow> 'a option) \<Rightarrow> ('d, 'a) asking" where
  "ask B request wanted =
     and_then (client_request B request) (\<lambda>response.
       case wanted response of
         Some a \<Rightarrow> ok a
       | None \<Rightarrow> (case response of ErrorResponse e \<Rightarrow> fail (ServerError e) | _ \<Rightarrow> fail UnexpectedResponse))"

definition client_list :: "bank \<Rightarrow> ('d, name list) asking" where
  "client_list B = ask B ListRequest (\<lambda>r. case r of NamesResponse ns \<Rightarrow> Some ns | _ \<Rightarrow> None)"

definition client_status :: "bank \<Rightarrow> name \<Rightarrow> ('d, seedling_status) asking" where
  "client_status B n = ask B (StatusRequest n) (\<lambda>r. case r of StatusResponse st \<Rightarrow> Some st | _ \<Rightarrow> None)"

definition client_exists :: "bank \<Rightarrow> name \<Rightarrow> ('d, bool) asking" where
  "client_exists B n = ask B (ExistsRequest n) (\<lambda>r. case r of ExistsResponse b \<Rightarrow> Some b | _ \<Rightarrow> None)"

definition client_load :: "bank \<Rightarrow> name \<Rightarrow> ('d, seedling) asking" where
  "client_load B n = ask B (LoadRequest n) (\<lambda>r. case r of SeedlingResponse s \<Rightarrow> Some s | _ \<Rightarrow> None)"

definition okay :: "seedbank_response \<Rightarrow> unit option" where
  "okay r = (case r of OkResponse \<Rightarrow> Some () | _ \<Rightarrow> None)"

definition client_create :: "bank \<Rightarrow> name \<Rightarrow> seedling_version \<Rightarrow> seedling_definition \<Rightarrow> ('d, unit) asking" where
  "client_create B n v d = ask B (CreateRequest n v d) okay"

definition client_delete :: "bank \<Rightarrow> name \<Rightarrow> ('d, unit) asking" where
  "client_delete B n = ask B (DeleteRequest n) okay"

definition client_update :: "bank \<Rightarrow> name \<Rightarrow> seedling_version \<Rightarrow> seedling_definition \<Rightarrow> ('d, unit) asking" where
  "client_update B n v d = ask B (UpdateRequest n v d) okay"

definition client_default_seedling :: "bank \<Rightarrow> ('d, name option) asking" where
  "client_default_seedling B = ask B DefaultRequest (\<lambda>r. case r of DefaultResponse n \<Rightarrow> Some n | _ \<Rightarrow> None)"

definition client_claim_default :: "bank \<Rightarrow> name \<Rightarrow> ('d, unit) asking" where
  "client_claim_default B n = ask B (ClaimDefaultRequest n) okay"

definition client_release_default :: "bank \<Rightarrow> name \<Rightarrow> ('d, unit) asking" where
  "client_release_default B n = ask B (ReleaseDefaultRequest n) okay"

definition client_get_desired_run_status :: "bank \<Rightarrow> name \<Rightarrow> ('d, desired_run_status) asking" where
  "client_get_desired_run_status B n =
     ask B (GetDesiredRunStatusRequest n) (\<lambda>r. case r of DesiredRunStatusResponse st \<Rightarrow> Some st | _ \<Rightarrow> None)"

definition client_set_desired_run_status :: "bank \<Rightarrow> name \<Rightarrow> desired_run_status \<Rightarrow> ('d, unit) asking" where
  "client_set_desired_run_status B n st = ask B (SetDesiredRunStatusRequest n st) okay"

definition client_reset_health_log :: "bank \<Rightarrow> name \<Rightarrow> ('d, unit) asking" where
  "client_reset_health_log B n = ask B (ResetHealthLogRequest n) okay"

definition client_health_check_log :: "bank \<Rightarrow> name \<Rightarrow> ('d, health_check_log option) asking" where
  "client_health_check_log B n =
     ask B (HealthCheckLogRequest n) (\<lambda>r. case r of HealthCheckLogResponse l \<Rightarrow> Some l | _ \<Rightarrow> None)"

definition client_increment_health_log_fail_count :: "bank \<Rightarrow> name \<Rightarrow> ('d, bool) asking" where
  "client_increment_health_log_fail_count B n =
     ask B (IncrementHealthLogFailCountRequest n)
       (\<lambda>r. case r of IncrementHealthLogFailCountResponse b \<Rightarrow> Some b | _ \<Rightarrow> None)"

section \<open>What the parts of a garden keep of each other\<close>

lemma content_naming [simp]: "content (naming a s) = content s"
  by (simp add: naming_def content_def node_at_def fun_eq_iff)

lemma keeps_on_disk: "keeps I m \<Longrightarrow> keeps (\<lambda>g. I (disk g)) (on_disk err m)"
  by (fastforce simp: keeps_def on_disk_def split: prod.split)

lemma on_disk_Inr: "on_disk err m g = (Inr a, h) \<longleftrightarrow> (\<exists>t. m (disk g) = (Inr a, t) \<and> h = g\<lparr>disk := t\<rparr>)"
  by (auto simp: on_disk_def map_sum_Inr_iff split: prod.split)

lemma on_people_content: "on_people err m g = (r, h) \<Longrightarrow> content (disk h) = content (disk g)"
  by (auto simp: on_people_def split: prod.splits)

text \<open>Every file that is there keeps its content.\<close>

definition retains :: "fs \<Rightarrow> fs \<Rightarrow> bool" where
  "retains s t \<longleftrightarrow> agrees (\<lambda>p. content s p \<noteq> None) s t"

lemma retainsD: "retains s t \<Longrightarrow> content s p = Some b \<Longrightarrow> content t p = Some b"
  by (auto simp: retains_def agrees_def)

lemma retains_refl [simp]: "retains s s"
  by (simp add: retains_def)

lemma retains_same: "content u = content t \<Longrightarrow> retains s u = retains s t"
  by (simp add: retains_def agrees_def)

lemma retains_naming [simp]: "retains s (naming a t) = retains s t"
  by (rule retains_same) simp

lemma retains_trans: "retains s t \<Longrightarrow> retains t u \<Longrightarrow> retains s u"
  by (auto simp: retains_def agrees_def)

lemma keeps_on_people [keeps_intros]: "keeps (\<lambda>g. retains s (disk g)) (on_people err m)"
  by (auto simp: keeps_def on_people_def split: prod.split)

text \<open>Without disturbances of the wire the client answers what the server does.\<close>

lemma ask_calm:
  assumes "wire g = []"
  shows "ask B request wanted g =
    (case seedbank_handle (bank_server B) (bank_clock B) request (disk g) of
       (response, t) \<Rightarrow>
         (case wanted response of
            Some a \<Rightarrow> Inr a
          | None \<Rightarrow> Inl (case response of ErrorResponse e \<Rightarrow> ServerError e | _ \<Rightarrow> UnexpectedResponse),
          g\<lparr>disk := t\<rparr>))"
proof -
  obtain r t where run: "seedbank_handle (bank_server B) (bank_clock B) request (disk g) = (r, t)" by fastforce
  then have "client_request B request g = (Inr r, g\<lparr>disk := t\<rparr>)"
    using assms by (simp add: client_request_def next_event_def serve_on_def)
  then have "ask B request wanted g =
      (case wanted r of Some a \<Rightarrow> ok a | None \<Rightarrow> (case r of ErrorResponse e \<Rightarrow> fail (ServerError e) | _ \<Rightarrow> fail UnexpectedResponse))
      (g\<lparr>disk := t\<rparr>)"
    unfolding ask_def by (rule and_then_Inr)
  with run show ?thesis
    by (cases "wanted r"; cases r) (simp_all only: prog_simps prod.case option.case seedbank_response.case)
qed

end
