(* ===== verification/Rolodex.thy ===== *)
theory Rolodex
  imports Garden ResinTypes Digests
begin

text \<open>
  The rolodex of bract (bract/src/rolodex): for every full name, of a seedling, of its agent or of a
  share, it reserves a short system name in a file of its own and has the operating system create the
  user and the group of that name.  A full name is ASCII, as every name of the seedbank is; SHA-256 is a
  parameter.
\<close>

section \<open>System names\<close>

definition NAME_PREFIX :: string where
  "NAME_PREFIX = ''doug-''"

definition HASH_HEX_LEN :: nat where
  "HASH_HEX_LEN = 8"

definition MAX_SYSTEM_NAME_LENGTH :: nat where
  "MAX_SYSTEM_NAME_LENGTH = 32"

definition NORMALIZED_LEN :: nat where
  "NORMALIZED_LEN = MAX_SYSTEM_NAME_LENGTH - length NAME_PREFIX - 1 - HASH_HEX_LEN"

definition normalize_char :: "char \<Rightarrow> char" where
  "normalize_char c =
     (if char_in CHR ''a'' CHR ''z'' c \<or> is_digit c \<or> c = CHR ''-'' \<or> c = CHR ''_'' then c
      else if is_upper c then lower_char c
      else CHR ''-'')"

definition normalize :: "string \<Rightarrow> string" where
  "normalize name = map normalize_char name"

definition short_hash :: "hash \<Rightarrow> string \<Rightarrow> string" where
  "short_hash sha name = concat (map hex_byte (take (HASH_HEX_LEN div 2) (sha name)))"

definition derive_system_name :: "hash \<Rightarrow> string \<Rightarrow> string" where
  "derive_system_name sha full_name =
     NAME_PREFIX @ take NORMALIZED_LEN (normalize full_name) @ ''-'' @ short_hash sha full_name"

definition salted :: "string \<Rightarrow> nat \<Rightarrow> string" where
  "salted full_name k = (if k = 0 then full_name else full_name @ ''#'' @ show_nat k)"

section \<open>The rolodex\<close>

definition MAX_ATTEMPTS :: nat where
  "MAX_ATTEMPTS = 16"

datatype rolodex_error =
    RolodexFileSystemError fs_error
  | RolodexCredentialsError credentials_error
  | ExhaustedNameSpace string
  | UnknownGuest string

record credential =
  cred_id :: "32 word"
  cred_full_name :: string
  cred_system_name :: string

record service_account =
  account_user :: credential
  account_group :: credential

text \<open>\<open>FileRolodex\<close>: its folder, the hash of its names and the commands behind its credentials.\<close>

record rolodex =
  rolodex_root :: path
  rolodex_sha :: hash
  rolodex_os :: os_commands

type_synonym ('d, 'a) rolo = "('d garden, rolodex_error, 'a) prog"

definition users_root :: "rolodex \<Rightarrow> path" where
  "users_root R = rolodex_root R @ [''users'']"

definition groups_root :: "rolodex \<Rightarrow> path" where
  "groups_root R = rolodex_root R @ [''groups'']"

text \<open>The loop of \<open>locate\<close> over the attempts that are left.\<close>

fun locate_from :: "rolodex \<Rightarrow> path \<Rightarrow> string \<Rightarrow> bool \<Rightarrow> nat list \<Rightarrow> ('d, string option) rolo" where
  "locate_from R kind_root full_name create_if_missing [] = fail (ExhaustedNameSpace full_name)"
| "locate_from R kind_root full_name create_if_missing (k # ks) =
     (let system_name = derive_system_name (rolodex_sha R) (salted full_name k);
          record_path = kind_root @ [system_name]
      in and_then (gets (\<lambda>g. file_exists (disk g) record_path)) (\<lambda>present.
           if present
           then
             and_then (on_disk RolodexFileSystemError (reader_read_all record_path)) (\<lambda>existing_full_name.
               if existing_full_name = full_name then ok (Some system_name)
               else locate_from R kind_root full_name create_if_missing ks)
           else if create_if_missing
           then
             and_then (on_disk RolodexFileSystemError (writer_write_all record_path full_name))
               (\<lambda>_. ok (Some system_name))
           else ok None))"

definition locate :: "rolodex \<Rightarrow> path \<Rightarrow> string \<Rightarrow> bool \<Rightarrow> ('d, string option) rolo" where
  "locate R kind_root full_name create_if_missing =
     and_then
       (if create_if_missing
        then and_then (on_disk RolodexFileSystemError (folder_create_recursively kind_root)) (\<lambda>_. ok ())
        else ok ())
       (\<lambda>_. locate_from R kind_root full_name create_if_missing [0..<MAX_ATTEMPTS])"

definition reserve :: "rolodex \<Rightarrow> path \<Rightarrow> string \<Rightarrow> ('d, string) rolo" where
  "reserve R kind_root full_name =
     and_then (locate R kind_root full_name True) (\<lambda>r.
       case r of None \<Rightarrow> fail (ExhaustedNameSpace full_name) | Some s \<Rightarrow> ok s)"

definition credential_of :: "string \<Rightarrow> string \<Rightarrow> 32 word \<Rightarrow> credential" where
  "credential_of full_name system_name i =
     \<lparr>cred_id = i, cred_full_name = full_name, cred_system_name = system_name\<rparr>"

definition on_credentials :: "'a accounting \<Rightarrow> ('d, 'a) rolo" where
  "on_credentials m = on_people RolodexCredentialsError m"

definition find_group :: "rolodex \<Rightarrow> string \<Rightarrow> ('d, credential option) rolo" where
  "find_group R full_name =
     and_then (locate R (groups_root R) full_name False) (\<lambda>r.
       case r of
         None \<Rightarrow> ok None
       | Some system_name \<Rightarrow>
           and_then (gets (\<lambda>g. group_exists (people g) system_name)) (\<lambda>present.
             if \<not> present then ok None
             else
               and_then (on_credentials
                   (known (\<lambda>a. get_group_id a system_name) (GroupNotFoundError system_name))) (\<lambda>i.
                 ok (Some (credential_of full_name system_name i)))))"

definition find_user :: "rolodex \<Rightarrow> string \<Rightarrow> ('d, credential option) rolo" where
  "find_user R full_name =
     and_then (locate R (users_root R) full_name False) (\<lambda>r.
       case r of
         None \<Rightarrow> ok None
       | Some system_name \<Rightarrow>
           and_then (gets (\<lambda>g. user_exists (people g) system_name)) (\<lambda>present.
             if \<not> present then ok None
             else
               and_then (on_credentials
                   (known (\<lambda>a. get_user_id a system_name) (UserNotFoundError system_name))) (\<lambda>i.
                 ok (Some (credential_of full_name system_name i)))))"

definition get_or_create_group :: "rolodex \<Rightarrow> string \<Rightarrow> ('d, credential) rolo" where
  "get_or_create_group R full_name =
     and_then (reserve R (groups_root R) full_name) (\<lambda>system_name.
     and_then (gets (\<lambda>g. group_exists (people g) system_name)) (\<lambda>present.
     and_then
       (on_credentials
         (if present then known (\<lambda>a. get_group_id a system_name) (GroupNotFoundError system_name)
          else create_group (rolodex_os R) system_name))
       (\<lambda>i. ok (credential_of full_name system_name i))))"

definition get_or_create_user :: "rolodex \<Rightarrow> string \<Rightarrow> string \<Rightarrow> string list \<Rightarrow> ('d, credential) rolo" where
  "get_or_create_user R full_name primary extra =
     and_then (reserve R (users_root R) full_name) (\<lambda>system_name.
     and_then (gets (\<lambda>g. user_exists (people g) system_name)) (\<lambda>present.
     and_then
       (on_credentials
         (if present
          then
            and_then (known (\<lambda>a. get_user_id a system_name) (UserNotFoundError system_name)) (\<lambda>i.
            and_then (set_primary_group (rolodex_os R) system_name primary) (\<lambda>_.
            and_then (for_each (join_group (rolodex_os R) system_name) extra) (\<lambda>_. ok i)))
          else create_user (rolodex_os R) system_name primary extra))
       (\<lambda>i. ok (credential_of full_name system_name i))))"

definition find_service_account :: "rolodex \<Rightarrow> string \<Rightarrow> ('d, service_account option) rolo" where
  "find_service_account R full_name =
     and_then (find_group R full_name) (\<lambda>g.
       case g of
         None \<Rightarrow> ok None
       | Some grp \<Rightarrow>
           and_then (find_user R full_name) (\<lambda>u.
             case u of
               None \<Rightarrow> ok None
             | Some usr \<Rightarrow> ok (Some \<lparr>account_user = usr, account_group = grp\<rparr>)))"

definition create_service_account :: "rolodex \<Rightarrow> string \<Rightarrow> ('d, service_account) rolo" where
  "create_service_account R full_name =
     and_then (get_or_create_group R full_name) (\<lambda>grp.
     and_then (get_or_create_user R full_name (cred_system_name grp) []) (\<lambda>usr.
       ok \<lparr>account_user = usr, account_group = grp\<rparr>))"

definition share_full_name :: "string \<Rightarrow> string \<Rightarrow> string" where
  "share_full_name owner share = owner @ '':'' @ share"

definition find_share_group :: "rolodex \<Rightarrow> string \<Rightarrow> string \<Rightarrow> ('d, credential option) rolo" where
  "find_share_group R owner share = find_group R (share_full_name owner share)"

definition join_guest :: "rolodex \<Rightarrow> string \<Rightarrow> string \<Rightarrow> ('d, unit) rolo" where
  "join_guest R group_name guest =
     and_then (locate R (users_root R) guest False) (\<lambda>r.
       case r of
         None \<Rightarrow> fail (UnknownGuest guest)
       | Some system_name \<Rightarrow> on_credentials (join_group (rolodex_os R) system_name group_name))"

definition create_share_group :: "rolodex \<Rightarrow> string \<Rightarrow> string \<Rightarrow> string list \<Rightarrow> ('d, credential) rolo" where
  "create_share_group R owner share guests =
     and_then (get_or_create_group R (share_full_name owner share)) (\<lambda>grp.
     and_then (for_each (join_guest R (cred_system_name grp)) guests) (\<lambda>_. ok grp))"

text \<open>What the other steps of bract ask of the rolodex, one after the other.\<close>

datatype rolodex_request =
    FindServiceAccount string
  | CreateServiceAccount string
  | FindShareGroup string string
  | CreateShareGroup string string "string list"

fun rolodex_handle :: "rolodex \<Rightarrow> rolodex_request \<Rightarrow> 'd garden \<Rightarrow> 'd garden" where
  "rolodex_handle R (FindServiceAccount n) g = snd (find_service_account R n g)"
| "rolodex_handle R (CreateServiceAccount n) g = snd (create_service_account R n g)"
| "rolodex_handle R (FindShareGroup o' s) g = snd (find_share_group R o' s g)"
| "rolodex_handle R (CreateShareGroup o' s gs) g = snd (create_share_group R o' s gs g)"

definition rolodex_serve :: "rolodex \<Rightarrow> rolodex_request list \<Rightarrow> 'd garden \<Rightarrow> 'd garden" where
  "rolodex_serve R rs g = fold (rolodex_handle R) rs g"

section \<open>System names fit the operating system\<close>

text \<open>What \<open>useradd\<close> accepts in a name.\<close>

definition system_char :: "char \<Rightarrow> bool" where
  "system_char c \<longleftrightarrow> is_lower c \<or> is_digit c \<or> c = CHR ''-'' \<or> c = CHR ''_''"

lemma normalize_char_ok: "system_char (normalize_char c)"
  by (auto simp: normalize_char_def system_char_def lower_char_def is_lower_def is_upper_def char_in_def)

lemma list_all_take: "list_all P xs \<Longrightarrow> list_all P (take n xs)"
  by (auto simp: list_all_iff dest: in_set_takeD)

lemma hex_system: "list_all hex_lower xs \<Longrightarrow> list_all system_char xs"
  by (auto simp: list_all_iff hex_lower_def system_char_def is_lower_def char_in_def)

text \<open>Every system name, at every attempt, has between fourteen and thirty-two characters, all of
  them lower-case letters, digits, hyphens or underscores, and starts with the prefix: it is a name
  that the operating system takes for a user or a group.\<close>

theorem system_name_fits:
  assumes "documented_hash sha"
  shows "14 \<le> length (derive_system_name sha full_name) \<and> length (derive_system_name sha full_name) \<le> 32 \<and>
    list_all system_char (derive_system_name sha full_name) \<and>
    strip_prefix NAME_PREFIX (derive_system_name sha full_name) \<noteq> None"
proof -
  have "list_all system_char (normalize full_name)"
    by (simp add: normalize_def list_all_iff normalize_char_ok)
  moreover have "length (short_hash sha full_name) = 8" and "list_all system_char (short_hash sha full_name)"
    using assms encoded_hex hex_system by (simp_all add: short_hash_def documented_hash_def HASH_HEX_LEN_def)
  ultimately show ?thesis
    by (simp add: derive_system_name_def list_all_take)
      (simp add: NAME_PREFIX_def NORMALIZED_LEN_def MAX_SYSTEM_NAME_LENGTH_def HASH_HEX_LEN_def
        system_char_def is_lower_def char_in_def)
qed

theorem system_name_fits_witness:
  "derive_system_name padded_hash ''Web:Static_Files.and.more'' = ''doug-web-static_files-a-5765623a'' \<and>
   list_all system_char (derive_system_name padded_hash ''Web:Static_Files.and.more'')"
proof -
  have "derive_system_name padded_hash ''Web:Static_Files.and.more'' = ''doug-web-static_files-a-5765623a''"
    by code_simp
  then show ?thesis using system_name_fits [OF padded_hash_documented, of "''Web:Static_Files.and.more''"] by simp
qed

section \<open>A reserved name stays reserved\<close>

lemma not_file_content: "\<not> file_exists s p \<Longrightarrow> content s p = None"
  by (auto simp: file_exists_def content_def exists_path_def is_dir_def split: option.splits node.splits)

lemma keeps_attempts: "keeps (\<lambda>g :: 'd garden. retains s (disk g)) (locate_from R kind full create ks)"
proof (induction ks)
  case Nil
  show ?case by (auto intro: keeps_intros)
next
  case (Cons k ks)
  show ?case
  proof (rule keepsI)
    fix g :: "'d garden" assume g: "retains s (disk g)"
    let ?p = "kind @ [derive_system_name (rolodex_sha R) (salted full k)]"
    have read: "keeps (\<lambda>g :: 'd garden. retains s (disk g)) (on_disk RolodexFileSystemError (reader_read_all ?p))"
      unfolding retains_def by (intro keeps_on_disk frame_intros)
    have "keeps (\<lambda>g :: 'd garden. retains s (disk g)) (on_disk RolodexFileSystemError (writer_write_all ?p full))"
      if "\<not> file_exists (disk g) ?p"
      using not_file_content [OF that] g unfolding retains_def agrees_def [of _ s "disk g"]
      by (intro keeps_on_disk frame_intros) force
    with read Cons g show "retains s (disk (snd (locate_from R kind full create (k # ks) g)))"
      by (cases "file_exists (disk g) ?p") (auto simp: Let_def prog_simps and_then_def [of "gets _"]
          intro!: keepsD [where I = "\<lambda>g. retains s (disk g)"] keeps_intros)
  qed
qed

text \<open>The other operations only write through \<open>locate\<close>.\<close>

lemma keeps_locate: "keeps (\<lambda>g :: 'd garden. retains s (disk g)) (locate R kind full create)"
proof -
  have "keeps (\<lambda>g :: 'd garden. retains s (disk g)) (on_disk RolodexFileSystemError (folder_create_recursively kind))"
    unfolding retains_def by (intro keeps_on_disk frame_intros)
  then show ?thesis
    unfolding locate_def
    by (intro keeps_and_then [OF _ keeps_attempts]) (simp add: keeps_and_then keeps_ok)
qed

lemma keeps_find_group: "keeps (\<lambda>g :: 'd garden. retains s (disk g)) (find_group R n)"
  and keeps_find_user: "keeps (\<lambda>g :: 'd garden. retains s (disk g)) (find_user R n)"
  and keeps_new_group: "keeps (\<lambda>g :: 'd garden. retains s (disk g)) (get_or_create_group R n)"
  and keeps_new_user: "keeps (\<lambda>g :: 'd garden. retains s (disk g)) (get_or_create_user R n m ns)"
  unfolding find_group_def find_user_def get_or_create_group_def get_or_create_user_def reserve_def
    on_credentials_def
  by (intro keeps_intros keeps_locate)+

lemmas keeps_rolodex =
  keeps_locate keeps_find_group keeps_find_user keeps_new_group keeps_new_user

lemma keeps_handle: "retains s (disk g) \<Longrightarrow> retains s (disk (rolodex_handle R r g))"
  by (cases r)
    (auto simp: find_service_account_def create_service_account_def find_share_group_def
      create_share_group_def join_guest_def on_credentials_def
      intro!: keepsD [where I = "\<lambda>g. retains s (disk g)"] keeps_intros keeps_rolodex)

lemma keeps_serve: "retains s (disk g) \<Longrightarrow> retains s (disk (rolodex_serve R rs g))"
  unfolding rolodex_serve_def by (induction rs arbitrary: g) (simp_all add: keeps_handle)

text \<open>\<open>recorded R kind full n t\<close>: the first attempt whose record is not another name's is the one that
  gives \<open>n\<close>, and its record is there.\<close>

definition record_at :: "rolodex \<Rightarrow> path \<Rightarrow> string \<Rightarrow> nat \<Rightarrow> path" where
  "record_at R kind full k = kind @ [derive_system_name (rolodex_sha R) (salted full k)]"

fun recorded :: "rolodex \<Rightarrow> path \<Rightarrow> string \<Rightarrow> nat list \<Rightarrow> string \<Rightarrow> fs \<Rightarrow> bool" where
  "recorded R kind full [] n t = False"
| "recorded R kind full (k # ks) n t =
     (case content t (record_at R kind full k) of
        None \<Rightarrow> False
      | Some b \<Rightarrow>
          if b = full then n = derive_system_name (rolodex_sha R) (salted full k)
          else recorded R kind full ks n t)"

lemma recorded_retained: "recorded R kind full ks n s \<Longrightarrow> retains s t \<Longrightarrow> recorded R kind full ks n t"
  by (induction ks) (auto simp: retainsD split: option.splits if_splits)

lemma recorded_content: "recorded R kind full ks n t \<Longrightarrow> content t (kind @ [n]) = Some full"
  by (induction ks) (auto simp: record_at_def split: option.splits if_splits)

lemma recorded_unique: "recorded R kind full ks n t \<Longrightarrow> recorded R kind full ks m t \<Longrightarrow> n = m"
  by (induction ks) (auto split: option.splits if_splits)

lemma attempts_recorded:
  "locate_from R kind full create ks g = (Inr (Some n), h) \<Longrightarrow> recorded R kind full ks n (disk h)"
proof (induction ks arbitrary: g)
  case (Cons k ks)
  let ?p = "record_at R kind full k"
  show ?case
  proof (cases "file_exists (disk g) ?p")
    case True
    with Cons.prems obtain b g' where read: "on_disk RolodexFileSystemError (reader_read_all ?p) g = (Inr b, g')"
      and rest: "(if b = full then ok (Some (derive_system_name (rolodex_sha R) (salted full k)))
          else locate_from R kind full create ks) g' = (Inr (Some n), h)"
      by (auto simp: record_at_def Let_def and_then_def [of "gets _"] prog_simps elim!: and_then_InrE)
    from read have b: "content (disk g') ?p = Some b"
      by (auto simp: on_disk_Inr) (metis unix_files.read_ok unix_files.read_frame)
    show ?thesis
    proof (cases "b = full")
      case True
      with rest b show ?thesis by (auto simp: ok_run record_at_def)
    next
      case False
      with rest have run: "locate_from R kind full create ks g' = (Inr (Some n), h)" by simp
      have "retains (disk g') (disk h)"
        using keeps_result [OF keeps_attempts [of "disk g'"] _ run] by simp
      with b False Cons.IH [OF run] show ?thesis by (simp add: retainsD)
    qed
  next
    case False
    with Cons.prems show ?thesis
      by (auto simp: record_at_def Let_def and_then_def [of "gets _"] prog_simps ok_run on_disk_Inr
          elim!: and_then_InrE dest!: unix_files.write_ok split: if_splits)
  qed
qed (simp add: fail_run)

definition attempts :: "nat list" where
  "attempts = [0..<MAX_ATTEMPTS]"

lemma locate_recorded:
  "locate R kind full create g = (Inr (Some n), h) \<Longrightarrow> recorded R kind full attempts n (disk h)"
  by (auto simp: locate_def attempts_def elim!: and_then_InrE intro: attempts_recorded)

lemma reserve_recorded:
  "reserve R kind full g = (Inr n, h) \<Longrightarrow> recorded R kind full attempts n (disk h)"
  by (auto simp: reserve_def prog_simps elim!: and_then_InrE dest!: locate_recorded split: option.splits)

text \<open>Who holds an account, as \<open>find_service_account\<close> and \<open>create_service_account\<close> answer.\<close>

definition obtains_account :: "rolodex \<Rightarrow> string \<Rightarrow> service_account \<Rightarrow> 'd garden \<Rightarrow> 'd garden \<Rightarrow> bool" where
  "obtains_account R n a g h \<longleftrightarrow>
     create_service_account R n g = (Inr a, h) \<or> find_service_account R n g = (Inr (Some a), h)"

definition has_account :: "rolodex \<Rightarrow> string \<Rightarrow> service_account \<Rightarrow> fs \<Rightarrow> bool" where
  "has_account R n a t \<longleftrightarrow>
     recorded R (users_root R) n attempts (cred_system_name (account_user a)) t \<and>
     recorded R (groups_root R) n attempts (cred_system_name (account_group a)) t"

lemma recorded_same: "content u = content t \<Longrightarrow> recorded R kind full ks n u = recorded R kind full ks n t"
  by (induction ks) (auto split: option.splits)

lemma find_recorded:
  "find_group R n g = (Inr (Some c), h) \<Longrightarrow> recorded R (groups_root R) n attempts (cred_system_name c) (disk h)"
  "find_user R n g = (Inr (Some c), h) \<Longrightarrow> recorded R (users_root R) n attempts (cred_system_name c) (disk h)"
  unfolding find_group_def find_user_def
  by (auto simp: on_credentials_def prog_simps credential_of_def elim!: and_then_InrE split: option.splits if_splits
      dest!: locate_recorded on_people_content)
    (metis recorded_same)+

lemma create_recorded:
  "get_or_create_group R n g = (Inr c, h) \<Longrightarrow> recorded R (groups_root R) n attempts (cred_system_name c) (disk h)"
  "get_or_create_user R n pg ns g = (Inr c, h) \<Longrightarrow> recorded R (users_root R) n attempts (cred_system_name c) (disk h)"
  unfolding get_or_create_group_def get_or_create_user_def
  by (auto simp: on_credentials_def prog_simps credential_of_def elim!: and_then_InrE split: if_splits
      dest!: reserve_recorded on_people_content)
    (metis recorded_same)+

lemma obtained_recorded:
  fixes g h :: "'d garden"
  shows "obtains_account R n a g h \<Longrightarrow> has_account R n a (disk h)"
proof -
  have later: "recorded R kind m ks x (disk h)"
    if "recorded R kind m ks x (disk g')" and "keeps (\<lambda>u :: 'd garden. retains (disk g') (disk u)) p" and "p g' = (r, h)"
    for kind m ks x g' r and p :: "('d, 'y) rolo"
    using recorded_retained [OF that(1)] keeps_result [OF that(2) _ that(3)] by simp
  assume "obtains_account R n a g h"
  then consider
      (made) grp usr g' where "get_or_create_group R n g = (Inr grp, g')"
        "get_or_create_user R n (cred_system_name grp) [] g' = (Inr usr, h)"
        "a = \<lparr>account_user = usr, account_group = grp\<rparr>"
    | (found) grp usr g' where "find_group R n g = (Inr (Some grp), g')"
        "find_user R n g' = (Inr (Some usr), h)" "a = \<lparr>account_user = usr, account_group = grp\<rparr>"
    by (auto simp: obtains_account_def create_service_account_def find_service_account_def prog_simps
        elim!: and_then_InrE split: option.splits)
  then show ?thesis
  proof cases
    case made
    then show ?thesis
      using later [OF create_recorded(1) [OF made(1)] keeps_new_user made(2)] create_recorded(2) [OF made(2)]
      by (simp add: has_account_def)
  next
    case found
    then show ?thesis
      using later [OF find_recorded(1) [OF found(1)] keeps_find_user found(2)] find_recorded(2) [OF found(2)]
      by (simp add: has_account_def)
  qed
qed

lemma obtains_retains: "obtains_account R n a g h \<Longrightarrow> retains (disk g) (disk h)"
  using keeps_handle [of "disk g" g R "CreateServiceAccount n"] keeps_handle [of "disk g" g R "FindServiceAccount n"]
  by (auto simp: obtains_account_def)

text \<open>C15: No two names share an account, and a name keeps the account it got.  Whatever bract asks of the
  rolodex in between, and whatever system calls and commands fail, an account that is created or found
  later has the user and the group of an earlier one exactly when it is of the same name.\<close>

theorem accounts_stay_apart:
  assumes "obtains_account R m a g0 g1" and "obtains_account R n b (rolodex_serve R requests g1) g2"
  shows "(cred_system_name (account_user a) = cred_system_name (account_user b) \<longleftrightarrow> m = n) \<and>
    (cred_system_name (account_group a) = cred_system_name (account_group b) \<longleftrightarrow> m = n)"
proof -
  have "retains (disk g1) (disk g2)"
    by (rule retains_trans [OF keeps_serve [OF retains_refl] obtains_retains [OF assms(2)]])
  then have "has_account R m a (disk g2)"
    using obtained_recorded [OF assms(1)] recorded_retained by (auto simp: has_account_def)
  with obtained_recorded [OF assms(2)] show ?thesis
    unfolding has_account_def by (metis recorded_content recorded_unique option.inject)
qed

text \<open>An example: commands that do what their manuals say of a new name, and a hash that always collides,
  so that the second of two names that look alike has to be salted.\<close>

definition example_os :: os_commands where
  "example_os =
     \<lparr>os_execute = (\<lambda>command args a.
        if command = ''groupadd''
        then (Inr (), a\<lparr>groups := (last args, \<lparr>group_gid = 900 + of_nat (length (groups a)), group_members = []\<rparr>) # groups a\<rparr>)
        else if command = ''useradd''
        then (case get_group_id a (args ! 3) of
            None \<Rightarrow> (Inl (OtherOsError ''no such group''), a)
          | Some gid \<Rightarrow>
              (Inr (), a\<lparr>passwd := (last args, \<lparr>user_uid = 900 + of_nat (length (passwd a)), user_gid = gid\<rparr>) # passwd a\<rparr>))
        else (Inr (), a)),
      os_output = (\<lambda>_ _ a. (Inr [], a))\<rparr>"

definition example_rolodex :: rolodex where
  "example_rolodex =
     \<lparr>rolodex_root = [''r''], rolodex_sha = (\<lambda>_. replicate 32 CHR ''x''), rolodex_os = example_os\<rparr>"

definition example_garden :: "unit garden" where
  "example_garden =
     \<lparr>disk = \<lparr>nodes = [([], Dir root_meta)], outcomes = [], creator = root_meta, known_users = [], known_groups = []\<rparr>,
      people = \<lparr>passwd = [], groups = []\<rparr>, engine = (), wire = []\<rparr>"

definition example_planted :: "unit garden" where
  "example_planted = snd (create_service_account example_rolodex ''a.b'' example_garden)"

definition example_account :: "string \<Rightarrow> string \<Rightarrow> 32 word \<Rightarrow> service_account" where
  "example_account n s i = \<lparr>account_user = credential_of n s i, account_group = credential_of n s i\<rparr>"

lemma example_accounts:
  "fst (create_service_account example_rolodex ''a.b'' example_garden) =
     Inr (example_account ''a.b'' ''doug-a-b-78787878'' 900)"
  "fst (create_service_account example_rolodex ''a-b'' example_planted) =
     Inr (example_account ''a-b'' ''doug-a-b-1-78787878'' 901)"
  by code_simp+

theorem accounts_stay_apart_witness:
  "fst (create_service_account example_rolodex ''a-b'' example_planted) =
     Inr (example_account ''a-b'' ''doug-a-b-1-78787878'' 901) \<and>
   cred_system_name (account_user (example_account ''a.b'' ''doug-a-b-78787878'' 900)) \<noteq>
   cred_system_name (account_user (example_account ''a-b'' ''doug-a-b-1-78787878'' 901))"
proof -
  have "obtains_account example_rolodex ''a.b'' (example_account ''a.b'' ''doug-a-b-78787878'' 900)
      example_garden example_planted"
    using example_accounts by (simp add: obtains_account_def example_planted_def prod_eq_iff)
  moreover have "obtains_account example_rolodex ''a-b'' (example_account ''a-b'' ''doug-a-b-1-78787878'' 901)
      (rolodex_serve example_rolodex [] example_planted)
      (snd (create_service_account example_rolodex ''a-b'' example_planted))"
    using example_accounts by (simp add: obtains_account_def rolodex_serve_def prod_eq_iff)
  ultimately show ?thesis using accounts_stay_apart example_accounts by blast
qed

end
