(* ===== verification/Containers.thy ===== *)
theory Containers
  imports Garden
begin

text \<open>
  Containers as bract handles them: their names (bract_types/src/lib.rs), labels (bract/src/labels.rs),
  presence (bract/src/blueprints/mod.rs), descriptions (docker_types/src/lib.rs), the docker client
  (docker/src/client.rs) and the steps shared by the blueprints (bract/src/blueprints/container_steps.rs).
  The docker client talks to another program: it is a record of what it can be asked, each request
  answering and changing the engine in a way of its own.
\<close>

section \<open>Names\<close>

definition container_name :: "regex \<Rightarrow> name \<Rightarrow> refined_error + string" where
  "container_name im n = docker_name_from_str im (CONTAINER_NAME_PREFIX @ n)"

definition agent_container_name :: "regex \<Rightarrow> name \<Rightarrow> refined_error + string" where
  "agent_container_name im n = docker_name_from_str im (AGENT_CONTAINER_NAME_PREFIX @ n)"

definition parsed_after :: "regex \<Rightarrow> string \<Rightarrow> string \<Rightarrow> name option" where
  "parsed_after im pre raw =
     (case strip_prefix pre raw of
        None \<Rightarrow> None
      | Some n \<Rightarrow> (case name_from_str im n of Inl _ \<Rightarrow> None | Inr m \<Rightarrow> Some m))"

definition seedling_name_from_doug_prefixed :: "regex \<Rightarrow> string \<Rightarrow> name option" where
  "seedling_name_from_doug_prefixed im raw = parsed_after im CONTAINER_NAME_PREFIX raw"

definition seedling_name_from_agent_prefixed :: "regex \<Rightarrow> string \<Rightarrow> name option" where
  "seedling_name_from_agent_prefixed im raw = parsed_after im AGENT_CONTAINER_NAME_PREFIX raw"

definition seedling_network_name :: "regex \<Rightarrow> name \<Rightarrow> refined_error + string" where
  "seedling_network_name im n =
     (case container_name im n of Inl e \<Rightarrow> Inl e | Inr c \<Rightarrow> docker_name_from_str im c)"

definition SYSTEM_NETWORK_NAME :: string where
  "SYSTEM_NETWORK_NAME = ''douglas-system''"

section \<open>Labels\<close>

definition VERSION_LABEL :: string where
  "VERSION_LABEL = ''douglas.version''"

definition ORIGIN_LABEL :: string where
  "ORIGIN_LABEL = ''douglas.origin''"

definition label_value_of :: "string \<Rightarrow> label list \<Rightarrow> string option" where
  "label_value_of key ls = map_option label_value (List.find (\<lambda>l. label_name l = key) ls)"

text \<open>\<open>None\<close> is \<open>LabelError::MissingVersion\<close>.\<close>

definition get_version :: "label list \<Rightarrow> seedling_version option" where
  "get_version ls =
     (case label_value_of VERSION_LABEL ls of
        None \<Rightarrow> None
      | Some v \<Rightarrow> (case version_from_str v of Inl _ \<Rightarrow> None | Inr n \<Rightarrow> Some n))"

definition create_version_label :: "seedling_version \<Rightarrow> label" where
  "create_version_label v = \<lparr>label_name = VERSION_LABEL, label_value = show_u16 v\<rparr>"

definition get_origin :: "label list \<Rightarrow> origin option" where
  "get_origin ls =
     (case label_value_of ORIGIN_LABEL ls of
        None \<Rightarrow> None
      | Some v \<Rightarrow> if v = ''core'' then Some Core else if v = ''user'' then Some User else None)"

definition create_origin_label :: "origin \<Rightarrow> label" where
  "create_origin_label og =
     \<lparr>label_name = ORIGIN_LABEL, label_value = (case og of Core \<Rightarrow> ''core'' | User \<Rightarrow> ''user'')\<rparr>"

section \<open>Descriptions of containers\<close>

record mount_definition =
  mount_name :: string
  host_path :: path
  container_path :: path
  writable :: bool

record container_user =
  container_uid :: "32 word"
  container_gid :: "32 word"

record published_port =
  host_port :: "16 word"
  container_port :: "16 word"

record new_container =
  nc_name :: string
  nc_image :: pull_target
  nc_run_as :: "container_user option"
  nc_command :: "string option"
  nc_environment :: "env_var list"
  nc_mounts :: "mount_definition list"
  nc_capabilities :: "capability list"
  nc_labels :: "label list"
  nc_ports :: "published_port list"

text \<open>An IPv4 address, most significant byte first.\<close>

type_synonym ipv4 = "8 word list"

record ipv4_subnet =
  cidr :: string
  gateway :: ipv4

section \<open>The docker client\<close>

datatype docker_error =
    FailedToCreateClient string
  | PingFailed string
  | ResourceNotFound
  | InvalidArgument string string string
  | AmbiguousMatch
  | InvalidDockerName string string
  | GeneralError string

record 'd docker_client =
  docker_image_exists :: "pull_target \<Rightarrow> ('d, docker_error, bool) prog"
  docker_pull_image :: "pull_target \<Rightarrow> ('d, docker_error, unit) prog"
  docker_container_labels :: "string \<Rightarrow> ('d, docker_error, label list) prog"
  docker_container_status :: "string \<Rightarrow> ('d, docker_error, docker_status) prog"
  docker_container_exists :: "string \<Rightarrow> ('d, docker_error, bool) prog"
  docker_create_container :: "new_container \<Rightarrow> ('d, docker_error, unit) prog"
  docker_start_container :: "string \<Rightarrow> ('d, docker_error, unit) prog"
  docker_stop_container :: "string \<Rightarrow> ('d, docker_error, unit) prog"
  docker_delete_container :: "string \<Rightarrow> ('d, docker_error, unit) prog"
  docker_network_exists :: "string \<Rightarrow> ('d, docker_error, bool) prog"
  docker_create_network :: "string \<Rightarrow> ipv4_subnet option \<Rightarrow> ('d, docker_error, unit) prog"
  docker_connect_network :: "string \<Rightarrow> string \<Rightarrow> ipv4 option \<Rightarrow> ('d, docker_error, unit) prog"
  docker_disconnect_network :: "string \<Rightarrow> string \<Rightarrow> ('d, docker_error, unit) prog"
  docker_delete_network :: "string \<Rightarrow> ('d, docker_error, unit) prog"
  docker_list_containers :: "('d, docker_error, string list) prog"
  docker_list_networks :: "('d, docker_error, string list) prog"

section \<open>Presence\<close>

definition ignore_missing :: "('s, docker_error, unit) prog \<Rightarrow> ('s, docker_error, unit) prog" where
  "ignore_missing m =
     and_then (attempt m) (\<lambda>r.
       case r of Inl ResourceNotFound \<Rightarrow> ok () | Inl e \<Rightarrow> fail e | Inr _ \<Rightarrow> ok ())"

datatype container_presence = Absent | Present docker_status

definition presence_exists :: "container_presence \<Rightarrow> bool" where
  "presence_exists p \<longleftrightarrow> p \<noteq> Absent"

definition presence_is_running :: "container_presence \<Rightarrow> bool" where
  "presence_is_running p \<longleftrightarrow> p = Present docker_status.Running"

definition presence_is_stopped :: "container_presence \<Rightarrow> bool" where
  "presence_is_stopped p \<longleftrightarrow>
     p \<in> {Present docker_status.Created, Present docker_status.Exited, Present docker_status.Dead}"

definition observe_container :: "'d docker_client \<Rightarrow> string \<Rightarrow> ('d, docker_error, container_presence) prog" where
  "observe_container D c =
     and_then (docker_container_exists D c) (\<lambda>present.
       if \<not> present then ok Absent
       else
         and_then (attempt (docker_container_status D c)) (\<lambda>r.
           case r of
             Inr status \<Rightarrow> ok (Present status)
           | Inl ResourceNotFound \<Rightarrow> ok Absent
           | Inl e \<Rightarrow> fail e))"

section \<open>Steps shared by the blueprints\<close>

text \<open>Stopping and dropping a container, and what their rollbacks do: the one starts the container again,
  the other has none.\<close>

definition stop_container_run :: "'d docker_client \<Rightarrow> string \<Rightarrow> ('d, docker_error, unit) prog" where
  "stop_container_run D c = docker_stop_container D c"

definition stop_container_rollback :: "'d docker_client \<Rightarrow> string \<Rightarrow> ('d, docker_error, unit) prog" where
  "stop_container_rollback D c = ignore_missing (docker_start_container D c)"

definition drop_container_run :: "'d docker_client \<Rightarrow> string \<Rightarrow> ('d, docker_error, unit) prog" where
  "drop_container_run D c = docker_delete_container D c"

section \<open>The interface of the RAM disk\<close>

record 'd ram_disk =
  ram_is_mounted :: "path \<Rightarrow> ('d garden, string, bool) prog"
  ram_mount :: "path \<Rightarrow> nat \<Rightarrow> ('d garden, string, bool) prog"
  ram_unmount :: "path \<Rightarrow> ('d garden, string, unit) prog"

section \<open>Names and labels are read back\<close>

lemma version_label_round_trip: "get_version (create_version_label v # ls) = Some v"
  by (simp add: get_version_def label_value_of_def create_version_label_def)

lemma origin_label_round_trip: "get_origin [create_version_label v, create_origin_label og] = Some og"
  by (cases og) (simp_all add: get_origin_def label_value_of_def create_origin_label_def
      create_version_label_def VERSION_LABEL_def ORIGIN_LABEL_def)

lemma star_class: "accepts (Star (Cls P)) s \<longleftrightarrow> list_all P s"
  by (induction s) (auto simp: accepts_Seq)

lemma docker_name_accepts:
  assumes "documented_regex im"
  shows "im docker_name_pattern (c # s) \<longleftrightarrow> alnum c \<and> list_all word_char s"
proof -
  have "im docker_name_pattern (c # s) = (alnum c \<and> list_all (\<lambda>c. alnum c \<or> one_of ''_.-'' c) s)"
    unfolding documented_patterns(5) [OF assms] docker_name_rx_def by (auto simp: star_class accepts_Seq)
  also have "list_all (\<lambda>c. alnum c \<or> one_of ''_.-'' c) s = list_all word_char s"
    by (auto simp: list_all_iff word_char_def one_of_def)
  finally show ?thesis .
qed

text \<open>The containers of a seedling and of its agent always have names, they are read back, and no name is
  read as both.\<close>

lemma container_name_of_seedling:
  assumes "documented_regex im" and "name_from_str im n = Inr m"
  shows "container_name im n = Inr (''doug.'' @ n)" and "agent_container_name im n = Inr (''doug-agent.'' @ n)"
    and "seedling_network_name im n = Inr (''doug.'' @ n)"
    and "seedling_name_from_doug_prefixed im (''doug.'' @ n) = Some n"
    and "seedling_name_from_agent_prefixed im (''doug-agent.'' @ n) = Some n"
    and "seedling_name_from_doug_prefixed im (''doug-agent.'' @ n) = None"
    and "seedling_name_from_agent_prefixed im (''doug.'' @ n) = None"
proof -
  have n: "m = n" "length n \<le> 16" "list_all word_char n"
    using assms accepted_words(1) [OF assms(1), of n]
    by (auto simp: name_from_str_def validated_Inr list_all_iff)
  have "list_all word_char ''oug.''" "list_all word_char ''oug-agent.''" "alnum CHR ''d''"
    by (simp_all add: word_char_def alnum_def is_lower_def char_in_def one_of_def)
  with n show "container_name im n = Inr (''doug.'' @ n)" "agent_container_name im n = Inr (''doug-agent.'' @ n)"
    by (simp_all add: container_name_def agent_container_name_def docker_name_from_str_def validated_Inr
        CONTAINER_NAME_PREFIX_def AGENT_CONTAINER_NAME_PREFIX_def docker_name_accepts [OF assms(1)])
  then show "seedling_network_name im n = Inr (''doug.'' @ n)"
    by (simp add: seedling_network_name_def container_name_def CONTAINER_NAME_PREFIX_def)
  show "seedling_name_from_doug_prefixed im (''doug.'' @ n) = Some n"
    "seedling_name_from_agent_prefixed im (''doug-agent.'' @ n) = Some n"
    "seedling_name_from_doug_prefixed im (''doug-agent.'' @ n) = None"
    "seedling_name_from_agent_prefixed im (''doug.'' @ n) = None"
    using assms(2) n(1)
    by (simp_all add: seedling_name_from_doug_prefixed_def seedling_name_from_agent_prefixed_def parsed_after_def
        CONTAINER_NAME_PREFIX_def AGENT_CONTAINER_NAME_PREFIX_def strip_prefix_def)
qed

end
