(* ===== verification/Rest.thy ===== *)
theory Rest
  imports Text
begin

text \<open>
  Requests over HTTP as the clients of OpenBao, of docker and of the registry make them
  (simple_rest_client/src/lib.rs, simple_rest_client/src/assertions.rs): the data of requests and responses, and
  what the clients insist on.  Sending a request (\<open>RestClient::execute\<close>) is a parameter of what is built here, as
  are reading and writing JSON (\<open>serde_json\<close>).
\<close>

section \<open>Requests and responses\<close>

datatype rest_method = DeleteMethod | GetMethod | HeadMethod | PostMethod | PutMethod

record rest_request =
  rest_method :: rest_method
  rest_path :: string
  rest_headers :: "(string \<times> string) list"
  rest_body :: "string option"
  rest_query :: "(string \<times> string) list"

datatype rest_response =
    RestOkay "(string \<times> string) list" "string option"
  | RestCreated "(string \<times> string) list" "string option"
  | RestNoContent "(string \<times> string) list"
  | RestError "(string \<times> string) list" nat "string option"

type_synonym ('d, 'a) sender = "rest_request \<Rightarrow> ('d, string, 'a) prog"

definition content_type_json :: "string \<times> string" where
  "content_type_json = (''content-type'', ''application/json'')"

text \<open>\<open>urlencode\<close> is \<open>urlencoding::encode\<close>.\<close>

definition create_path_and_query_string :: "(string \<Rightarrow> string) \<Rightarrow> string \<Rightarrow> (string \<times> string) list \<Rightarrow> string" where
  "create_path_and_query_string urlencode p parameters =
     (if parameters = [] then p
      else p @ ''?'' @ join_with ''&'' (map (\<lambda>(n, v). urlencode n @ ''='' @ urlencode v) parameters))"

section \<open>What a client insists on\<close>

datatype assertion_error =
    AssertUnexpected nat "string option" string
  | AssertMissingBody
  | AssertNotFound

definition not_successful :: "nat \<Rightarrow> string option \<Rightarrow> assertion_error" where
  "not_successful status body =
     (if status = 404 then AssertNotFound else AssertUnexpected status body ''non successful response'')"

definition with_body :: "assertion_error + (string \<times> string) list \<times> string option \<Rightarrow> assertion_error + string" where
  "with_body r = (case r of Inl e \<Rightarrow> Inl e | Inr (_, Some body) \<Rightarrow> Inr body | Inr (_, None) \<Rightarrow> Inl AssertMissingBody)"

definition assert_okay :: "rest_response \<Rightarrow> assertion_error + (string \<times> string) list \<times> string option" where
  "assert_okay r =
     (case r of
        RestOkay hs body \<Rightarrow> Inr (hs, body)
      | RestCreated _ body \<Rightarrow> Inl (AssertUnexpected 201 body ''expected OK, but recieved CREATED'')
      | RestNoContent _ \<Rightarrow> Inl (AssertUnexpected 204 None ''expected OK, but recieved NO CONTENT'')
      | RestError _ status body \<Rightarrow> Inl (not_successful status body))"

definition assert_okay_with_body :: "rest_response \<Rightarrow> assertion_error + string" where
  "assert_okay_with_body r = with_body (assert_okay r)"

definition assert_created :: "rest_response \<Rightarrow> assertion_error + (string \<times> string) list \<times> string option" where
  "assert_created r =
     (case r of
        RestOkay _ body \<Rightarrow> Inl (AssertUnexpected 200 body ''expected CREATED, but recieved OK'')
      | RestCreated hs body \<Rightarrow> Inr (hs, body)
      | RestNoContent _ \<Rightarrow> Inl (AssertUnexpected 204 None ''expected CREATED, but recieved NO CONTENT'')
      | RestError _ status body \<Rightarrow> Inl (not_successful status body))"

definition assert_created_with_body :: "rest_response \<Rightarrow> assertion_error + string" where
  "assert_created_with_body r = with_body (assert_created r)"

definition assert_no_content :: "rest_response \<Rightarrow> assertion_error + (string \<times> string) list" where
  "assert_no_content r =
     (case r of
        RestOkay _ body \<Rightarrow> Inl (AssertUnexpected 200 body ''expected NO CONTENT, but recieved OK'')
      | RestCreated _ body \<Rightarrow> Inl (AssertUnexpected 201 body ''expected NO CONTENT, but recieved CREATED'')
      | RestNoContent hs \<Rightarrow> Inr hs
      | RestError _ status body \<Rightarrow> Inl (not_successful status body))"

definition assert_okay_or_no_content :: "rest_response \<Rightarrow> assertion_error + (string \<times> string) list" where
  "assert_okay_or_no_content r =
     (case r of
        RestOkay hs _ \<Rightarrow> Inr hs
      | RestNoContent hs \<Rightarrow> Inr hs
      | RestCreated _ body \<Rightarrow> Inl (AssertUnexpected 201 body ''expected OK or NO CONTENT, but recieved CREATED'')
      | RestError _ status body \<Rightarrow> Inl (not_successful status body))"

section \<open>JSON\<close>

text \<open>A value of \<open>serde_json\<close>, and its fields as a derived \<open>Deserialize\<close> reads them: other fields are ignored, a
  missing one is an error.\<close>

datatype json_value =
    NullValue | Flag bool | Number int | Text string | Items "json_value list" | Fields "(string \<times> json_value) list"

record json_tools =
  parse_json :: "string \<Rightarrow> json_value option"
  show_json :: "json_value \<Rightarrow> string"

fun field :: "string \<Rightarrow> json_value \<Rightarrow> json_value option" where
  "field k (Fields fs) = map_of fs k"
| "field k _ = None"

fun as_text :: "json_value \<Rightarrow> string option" where
  "as_text (Text s) = Some s"
| "as_text _ = None"

fun as_flag :: "json_value \<Rightarrow> bool option" where
  "as_flag (Flag b) = Some b"
| "as_flag _ = None"

fun as_unsigned :: "nat \<Rightarrow> json_value \<Rightarrow> nat option" where
  "as_unsigned bits (Number i) = (if 0 \<le> i \<and> i < 2 ^ bits then Some (nat i) else None)"
| "as_unsigned _ _ = None"

definition as_texts :: "json_value \<Rightarrow> string list option" where
  "as_texts j = (case j of Items js \<Rightarrow> those (map as_text js) | _ \<Rightarrow> None)"

definition as_map :: "(json_value \<Rightarrow> 'a option) \<Rightarrow> json_value \<Rightarrow> (string \<times> 'a) list option" where
  "as_map f j =
     (case j of Fields fs \<Rightarrow> those (map (\<lambda>(k, v). map_option (Pair k) (f v)) fs) | _ \<Rightarrow> None)"

definition read_field :: "string \<Rightarrow> (json_value \<Rightarrow> 'a option) \<Rightarrow> json_value \<Rightarrow> 'a option" where
  "read_field k f j = Option.bind (field k j) f"

end
