(* ===== verification/Reconcile.thy ===== *)
theory Reconcile
  imports Containers Rolodex Blueprint
begin

text \<open>
  Bringing a seedling to its declared state (bract/src/blueprints/reconcile_seedling.rs): the discovery of
  what is missing, the plan, and every step with its rollback, run by the executor of \<open>Blueprint\<close> on the
  garden.  Log messages are not modelled.  A \<open>HashMap\<close> of mounts is visited in the order of its list.
\<close>

section \<open>The context\<close>

text \<open>\<open>AgentProvisioning\<close> of bract/src/blueprints/provision_seedling_secrets.rs.\<close>

record agent_provisioning =
  mount_dir :: path
  role_id_path :: path
  secret_id_path :: path
  agent_config_path :: path
  role_id :: string
  secret_id :: string
  agent_config :: string
  private_subnet :: ipv4_subnet
  agent_private_ip :: ipv4

text \<open>What a reconciliation is given: the seedling, and the clients and folders of bract.  \<open>plot_resin\<close> asks
  resin whether it has the image, \<open>plot_agent_image\<close> is \<open>openbao::image_source\<close>.\<close>

record 'd plot =
  plot_name :: name
  plot_version :: seedling_version
  plot_definition :: seedling_definition
  plot_agent :: "agent_provisioning option"
  plot_regex :: regex
  plot_folders :: douglas_folders
  plot_bank :: bank
  plot_docker :: "'d docker_client"
  plot_rolodex :: rolodex
  plot_ram_disk :: "'d ram_disk"
  plot_resin :: "versioned_image_name \<Rightarrow> ('d, string, bool) prog"
  plot_agent_image :: image_source

datatype reconcile_error =
    ReconcileResinError string
  | ReconcileFileSystemError fs_error
  | ReconcileDockerError docker_error
  | ReconcileLabelError
  | FailedBootstrap "string list"
  | ReconcileRolodexError rolodex_error
  | ReconcileDockerNameError refined_error
  | MissingImage
  | MissingServiceAccount
  | MissingShareGroup
  | InvalidMountPath relative_path
  | ReconcileSeedbankError client_error
  | WouldDowngrade
  | MissingAgentProvisioning
  | ReconcileImagePathError refined_error
  | ReconcileImageSourceError refined_error
  | ReconcileRamDiskError string

type_synonym ('d, 'a) reconciling = "('d garden, reconcile_error, 'a) prog"

definition disk_call :: "(fs, fs_error, 'a) prog \<Rightarrow> ('d, 'a) reconciling" where
  "disk_call m = on_disk ReconcileFileSystemError m"

definition docker_call :: "('d, docker_error, 'a) prog \<Rightarrow> ('d, 'a) reconciling" where
  "docker_call m = on_engine ReconcileDockerError m"

definition rolo_call :: "('d garden, rolodex_error, 'a) prog \<Rightarrow> ('d, 'a) reconciling" where
  "rolo_call m = map_err ReconcileRolodexError m"

definition bank_call :: "('d garden, client_error, 'a) prog \<Rightarrow> ('d, 'a) reconciling" where
  "bank_call m = map_err ReconcileSeedbankError m"

definition docker_name :: "refined_error + 'a \<Rightarrow> ('d, 'a) reconciling" where
  "docker_name r = map_err ReconcileDockerNameError (of_result r)"

definition agent_account_full_name :: "name \<Rightarrow> string" where
  "agent_account_full_name n = n @ ''-openbao-agent''"

definition EXPECTED_MOUNT_MODE :: modes where
  "EXPECTED_MOUNT_MODE = InheritedOwnerReadWriteExecuteGroupReadWriteExecute"

definition AGENT_MOUNT_RAM_DISK_SIZE_MB :: nat where
  "AGENT_MOUNT_RAM_DISK_SIZE_MB = 1"

section \<open>The observed state\<close>

datatype container_state =
    ContainerMissing
  | ContainerCurrent bool
  | ContainerStale seedling_version bool
  | ContainerNewer

datatype image_status = ImageUnknown | ImageLocal | ImageAvailableFromResin

datatype version_comparison = VersionMissing | VersionCurrent | VersionStale | VersionNewer

record seedling_state =
  st_version :: version_comparison
  st_container_name :: string
  st_image :: image_status
  st_container :: container_state
  missing_service_credentials :: bool
  missing_share_groups :: "(name \<times> name list) list"
  missing_mount_folders :: "path list"
  needs_mount_ownership :: "(path \<times> name \<times> mount_kind) list"
  missing_mount_mode :: "(path \<times> modes) list"
  missing_mount_files :: "(path \<times> string \<times> string) list"
  agent_missing_service_credentials :: bool
  st_agent_container :: container_presence

definition initial_state :: "string \<Rightarrow> seedling_state" where
  "initial_state c =
     \<lparr>st_version = VersionMissing, st_container_name = c, st_image = ImageUnknown,
      st_container = ContainerMissing, missing_service_credentials = True, missing_share_groups = [],
      missing_mount_folders = [], needs_mount_ownership = [], missing_mount_mode = [],
      missing_mount_files = [], agent_missing_service_credentials = True, st_agent_container = Absent\<rparr>"

section \<open>Discovery\<close>

definition plot_mount_path :: "'d plot \<Rightarrow> name \<Rightarrow> path" where
  "plot_mount_path P mn = seedling_mount (plot_folders P) (plot_name P) mn"

definition expected_mount_group_name :: "'d plot \<Rightarrow> name \<Rightarrow> mount \<Rightarrow> ('d, string option) reconciling" where
  "expected_mount_group_name P mn mt =
     (case mount_kind mt of
        PersistedShared _ \<Rightarrow>
          and_then (rolo_call (find_share_group (plot_rolodex P) (plot_name P) mn))
            (\<lambda>c. ok (map_option cred_system_name c))
      | _ \<Rightarrow>
          and_then (rolo_call (find_service_account (plot_rolodex P) (plot_name P)))
            (\<lambda>a. ok (map_option (\<lambda>a. cred_system_name (account_group a)) a)))"

definition create_missing_mount_file :: "mount_file \<Rightarrow> path \<Rightarrow> reconcile_error + (path \<times> string \<times> string)" where
  "create_missing_mount_file f full_path =
     (case (folder_parent full_path, folder_pop full_path) of
        (Some parent, Some file_name) \<Rightarrow> Inr (parent, file_name, file_bytes f)
      | _ \<Rightarrow> Inl (InvalidMountPath (file_relative_path f)))"

definition push_folder :: "path \<Rightarrow> seedling_state \<Rightarrow> seedling_state" where
  "push_folder p st = st\<lparr>missing_mount_folders := missing_mount_folders st @ [p]\<rparr>"

definition push_file :: "path \<times> string \<times> string \<Rightarrow> seedling_state \<Rightarrow> seedling_state" where
  "push_file f st = st\<lparr>missing_mount_files := missing_mount_files st @ [f]\<rparr>"

definition push_ownership :: "path \<times> name \<times> mount_kind \<Rightarrow> seedling_state \<Rightarrow> seedling_state" where
  "push_ownership x st = st\<lparr>needs_mount_ownership := needs_mount_ownership st @ [x]\<rparr>"

definition push_mode :: "path \<Rightarrow> seedling_state \<Rightarrow> seedling_state" where
  "push_mode p st = st\<lparr>missing_mount_mode := missing_mount_mode st @ [(p, EXPECTED_MOUNT_MODE)]\<rparr>"

text \<open>A file that is not there is noted with its folder, whether or not that folder is there.\<close>

definition note_missing_file :: "mount_file \<Rightarrow> path \<Rightarrow> seedling_state \<Rightarrow> ('d, seedling_state) reconciling" where
  "note_missing_file f full_path st =
     (case folder_parent full_path of
        None \<Rightarrow> fail (ReconcileFileSystemError (InvalidPath full_path))
      | Some parent \<Rightarrow>
          and_then (of_result (create_missing_mount_file f full_path))
            (\<lambda>x. ok (push_file x (push_folder parent st))))"

definition discover_contents :: "path \<Rightarrow> mount_contents \<Rightarrow> seedling_state \<Rightarrow> ('d, seedling_state) reconciling" where
  "discover_contents root item st =
     (case item of
        FolderOnly p \<Rightarrow>
          gets (\<lambda>g. if exists_path (disk g) (root @ p) then st else push_folder (root @ p) st)
      | FileContents f \<Rightarrow>
          (let full_path = root @ file_relative_path f
           in and_then (gets (\<lambda>g. exists_path (disk g) full_path)) (\<lambda>present.
                if present
                then
                  and_then (disk_call (reader_read_all_bytes full_path)) (\<lambda>actual_bytes.
                    if file_bytes f = actual_bytes then ok st
                    else
                      and_then (of_result (create_missing_mount_file f full_path))
                        (\<lambda>x. ok (push_file x st)))
                else note_missing_file f full_path st)))"

definition discover_missing_mount_contents :: "mount \<Rightarrow> path \<Rightarrow> seedling_state \<Rightarrow> ('d, seedling_state) reconciling" where
  "discover_missing_mount_contents mt root st = fold_prog (discover_contents root) (mount_contents mt) st"

definition add_missing_contents :: "path \<Rightarrow> mount_contents \<Rightarrow> seedling_state \<Rightarrow> ('d, seedling_state) reconciling" where
  "add_missing_contents root item st =
     (case item of
        FolderOnly p \<Rightarrow> ok (push_folder (root @ p) st)
      | FileContents f \<Rightarrow> note_missing_file f (root @ file_relative_path f) st)"

definition add_missing_mount :: "name \<Rightarrow> mount \<Rightarrow> path \<Rightarrow> seedling_state \<Rightarrow> ('d, seedling_state) reconciling" where
  "add_missing_mount mn mt root st =
     fold_prog (add_missing_contents root) (mount_contents mt)
       (push_mode root (push_ownership (root, mn, mount_kind mt) (push_folder root st)))"

text \<open>Guests of a shared mount that has no group yet.\<close>

definition discover_share_group :: "'d plot \<Rightarrow> name \<times> mount \<Rightarrow> seedling_state \<Rightarrow> ('d, seedling_state) reconciling" where
  "discover_share_group P x st =
     (case mount_kind (snd x) of
        PersistedShared siblings \<Rightarrow>
          and_then (rolo_call (find_share_group (plot_rolodex P) (plot_name P) (fst x))) (\<lambda>c.
            ok (case c of
                  Some _ \<Rightarrow> st
                | None \<Rightarrow> st\<lparr>missing_share_groups := missing_share_groups st @ [(fst x, siblings)]\<rparr>))
      | _ \<Rightarrow> ok st)"

definition discover_missing_mount :: "'d plot \<Rightarrow> name \<times> mount \<Rightarrow> seedling_state \<Rightarrow> ('d, seedling_state) reconciling" where
  "discover_missing_mount P x st =
     (let mn = fst x; mt = snd x; root = plot_mount_path P mn
      in and_then (discover_share_group P x st) (\<lambda>st.
         and_then (gets (\<lambda>g. folder_exists (disk g) root)) (\<lambda>present.
           if \<not> present then add_missing_mount mn mt root st
           else
             and_then (expected_mount_group_name P mn mt) (\<lambda>expected.
             and_then
               (case expected of
                  None \<Rightarrow> ok (push_ownership (root, mn, mount_kind mt) st)
                | Some expected_group \<Rightarrow>
                    and_then (disk_call (get_user_and_group_ownership root)) (\<lambda>(_, actual_group).
                      ok (if actual_group \<noteq> expected_group
                          then push_ownership (root, mn, mount_kind mt) st else st)))
               (\<lambda>st.
             and_then (disk_call (get_mode root)) (\<lambda>actual_mode.
               discover_missing_mount_contents mt root
                 (if actual_mode \<noteq> EXPECTED_MOUNT_MODE then push_mode root st else st)))))))"

definition discover_image_status :: "'d plot \<Rightarrow> ('d, image_status) reconciling" where
  "discover_image_status P =
     (let source = image (plot_definition P)
      in and_then (map_err ReconcileImageSourceError (of_result (resolve_image (plot_regex P) source (plot_name P)))) (\<lambda>target.
         and_then (docker_call (docker_image_exists (plot_docker P) target)) (\<lambda>present.
           if present then ok ImageLocal
           else
             (case source of
                External _ \<Rightarrow> ok ImageAvailableFromResin
              | Local \<Rightarrow>
                  and_then (map_err ReconcileImagePathError (of_result (component_from_str (plot_regex P) (plot_name P)))) (\<lambda>c.
                  and_then (on_engine ReconcileResinError
                      (plot_resin P \<lparr>namespace = None, image_name = c, version = Latest\<rparr>)) (\<lambda>has.
                    ok (if has then ImageAvailableFromResin else ImageUnknown)))))))"

definition discover_container_is_running :: "'d plot \<Rightarrow> string \<Rightarrow> ('d, bool) reconciling" where
  "discover_container_is_running P c =
     and_then (attempt (on_engine id (docker_container_status (plot_docker P) c))) (\<lambda>r.
       case r of
         Inr status \<Rightarrow> ok (status = docker_status.Running)
       | Inl ResourceNotFound \<Rightarrow> ok False
       | Inl e \<Rightarrow> fail (ReconcileDockerError e))"

definition discover_container :: "'d plot \<Rightarrow> string \<Rightarrow> ('d, container_state) reconciling" where
  "discover_container P c =
     and_then (attempt (on_engine id (docker_container_labels (plot_docker P) c))) (\<lambda>r.
       case r of
         Inl ResourceNotFound \<Rightarrow> ok ContainerMissing
       | Inl e \<Rightarrow> fail (ReconcileDockerError e)
       | Inr labels \<Rightarrow>
           (case get_version labels of
              None \<Rightarrow> fail ReconcileLabelError
            | Some actual \<Rightarrow>
                if plot_version P < actual then ok ContainerNewer
                else
                  and_then (discover_container_is_running P c) (\<lambda>running.
                    ok (if plot_version P = actual then ContainerCurrent running
                        else ContainerStale actual running))))"

definition discover_current_seedbank_version :: "'d plot \<Rightarrow> ('d, version_comparison) reconciling" where
  "discover_current_seedbank_version P =
     and_then (bank_call (client_status (plot_bank P) (plot_name P))) (\<lambda>status.
       ok (case status of
             Unknown \<Rightarrow> VersionMissing
           | Defined current \<Rightarrow>
               if current < plot_version P then VersionStale
               else if current = plot_version P then VersionCurrent
               else VersionNewer))"

definition discover_agent :: "'d plot \<Rightarrow> seedling_state \<Rightarrow> ('d, seedling_state) reconciling" where
  "discover_agent P st =
     (if plot_agent P = None then ok st
      else
        and_then (rolo_call (find_service_account (plot_rolodex P) (agent_account_full_name (plot_name P)))) (\<lambda>a.
        and_then (docker_name (agent_container_name (plot_regex P) (plot_name P))) (\<lambda>c.
        and_then (docker_call (observe_container (plot_docker P) c)) (\<lambda>presence.
          ok (st\<lparr>agent_missing_service_credentials := a = None, st_agent_container := presence\<rparr>)))))"

definition discover_seedling :: "'d plot \<Rightarrow> ('d, seedling_state) reconciling" where
  "discover_seedling P =
     and_then (docker_name (container_name (plot_regex P) (plot_name P))) (\<lambda>c.
     and_then (discover_agent P (initial_state c)) (\<lambda>st.
     and_then (discover_current_seedbank_version P) (\<lambda>version.
     and_then (discover_image_status P) (\<lambda>image_status.
     and_then (discover_container P c) (\<lambda>container.
     and_then (rolo_call (find_service_account (plot_rolodex P) (plot_name P))) (\<lambda>account.
       fold_prog (discover_missing_mount P) (mounts (plot_definition P))
         (st\<lparr>st_version := version, st_image := image_status, st_container := container,
             missing_service_credentials := account = None\<rparr>)))))))"

section \<open>The plan\<close>

text \<open>A step with the fields its \<open>run\<close> sets for its rollback: the previous definition of an updated
  seedling, the previous contents of a file, whether the agent's folder and RAM disk were made, whether a
  network was made.  Name, version and definition are those of the context.\<close>

datatype reconcile_step =
    CreateSeedling
  | UpdateSeedling "(seedling_version \<times> seedling_definition) option"
  | SetDesiredRunStatusToRunning
  | CreateServiceAccount
  | CreateAgentServiceAccount
  | CreateShareGroup name "name list"
  | CreateMountFolder path
  | SetMountOwnership path name mount_kind
  | SetMountMode path modes
  | WriteFile path string string "string option"
  | PullImageFromResin pull_target
  | EnsureAgentMount bool bool
  | BuildAgentContainer bool
  | BuildContainer bool
  | StartContainer string
  | StopContainerStep string
  | DropContainerStep string

definition plan_seedling_and_credentials_steps :: "bool \<Rightarrow> seedling_state \<Rightarrow> reconcile_step list" where
  "plan_seedling_and_credentials_steps agent_requested st =
     (case st_version st of
        VersionMissing \<Rightarrow> [CreateSeedling]
      | VersionStale \<Rightarrow> [UpdateSeedling None]
      | VersionCurrent \<Rightarrow> []
      | VersionNewer \<Rightarrow> []) @
     [SetDesiredRunStatusToRunning] @
     (if missing_service_credentials st then [CreateServiceAccount] else []) @
     (if agent_requested \<and> agent_missing_service_credentials st then [CreateAgentServiceAccount] else [])"

definition plan_mount_steps :: "seedling_state \<Rightarrow> reconcile_step list" where
  "plan_mount_steps st =
     map (\<lambda>(mn, guests). CreateShareGroup mn guests) (missing_share_groups st) @
     map CreateMountFolder (missing_mount_folders st) @
     map (\<lambda>(p, mn, kind). SetMountOwnership p mn kind) (needs_mount_ownership st) @
     map (\<lambda>(p, md). SetMountMode p md) (missing_mount_mode st) @
     map (\<lambda>(parent, file_name, bytes). WriteFile parent file_name bytes None) (missing_mount_files st)"

definition plan_image_step :: "'d plot \<Rightarrow> image_status \<Rightarrow> reconcile_error + reconcile_step list" where
  "plan_image_step P status =
     (case status of
        ImageUnknown \<Rightarrow> Inl MissingImage
      | ImageLocal \<Rightarrow> Inr []
      | ImageAvailableFromResin \<Rightarrow>
          (case resolve_image (plot_regex P) (image (plot_definition P)) (plot_name P) of
             Inl e \<Rightarrow> Inl (ReconcileImageSourceError e)
           | Inr target \<Rightarrow> Inr [PullImageFromResin target]))"

definition plan_agent_container_steps :: "'d plot \<Rightarrow> container_presence \<Rightarrow> reconcile_error + reconcile_step list" where
  "plan_agent_container_steps P presence =
     (if presence_is_running presence then Inr [EnsureAgentMount False False]
      else
        (case agent_container_name (plot_regex P) (plot_name P) of
           Inl e \<Rightarrow> Inl (ReconcileDockerNameError e)
         | Inr c \<Rightarrow>
             Inr ([EnsureAgentMount False False] @
                  (if \<not> presence_exists presence then [BuildAgentContainer False] else []) @
                  [StartContainer c])))"

definition plan_container_steps :: "string \<Rightarrow> container_state \<Rightarrow> reconcile_error + reconcile_step list" where
  "plan_container_steps c container =
     (case container of
        ContainerMissing \<Rightarrow> Inr [BuildContainer False, StartContainer c]
      | ContainerCurrent running \<Rightarrow> Inr (if running then [] else [StartContainer c])
      | ContainerStale _ running \<Rightarrow>
          Inr ((if running then [StopContainerStep c] else []) @
               [DropContainerStep c, BuildContainer False, StartContainer c])
      | ContainerNewer \<Rightarrow> Inl WouldDowngrade)"

definition create_plan :: "'d plot \<Rightarrow> seedling_state \<Rightarrow> reconcile_error + reconcile_step list" where
  "create_plan P st =
     (let agent_requested = secrets (plot_definition P) \<noteq> None
      in case plan_image_step P (st_image st) of
           Inl e \<Rightarrow> Inl e
         | Inr image_steps \<Rightarrow>
             (case (if agent_requested then plan_agent_container_steps P (st_agent_container st) else Inr []) of
                Inl e \<Rightarrow> Inl e
              | Inr agent_steps \<Rightarrow>
                  (case plan_container_steps (st_container_name st) (st_container st) of
                     Inl e \<Rightarrow> Inl e
                   | Inr container_steps \<Rightarrow>
                       Inr (plan_seedling_and_credentials_steps agent_requested st @ plan_mount_steps st @
                            image_steps @ agent_steps @ container_steps))))"

section \<open>The steps\<close>

text \<open>An account the plan relies on, and its numeric ids.\<close>

definition require_account :: "'d plot \<Rightarrow> string \<Rightarrow> ('d, service_account) reconciling" where
  "require_account P full_name =
     and_then (rolo_call (find_service_account (plot_rolodex P) full_name)) (\<lambda>a.
       case a of None \<Rightarrow> fail MissingServiceAccount | Some a \<Rightarrow> ok a)"

definition account_ids :: "service_account \<Rightarrow> ('d, container_user) reconciling" where
  "account_ids a =
     and_then (gets (\<lambda>g. get_user_id (people g) (cred_system_name (account_user a)))) (\<lambda>u.
       case u of
         None \<Rightarrow> fail MissingServiceAccount
       | Some u \<Rightarrow>
           and_then (gets (\<lambda>g. get_group_id (people g) (cred_system_name (account_group a)))) (\<lambda>i.
             case i of
               None \<Rightarrow> fail MissingServiceAccount
             | Some i \<Rightarrow> ok \<lparr>container_uid = u, container_gid = i\<rparr>))"

definition update_run :: "'d plot \<Rightarrow> ('d, seedling_version \<times> seedling_definition) reconciling" where
  "update_run P =
     and_then (bank_call (client_load (plot_bank P) (plot_name P))) (\<lambda>previous.
     and_then (bank_call (client_update (plot_bank P) (plot_name P) (plot_version P) (plot_definition P))) (\<lambda>_.
       ok (seedling_version previous, seedling_definition previous)))"

definition set_ownership_run :: "'d plot \<Rightarrow> path \<Rightarrow> name \<Rightarrow> mount_kind \<Rightarrow> ('d, unit) reconciling" where
  "set_ownership_run P p mn kind =
     and_then (require_account P (plot_name P)) (\<lambda>account.
     and_then
       (case kind of
          PersistedShared _ \<Rightarrow>
            and_then (rolo_call (find_share_group (plot_rolodex P) (plot_name P) mn)) (\<lambda>c.
              case c of None \<Rightarrow> fail MissingShareGroup | Some c \<Rightarrow> ok (cred_system_name c))
        | _ \<Rightarrow> ok (cred_system_name (account_group account)))
       (\<lambda>group_system_name.
          disk_call (change_user_and_group_ownership p (cred_system_name (account_user account)) group_system_name)))"

definition write_file_run :: "path \<Rightarrow> string \<Rightarrow> string \<Rightarrow> ('d, string option) reconciling" where
  "write_file_run parent file_name bytes =
     (let p = parent @ [file_name]
      in and_then (gets (\<lambda>g. file_exists (disk g) p)) (\<lambda>present.
         and_then (if present then and_then (disk_call (reader_read_all_bytes p)) (\<lambda>b. ok (Some b)) else ok None) (\<lambda>previous.
         and_then (disk_call (folder_create_recursively parent)) (\<lambda>_.
         and_then (disk_call (writer_write_all_bytes p bytes)) (\<lambda>_. ok previous)))))"

definition write_file_rollback :: "path \<Rightarrow> string \<Rightarrow> string option \<Rightarrow> ('d, unit) reconciling" where
  "write_file_rollback parent file_name previous =
     disk_call (case previous of
       Some b \<Rightarrow> writer_write_all_bytes (parent @ [file_name]) b
     | None \<Rightarrow> deleter_delete (parent @ [file_name]))"

definition require_agent :: "'d plot \<Rightarrow> ('d, agent_provisioning) reconciling" where
  "require_agent P = (case plot_agent P of None \<Rightarrow> fail MissingAgentProvisioning | Some a \<Rightarrow> ok a)"

definition ram_call :: "('d garden, string, 'a) prog \<Rightarrow> ('d, 'a) reconciling" where
  "ram_call m = map_err ReconcileRamDiskError m"

text \<open>Answers which of the folder and the RAM disk it made.\<close>

definition ensure_agent_mount_run :: "'d plot \<Rightarrow> ('d, bool \<times> bool) reconciling" where
  "ensure_agent_mount_run P =
     and_then (require_agent P) (\<lambda>agent.
     and_then (gets (\<lambda>g. \<not> folder_exists (disk g) (mount_dir agent))) (\<lambda>created_mount_dir.
     and_then (disk_call (folder_create_recursively (mount_dir agent))) (\<lambda>_.
     and_then (ram_call (ram_is_mounted (plot_ram_disk P) (mount_dir agent))) (\<lambda>mounted.
     and_then (ram_call (ram_mount (plot_ram_disk P) (mount_dir agent) AGENT_MOUNT_RAM_DISK_SIZE_MB)) (\<lambda>swap_protected.
     and_then (require_account P (agent_account_full_name (plot_name P))) (\<lambda>account.
     and_then (disk_call (change_user_and_group_ownership (mount_dir agent)
         (cred_system_name (account_user account)) (cred_system_name (account_group account)))) (\<lambda>_.
     and_then (disk_call (change_mode (mount_dir agent) EXPECTED_MOUNT_MODE)) (\<lambda>_.
     and_then (disk_call (writer_write_all_bytes (role_id_path agent) (role_id agent))) (\<lambda>_.
     and_then (disk_call (writer_write_all_bytes (secret_id_path agent) (secret_id agent))) (\<lambda>_.
     and_then (disk_call (writer_write_all_bytes (agent_config_path agent) (agent_config agent))) (\<lambda>_.
       ok (created_mount_dir, \<not> mounted))))))))))))"

definition ensure_agent_mount_rollback :: "'d plot \<Rightarrow> bool \<Rightarrow> bool \<Rightarrow> ('d, unit) reconciling" where
  "ensure_agent_mount_rollback P created_mount_dir mounted_ram_disk =
     (case plot_agent P of
        None \<Rightarrow> ok ()
      | Some agent \<Rightarrow>
          and_then (if mounted_ram_disk then ram_call (ram_unmount (plot_ram_disk P) (mount_dir agent)) else ok ()) (\<lambda>_.
            if created_mount_dir then disk_call (folder_deleter_delete (mount_dir agent)) else ok ()))"

definition published_ports_for :: "seedling_definition \<Rightarrow> published_port list" where
  "published_ports_for d =
     map (\<lambda>p. \<lparr>host_port = external p, container_port = internal p\<rparr>)
       (published_ports d @ (case routing d of Routed _ ports \<Rightarrow> additional ports | Unrouted \<Rightarrow> []))"

definition AGENT_LOCAL_PROXY_PORT :: nat where
  "AGENT_LOCAL_PROXY_PORT = 8100"

definition AGENT_CONTAINER_MOUNT_PATH :: path where
  "AGENT_CONTAINER_MOUNT_PATH = [''etc'', ''openbao-agent'']"

definition mount_definition_of :: "'d plot \<Rightarrow> name \<times> mount \<Rightarrow> refined_error + mount_definition" where
  "mount_definition_of P x =
     (case docker_name_from_str (plot_regex P) (fst x) of
        Inl e \<Rightarrow> Inl e
      | Inr n \<Rightarrow>
          Inr \<lparr>mount_name = n, host_path = plot_mount_path P (fst x), container_path = remote_path (snd x),
               writable = (mount_access (snd x) = Writable)\<rparr>)"

definition build_new_container ::
    "'d plot \<Rightarrow> string \<Rightarrow> container_user \<Rightarrow> mount_definition list \<Rightarrow> env_var list \<Rightarrow> reconcile_error + new_container" where
  "build_new_container P c run_as ms env =
     (let d = plot_definition P
      in case resolve_image (plot_regex P) (image d) (plot_name P) of
           Inl e \<Rightarrow> Inl (ReconcileImageSourceError e)
         | Inr target \<Rightarrow>
             Inr \<lparr>nc_name = c, nc_image = target, nc_run_as = Some run_as, nc_command = seedling_definition.command d,
                  nc_environment = env, nc_mounts = ms, nc_capabilities = added_capabilities d,
                  nc_labels = [create_version_label (plot_version P), create_origin_label (origin d)],
                  nc_ports = published_ports_for d\<rparr>)"

definition agent_address :: "'d plot \<Rightarrow> ('d, env_var list) reconciling" where
  "agent_address P =
     (if secrets (plot_definition P) = None then ok []
      else
        and_then (docker_name (agent_container_name (plot_regex P) (plot_name P))) (\<lambda>c.
          ok [\<lparr>env_name = ''OPENBAO_AGENT_ADDR'',
                env_value = ''http://'' @ c @ '':'' @ show_nat AGENT_LOCAL_PROXY_PORT\<rparr>]))"

text \<open>The network of the seedling, made if it is not there; the answer says whether it was made.\<close>

definition ensure_network :: "'d plot \<Rightarrow> string \<Rightarrow> ipv4_subnet option \<Rightarrow> ('d, bool) reconciling" where
  "ensure_network P network subnet =
     and_then (docker_call (docker_network_exists (plot_docker P) network)) (\<lambda>already_existed.
     and_then
       (if already_existed then ok () else docker_call (docker_create_network (plot_docker P) network subnet))
       (\<lambda>_. ok (\<not> already_existed)))"

definition build_container_run :: "'d plot \<Rightarrow> ('d, bool) reconciling" where
  "build_container_run P =
     and_then (docker_name (container_name (plot_regex P) (plot_name P))) (\<lambda>c.
     and_then (require_account P (plot_name P)) (\<lambda>account.
     and_then (account_ids account) (\<lambda>run_as.
     and_then (docker_name (collect_sum (mount_definition_of P) (mounts (plot_definition P)))) (\<lambda>ms.
     and_then (agent_address P) (\<lambda>env.
     and_then (of_result (build_new_container P c run_as ms env)) (\<lambda>nc.
     and_then (docker_call (docker_create_container (plot_docker P) nc)) (\<lambda>_.
     and_then (docker_name (seedling_network_name (plot_regex P) (plot_name P))) (\<lambda>network.
     and_then (ensure_network P network (map_option private_subnet (plot_agent P))) (\<lambda>created_network.
     and_then (docker_call (docker_connect_network (plot_docker P) network c None)) (\<lambda>_.
     and_then
       (if origin (plot_definition P) = Core
        then docker_call (docker_connect_network (plot_docker P) SYSTEM_NETWORK_NAME c None) else ok ())
       (\<lambda>_. ok created_network)))))))))))"

definition build_agent_container_run :: "'d plot \<Rightarrow> ('d, bool) reconciling" where
  "build_agent_container_run P =
     and_then (require_agent P) (\<lambda>agent.
     and_then (docker_name (agent_container_name (plot_regex P) (plot_name P))) (\<lambda>c.
     and_then (require_account P (agent_account_full_name (plot_name P))) (\<lambda>account.
     and_then (account_ids account) (\<lambda>run_as.
     and_then (map_err ReconcileImageSourceError
         (of_result (resolve_image (plot_regex P) (plot_agent_image P) (plot_name P)))) (\<lambda>target.
     and_then (docker_call (docker_create_container (plot_docker P)
         \<lparr>nc_name = c, nc_image = target, nc_run_as = Some run_as,
          nc_command = Some (''agent -config=/etc/openbao-agent/agent.json''),
          nc_environment = [],
          nc_mounts = [\<lparr>mount_name = ''config'', host_path = mount_dir agent,
                        container_path = AGENT_CONTAINER_MOUNT_PATH, writable = False\<rparr>],
          nc_capabilities = [],
          nc_labels = [create_version_label (plot_version P), create_origin_label (origin (plot_definition P))],
          nc_ports = []\<rparr>)) (\<lambda>_.
     and_then (docker_name (seedling_network_name (plot_regex P) (plot_name P))) (\<lambda>network.
     and_then (ensure_network P network (Some (private_subnet agent))) (\<lambda>created_network.
     and_then (docker_call (docker_connect_network (plot_docker P) network c (Some (agent_private_ip agent)))) (\<lambda>_.
     and_then (docker_call (docker_connect_network (plot_docker P) SYSTEM_NETWORK_NAME c None)) (\<lambda>_.
       ok created_network))))))))))"

definition build_rollback :: "'d plot \<Rightarrow> refined_error + string \<Rightarrow> bool \<Rightarrow> ('d, unit) reconciling" where
  "build_rollback P built created_network =
     and_then (docker_name built) (\<lambda>c.
     and_then (docker_call (ignore_missing (docker_delete_container (plot_docker P) c))) (\<lambda>_.
       if \<not> created_network then ok ()
       else
         and_then (docker_name (seedling_network_name (plot_regex P) (plot_name P))) (\<lambda>network.
           docker_call (docker_delete_network (plot_docker P) network))))"

definition create_seedling_run :: "'d plot \<Rightarrow> ('d, unit) reconciling" where
  "create_seedling_run P =
     bank_call (client_create (plot_bank P) (plot_name P) (plot_version P) (plot_definition P))"

definition create_seedling_rollback :: "'d plot \<Rightarrow> ('d, unit) reconciling" where
  "create_seedling_rollback P = bank_call (client_delete (plot_bank P) (plot_name P))"

definition update_rollback :: "'d plot \<Rightarrow> (seedling_version \<times> seedling_definition) option \<Rightarrow> ('d, unit) reconciling" where
  "update_rollback P previous =
     (case previous of
        None \<Rightarrow> ok ()
      | Some (v, d) \<Rightarrow> bank_call (client_update (plot_bank P) (plot_name P) v d))"

definition set_desired_run :: "'d plot \<Rightarrow> ('d, unit) reconciling" where
  "set_desired_run P =
     bank_call (client_set_desired_run_status (plot_bank P) (plot_name P) desired_run_status.Running)"

definition create_account_run :: "'d plot \<Rightarrow> ('d, service_account) reconciling" where
  "create_account_run P = rolo_call (create_service_account (plot_rolodex P) (plot_name P))"

definition create_agent_account_run :: "'d plot \<Rightarrow> ('d, service_account) reconciling" where
  "create_agent_account_run P =
     rolo_call (create_service_account (plot_rolodex P) (agent_account_full_name (plot_name P)))"

definition create_share_group_run :: "'d plot \<Rightarrow> name \<Rightarrow> name list \<Rightarrow> ('d, credential) reconciling" where
  "create_share_group_run P mn guests = rolo_call (create_share_group (plot_rolodex P) (plot_name P) mn guests)"

definition create_mount_folder_run :: "path \<Rightarrow> ('d, path) reconciling" where
  "create_mount_folder_run p = disk_call (folder_create_recursively p)"

definition create_mount_folder_rollback :: "path \<Rightarrow> ('d, unit) reconciling" where
  "create_mount_folder_rollback p = disk_call (folder_deleter_delete p)"

definition set_mode_run :: "path \<Rightarrow> modes \<Rightarrow> ('d, unit) reconciling" where
  "set_mode_run p md = disk_call (change_mode p md)"

definition pull_image_run :: "'d plot \<Rightarrow> pull_target \<Rightarrow> ('d, unit) reconciling" where
  "pull_image_run P target = docker_call (docker_pull_image (plot_docker P) target)"

definition start_container_run :: "'d plot \<Rightarrow> string \<Rightarrow> ('d, unit) reconciling" where
  "start_container_run P c = docker_call (docker_start_container (plot_docker P) c)"

definition start_container_rollback :: "'d plot \<Rightarrow> string \<Rightarrow> ('d, unit) reconciling" where
  "start_container_rollback P c = docker_call (ignore_missing (docker_stop_container (plot_docker P) c))"

lemmas single_call_steps [simp] =
  create_seedling_run_def create_seedling_rollback_def update_rollback_def set_desired_run_def
  create_account_run_def create_agent_account_run_def create_share_group_run_def
  create_mount_folder_run_def create_mount_folder_rollback_def set_mode_run_def pull_image_run_def
  start_container_run_def start_container_rollback_def

fun reconcile_run :: "'d plot \<Rightarrow> reconcile_step \<Rightarrow> ('d, reconcile_step) reconciling" where
  "reconcile_run P CreateSeedling = and_then (create_seedling_run P) (\<lambda>_. ok CreateSeedling)"
| "reconcile_run P (UpdateSeedling _) = and_then (update_run P) (\<lambda>previous. ok (UpdateSeedling (Some previous)))"
| "reconcile_run P SetDesiredRunStatusToRunning =
     and_then (set_desired_run P) (\<lambda>_. ok SetDesiredRunStatusToRunning)"
| "reconcile_run P CreateServiceAccount = and_then (create_account_run P) (\<lambda>_. ok CreateServiceAccount)"
| "reconcile_run P CreateAgentServiceAccount =
     and_then (create_agent_account_run P) (\<lambda>_. ok CreateAgentServiceAccount)"
| "reconcile_run P (CreateShareGroup mn guests) =
     and_then (create_share_group_run P mn guests) (\<lambda>_. ok (CreateShareGroup mn guests))"
| "reconcile_run P (CreateMountFolder p) = and_then (create_mount_folder_run p) (\<lambda>_. ok (CreateMountFolder p))"
| "reconcile_run P (SetMountOwnership p mn kind) =
     and_then (set_ownership_run P p mn kind) (\<lambda>_. ok (SetMountOwnership p mn kind))"
| "reconcile_run P (SetMountMode p md) = and_then (set_mode_run p md) (\<lambda>_. ok (SetMountMode p md))"
| "reconcile_run P (WriteFile parent file_name bytes _) =
     and_then (write_file_run parent file_name bytes) (\<lambda>previous. ok (WriteFile parent file_name bytes previous))"
| "reconcile_run P (PullImageFromResin target) =
     and_then (pull_image_run P target) (\<lambda>_. ok (PullImageFromResin target))"
| "reconcile_run P (EnsureAgentMount _ _) =
     and_then (ensure_agent_mount_run P) (\<lambda>(created, mounted). ok (EnsureAgentMount created mounted))"
| "reconcile_run P (BuildAgentContainer _) =
     and_then (build_agent_container_run P) (\<lambda>created. ok (BuildAgentContainer created))"
| "reconcile_run P (BuildContainer _) =
     and_then (build_container_run P) (\<lambda>created. ok (BuildContainer created))"
| "reconcile_run P (StartContainer c) = and_then (start_container_run P c) (\<lambda>_. ok (StartContainer c))"
| "reconcile_run P (StopContainerStep c) =
     and_then (docker_call (stop_container_run (plot_docker P) c)) (\<lambda>_. ok (StopContainerStep c))"
| "reconcile_run P (DropContainerStep c) =
     and_then (docker_call (drop_container_run (plot_docker P) c)) (\<lambda>_. ok (DropContainerStep c))"

text \<open>A step without a rollback of its own has the one that does nothing.\<close>

fun reconcile_undo :: "'d plot \<Rightarrow> reconcile_step \<Rightarrow> ('d, unit) reconciling" where
  "reconcile_undo P CreateSeedling = create_seedling_rollback P"
| "reconcile_undo P (UpdateSeedling previous) = update_rollback P previous"
| "reconcile_undo P (CreateMountFolder p) = create_mount_folder_rollback p"
| "reconcile_undo P (WriteFile parent file_name bytes previous) = write_file_rollback parent file_name previous"
| "reconcile_undo P (EnsureAgentMount created mounted) = ensure_agent_mount_rollback P created mounted"
| "reconcile_undo P (BuildAgentContainer created) =
     build_rollback P (agent_container_name (plot_regex P) (plot_name P)) created"
| "reconcile_undo P (BuildContainer created) =
     build_rollback P (container_name (plot_regex P) (plot_name P)) created"
| "reconcile_undo P (StartContainer c) = start_container_rollback P c"
| "reconcile_undo P (StopContainerStep c) = docker_call (stop_container_rollback (plot_docker P) c)"
| "reconcile_undo P _ = ok ()"

text \<open>The names that a failure is reported with; the display of a step, which only the log shows, is taken
  to be its name.\<close>

fun reconcile_step_name :: "reconcile_step \<Rightarrow> string" where
  "reconcile_step_name CreateSeedling = ''Creating seedling''"
| "reconcile_step_name (UpdateSeedling _) = ''Updating seedling''"
| "reconcile_step_name SetDesiredRunStatusToRunning = ''Setting desired running state to running''"
| "reconcile_step_name CreateServiceAccount = ''Creating service account''"
| "reconcile_step_name CreateAgentServiceAccount = ''Creating OpenBao agent service account''"
| "reconcile_step_name (CreateShareGroup _ _) = ''Creating share group''"
| "reconcile_step_name (CreateMountFolder _) = ''Creating seedling mount''"
| "reconcile_step_name (SetMountOwnership _ _ _) = ''Setting mount ownership''"
| "reconcile_step_name (SetMountMode _ _) = ''Setting mode''"
| "reconcile_step_name (WriteFile _ _ _ _) = ''Writing mount file''"
| "reconcile_step_name (PullImageFromResin _) = ''Pulling image''"
| "reconcile_step_name (EnsureAgentMount _ _) = ''Ensuring OpenBao agent mount''"
| "reconcile_step_name (BuildAgentContainer _) = ''Building OpenBao agent container''"
| "reconcile_step_name (BuildContainer _) = ''Building container''"
| "reconcile_step_name (StartContainer _) = ''Starting container''"
| "reconcile_step_name (StopContainerStep _) = ''Stopping container''"
| "reconcile_step_name (DropContainerStep _) = ''Dropping container''"

definition reconcile_ops :: "'d plot \<Rightarrow> (reconcile_step, 'd garden, reconcile_error) command" where
  "reconcile_ops P =
     \<lparr>step_name = reconcile_step_name, step_display = reconcile_step_name, skips = (\<lambda>k g. False),
      perform = (\<lambda>k g. case reconcile_run P k g of (Inr k', h) \<Rightarrow> (Inr (), k', h) | (Inl e, h) \<Rightarrow> (Inl e, k, h)),
      undo = (\<lambda>k g. case reconcile_undo P k g of (r, h) \<Rightarrow> (r, k, h))\<rparr>"

text \<open>\<open>execute\<close>, with the client of resin built.\<close>

definition reconcile_seedling :: "'d plot \<Rightarrow> (reconcile_error \<Rightarrow> string) \<Rightarrow> ('d, unit) reconciling" where
  "reconcile_seedling P display =
     and_then (discover_seedling P) (\<lambda>st.
       run_plan (reconcile_ops P) display (create_plan P st) FailedBootstrap)"

end
