(* ===== verification/GardenInvariants.thy ===== *)
theory GardenInvariants
  imports Containers Rolodex SeedbankRequests Blueprint
begin

text \<open>
  What the calls of bract keep of the disk of a garden.  \<open>tree_invariant D safe\<close> is the contract: \<open>D\<close> is
  a property of the file system that survives every method of the file system whose target is \<open>safe\<close> and every
  request to the seedbank that only touches safe paths.  Inside the locale it is carried through the clients of
  bract, whatever call fails and whatever is lost on the wire.  Three properties meet the contract: the
  files at the unsafe paths are as they were (\<open>agrees\<close>), the tree is well-formed (\<open>wf_fs\<close>), and the
  outcomes still to come are among the given ones (\<open>draws\<close>).
\<close>

named_theorems garden_intros \<open>calls of the garden keep an invariant of the disk\<close>

section \<open>The contract\<close>

definition in_garden :: "(fs \<Rightarrow> bool) \<Rightarrow> 'd garden \<Rightarrow> bool" where
  "in_garden D g \<longleftrightarrow> D (disk g)"

lemma keeps_in_garden: "keeps D m \<Longrightarrow> keeps (in_garden D) (on_disk err m)"
  unfolding in_garden_def by (rule keeps_on_disk)

lemma keeps_on_engine [garden_intros]: "keeps (in_garden D) (on_engine err m)"
  by (auto simp: keeps_def in_garden_def on_engine_def split: prod.split)

locale tree_invariant =
  fixes D :: "fs \<Rightarrow> bool" and safe :: "path \<Rightarrow> bool"
  assumes reading: "later s t \<Longrightarrow> D s \<Longrightarrow> D t"
    and renaming: "D s \<Longrightarrow> D (naming a s)"
    and writing: "safe p \<Longrightarrow> keeps D (writer_write_all_bytes p b)"
    and deleting: "safe p \<Longrightarrow> keeps D (deleter_delete p)"
    and deleting_folder: "(\<And>q. below p q \<Longrightarrow> safe q) \<Longrightarrow> keeps D (folder_deleter_delete p)"
    and making: "keeps D (folder_create_recursively p)"
    and marking: "keeps D (std_set_meta f p)"
    and rotating: "(\<And>q. below p q \<Longrightarrow> safe q) \<Longrightarrow> keeps D (rotator_rotate (p @ [n]) k)"
    and serving: "(\<And>q. may_touch sv r q \<Longrightarrow> safe q) \<Longrightarrow> D s \<Longrightarrow> D (snd (seedbank_handle sv now r s))"
begin

lemma inv_reads: "reads_tree m \<Longrightarrow> keeps D m"
proof (rule keepsI)
  fix s assume "reads_tree m" "D s"
  then show "D (snd (m s))" using reads_treeD [of m s] reading by (cases "m s") auto
qed

lemma inv_people: "keeps (in_garden D) (on_people err m)"
  by (auto simp: keeps_def in_garden_def on_people_def renaming split: prod.split)

lemma inv_ask:
  assumes "\<And>q. may_touch (bank_server B) r q \<Longrightarrow> safe q"
  shows "keeps (in_garden D) (ask B r wanted :: ('d, 'a) asking)"
proof -
  have served: "in_garden D (snd (serve_on B r g))" if "in_garden D g" for g :: "'d garden"
    using serving [of "bank_server B" r "disk g" "bank_clock B", OF assms] that
    by (simp add: in_garden_def serve_on_def case_prod_beta)
  have "keeps (in_garden D) (client_request B r :: ('d, seedbank_response) asking)"
  proof (rule keepsI)
    fix g :: "'d garden" assume g: "in_garden D g"
    obtain x h where n: "next_event g = (x, h)" by (cases "next_event g") auto
    then have h: "in_garden D h"
      using g by (auto simp: next_event_def in_garden_def split: list.splits)
    show "in_garden D (snd (client_request B r g))"
      using n h served [OF h] by (cases x) (auto simp: client_request_def case_prod_beta)
  qed
  then show ?thesis
    unfolding ask_def
    by (intro keeps_and_then keeps_case_option keeps_ok) (auto simp: keeps_fail split: seedbank_response.split)
qed

text \<open>The rolodex.\<close>

lemma inv_locate_from:
  assumes "\<And>q. below kind q \<Longrightarrow> safe q"
  shows "keeps (in_garden D) (locate_from R kind full create ks)"
proof (induction ks)
  case (Cons k ks)
  have "safe (kind @ [derive_system_name (rolodex_sha R) (salted full k)])"
    by (rule assms) (auto simp: below_append)
  with Cons show ?case
    unfolding locate_from.simps Let_def writer_write_all_def
    by (intro keeps_intros keeps_in_garden inv_reads reads_tree_methods writing)
qed (auto intro: keeps_intros)

lemma inv_locate:
  assumes "\<And>q. below kind q \<Longrightarrow> safe q"
  shows "keeps (in_garden D) (locate R kind full create)"
  unfolding locate_def by (intro keeps_intros keeps_in_garden making inv_locate_from assms)

lemma inv_rolodex:
  assumes "\<And>q. below (rolodex_root R) q \<Longrightarrow> safe q"
  shows "keeps (in_garden D) (find_service_account R full)"
    and "keeps (in_garden D) (create_service_account R full)"
    and "keeps (in_garden D) (find_share_group R owner share)"
    and "keeps (in_garden D) (create_share_group R owner share guests)"
proof -
  have kinds: "below (users_root R) q \<Longrightarrow> safe q" "below (groups_root R) q \<Longrightarrow> safe q" for q
    using assms [of q] by (auto simp: users_root_def groups_root_def below_append)
  note locates = inv_locate [of "users_root R", OF kinds(1)] inv_locate [of "groups_root R", OF kinds(2)]
  have group: "keeps (in_garden D) (find_group R n)" for n
    unfolding find_group_def on_credentials_def by (intro keeps_intros inv_people locates)
  have user: "keeps (in_garden D) (find_user R n)" for n
    unfolding find_user_def on_credentials_def by (intro keeps_intros inv_people locates)
  have new_group: "keeps (in_garden D) (get_or_create_group R n)" for n
    unfolding get_or_create_group_def reserve_def on_credentials_def by (intro keeps_intros inv_people locates)
  have new_user: "keeps (in_garden D) (get_or_create_user R n m ms)" for n m ms
    unfolding get_or_create_user_def reserve_def on_credentials_def by (intro keeps_intros inv_people locates)
  have guest: "keeps (in_garden D) (join_guest R n m)" for n m
    unfolding join_guest_def on_credentials_def by (intro keeps_intros inv_people locates)
  show "keeps (in_garden D) (find_service_account R full)"
    unfolding find_service_account_def by (intro keeps_intros group user)
  show "keeps (in_garden D) (create_service_account R full)"
    unfolding create_service_account_def by (intro keeps_intros new_group new_user)
  show "keeps (in_garden D) (find_share_group R owner share)"
    unfolding find_share_group_def by (rule group)
  show "keeps (in_garden D) (create_share_group R owner share guests)"
    unfolding create_share_group_def by (intro keeps_intros new_group guest)
qed

end

section \<open>What meets it\<close>

text \<open>Renaming, and with it the rotation of a log, only changes what is below the two paths.\<close>

lemma move_subtree_outside:
  assumes "\<not> below src q" and "\<not> below dst q"
  shows "node_at (move_subtree src dst s) q = node_at s q"
proof -
  have "map_of (map (\<lambda>(p, n). if take (length src) p = src then (dst @ drop (length src) p, n) else (p, n))
      (filter (\<lambda>(p, _). take (length dst) p \<noteq> dst) xs)) q = map_of xs q" for xs :: "(path \<times> node) list"
    using assms by (induction xs) (auto simp: below_def)
  then show ?thesis by (simp add: move_subtree_def node_at_def)
qed

lemma frame_rename [frame_intros]:
  assumes "\<And>q. below src q \<or> below dst q \<Longrightarrow> \<not> P q"
  shows "keeps (agrees P s) (std_rename src dst)"
  unfolding std_rename_def
proof (rule frame_call)
  fix t assume t: "agrees P s t"
  have "\<not> P src" "\<not> P dst" using assms by auto
  moreover have "agrees P s (move_subtree src dst t)"
    using t assms move_subtree_outside [of src _ dst t] by (fastforce simp: agrees_def content_def)
  ultimately show "agrees P s (snd (rename_body src dst t))"
    using t by (auto simp: rename_body_def intro!: agrees_put_file agrees_drop split: option.split node.split)
qed

lemma draws_rename: "keeps (draws X) (std_rename src dst)"
  unfolding std_rename_def rename_body_def
  by (rule draws_call) (auto simp: move_subtree_def split: option.split node.split)

lemma rotated_below: "below p (rotated_path (p @ [n]) k)" "\<And>q. below (rotated_path (p @ [n]) k) q \<Longrightarrow> below p q"
  by (auto simp: rotated_path_def below_append)

interpretation framed: tree_invariant "agrees A s" "\<lambda>p. \<not> A p" for A s
proof
  show "later t u \<Longrightarrow> agrees A s t \<Longrightarrow> agrees A s u" for t u
    using agrees_same [OF later_same] by blast
  show "agrees A s t \<Longrightarrow> agrees A s (naming a t)" for t a
    by (simp add: agrees_def)
  show "(\<And>q. may_touch sv r q \<Longrightarrow> \<not> A q) \<Longrightarrow> agrees A s t \<Longrightarrow> agrees A s (snd (seedbank_handle sv now r t))"
    for sv r t now by (rule frame_request)
  show "keeps (agrees A s) (rotator_rotate (p @ [n]) k)" if "\<And>q. below p q \<Longrightarrow> \<not> A q" for p n k
  proof -
    have "\<not> A q" if "below (rotated_path (p @ [n]) j) q" for j q
      using \<open>\<And>q. below p q \<Longrightarrow> \<not> A q\<close> rotated_below(2) [OF that] .
    moreover have "\<not> A q" if "below (p @ [n]) q" for q
      using \<open>\<And>q. below p q \<Longrightarrow> \<not> A q\<close> that by (auto simp: below_append)
    moreover from calculation have "\<not> A (rotated_path (p @ [n]) k)" using below_refl by blast
    ultimately show ?thesis
      unfolding rotator_rotate_def by (intro keeps_intros frame_intros) auto
  qed
qed (intro frame_intros; simp)+

interpretation grown: tree_invariant wf_fs "\<lambda>_. True"
proof
  show "later t u \<Longrightarrow> wf_fs t \<Longrightarrow> wf_fs u" for t u
    using wf_same_tree [OF later_same] by blast
  show "wf_fs t \<Longrightarrow> wf_fs (naming a t)" for t a
    by (simp add: wf_fs_def naming_def exists_path_def is_dir_def node_at_def)
  show "keeps wf_fs (std_set_meta f p)" for f p by (rule keeps_intros)
  show "keeps wf_fs (rotator_rotate (p @ [n]) k)" for p n k unfolding rotator_rotate_def by (intro keeps_intros)
qed (simp_all add: wf_methods request_keeps_wf)

interpretation drawn: tree_invariant "draws X" "\<lambda>_. True" for X
proof
  show "later t u \<Longrightarrow> draws X t \<Longrightarrow> draws X u" for t u
    by (rule draws_later)
  show "draws X t \<Longrightarrow> draws X (naming a t)" for t a
    by (simp add: draws_def naming_def)
  show "keeps (draws X) (rotator_rotate (p @ [n]) k)" for p n k
    unfolding rotator_rotate_def by (intro keeps_intros draws_std draws_rename)
qed (simp_all add: draws_methods draws_std request_keeps_draws)

section \<open>What a program answers\<close>

text \<open>Every result of \<open>m\<close> satisfies \<open>Q\<close>.\<close>

named_theorems yields_intros \<open>what a program answers\<close>

definition yields :: "('a \<Rightarrow> bool) \<Rightarrow> ('s, 'e, 'a) prog \<Rightarrow> bool" where
  "yields Q m \<longleftrightarrow> (\<forall>s a t. m s = (Inr a, t) \<longrightarrow> Q a)"

lemma yieldsD: "yields Q m \<Longrightarrow> m s = (Inr a, t) \<Longrightarrow> Q a"
  unfolding yields_def by blast

lemma yields_ok [yields_intros]: "Q a \<Longrightarrow> yields Q (ok a)"
  by (simp add: yields_def prog_simps)

lemma yields_fail [yields_intros]: "yields Q (fail e)"
  by (simp add: yields_def prog_simps)

lemma yields_and_then: "yields Q' m \<Longrightarrow> (\<And>a. Q' a \<Longrightarrow> yields Q (k a)) \<Longrightarrow> yields Q (and_then m k)"
  unfolding yields_def by (metis and_then_InrE)

text \<open>When nothing is known of the first result.\<close>

lemma yields_after [yields_intros]: "(\<And>a. yields Q (k a)) \<Longrightarrow> yields Q (and_then m k)"
  unfolding yields_def by (metis and_then_InrE)

lemma yields_split [yields_intros]:
  "yields Q m \<Longrightarrow> yields Q m' \<Longrightarrow> yields Q (if b then m else m')"
  "yields Q m \<Longrightarrow> (\<And>x. yields Q (f x)) \<Longrightarrow> yields Q (case y of None \<Rightarrow> m | Some x \<Rightarrow> f x)"
  "(\<And>x. yields Q (g x)) \<Longrightarrow> (\<And>x. yields Q (f' x)) \<Longrightarrow> yields Q (case z of Inl x \<Rightarrow> g x | Inr x \<Rightarrow> f' x)"
  "(\<And>x y. yields Q (h x y)) \<Longrightarrow> yields Q (case w of (x, y) \<Rightarrow> h x y)"
  by (simp_all split: option.split sum.split prod.split)

lemma yields_fold_prog:
  "(\<And>x a. x \<in> set xs \<Longrightarrow> Q a \<Longrightarrow> yields Q (f x a)) \<Longrightarrow> Q a \<Longrightarrow> yields Q (fold_prog f xs a)"
proof (induction xs arbitrary: a)
  case (Cons x xs)
  then show ?case by (auto intro: yields_and_then [of Q])
qed (simp add: yields_ok)

lemma keeps_fold_prog [keeps_intros]: "(\<And>x a. keeps I (f x a)) \<Longrightarrow> keeps I (fold_prog f xs a)"
  by (induction xs arbitrary: a) (auto intro: keeps_intros)

section \<open>Blueprints\<close>

text \<open>What every step and every rollback keeps, a blueprint keeps.\<close>

lemma undo_all_keeps:
  assumes "\<And>k c. J k \<Longrightarrow> I c \<Longrightarrow> I (snd (snd (undo ops k c)))"
  shows "list_all J ks \<Longrightarrow> I c \<Longrightarrow> I (snd (undo_all ops ks c))"
proof (induction ks arbitrary: c)
  case (Cons k ks)
  obtain r k' c' where u: "undo ops k c = (r, k', c')" by (cases "undo ops k c") auto
  with assms [of k c] Cons.prems have "I c'" by simp
  then have "I (snd (undo_all ops ks c'))" using Cons by simp
  then show ?case
    by (cases r; cases "undo_all ops ks c'") (simp_all add: u)
qed simp

lemma executor_keeps:
  assumes run: "\<And>k c. J k \<Longrightarrow> I c \<Longrightarrow> I (snd (snd (perform ops k c)))"
    and ran: "\<And>k c k' c'. J k \<Longrightarrow> perform ops k c = (Inr (), k', c') \<Longrightarrow> J k'"
    and undo: "\<And>k c. J k \<Longrightarrow> I c \<Longrightarrow> I (snd (snd (undo ops k c)))"
  shows "list_all J ks \<Longrightarrow> list_all J journal \<Longrightarrow> I c \<Longrightarrow>
    I (snd (snd (executor_run_from ops i journal c ks)))"
proof (induction ks arbitrary: i journal c)
  case (Cons k ks)
  obtain r k' c' where p: "perform ops k c = (r, k', c')" by (cases "perform ops k c") auto
  with run [of k c] Cons.prems have c': "I c'" by simp
  show ?case
  proof (cases r)
    case (Inl e)
    have "I (snd (undo_all ops (rev journal) c'))"
      using Cons.prems c' by (intro undo_all_keeps [of J I ops, OF undo]) (simp_all add: list_all_iff)
    then show ?thesis
      using Inl p Cons.prems Cons.IH [of journal c "Suc i"] Cons.IH [of "journal @ [k]" c "Suc i"]
      by (cases "undo_all ops (rev journal) c'") (simp add: executor_rollback_def)
  next
    case (Inr u)
    with ran [of k c k' c'] p Cons.prems have "J k'" by simp
    with Inr p Cons.prems c' Cons.IH [of journal c "Suc i"] Cons.IH [of "journal @ [k]" c "Suc i"]
      Cons.IH [of "journal @ [k']" c' "Suc i"] show ?thesis by simp
  qed
qed simp

lemma completes_keeps:
  assumes run: "\<And>k c. J k \<Longrightarrow> I c \<Longrightarrow> I (snd (snd (perform ops k c)))"
    and ran: "\<And>k c k' c'. J k \<Longrightarrow> perform ops k c = (Inr (), k', c') \<Longrightarrow> J k'"
  shows "completes ops c ks ks' d \<Longrightarrow> list_all J ks \<Longrightarrow> I c \<Longrightarrow> I d \<and> list_all J ks'"
proof (induction rule: completes.induct)
  case (performed k c k' c' ks ks' d)
  with run [of k c] ran [of k c k' c'] show ?case by simp
qed simp_all

lemma plan_keeps:
  assumes "\<And>k c. J k \<Longrightarrow> I c \<Longrightarrow> I (snd (snd (perform ops k c)))"
    and "\<And>k c k' c'. J k \<Longrightarrow> perform ops k c = (Inr (), k', c') \<Longrightarrow> J k'"
    and "\<And>k c. J k \<Longrightarrow> I c \<Longrightarrow> I (snd (snd (undo ops k c)))"
    and "\<And>steps. plan = Inr steps \<Longrightarrow> list_all J steps"
  shows "keeps I (run_plan ops display plan on_failed)"
proof (rule keepsI)
  fix c assume c: "I c"
  have "I (snd (snd (executor_run ops [] c steps)))" if "plan = Inr steps" for steps
    using executor_keeps [OF assms(1-3) assms(4) [OF that], where journal = "[]" and i = 0 and c = c] c by (simp add: executor_run_def)
  then have "I (snd (execute_plan ops display steps (\<lambda>reason. on_failed [reason]) c))"
    if "plan = Inr steps" for steps
    using that by (fastforce simp: execute_plan_def split: prod.split execution_result.split)
  with c show "I (snd (run_plan ops display plan on_failed c))"
    by (cases plan) (simp_all add: run_plan_def)
qed

text \<open>A run that failed, taken apart.\<close>

lemma failed_split:
  assumes "executor_run ops [] c ks = (Failed i n e errors, j, c')"
  obtains pre k post pre' d d' where "ks = pre @ k # post" "i = length pre" "completes ops c pre pre' d"
    "step_fails ops d k e d'" "undo_all ops (rev pre') d' = (errors, c')"
proof (cases rule: run_cases [of ops c ks])
  case (success ks' d)
  with assms show ?thesis by (simp add: run_success)
next
  case (failure pre k post pre' d f d')
  with assms run_failure [OF failure(2,3), of "[]" post]
  have "i = length pre \<and> f = e \<and> undo_all ops (rev pre') d' = (errors, c')" by (auto split: prod.splits)
  with failure that show ?thesis by blast
qed

lemma completes_split:
  assumes "completes ops c (xs @ ys) zs d"
  obtains us m vs where "zs = us @ vs" "completes ops c xs us m" "completes ops m ys vs d"
  using assms
proof (induction xs arbitrary: c zs thesis)
  case Nil
  then show ?case using completes.finished by fastforce
next
  case (Cons x xs)
  from Cons.prems(2) obtain x' c1 zs' where z: "zs = x' # zs'" "completes ops c1 (xs @ ys) zs' d"
    and step: "\<And>us m. completes ops c1 xs us m \<Longrightarrow> completes ops c (x # xs) (x' # us) m"
    by (auto simp: completes_Cons_iff)
  from Cons.IH [OF _ z(2)] obtain us m vs where "zs' = us @ vs" "completes ops c1 xs us m" "completes ops m ys vs d"
    by blast
  with z step show ?case by (intro Cons.prems(1) [of "x' # us" vs m]) auto
qed

end
