(* ===== verification/Bract.thy ===== *)
theory Bract
  imports Reconcile GardenInvariants ResinTypes
begin

text \<open>
  What the blueprints of bract that act on one seedling share: the tools they are given (the \<open>Dependencies\<close>
  of bract/src/blueprints/*.rs, each a choice of the fields of the server), who asks (bract/src/blueprints/mod.rs),
  the paths they build, and plans whose steps have no fields that change.  A plan of such steps is the loop over
  its steps, and its failure is the failing step followed by the rollbacks of the steps before it.
\<close>

section \<open>Errors of steps\<close>

text \<open>\<open>Box<dyn Error>\<close>: what the steps turn into it with \<open>?\<close>.\<close>

datatype step_error =
    StepDocker docker_error
  | StepBank client_error
  | StepName refined_error
  | StepResinName name_error
  | StepFile fs_error
  | StepRamDisk string
  | StepResin string
  | FailedToStart

section \<open>The tools\<close>

text \<open>The client of resin (resin_client/src/lib.rs), which talks to another program.\<close>

record 'd resin_client =
  resin_build :: "('d, string, unit) prog"
  resin_image_exists :: "versioned_image_name \<Rightarrow> ('d, string, bool) prog"
  resin_repository_registered :: "repository \<Rightarrow> ('d, string, bool) prog"
  resin_list_repositories :: "('d, string, repository list) prog"
  resin_delete_repository :: "repository \<Rightarrow> ('d, string, unit) prog"

text \<open>The rest of the docker client (docker/src/client.rs): commands run in a container, and its description.
  An inspected command is running or has an exit code.\<close>

record exec_inspection =
  exec_running :: bool
  exit_code :: "int option"

record container_snapshot =
  snapshot_labels :: "label list"
  snapshot_status :: docker_status

record 'd exec_client =
  docker_create_exec :: "string \<Rightarrow> string list \<Rightarrow> ('d, docker_error, string) prog"
  docker_start_exec :: "string \<Rightarrow> ('d, docker_error, unit) prog"
  docker_inspect_exec :: "string \<Rightarrow> ('d, docker_error, exec_inspection) prog"
  docker_inspect_container :: "string \<Rightarrow> (path \<times> string) list \<Rightarrow> ('d, docker_error, container_snapshot) prog"

text \<open>\<open>patience\<close> is the number of times a command is inspected before the time for a health check is over;
  \<open>t_agent_image\<close> is \<open>openbao::image_source()\<close>, \<open>show_step\<close> and \<open>show_reconcile\<close> the \<open>Display\<close> of errors.\<close>

record 'd tools =
  t_regex :: regex
  t_folders :: douglas_folders
  t_bank :: bank
  t_docker :: "'d docker_client"
  t_exec :: "'d exec_client"
  t_resin :: "'d resin_client"
  t_rolodex :: rolodex
  t_ram_disk :: "'d ram_disk"
  t_agent_image :: image_source
  patience :: nat
  show_step :: "step_error \<Rightarrow> string"
  show_reconcile :: "reconcile_error \<Rightarrow> string"

section \<open>Who asks, and for what\<close>

datatype requested_by = Operator | Watchdog

definition core_seedling_forbidden_for :: "origin option \<Rightarrow> requested_by \<Rightarrow> bool" where
  "core_seedling_forbidden_for og by_whom \<longleftrightarrow> og = Some Core \<and> by_whom = Operator"

section \<open>Paths\<close>

definition TRAEFIK_SEEDLING_NAME :: name where
  "TRAEFIK_SEEDLING_NAME = ''traefik''"

definition OPENBAO_SEEDLING_NAME :: name where
  "OPENBAO_SEEDLING_NAME = ''openbao''"

definition traefik_dynamic_dir :: "regex \<Rightarrow> douglas_folders \<Rightarrow> refined_error + path" where
  "traefik_dynamic_dir im d =
     (case name_from_str im TRAEFIK_SEEDLING_NAME of
        Inl e \<Rightarrow> Inl e
      | Inr traefik \<Rightarrow>
          (case name_from_str im ''config'' of
             Inl e \<Rightarrow> Inl e
           | Inr config_mount \<Rightarrow> Inr (seedling_mount d traefik config_mount @ [''dynamic''])))"

definition route_file :: "name \<Rightarrow> string" where
  "route_file n = n @ ''.yml''"

definition openbao_socket_path :: "douglas_folders \<Rightarrow> path" where
  "openbao_socket_path d = seedling_mount d OPENBAO_SEEDLING_NAME ''socket'' @ [''openbao.sock'']"

text \<open>\<open>agent_mount_dir\<close> of bract/src/blueprints/provision_seedling_secrets.rs.\<close>

definition agent_mount_dir :: "douglas_folders \<Rightarrow> name \<Rightarrow> path" where
  "agent_mount_dir d n = seedling_mount d n ''openbao-agent''"

section \<open>Calls of steps\<close>

type_synonym ('d, 'a) stepping = "('d garden, step_error, 'a) prog"

definition step_docker :: "('d, docker_error, 'a) prog \<Rightarrow> ('d, 'a) stepping" where
  "step_docker m = on_engine StepDocker m"

definition step_bank :: "('d, 'a) asking \<Rightarrow> ('d, 'a) stepping" where
  "step_bank m = map_err StepBank m"

definition step_file :: "(fs, fs_error, 'a) prog \<Rightarrow> ('d, 'a) stepping" where
  "step_file m = on_disk StepFile m"

definition step_name_of :: "refined_error + 'a \<Rightarrow> ('d, 'a) stepping" where
  "step_name_of r = map_err StepName (of_result r)"

section \<open>Reconciling with these tools\<close>

definition plot_of :: "'d tools \<Rightarrow> name \<Rightarrow> seedling_version \<Rightarrow> seedling_definition \<Rightarrow> agent_provisioning option \<Rightarrow> 'd plot" where
  "plot_of T n v d agent =
     \<lparr>plot_name = n, plot_version = v, plot_definition = d, plot_agent = agent, plot_regex = t_regex T,
      plot_folders = t_folders T, plot_bank = t_bank T, plot_docker = t_docker T, plot_rolodex = t_rolodex T,
      plot_ram_disk = t_ram_disk T, plot_resin = resin_image_exists (t_resin T), plot_agent_image = t_agent_image T\<rparr>"

text \<open>\<open>execute\<close> of bract/src/blueprints/reconcile_seedling.rs from its first call on: the client of resin is built,
  then the seedling is reconciled.\<close>

definition reconcile_execute :: "'d tools \<Rightarrow> name \<Rightarrow> seedling_version \<Rightarrow> seedling_definition \<Rightarrow>
    agent_provisioning option \<Rightarrow> ('d, unit) reconciling" where
  "reconcile_execute T n v d agent =
     and_then (on_engine (\<lambda>e. FailedBootstrap [e]) (resin_build (t_resin T))) (\<lambda>_.
       reconcile_seedling (plot_of T n v d agent) (show_reconcile T))"

section \<open>Plans of steps that do not change\<close>

definition plain_ops :: "('k \<Rightarrow> string) \<Rightarrow> ('k \<Rightarrow> ('c, 'e, unit) prog) \<Rightarrow> ('k \<Rightarrow> ('c, 'e, unit) prog) \<Rightarrow>
    ('k, 'c, 'e) command" where
  "plain_ops label run rollback =
     \<lparr>step_name = label, step_display = label, skips = (\<lambda>k c. False),
      perform = (\<lambda>k c. case run k c of (r, c') \<Rightarrow> (r, k, c')),
      undo = (\<lambda>k c. case rollback k c of (r, c') \<Rightarrow> (r, k, c'))\<rparr>"

text \<open>The rollback of commands that define none.\<close>

definition no_undo :: "'k \<Rightarrow> ('c, 'e, unit) prog" where
  "no_undo k = ok ()"

lemma plain_ops_simps [simp]:
  "step_name (plain_ops label run rollback) = label"
  "\<not> skips (plain_ops label run rollback) k c"
  "perform (plain_ops label run rollback) k c = (r, k', c') \<longleftrightarrow> run k c = (r, c') \<and> k' = k"
  "undo (plain_ops label run rollback) k c = (r, k', c') \<longleftrightarrow> rollback k c = (r, c') \<and> k' = k"
  by (auto simp: plain_ops_def split: prod.splits)

lemma plain_completes:
  "completes (plain_ops label run rollback) c ks ks' d \<longleftrightarrow> for_each run ks c = (Inr (), d) \<and> ks' = ks"
proof (induction ks arbitrary: c ks')
  case (Cons k ks)
  show ?case
    by (cases "run k c"; cases "fst (run k c)")
      (auto simp: completes_Cons_iff Cons.IH and_then_def)
qed (auto simp: prog_simps)

text \<open>A plan succeeds as the loop over its steps does.\<close>

lemma plain_plan_Inr:
  "run_plan (plain_ops label run rollback) display plan on_failed c = (Inr (), d) \<longleftrightarrow>
     (\<exists>steps. plan = Inr steps \<and> for_each run steps c = (Inr (), d))"
proof (cases plan)
  case (Inr steps)
  obtain r j c' where e: "executor_run (plain_ops label run rollback) [] c steps = (r, j, c')"
    by (cases "executor_run (plain_ops label run rollback) [] c steps") auto
  with run_Success_iff [of "plain_ops label run rollback" "[]" c steps j c'] show ?thesis
    using run_Success_iff [of "plain_ops label run rollback" "[]" c steps _ d] Inr
    by (cases r) (auto simp: run_plan_def execute_plan_def plain_completes)
qed (simp add: run_plan_def)

text \<open>What a failed plan did: the steps before the failing one, the failing one, and the rollbacks of the steps
  before it, last one first.\<close>

lemma plain_plan_Inl:
  assumes "run_plan (plain_ops label run rollback) display (Inr steps) on_failed c = (Inl x, d)"
  obtains pre k post e c1 c2 where "steps = pre @ k # post" "for_each run pre c = (Inr (), c1)"
    "run k c1 = (Inl e, c2)" "x = on_failed [failure_reason display (length pre) (label k) e]"
    "d = snd (undo_all (plain_ops label run rollback) (rev pre) c2)"
proof (cases rule: run_cases [of "plain_ops label run rollback" c steps])
  case (success ks' c')
  with assms show ?thesis by (simp add: run_plan_def execute_plan_def run_success)
next
  case (failure pre k post pre' c1 e c2)
  then have pre: "pre' = pre" "for_each run pre c = (Inr (), c1)" by (simp_all add: plain_completes)
  from failure have "run k c1 = (Inl e, c2)" by (auto simp: step_fails_def)
  with that failure(1) pre assms run_failure [OF failure(2,3), of "[]" post] show ?thesis
    by (auto simp: run_plan_def execute_plan_def split: prod.splits)
qed

lemma plain_undo_nothing:
  "(\<And>k. k \<in> set ks \<Longrightarrow> rollback k = ok ()) \<Longrightarrow> undo_all (plain_ops label run rollback) ks c = ([], c)"
  by (induction ks arbitrary: c) (auto simp: plain_ops_def prog_simps)

lemma plain_plan_keeps:
  assumes "\<And>k. J k \<Longrightarrow> keeps I (run k)" and "\<And>k. J k \<Longrightarrow> keeps I (rollback k)"
    and "\<And>steps. plan = Inr steps \<Longrightarrow> list_all J steps"
  shows "keeps I (run_plan (plain_ops label run rollback) display plan on_failed)"
proof (rule plan_keeps [where J = J])
  fix k c assume "J k" "I c"
  with assms(1,2) [of k] show "I (snd (snd (perform (plain_ops label run rollback) k c)))"
    "I (snd (snd (undo (plain_ops label run rollback) k c)))"
    by (auto simp: plain_ops_def dest: keepsD split: prod.splits)
qed (use assms(3) in auto)

section \<open>What the calls of the clients keep\<close>

context tree_invariant begin

text \<open>Requests that only ask, and the others, which touch what they are about.\<close>

lemma inv_asking:
  "keeps (in_garden D) (client_list B)"
  "keeps (in_garden D) (client_exists B n)"
  "keeps (in_garden D) (client_load B n)"
  "keeps (in_garden D) (client_get_desired_run_status B n)"
  "keeps (in_garden D) (client_health_check_log B n)"
  unfolding client_list_def client_exists_def client_load_def client_get_desired_run_status_def
    client_health_check_log_def
  by (intro inv_ask; simp)+

lemma inv_noting:
  "safe (desired_run_state_path (bank_server B) n) \<Longrightarrow> keeps (in_garden D) (client_set_desired_run_status B n st)"
  "safe (health_log_path (bank_server B) n) \<Longrightarrow> keeps (in_garden D) (client_reset_health_log B n)"
  "safe (health_log_path (bank_server B) n) \<Longrightarrow> keeps (in_garden D) (client_increment_health_log_fail_count B n)"
  "safe (default_path (bank_server B)) \<Longrightarrow> keeps (in_garden D) (client_claim_default B n)"
  "safe (default_path (bank_server B)) \<Longrightarrow> keeps (in_garden D) (client_release_default B n)"
  unfolding client_set_desired_run_status_def client_reset_health_log_def client_claim_default_def
    client_increment_health_log_fail_count_def client_release_default_def
  by (intro inv_ask; auto)+

lemma inv_registering:
  assumes "\<And>q. below (create_seedling_path (bank_server B) n) q \<Longrightarrow> safe q"
  shows "keeps (in_garden D) (client_create B n v d)" and "keeps (in_garden D) (client_delete B n)"
  unfolding client_create_def client_delete_def by (intro inv_ask assms; simp)+

lemma inv_step_calls:
  "keeps (in_garden D) (step_docker m)"
  "keeps (in_garden D) (step_name_of r)"
  "keeps (in_garden D) m' \<Longrightarrow> keeps (in_garden D) (step_bank m')"
  unfolding step_docker_def step_name_of_def step_bank_def
  by (intro keeps_on_engine keeps_map_err keeps_of_result; assumption)+

lemma inv_step_files:
  "reads_tree m \<Longrightarrow> keeps (in_garden D) (step_file m)"
  "safe p \<Longrightarrow> keeps (in_garden D) (step_file (deleter_delete p))"
  "(\<And>q. below p q \<Longrightarrow> safe q) \<Longrightarrow> keeps (in_garden D) (step_file (folder_deleter_delete p))"
  unfolding step_file_def by (intro keeps_in_garden inv_reads deleting deleting_folder; simp)+

end

end
