(* ===== verification/Identity.thy ===== *)
theory Identity
  imports FileFrames Config
begin

text \<open>
  The identity of a douglas host (identity/src/lib.rs): 32 random bytes in a file, from which a key per intent is
  derived, and the encryption of short texts with it; and the credentials of douglas for OpenBao
  (openbao/src/app_role.rs), which are stored encrypted.  HKDF, AES-GCM and base64 are libraries: a record of
  functions, with their documented laws where they are needed.  Bytes are characters.
\<close>

section \<open>The identity\<close>

record crypto =
  hkdf_expand :: "string \<Rightarrow> string \<Rightarrow> string option"
  aead_seal :: "string \<Rightarrow> string \<Rightarrow> string \<Rightarrow> string option"
  aead_open :: "string \<Rightarrow> string \<Rightarrow> string \<Rightarrow> string option"
  base64_encode :: "string \<Rightarrow> string"
  base64_decode :: "string \<Rightarrow> string option"

datatype identity_error =
    IdentityFileError fs_error
  | EncryptFailed
  | DecryptFailed
  | InvalidEncoding
  | InvalidUtf8
  | InvalidIdentity
  | KeyError

type_synonym 'a identifying = "(fs, identity_error, 'a) prog"

definition identity_file_path :: path where
  "identity_file_path = douglas_folders.identity douglas_folders_new @ [''identity'']"

datatype intent = Unseal | Authentication

fun intent_label :: "intent \<Rightarrow> string" where
  "intent_label Unseal = ''UNSEAL_KEY_PURPOSE''"
| "intent_label Authentication = ''AUTHENTICATION''"

text \<open>\<open>cached\<close> is the field \<open>cached_identity\<close>; the answer is its new value as well.\<close>

definition local_identity :: "string option \<Rightarrow> string identifying" where
  "local_identity cached =
     (case cached of
        Some i \<Rightarrow> ok i
      | None \<Rightarrow>
          and_then (map_err IdentityFileError (reader_read_all_bytes identity_file_path)) (\<lambda>b.
            if length b = 32 then ok b else fail InvalidIdentity))"

text \<open>The key of an intent, and the identity it was derived from.\<close>

definition derive_key :: "crypto \<Rightarrow> string option \<Rightarrow> intent \<Rightarrow> (string \<times> string) identifying" where
  "derive_key C cached i =
     and_then (local_identity cached) (\<lambda>b.
       case hkdf_expand C b (intent_label i) of None \<Rightarrow> fail KeyError | Some k \<Rightarrow> ok (k, b))"

text \<open>\<open>initialize\<close> with the bytes that were generated: the identity is kept if there is one.\<close>

definition initialize :: "string \<Rightarrow> string option \<Rightarrow> string option identifying" where
  "initialize generated cached =
     and_then (map_err IdentityFileError (writer_write_all_bytes_if_absent identity_file_path generated)) (\<lambda>written.
       ok (if written then Some generated else cached))"

text \<open>\<open>encrypt\<close> with the nonce that was generated: the answer is the text and the identity now cached.\<close>

definition encrypt :: "crypto \<Rightarrow> string option \<Rightarrow> string \<Rightarrow> intent \<Rightarrow> string \<Rightarrow> (string \<times> string) identifying" where
  "encrypt C cached nonce i plain =
     and_then (derive_key C cached i) (\<lambda>(k, b).
       case aead_seal C k nonce plain of
         None \<Rightarrow> fail EncryptFailed
       | Some cipher \<Rightarrow> ok (base64_encode C (nonce @ cipher), b))"

definition decrypt :: "crypto \<Rightarrow> string option \<Rightarrow> intent \<Rightarrow> string \<Rightarrow> (string \<times> string) identifying" where
  "decrypt C cached i cipher_text =
     and_then (derive_key C cached i) (\<lambda>(k, b).
       case base64_decode C cipher_text of
         None \<Rightarrow> fail InvalidEncoding
       | Some combined \<Rightarrow>
           if length combined < 12 then fail InvalidEncoding
           else
             (case aead_open C k (take 12 combined) (drop 12 combined) of
                None \<Rightarrow> fail DecryptFailed
              | Some plain \<Rightarrow> if is_utf8 plain then ok (plain, b) else fail InvalidUtf8))"

section \<open>The credentials of douglas for OpenBao\<close>

datatype app_role_error = AppRoleIdentity identity_error | AppRoleFile fs_error | NotAvailable | AppRoleOpenBao string

definition role_id_credential :: "douglas_folders \<Rightarrow> path" where
  "role_id_credential d = credential_file d ''douglas.role_id''"

definition secret_id_credential :: "douglas_folders \<Rightarrow> path" where
  "secret_id_credential d = credential_file d ''douglas.secret_id''"

definition available :: "douglas_folders \<Rightarrow> fs \<Rightarrow> bool" where
  "available d s \<longleftrightarrow> file_exists s (role_id_credential d) \<and> file_exists s (secret_id_credential d)"

text \<open>\<open>login\<close> up to the request to OpenBao: the two credentials, decrypted, and the identity that is in memory then.\<close>

definition read_credentials ::
    "crypto \<Rightarrow> string option \<Rightarrow> douglas_folders \<Rightarrow> (fs, app_role_error, (string \<times> string) \<times> string) prog" where
  "read_credentials C cached d =
     and_then (gets (available d)) (\<lambda>there.
       if \<not> there then fail NotAvailable
       else
         and_then (map_err AppRoleFile (reader_read_all (role_id_credential d))) (\<lambda>encrypted_role.
         and_then (map_err AppRoleIdentity (decrypt C cached Authentication encrypted_role)) (\<lambda>(role, b).
         and_then (map_err AppRoleFile (reader_read_all (secret_id_credential d))) (\<lambda>encrypted_secret.
         and_then (map_err AppRoleIdentity (decrypt C (Some b) Authentication encrypted_secret)) (\<lambda>(secret, b).
           ok ((role, secret), b))))))"

definition write_credential_file ::
    "crypto \<Rightarrow> string option \<Rightarrow> string \<Rightarrow> path \<Rightarrow> string \<Rightarrow> (fs, app_role_error, string) prog" where
  "write_credential_file C cached nonce p plain =
     and_then (gets (\<lambda>s. file_exists s p)) (\<lambda>present.
     and_then (if present then map_err AppRoleFile (deleter_delete p) else ok ()) (\<lambda>_.
     and_then (map_err AppRoleIdentity (encrypt C cached nonce Authentication plain)) (\<lambda>(encrypted, b).
     and_then (map_err AppRoleFile (writer_write_all p encrypted)) (\<lambda>_.
     and_then (map_err AppRoleFile (change_user_and_group_ownership p ''root'' ''root'')) (\<lambda>_.
     and_then (map_err AppRoleFile (change_mode p OwnerReadWrite)) (\<lambda>_. ok b))))))"

definition store :: "crypto \<Rightarrow> string option \<Rightarrow> string \<Rightarrow> string \<Rightarrow> douglas_folders \<Rightarrow> string \<Rightarrow> string \<Rightarrow>
    (fs, app_role_error, unit) prog" where
  "store C cached nonce1 nonce2 d role secret =
     and_then (write_credential_file C cached nonce1 (role_id_credential d) role) (\<lambda>b.
     and_then (write_credential_file C (Some b) nonce2 (secret_id_credential d) secret) (\<lambda>_. ok ()))"

section \<open>What was encrypted is decrypted\<close>

text \<open>The laws of the libraries: AES-GCM opens what it sealed with the same key and nonce, base64 is decoded.\<close>

definition documented_crypto :: "crypto \<Rightarrow> bool" where
  "documented_crypto C \<longleftrightarrow>
     (\<forall>k n p c. length n = 12 \<longrightarrow> aead_seal C k n p = Some c \<longrightarrow> aead_open C k n c = Some p) \<and>
     (\<forall>b. base64_decode C (base64_encode C b) = Some b)"

lemma decrypt_cached:
  assumes "documented_crypto C" and "length nonce = 12" and "is_utf8 plain"
    and "encrypt C cached nonce i plain s = (Inr (cipher, b), t)"
  shows "decrypt C (Some b) i cipher u = (Inr (plain, b), u)"
proof -
  from assms(4) obtain k b' s' where key: "derive_key C cached i s = (Inr (k, b'), s')"
    and rest: "(case aead_seal C k nonce plain of
        None \<Rightarrow> fail EncryptFailed | Some c \<Rightarrow> ok (base64_encode C (nonce @ c), b')) s' = (Inr (cipher, b), t)"
    unfolding encrypt_def by (auto elim!: and_then_InrE)
  from rest obtain c where c: "aead_seal C k nonce plain = Some c" "cipher = base64_encode C (nonce @ c)" "b = b'"
    by (auto simp: prog_simps split: option.splits)
  from key have "hkdf_expand C b (intent_label i) = Some k"
    unfolding derive_key_def c(3) by (auto elim!: and_then_InrE simp: prog_simps split: option.splits)
  then have "derive_key C (Some b) i u = (Inr (k, b), u)"
    by (simp add: derive_key_def local_identity_def prog_simps)
  moreover have "aead_open C k nonce c = Some plain" "base64_decode C cipher = Some (nonce @ c)"
    using assms(1,2) c unfolding documented_crypto_def by auto
  ultimately show ?thesis
    using assms(2,3) by (simp add: decrypt_def prog_simps)
qed

lemma encrypt_identity:
  assumes "encrypt C cached nonce i plain s = (Inr (cipher, b), t)"
  shows "case cached of Some i \<Rightarrow> b = i | None \<Rightarrow> content s identity_file_path = Some b \<and> length b = 32"
    and "content t = content s"
proof -
  from assms obtain k s' where d: "derive_key C cached i s = (Inr (k, b), s')" "t = s'"
    unfolding encrypt_def by (auto elim!: and_then_InrE simp: prog_simps split: option.splits prod.splits)
  then obtain u where l: "local_identity cached s = (Inr b, u)" "u = s'"
    unfolding derive_key_def by (auto elim!: and_then_InrE simp: prog_simps split: option.splits)
  show "case cached of Some i \<Rightarrow> b = i | None \<Rightarrow> content s identity_file_path = Some b \<and> length b = 32"
    using l(1) unfolding local_identity_def reader_read_all_bytes_def
    by (auto elim!: and_then_InrE map_err_InrE dest: std_read_content(2) simp: prog_simps split: option.splits if_splits)
  have "reads_tree (local_identity cached)"
    unfolding local_identity_def by (intro reads_tree_intros)
  with l d show "content t = content s" using reads_tree_content by metis
qed

section \<open>What was stored is read back\<close>

lemma content_marked:
  "change_user_and_group_ownership p u g s = (r, t) \<Longrightarrow> content t = content s"
  "change_mode p md s = (r, t) \<Longrightarrow> content t = content s"
proof -
  have "keeps (agrees (\<lambda>_. True) s) (change_user_and_group_ownership p u g)" "keeps (agrees (\<lambda>_. True) s) (change_mode p md)"
    unfolding change_user_and_group_ownership_def change_mode_def by (intro keeps_intros frame_intros)+
  from this [THEN keepsD, of s]
  show "change_user_and_group_ownership p u g s = (r, t) \<Longrightarrow> content t = content s"
    "change_mode p md s = (r, t) \<Longrightarrow> content t = content s"
    by (auto simp: agrees_def fun_eq_iff)
qed

text \<open>What a credential file holds after it was written, and the identity it was encrypted with.\<close>

lemma credential_written:
  assumes "write_credential_file C cached nonce p plain s = (Inr b, t)" and "p \<noteq> identity_file_path"
  shows "\<exists>cipher s' t'. encrypt C cached nonce Authentication plain s' = (Inr (cipher, b), t') \<and>
    content t = (content s)(p := Some cipher) \<and>
    (case cached of Some i \<Rightarrow> b = i | None \<Rightarrow> content s identity_file_path = Some b \<and> length b = 32)"
proof -
  from assms(1) obtain s1 cipher s2 s3 s4 where
      del: "(if file_exists s p then map_err AppRoleFile (deleter_delete p) else ok ()) s = (Inr (), s1)"
    and enc: "encrypt C cached nonce Authentication plain s1 = (Inr (cipher, b), s2)"
    and written: "writer_write_all p cipher s2 = (Inr (), s3)"
    and own: "change_user_and_group_ownership p ''root'' ''root'' s3 = (Inr (), s4)"
    and md: "change_mode p OwnerReadWrite s4 = (Inr (), t)"
    unfolding write_credential_file_def
    by (auto elim!: and_then_InrE map_err_InrE simp: gets_run prog_simps split: prod.splits)
  have s1: "content s1 q = content s q" if "q \<noteq> p" for q
    using del that by (auto elim!: map_err_InrE dest: deleter_delete_content(1) simp: prog_simps split: if_splits)
  have s3: "content s3 = (content s2)(p := Some cipher)"
    using written unfolding writer_write_all_def writer_write_all_bytes_def
    by (auto elim!: map_err_InrE dest: std_write_content(1))
  have "content t = (content s)(p := Some cipher)"
    using s1 s3 content_marked(1) [OF own] content_marked(2) [OF md] encrypt_identity(2) [OF enc] by (auto simp: fun_eq_iff)
  moreover have "case cached of Some i \<Rightarrow> b = i | None \<Rightarrow> content s identity_file_path = Some b \<and> length b = 32"
    using encrypt_identity(1) [OF enc] s1 [of identity_file_path] assms(2) by (auto split: option.splits)
  ultimately show ?thesis using enc by blast
qed

text \<open>Reading that gives the expected result or finds the disk in trouble, and changes no file.\<close>

fun disk_trouble :: "app_role_error \<Rightarrow> bool" where
  "disk_trouble (AppRoleFile _) = True"
| "disk_trouble (AppRoleIdentity (IdentityFileError _)) = True"
| "disk_trouble _ = False"

definition reads_right :: "('a \<Rightarrow> bool) \<Rightarrow> (fs, app_role_error, 'a) prog \<Rightarrow> fs \<Rightarrow> bool" where
  "reads_right Q m u =
     (case m u of (r, v) \<Rightarrow> content v = content u \<and> (case r of Inr a \<Rightarrow> Q a | Inl e \<Rightarrow> disk_trouble e))"

lemma reads_right_and_then:
  "reads_right Q' m u \<Longrightarrow> (\<And>a v. Q' a \<Longrightarrow> content v = content u \<Longrightarrow> reads_right Q (k a) v) \<Longrightarrow>
   reads_right Q (and_then m k) u"
proof -
  assume m: "reads_right Q' m u" and k: "\<And>a v. Q' a \<Longrightarrow> content v = content u \<Longrightarrow> reads_right Q (k a) v"
  obtain r v where run: "m u = (r, v)" by (cases "m u") auto
  show "reads_right Q (and_then m k) u"
  proof (cases r)
    case (Inl e)
    with m run show ?thesis by (simp add: reads_right_def and_then_Inl)
  next
    case (Inr a)
    with m run have "Q' a" "content v = content u" by (simp_all add: reads_right_def)
    from k [OF this] run Inr this(2) show ?thesis by (simp add: reads_right_def and_then_Inr)
  qed
qed

lemma reads_right_guard: "b \<Longrightarrow> reads_right Q m u \<Longrightarrow> reads_right Q (if \<not> b then m' else m) u"
  by simp

lemma reads_right_ok: "Q a \<Longrightarrow> reads_right Q (ok a) u"
  by (simp add: reads_right_def prog_simps)

lemma reads_right_text:
  assumes "content u p = Some b" and "is_utf8 b"
  shows "reads_right ((=) b) (map_err AppRoleFile (reader_read_all p)) u"
proof -
  obtain r v where read: "std_read p u = (r, v)" by (cases "std_read p u") auto
  then show ?thesis
    using assms std_read_content [OF read] content_same [OF std_read_content(1) [OF read]]
    by (cases r) (auto simp: reads_right_def reader_read_all_def map_err_def and_then_def prog_simps)
qed

lemma reads_right_identity:
  assumes "case cached of Some i \<Rightarrow> b = i | None \<Rightarrow> content u identity_file_path = Some b \<and> length b = 32"
  shows "reads_right ((=) b) (map_err AppRoleIdentity (local_identity cached)) u"
proof (cases cached)
  case None
  obtain r v where read: "std_read identity_file_path u = (r, v)" by (cases "std_read identity_file_path u") auto
  with None show ?thesis
    using assms std_read_content [OF read] content_same [OF std_read_content(1) [OF read]]
    by (cases r)
      (auto simp: reads_right_def local_identity_def reader_read_all_bytes_def map_err_def and_then_def prog_simps)
next
  case (Some i)
  with assms show ?thesis by (simp add: reads_right_def local_identity_def map_err_def prog_simps)
qed

lemma reads_right_decrypt:
  assumes "documented_crypto C" "length nonce = 12" "is_utf8 plain"
    and "encrypt C cached' nonce Authentication plain s = (Inr (cipher, b), t)"
    and "case cached of Some i \<Rightarrow> b = i | None \<Rightarrow> content u identity_file_path = Some b \<and> length b = 32"
  shows "reads_right ((=) (plain, b)) (map_err AppRoleIdentity (decrypt C cached Authentication cipher)) u"
proof -
  obtain r v where known: "local_identity cached u = (r, v)" by (cases "local_identity cached u") auto
  have right: "reads_right ((=) b) (map_err AppRoleIdentity (local_identity cached)) u"
    by (rule reads_right_identity [OF assms(5)])
  show ?thesis
  proof (cases r)
    case (Inl e)
    with known have "decrypt C cached Authentication cipher u = (Inl e, v)"
      by (simp add: decrypt_def derive_key_def and_then_def)
    with right known Inl show ?thesis by (simp add: reads_right_def map_err_def)
  next
    case (Inr b')
    with right known have b: "b' = b" "content v = content u" by (auto simp: reads_right_def map_err_def)
    have "decrypt C cached Authentication cipher u = decrypt C (Some b) Authentication cipher v"
      using known Inr b by (simp add: decrypt_def derive_key_def and_then_def local_identity_def ok_def)
    with decrypt_cached [OF assms(1-4), of v] b show ?thesis by (simp add: reads_right_def map_err_def)
  qed
qed

text \<open>
  C22: The role and the secret that were stored for douglas are what its next login reads, from any later state with
  the same files: the only errors left are those of the disk.  The libraries are assumed to open what they sealed, the
  text of base64 to be UTF-8 and the identity in memory to be the one on disk.
\<close>

theorem stored_credentials_are_read_back:
  assumes "documented_crypto C" and "\<forall>b. is_utf8 (base64_encode C b)"
    and "length nonce1 = 12" and "length nonce2 = 12" and "is_utf8 role" and "is_utf8 secret"
    and "role_id_credential d \<noteq> identity_file_path" and "secret_id_credential d \<noteq> identity_file_path"
    and "case cached of None \<Rightarrow> True | Some i \<Rightarrow> content s identity_file_path = Some i \<and> length i = 32"
    and "store C cached nonce1 nonce2 d role secret s = (Inr (), t)" and "content u = content t"
  shows "case fst (read_credentials C None d u) of Inr x \<Rightarrow> fst x = (role, secret) | Inl e \<Rightarrow> disk_trouble e"
proof -
  let ?r = "role_id_credential d" and ?s = "secret_id_credential d"
  have apart: "?r \<noteq> ?s" by (simp add: role_id_credential_def secret_id_credential_def credential_file_def)
  from assms(10) obtain b s1 b2 where one: "write_credential_file C cached nonce1 ?r role s = (Inr b, s1)"
    and two: "write_credential_file C (Some b) nonce2 ?s secret s1 = (Inr b2, t)"
    unfolding store_def by (auto elim!: and_then_InrE simp: prog_simps)
  from credential_written [OF one assms(7)] obtain c1 s1' t1' where
      e1: "encrypt C cached nonce1 Authentication role s1' = (Inr (c1, b), t1')" and c1: "content s1 = (content s)(?r := Some c1)"
    and b: "case cached of Some i \<Rightarrow> b = i | None \<Rightarrow> content s identity_file_path = Some b \<and> length b = 32"
    by blast
  from credential_written [OF two assms(8)] obtain c2 s2' t2' where
      e2: "encrypt C (Some b) nonce2 Authentication secret s2' = (Inr (c2, b), t2')" and c2: "content t = (content s1)(?s := Some c2)"
    by auto
  have utf8: "is_utf8 c1" "is_utf8 c2"
    using e1 e2 assms(2) unfolding encrypt_def
    by (auto elim!: and_then_InrE simp: prog_simps split: option.splits prod.splits)
  have files: "content u ?r = Some c1" "content u ?s = Some c2" "content u identity_file_path = content s identity_file_path"
    using assms(7,8,11) apart c1 c2 by auto
  have id: "content u identity_file_path = Some b \<and> length b = 32"
    using b assms(9) files(3) by (auto split: option.splits)
  have "file_exists u p" if "content u p = Some x" for p x
    using that by (simp add: file_exists_def exists_path_def is_dir_def content_def split: option.splits node.splits)
  with files have there: "available d u" by (simp add: available_def)
  have "reads_right (\<lambda>x. fst x = (role, secret)) (read_credentials C None d) u"
    unfolding read_credentials_def
  proof (rule reads_right_and_then [of "\<lambda>a. a"], simp add: reads_right_def prog_simps there,
      intro reads_right_guard reads_right_and_then [OF reads_right_text [of _ _ c1]], goal_cases)
    case (4 a v x v1)
    show ?case
    proof (subst 4(3) [symmetric], rule reads_right_and_then [OF reads_right_decrypt [OF assms(1,3,5) e1]], goal_cases)
      case (2 x v2)
      show ?case
      proof (subst 2(1) [symmetric], simp only: prod.case, rule reads_right_and_then [OF reads_right_text [of _ _ c2]], goal_cases)
        case (3 x v3)
        show ?case
          by (subst 3(1) [symmetric], rule reads_right_and_then [OF reads_right_decrypt [OF assms(1,4,6) e2]])
            (auto intro: reads_right_ok)
      qed (use files utf8 2 4 in simp_all)
    qed (use id 4 in simp)
  qed (use files utf8 in simp_all)
  then show ?thesis by (auto simp: reads_right_def split: prod.splits sum.splits)
qed

text \<open>A small instance: two letters per byte, and sealing that hides nothing.\<close>

definition letters :: "char \<Rightarrow> string" where
  "letters c = (let n = of_char c :: nat in [char_of (97 + n div 16), char_of (97 + n mod 16)])"

fun from_letters :: "string \<Rightarrow> string option" where
  "from_letters [] = Some []"
| "from_letters (a # b # s) =
     map_option ((#) (char_of (16 * ((of_char a :: nat) - 97) + ((of_char b :: nat) - 97)))) (from_letters s)"
| "from_letters [_] = None"

definition first_of :: "string \<Rightarrow> string \<Rightarrow> string option" where
  "first_of a b = Some a"

definition third_of :: "string \<Rightarrow> string \<Rightarrow> string \<Rightarrow> string option" where
  "third_of a b c = Some c"

definition to_letters :: "string \<Rightarrow> string" where
  "to_letters s = concat (map letters s)"

definition open_crypto :: crypto where
  "open_crypto = \<lparr>hkdf_expand = first_of, aead_seal = third_of, aead_open = third_of,
     base64_encode = to_letters, base64_decode = from_letters\<rparr>"

lemma nibbles: "(of_char c :: nat) div 16 < 16" "(of_char c :: nat) mod 16 < 16"
  using nat_of_char_less_256 [of c] by (simp_all add: less_mult_imp_div_less)

lemma letters_ascii: "ascii (letters c)"
  using nibbles [of c] by (simp add: ascii_def letters_def Let_def)

lemma open_crypto_documented: "documented_crypto open_crypto" "is_utf8 (base64_encode open_crypto b)"
proof -
  have "from_letters (to_letters b) = Some b" for b
  proof (induction b)
    case (Cons c b)
    from Cons nibbles [of c] show ?case by (simp add: to_letters_def letters_def Let_def)
  qed (simp add: to_letters_def)
  then show "documented_crypto open_crypto"
    by (simp add: documented_crypto_def open_crypto_def third_of_def)
  have "ascii (to_letters b)"
    using letters_ascii by (induction b) (auto simp: to_letters_def ascii_def)
  then show "is_utf8 (base64_encode open_crypto b)" by (simp add: open_crypto_def ascii_utf8)
qed

definition key_disk :: fs where
  "key_disk =
     \<lparr>nodes = map (\<lambda>n. (take n (credentials_dir douglas_folders_new), Dir root_meta)) [0..<5] @
        [([''var'', ''lib'', ''douglas-identity''], Dir root_meta), (identity_file_path, File root_meta (replicate 32 CHR ''k''))],
      outcomes = [], creator = root_meta, known_users = [''root''], known_groups = [''root'']\<rparr>"

theorem stored_credentials_are_read_back_witness:
  "case fst (read_credentials open_crypto None douglas_folders_new
       (snd (store open_crypto None ''nonce-nonce1'' ''nonce-nonce2'' douglas_folders_new ''role'' ''secret'' key_disk))) of
     Inr x \<Rightarrow> fst x = (''role'', ''secret'') | Inl e \<Rightarrow> disk_trouble e"
proof (rule stored_credentials_are_read_back [OF open_crypto_documented(1)])
  let ?run = "store open_crypto None ''nonce-nonce1'' ''nonce-nonce2'' douglas_folders_new ''role'' ''secret'' key_disk"
  have "fst ?run = Inr ()" by code_simp
  then show "?run = (Inr (), snd ?run)" by (metis prod.collapse)
  show "content (snd ?run) = content (snd ?run)" ..
  show "is_utf8 ''role''" "is_utf8 ''secret''" by code_simp+
  show "role_id_credential douglas_folders_new \<noteq> identity_file_path" "secret_id_credential douglas_folders_new \<noteq> identity_file_path"
    by code_simp+
qed (simp_all add: open_crypto_documented)

end
