(* ===== verification/SeedlingSecrets.thy ===== *)
theory SeedlingSecrets
  imports Rest Bract Identity
begin

text \<open>
  The secrets of a seedling (bract/src/blueprints/provision_seedling_secrets.rs): its role and policy in OpenBao,
  the private network of its agent, and what a reconciliation is told of the agent; and the report about OpenBao
  (bract/src/blueprints/openbao_status.rs).  OpenBao is another program: its client (openbao/src/client.rs) is a
  record of what it can be asked.
\<close>

unbundle bit_operations_syntax

section \<open>The client of OpenBao\<close>

datatype seal_state = Uninitialized | Sealed | Unsealed

datatype bao_capability = CanCreate | CanRead | CanUpdate | CanDelete | CanList | CanSudo

type_synonym policy = "(string \<times> bao_capability set) list"

text \<open>The roles and secrets are those of the method AppRole; the second argument is the token.\<close>

record 'd openbao_client =
  bao_build :: "path \<Rightarrow> ('d, string, unit) prog"
  bao_seal_state :: "('d, string, seal_state) prog"
  bao_login :: "string \<Rightarrow> string \<Rightarrow> ('d, string, string) prog"
  bao_create_policy :: "string \<Rightarrow> string \<Rightarrow> policy \<Rightarrow> ('d, string, unit) prog"
  bao_delete_policy :: "string \<Rightarrow> string \<Rightarrow> ('d, string, unit) prog"
  bao_list_policies :: "string \<Rightarrow> ('d, string, string list) prog"
  bao_auth_exists :: "string \<Rightarrow> string \<Rightarrow> ('d, string, bool) prog"
  bao_create_auth :: "string \<Rightarrow> string \<Rightarrow> string list \<Rightarrow> ('d, string, unit) prog"
  bao_delete_auth :: "string \<Rightarrow> string \<Rightarrow> ('d, string, unit) prog"
  bao_list_auth_roles :: "string \<Rightarrow> ('d, string, string list) prog"
  bao_list_accessors :: "string \<Rightarrow> string \<Rightarrow> ('d, string, string list) prog"
  bao_destroy_accessor :: "string \<Rightarrow> string \<Rightarrow> string \<Rightarrow> ('d, string, unit) prog"
  bao_get_role_id :: "string \<Rightarrow> string \<Rightarrow> ('d, string, string) prog"
  bao_create_auth_secret :: "string \<Rightarrow> string \<Rightarrow> ('d, string, string) prog"
  bao_list_mounts :: "string \<Rightarrow> ('d, string, (string \<times> string) list) prog"
  bao_app_role_enabled :: "string \<Rightarrow> ('d, string, bool) prog"
  bao_acme_enabled :: "string \<Rightarrow> ('d, string, bool) prog"
  bao_root_ca_configured :: "string \<Rightarrow> ('d, string, bool) prog"
  bao_pki_role_exists :: "string \<Rightarrow> string \<Rightarrow> ('d, string, bool) prog"

section \<open>Roles and policies\<close>

definition SEEDLING_APPROLE_PREFIX :: string where
  "SEEDLING_APPROLE_PREFIX = ''seedling.''"

definition approle_name :: "name \<Rightarrow> string" where
  "approle_name n = SEEDLING_APPROLE_PREFIX @ n"

definition seedling_name_from_approle :: "regex \<Rightarrow> string \<Rightarrow> name option" where
  "seedling_name_from_approle im role_name =
     (case strip_prefix SEEDLING_APPROLE_PREFIX role_name of
        None \<Rightarrow> None
      | Some n \<Rightarrow> (case name_from_str im n of Inl _ \<Rightarrow> None | Inr m \<Rightarrow> Some m))"

definition data_capabilities :: "secrets_access \<Rightarrow> bao_capability set" where
  "data_capabilities a =
     (if may_read a then {CanRead, CanList} else {}) \<union>
     (if may_write a then {CanCreate, CanUpdate, CanDelete} else {})"

definition metadata_capabilities :: "secrets_access \<Rightarrow> bao_capability set" where
  "metadata_capabilities a =
     (if may_read a then {CanRead, CanList} else {}) \<union> (if may_write a then {CanDelete} else {})"

definition policy_document :: "name \<Rightarrow> secrets_access \<Rightarrow> policy" where
  "policy_document n a =
     [(''kv/data/'' @ n @ ''/*'', data_capabilities a), (''kv/metadata/'' @ n @ ''/*'', metadata_capabilities a)]"

section \<open>Provisioning\<close>

datatype secrets_error =
    SecretsOpenBao string
  | SecretsAppRole app_role_error
  | SecretsFile fs_error
  | SecretsSerialization
  | SecretsName refined_error
  | MissingSeedlingId

type_synonym ('d, 'a) provisioning = "('d garden, secrets_error, 'a) prog"

definition bao_call :: "('d, string, 'a) prog \<Rightarrow> ('d, 'a) provisioning" where
  "bao_call m = on_engine SecretsOpenBao m"

text \<open>\<open>execute\<close>: the policy, the role if it is not there, no secret but the new one.\<close>

definition provision :: "'d openbao_client \<Rightarrow> string \<Rightarrow> name \<Rightarrow> secrets_access \<Rightarrow> ('d, string \<times> string) provisioning" where
  "provision B token n access =
     (let role = approle_name n
      in and_then (bao_call (bao_create_policy B token role (policy_document n access))) (\<lambda>_.
         and_then (bao_call (bao_auth_exists B token role)) (\<lambda>present.
         and_then (if present then ok () else bao_call (bao_create_auth B token role [role])) (\<lambda>_.
         and_then (bao_call (bao_list_accessors B token role)) (\<lambda>accessors.
         and_then (for_each (\<lambda>a. bao_call (bao_destroy_accessor B token role a)) accessors) (\<lambda>_.
         and_then (bao_call (bao_get_role_id B token role)) (\<lambda>role_id.
         and_then (bao_call (bao_create_auth_secret B token role)) (\<lambda>secret_id.
           ok (role_id, secret_id)))))))))"

definition revoke :: "'d openbao_client \<Rightarrow> string \<Rightarrow> name \<Rightarrow> ('d, unit) provisioning" where
  "revoke B token n =
     (let role = approle_name n
      in and_then (bao_call (bao_auth_exists B token role)) (\<lambda>present.
         and_then (if present then bao_call (bao_delete_auth B token role) else ok ()) (\<lambda>_.
           bao_call (bao_delete_policy B token role))))"

text \<open>The client is built and douglas logs in; the answer is the token and the identity that is in memory then.\<close>

definition log_in :: "crypto \<Rightarrow> string option \<Rightarrow> 'd openbao_client \<Rightarrow> douglas_folders \<Rightarrow> 
    ('d garden, app_role_error, string \<times> string) prog" where
  "log_in C cached B d =
     and_then (on_disk id (read_credentials C cached d)) (\<lambda>((role, secret), b).
     and_then (on_engine AppRoleOpenBao (bao_login B role secret)) (\<lambda>token. ok (token, b)))"

definition open_bao :: "crypto \<Rightarrow> 'd openbao_client \<Rightarrow> douglas_folders \<Rightarrow> ('d, string) provisioning" where
  "open_bao C B d =
     and_then (bao_call (bao_build B (openbao_socket_path d))) (\<lambda>_.
     and_then (map_err SecretsAppRole (log_in C None B d)) (\<lambda>(token, _). ok token))"

definition revoke_if_provisioned ::
    "crypto \<Rightarrow> 'd openbao_client \<Rightarrow> douglas_folders \<Rightarrow> name \<Rightarrow> seedling_definition \<Rightarrow> ('d, unit) provisioning" where
  "revoke_if_provisioned C B d n def =
     (if secrets def = None then ok () else and_then (open_bao C B d) (\<lambda>token. revoke B token n))"

section \<open>The agent\<close>

text \<open>\<open>value >> 8\<close> and \<open>value & 0xFF\<close>, as bytes.\<close>

definition agent_private_network :: "seedling_id \<Rightarrow> ipv4_subnet \<times> ipv4" where
  "agent_private_network i =
     (let high = ucast (drop_bit 8 i) :: 8 word; low = ucast (i AND 0xFF) :: 8 word
      in (\<lparr>cidr = ''10.'' @ show_nat (unat high) @ ''.'' @ show_nat (unat low) @ ''.0/24'', gateway = [10, high, low, 1]\<rparr>,
          [10, high, low, 2]))"

definition show_ipv4 :: "ipv4 \<Rightarrow> string" where
  "show_ipv4 ip = join_with ''.'' (map (\<lambda>b. show_nat (unat b)) ip)"

definition OPENBAO_API_PORT :: nat where
  "OPENBAO_API_PORT = 8201"

text \<open>The container of OpenBao always has a name: the name is a constant of the program (\<open>expect\<close>).\<close>

definition openbao_container_address :: string where
  "openbao_container_address = ''http://'' @ CONTAINER_NAME_PREFIX @ OPENBAO_SEEDLING_NAME @ '':'' @ show_nat OPENBAO_API_PORT"

definition agent_settings :: "ipv4 \<Rightarrow> json_value" where
  "agent_settings agent_ip = Fields
     [(''pid_file'', Text ''/tmp/openbao-agent.pid''),
      (''vault'', Fields [(''address'', Text openbao_container_address)]),
      (''auto_auth'', Fields
        [(''method'', Items [Fields
           [(''type'', Text ''approle''),
            (''config'', Fields
              [(''role_id_file_path'', Text ''/etc/openbao-agent/role_id''),
               (''secret_id_file_path'', Text ''/etc/openbao-agent/secret_id''),
               (''remove_secret_id_file_after_reading'', Flag True)])]]),
         (''sink'', Items [Fields
           [(''type'', Text ''file''), (''config'', Fields [(''path'', Text ''/tmp/openbao-agent-token'')])]])]),
      (''api_proxy'', Fields [(''use_auto_auth_token'', Flag True)]),
      (''listener'', Items [Fields
        [(''tcp'', Fields
           [(''address'', Text (show_ipv4 agent_ip @ '':'' @ show_nat AGENT_LOCAL_PROXY_PORT)),
            (''tls_disable'', Flag True)])]])]"

text \<open>\<open>to_json\<close> is \<open>serde_json::to_vec_pretty\<close>.\<close>

definition render_agent_config :: "(json_value \<Rightarrow> string option) \<Rightarrow> ipv4 \<Rightarrow> secrets_error + string" where
  "render_agent_config to_json agent_ip =
     (case to_json (agent_settings agent_ip) of None \<Rightarrow> Inl SecretsSerialization | Some b \<Rightarrow> Inr b)"

definition role_credentials ::
    "crypto \<Rightarrow> 'd openbao_client \<Rightarrow> douglas_folders \<Rightarrow> name \<Rightarrow> secrets_access \<Rightarrow> path \<Rightarrow> path \<Rightarrow>
     ('d, string \<times> string) provisioning" where
  "role_credentials C B d n access role_path secret_path =
     and_then (gets (\<lambda>g. file_exists (disk g) role_path \<and> file_exists (disk g) secret_path)) (\<lambda>there.
       if there then
         and_then (on_disk SecretsFile (reader_read_all role_path)) (\<lambda>role.
         and_then (on_disk SecretsFile (reader_read_all secret_path)) (\<lambda>secret. ok (role, secret)))
       else and_then (open_bao C B d) (\<lambda>token. provision B token n access))"

definition provision_agent_if_requested ::
    "crypto \<Rightarrow> 'd openbao_client \<Rightarrow> (json_value \<Rightarrow> string option) \<Rightarrow> douglas_folders \<Rightarrow> name \<Rightarrow> seedling_id option \<Rightarrow>
     seedling_definition \<Rightarrow> ('d, agent_provisioning option) provisioning" where
  "provision_agent_if_requested C B to_json d n seedling def =
     (case secrets def of
        None \<Rightarrow> ok None
      | Some access \<Rightarrow>
          (case seedling of
             None \<Rightarrow> fail MissingSeedlingId
           | Some i \<Rightarrow>
               (let (subnet, agent_ip) = agent_private_network i;
                    dir = agent_mount_dir d n;
                    role_path = dir @ [''role_id'']; secret_path = dir @ [''secret_id'']
                in and_then (role_credentials C B d n access role_path secret_path) (\<lambda>(role, secret).
                   and_then (of_result (render_agent_config to_json agent_ip)) (\<lambda>config.
                     ok (Some \<lparr>mount_dir = dir, role_id_path = role_path, secret_id_path = secret_path,
                               agent_config_path = dir @ [''agent.json''], role_id = role, secret_id = secret,
                               agent_config = config, private_subnet = subnet, agent_private_ip = agent_ip\<rparr>))))))"

section \<open>The report about OpenBao\<close>

record installed_report =
  installed_mounts :: "(string \<times> string) list"
  app_role_enabled :: bool
  acme_enabled :: bool
  root_ca_configured :: bool
  acme_pki_role_created :: bool

datatype credentials_report = CredentialsUnavailable | CredentialsNotWorking | CredentialsWorking installed_report

datatype openbao_report =
    BaoNotRunning
  | BaoUninitialized bool
  | BaoSealed bool
  | BaoUnsealed credentials_report

text \<open>\<open>unwrap_or_default\<close> and \<open>unwrap_or(false)\<close>.\<close>

definition or_default :: "'a \<Rightarrow> ('d, string, 'a) prog \<Rightarrow> ('d garden, 'e, 'a) prog" where
  "or_default x m = and_then (attempt (on_engine id m)) (\<lambda>r. ok (case r of Inl _ \<Rightarrow> x | Inr a \<Rightarrow> a))"

definition installed :: "'d openbao_client \<Rightarrow> string \<Rightarrow> ('d garden, 'e, installed_report) prog" where
  "installed B token =
     and_then (or_default [] (bao_list_mounts B token)) (\<lambda>ms.
     and_then (or_default False (bao_app_role_enabled B token)) (\<lambda>app_role.
     and_then (or_default False (bao_acme_enabled B token)) (\<lambda>acme.
     and_then (or_default False (bao_root_ca_configured B token)) (\<lambda>root_ca.
     and_then (or_default False (bao_pki_role_exists B token ''traefik'')) (\<lambda>pki_role.
       ok \<lparr>installed_mounts = ms, app_role_enabled = app_role, acme_enabled = acme,
           root_ca_configured = root_ca, acme_pki_role_created = pki_role\<rparr>)))))"

definition openbao_status :: "crypto \<Rightarrow> 'd openbao_client \<Rightarrow> douglas_folders \<Rightarrow> bool \<Rightarrow>
    ('d garden, string, openbao_report) prog" where
  "openbao_status C B d is_openbao_running =
     (if \<not> is_openbao_running then ok BaoNotRunning
      else
        and_then (gets (\<lambda>g. available d (disk g))) (\<lambda>credentials_available.
        and_then (on_engine id (bao_build B (openbao_socket_path d))) (\<lambda>_.
        and_then (on_engine id (bao_seal_state B)) (\<lambda>seal.
          case seal of
            Uninitialized \<Rightarrow> ok (BaoUninitialized credentials_available)
          | Sealed \<Rightarrow> ok (BaoSealed credentials_available)
          | Unsealed \<Rightarrow>
              if \<not> credentials_available then ok (BaoUnsealed CredentialsUnavailable)
              else
                and_then (attempt (log_in C None B d)) (\<lambda>r.
                  case r of
                    Inl _ \<Rightarrow> ok (BaoUnsealed CredentialsNotWorking)
                  | Inr (token, _) \<Rightarrow>
                      and_then (installed B token) (\<lambda>report. ok (BaoUnsealed (CredentialsWorking report))))))))"

section \<open>What keeps seedlings apart\<close>

text \<open>
  What a policy allows: a pattern that ends with a star covers the paths that begin with what is before it, as
  documented by OpenBao.
\<close>

definition covers :: "string \<Rightarrow> string \<Rightarrow> bool" where
  "covers pattern q =
     (if pattern \<noteq> [] \<and> last pattern = CHR ''*'' then take (length pattern - 1) q = butlast pattern else q = pattern)"

definition allowed :: "policy \<Rightarrow> string \<Rightarrow> bao_capability set" where
  "allowed p q = \<Union> (set (map (\<lambda>(pattern, caps). if covers pattern q then caps else {}) p))"

lemma covers_folder: "covers (root @ n @ ''/*'') q \<longleftrightarrow> (\<exists>r. q = root @ n @ CHR ''/'' # r)"
proof -
  have "take (length t) q = t \<longleftrightarrow> (\<exists>r. q = t @ r)" for t :: string
    by (metis append_eq_conv_conj append_take_drop_id)
  from this [of "root @ n @ ''/''"] show ?thesis by (simp add: covers_def butlast_append)
qed

lemma word_no_slash: "\<forall>c \<in> set s. word_char c \<Longrightarrow> CHR ''/'' \<notin> set s"
  using word_char_separators by blast

lemma folders_apart:
  assumes "CHR ''/'' \<notin> set n" "CHR ''/'' \<notin> set m" "covers (root @ n @ ''/*'') q" "covers (root @ m @ ''/*'') q"
  shows "n = m"
proof -
  from assms(3,4) obtain r r' where e: "n @ CHR ''/'' # r = m @ CHR ''/'' # r'" by (auto simp: covers_folder)
  have "Some (n, r) = Some (m, r')"
    unfolding split_once_append [OF assms(1), symmetric] split_once_append [OF assms(2), symmetric] e ..
  then show ?thesis by simp
qed

text \<open>
  C18: The policies of two seedlings never meet: a path of OpenBao for which the policy of one allows anything is one
  for which the policy of the other allows nothing, whatever access they were given.
\<close>

theorem policies_stay_apart:
  assumes "documented_regex im" and "name_from_str im n = Inr n" and "name_from_str im m = Inr m" and "n \<noteq> m"
  shows "allowed (policy_document n a) q = {} \<or> allowed (policy_document m b) q = {}"
proof -
  have slash: "CHR ''/'' \<notin> set n" "CHR ''/'' \<notin> set m"
    using name_word(4) [OF assms(1)] assms(2,3) word_no_slash by blast+
  have diff: "\<not> (covers (''kv/data/'' @ x @ ''/*'') q \<and> covers (''kv/metadata/'' @ y @ ''/*'') q)" for x y
    unfolding covers_folder by auto
  show ?thesis
    using folders_apart [OF slash, of "''kv/data/''" q] folders_apart [OF slash, of "''kv/metadata/''" q]
      diff [of n m] diff [of m n] diff [of n n] diff [of m m] assms(4)
    by (auto simp: allowed_def policy_document_def)
qed

theorem policies_stay_apart_witness:
  "allowed (policy_document ''a'' \<lparr>may_read = True, may_write = True\<rparr>) ''kv/data/b/x'' = {} \<or>
   allowed (policy_document ''b'' \<lparr>may_read = True, may_write = True\<rparr>) ''kv/data/b/x'' = {}"
proof (rule policies_stay_apart [OF table_regex_documented])
  show "name_from_str table_regex ''a'' = Inr ''a''" "name_from_str table_regex ''b'' = Inr ''b''" by code_simp+
qed simp

definition in_subnet :: "ipv4 \<Rightarrow> ipv4_subnet \<Rightarrow> bool" where
  "in_subnet ip s \<longleftrightarrow> cidr s = show_ipv4 (take 3 ip) @ ''.0/24'' \<and> take 3 ip = take 3 (gateway s) \<and> ip \<noteq> gateway s"

lemma bit_255: "k < 8 \<Longrightarrow> bit (255 :: 16 word) k"
  by (auto simp: less_Suc_eq eval_nat_numeral)

lemma bytes_of_id:
  fixes i j :: "16 word"
  assumes "ucast (drop_bit 8 i) = (ucast (drop_bit 8 j) :: 8 word)" and "ucast (i AND 0xFF) = (ucast (j AND 0xFF) :: 8 word)"
  shows "i = j"
proof (rule bit_word_eqI)
  fix k assume k: "k < LENGTH(16)"
  show "bit i k = bit j k"
  proof (cases "k < 8")
    case True
    with arg_cong [OF assms(2), of "\<lambda>w. bit w k"]
    have "(bit i k \<and> bit (255 :: 16 word) k) = (bit j k \<and> bit (255 :: 16 word) k)" by (simp add: bit_simps)
    with bit_255 [OF True] show ?thesis by blast
  next
    case False
    with k have "k - 8 < 8" by simp
    with False arg_cong [OF assms(1), of "\<lambda>w. bit w (k - 8)"] show ?thesis
      by (simp add: bit_simps)
  qed
qed

lemma dotted_same:
  assumes "show_nat a @ CHR ''.'' # s = show_nat b @ CHR ''.'' # t"
  shows "show_nat a = show_nat b" and "s = t"
proof -
  have "Some (show_nat a, s) = Some (show_nat b, t)"
    unfolding split_once_append [OF digits_no_dot [of a], symmetric] split_once_append [OF digits_no_dot [of b], symmetric] assms ..
  then show "show_nat a = show_nat b" and "s = t" by simp_all
qed

lemma show_byte_same: "show_nat (unat (u :: 8 word)) = show_nat (unat v) \<Longrightarrow> u = v"
proof -
  assume e: "show_nat (unat u) = show_nat (unat v)"
  have "Inr (unat u) = parse_uint (max (unat u) (unat v)) (show_nat (unat u))" by (rule parse_uint_show [symmetric]) simp
  also have "\<dots> = Inr (unat v)" unfolding e by (rule parse_uint_show) simp
  finally have "unat u = unat v" by simp
  then show "u = v" by (rule unsigned_word_eqI)
qed

lemma show_ten: "show_nat 10 = ''10''"
  by code_simp

text \<open>
  The networks of agents are apart: two seedlings have the same subnet only if they have the same id, and the
  address of an agent lies in the subnet of a seedling, next to its gateway, only if it is the agent of that seedling.
\<close>

theorem agent_networks_stay_apart:
  "(cidr (fst (agent_private_network i)) = cidr (fst (agent_private_network j)) \<longleftrightarrow> i = j) \<and>
   (in_subnet (snd (agent_private_network i)) (fst (agent_private_network j)) \<longleftrightarrow> i = j)"
proof -
  have same: "i = j" if "cidr (fst (agent_private_network i)) = cidr (fst (agent_private_network j))"
  proof (rule bytes_of_id)
    let ?h = "\<lambda>i :: 16 word. unat (ucast (drop_bit 8 i) :: 8 word)" and ?l = "\<lambda>i :: 16 word. unat (ucast (i AND 0xFF) :: 8 word)"
    from that have e: "show_nat (?h i) @ CHR ''.'' # show_nat (?l i) @ CHR ''.'' # ''0/24'' =
        show_nat (?h j) @ CHR ''.'' # show_nat (?l j) @ CHR ''.'' # ''0/24''"
      by (simp add: agent_private_network_def Let_def)
    from dotted_same(1) [OF e] dotted_same(1) [OF dotted_same(2) [OF e]]
    show "ucast (drop_bit 8 i) = (ucast (drop_bit 8 j) :: 8 word)" "ucast (i AND 0xFF) = (ucast (j AND 0xFF) :: 8 word)"
      by (auto intro: show_byte_same)
  qed
  moreover have "in_subnet (snd (agent_private_network i)) (fst (agent_private_network i))"
    by (simp add: in_subnet_def agent_private_network_def Let_def show_ipv4_def show_ten)
  moreover have "i = j" if "in_subnet (snd (agent_private_network i)) (fst (agent_private_network j))"
    using that by (intro bytes_of_id) (auto simp: in_subnet_def agent_private_network_def Let_def)
  ultimately show ?thesis by auto
qed

text \<open>
  The name of a role of OpenBao is read back as the seedling it was made for, and nothing else is read as one.
\<close>

theorem role_name_round_trip:
  "seedling_name_from_approle im s = Some n \<longleftrightarrow> s = approle_name n \<and> name_from_str im n = Inr n"
proof (cases "strip_prefix SEEDLING_APPROLE_PREFIX s")
  case None
  then have "s \<noteq> SEEDLING_APPROLE_PREFIX @ n" using strip_prefix_append by fastforce
  with None show ?thesis by (simp add: seedling_name_from_approle_def approle_name_def)
next
  case (Some t)
  then have "s = SEEDLING_APPROLE_PREFIX @ t" by (simp add: strip_prefix_Some)
  moreover have "(case name_from_str im t of Inl _ \<Rightarrow> None | Inr m \<Rightarrow> Some m) = Some n \<longleftrightarrow> t = n \<and> name_from_str im n = Inr n"
    by (cases "name_from_str im t") (auto dest: name_from_str_same)
  ultimately show ?thesis by (simp add: seedling_name_from_approle_def approle_name_def Some)
qed

end
