(* ===== verification/OpenBaoRequests.thy ===== *)
theory OpenBaoRequests
  imports SeedlingSecrets
begin

text \<open>
  The client of OpenBao (openbao/src/client.rs, openbao/src/commands, openbao_types/src/lib.rs): the request of
  every operation and how its answer is read.  What answers is another program, behind \<open>sock_send\<close>; JSON is a
  library.  \<open>socket_client\<close> makes the client that the rest of the development is given.
\<close>

section \<open>Sending\<close>

datatype bao_error =
    AlreadyInitialized
  | InsufficientSecrets
  | UnsealError "string list"
  | BaoUnexpectedResponse nat "string option" string
  | BaoClientError string
  | ClientResponseError assertion_error
  | BaoParseError
  | BaoGeneralError string
  | InvalidThreshold
  | ThresholdTooSmall
  | SharesTooSmall
  | Panicked

record 'd bao_socket =
  sock_send :: "('d, rest_response) sender"
  sock_json :: json_tools

type_synonym ('d, 'a) calling = "('d, bao_error, 'a) prog"

definition send :: "'d bao_socket \<Rightarrow> rest_request \<Rightarrow> ('d, rest_response) calling" where
  "send S r = map_err BaoClientError (sock_send S r)"

definition open_bao_token_header :: "string \<Rightarrow> string \<times> string" where
  "open_bao_token_header token = (''X-Vault-Token'', token)"

definition get_from :: "string \<Rightarrow> (string \<times> string) list \<Rightarrow> rest_request" where
  "get_from p headers = \<lparr>rest_method = GetMethod, rest_path = p, rest_headers = headers, rest_body = None, rest_query = []\<rparr>"

definition list_from :: "string \<Rightarrow> string \<Rightarrow> rest_request" where
  "list_from p token = (get_from p [open_bao_token_header token])\<lparr>rest_query := [(''list'', ''true'')]\<rparr>"

definition delete_at :: "string \<Rightarrow> string \<Rightarrow> rest_request" where
  "delete_at p token =
     \<lparr>rest_method = DeleteMethod, rest_path = p, rest_headers = [open_bao_token_header token], rest_body = None, rest_query = []\<rparr>"

definition post_to :: "string \<Rightarrow> (string \<times> string) list \<Rightarrow> string option \<Rightarrow> rest_request" where
  "post_to p headers body = \<lparr>rest_method = PostMethod, rest_path = p, rest_headers = headers, rest_body = body, rest_query = []\<rparr>"

definition post_json :: "'d bao_socket \<Rightarrow> string \<Rightarrow> string \<Rightarrow> json_value \<Rightarrow> rest_request" where
  "post_json S p token body =
     post_to p [content_type_json, open_bao_token_header token] (Some (show_json (sock_json S) body))"

section \<open>Reading answers\<close>

definition parsed :: "'d bao_socket \<Rightarrow> (json_value \<Rightarrow> 'a option) \<Rightarrow> string \<Rightarrow> ('d, 'a) calling" where
  "parsed S f body =
     (case parse_json (sock_json S) body of
        None \<Rightarrow> fail BaoParseError
      | Some j \<Rightarrow> (case f j of None \<Rightarrow> fail BaoParseError | Some a \<Rightarrow> ok a))"

definition read_okay :: "'d bao_socket \<Rightarrow> (json_value \<Rightarrow> 'a option) \<Rightarrow> rest_response \<Rightarrow> ('d, 'a) calling" where
  "read_okay S f response =
     and_then (map_err ClientResponseError (of_result (assert_okay_with_body response))) (parsed S f)"

definition done_with :: "rest_response \<Rightarrow> ('d, unit) calling" where
  "done_with response =
     (case assert_okay_or_no_content response of Inl e \<Rightarrow> fail (ClientResponseError e) | Inr _ \<Rightarrow> ok ())"

definition data_wrapper :: "(json_value \<Rightarrow> 'a option) \<Rightarrow> json_value \<Rightarrow> 'a option" where
  "data_wrapper f = read_field ''data'' f"

definition keys_data :: "json_value \<Rightarrow> string list option" where
  "keys_data = data_wrapper (read_field ''keys'' as_texts)"

text \<open>A list that OpenBao does not find is empty.\<close>

definition read_keys :: "'d bao_socket \<Rightarrow> rest_response \<Rightarrow> ('d, string list) calling" where
  "read_keys S response =
     (case assert_okay_with_body response of
        Inr body \<Rightarrow> parsed S keys_data body
      | Inl AssertNotFound \<Rightarrow> ok []
      | Inl e \<Rightarrow> fail (ClientResponseError e))"

section \<open>Policies\<close>

fun show_bao_capability :: "bao_capability \<Rightarrow> string" where
  "show_bao_capability CanCreate = ''create''"
| "show_bao_capability CanRead = ''read''"
| "show_bao_capability CanUpdate = ''update''"
| "show_bao_capability CanDelete = ''delete''"
| "show_bao_capability CanList = ''list''"
| "show_bao_capability CanSudo = ''sudo''"

text \<open>The order of a \<open>HashSet\<close> is not specified; here it is that of the type.\<close>

definition all_capabilities :: "bao_capability list" where
  "all_capabilities = [CanCreate, CanRead, CanUpdate, CanDelete, CanList, CanSudo]"

definition to_policy_document :: "policy \<Rightarrow> json_value" where
  "to_policy_document p =
     Fields [(''path'', Fields (map (\<lambda>(q, cs).
       (q, Fields [(''capabilities'', Items (map (Text \<circ> show_bao_capability) (filter (\<lambda>c. c \<in> cs) all_capabilities)))])) p))]"

definition acl_upsert :: "'d bao_socket \<Rightarrow> string \<Rightarrow> string \<Rightarrow> policy \<Rightarrow> ('d, unit) calling" where
  "acl_upsert S token n p =
     and_then (send S (post_json S (''/v1/sys/policies/acl/'' @ n) token
       (Fields [(''policy'', Text (show_json (sock_json S) (to_policy_document p)))]))) done_with"

definition acl_delete :: "'d bao_socket \<Rightarrow> string \<Rightarrow> string \<Rightarrow> ('d, unit) calling" where
  "acl_delete S token n = and_then (send S (delete_at (''/v1/sys/policies/acl/'' @ n) token)) done_with"

definition acl_list :: "'d bao_socket \<Rightarrow> string \<Rightarrow> ('d, string list) calling" where
  "acl_list S token = and_then (send S (list_from ''/v1/sys/policies/acl'' token)) (read_keys S)"

section \<open>Roles\<close>

definition APP_ROLE :: string where
  "APP_ROLE = ''approle''"

definition role_path :: "string \<Rightarrow> string" where
  "role_path n = ''/v1/auth/'' @ APP_ROLE @ ''/role/'' @ n"

definition role_exists :: "'d bao_socket \<Rightarrow> string \<Rightarrow> string \<Rightarrow> ('d, bool) calling" where
  "role_exists S token n =
     and_then (send S (get_from (role_path n @ ''/role-id'') [open_bao_token_header token])) (\<lambda>response.
       case response of
         RestOkay _ _ \<Rightarrow> ok True
       | RestCreated _ body \<Rightarrow> fail (BaoUnexpectedResponse 201 body ''expected OK, but received CREATED'')
       | RestNoContent _ \<Rightarrow> fail (BaoUnexpectedResponse 204 None ''expected OK, but received NO CONTENT'')
       | RestError _ status body \<Rightarrow>
           if status = 404 then ok False else fail (BaoUnexpectedResponse status body ''unexpected error''))"

definition show_hours :: "nat \<Rightarrow> string" where
  "show_hours n = show_nat n @ ''h''"

definition role_create :: "'d bao_socket \<Rightarrow> string \<Rightarrow> string \<Rightarrow> string list \<Rightarrow> ('d, unit) calling" where
  "role_create S token n policy_names =
     and_then (send S (post_to (role_path n) [open_bao_token_header token, content_type_json]
       (Some (show_json (sock_json S) (Fields
         [(''token_policies'', Items (map Text policy_names)), (''token_ttl'', Text (show_hours 1)),
          (''token_max_ttl'', Text (show_hours 4)), (''secret_id_ttl'', Text (show_hours 0)),
          (''secret_id_num_uses'', Number 0), (''bind_secret_id'', Flag True)]))))) done_with"

definition role_id_of :: "'d bao_socket \<Rightarrow> string \<Rightarrow> string \<Rightarrow> ('d, string) calling" where
  "role_id_of S token n =
     and_then (send S (get_from (role_path n @ ''/role-id'') [open_bao_token_header token]))
       (read_okay S (data_wrapper (read_field ''role_id'' as_text)))"

definition list_roles :: "'d bao_socket \<Rightarrow> string \<Rightarrow> ('d, string list) calling" where
  "list_roles S token = and_then (send S (list_from (''/v1/auth/'' @ APP_ROLE @ ''/role'') token)) (read_keys S)"

definition role_create_secret :: "'d bao_socket \<Rightarrow> string \<Rightarrow> string \<Rightarrow> ('d, string) calling" where
  "role_create_secret S token n =
     and_then (send S (post_to (role_path n @ ''/secret-id'') [open_bao_token_header token] None))
       (read_okay S (data_wrapper (read_field ''secret_id'' as_text)))"

definition list_secret_id_accessors :: "'d bao_socket \<Rightarrow> string \<Rightarrow> string \<Rightarrow> ('d, string list) calling" where
  "list_secret_id_accessors S token n =
     and_then (send S (list_from (role_path n @ ''/secret-id'') token)) (read_keys S)"

definition destroy_secret_id_accessor :: "'d bao_socket \<Rightarrow> string \<Rightarrow> string \<Rightarrow> string \<Rightarrow> ('d, unit) calling" where
  "destroy_secret_id_accessor S token n accessor =
     and_then (send S (post_json S (role_path n @ ''/secret-id-accessor/destroy'') token
       (Fields [(''secret_id_accessor'', Text accessor)]))) done_with"

definition delete_role :: "'d bao_socket \<Rightarrow> string \<Rightarrow> string \<Rightarrow> ('d, unit) calling" where
  "delete_role S token n = and_then (send S (delete_at (role_path n) token)) done_with"

definition revoke_self :: "'d bao_socket \<Rightarrow> string \<Rightarrow> ('d, unit) calling" where
  "revoke_self S token =
     and_then (send S (post_to ''/v1/auth/token/revoke-self'' [open_bao_token_header token] None)) done_with"

definition kinds_by_name :: "json_value \<Rightarrow> (string \<times> string) list option" where
  "kinds_by_name = data_wrapper (as_map (read_field ''type'' as_text))"

definition list_auth_methods :: "'d bao_socket \<Rightarrow> string \<Rightarrow> ('d, (string \<times> string) list) calling" where
  "list_auth_methods S token =
     and_then (send S (get_from ''/v1/sys/auth'' [content_type_json, open_bao_token_header token])) (read_okay S kinds_by_name)"

definition is_auth_method_enabled :: "'d bao_socket \<Rightarrow> string \<Rightarrow> ('d, bool) calling" where
  "is_auth_method_enabled S token =
     and_then (list_auth_methods S token) (\<lambda>ms. ok (map_of ms (APP_ROLE @ ''/'') \<noteq> None))"

definition enable_auth_method :: "'d bao_socket \<Rightarrow> string \<Rightarrow> ('d, unit) calling" where
  "enable_auth_method S token =
     and_then (send S (post_json S (''/v1/sys/auth/'' @ APP_ROLE) token (Fields [(''type'', Text APP_ROLE)]))) done_with"

definition log_in_as :: "'d bao_socket \<Rightarrow> string \<Rightarrow> string \<Rightarrow> ('d, string) calling" where
  "log_in_as S role secret =
     and_then (send S (post_to (''/v1/auth/'' @ APP_ROLE @ ''/login'') [content_type_json]
       (Some (show_json (sock_json S) (Fields [(''role_id'', Text role), (''secret_id'', Text secret)])))))
       (read_okay S (read_field ''auth'' (read_field ''client_token'' as_text)))"

section \<open>Mounts\<close>

datatype bao_mount = KeyValueStore | ManagedSecrets | PublicKeyInfrastructure

fun engine_type :: "bao_mount \<Rightarrow> string" where
  "engine_type KeyValueStore = ''kv''"
| "engine_type ManagedSecrets = ''kv''"
| "engine_type PublicKeyInfrastructure = ''pki''"

fun show_mount :: "bao_mount \<Rightarrow> string" where
  "show_mount KeyValueStore = ''kv''"
| "show_mount ManagedSecrets = ''douglas''"
| "show_mount PublicKeyInfrastructure = ''pki''"

fun mount_description :: "bao_mount \<Rightarrow> string" where
  "mount_description KeyValueStore = ''Douglas key value store''"
| "mount_description ManagedSecrets = ''Douglas managed secrets''"
| "mount_description PublicKeyInfrastructure = ''Douglas public key infrastructure''"

fun mount_config :: "bao_mount \<Rightarrow> json_value" where
  "mount_config PublicKeyInfrastructure = Fields [(''max_lease_ttl'', Text ''87600h'')]"
| "mount_config _ = NullValue"

definition mount_options :: "bao_mount \<Rightarrow> json_value" where
  "mount_options mt = (if engine_type mt \<noteq> ''kv'' then NullValue else Fields [(''version'', Text ''2'')])"

definition list_mounts :: "'d bao_socket \<Rightarrow> string \<Rightarrow> ('d, (string \<times> string) list) calling" where
  "list_mounts S token =
     and_then (send S (get_from ''/v1/sys/mounts'' [content_type_json, open_bao_token_header token])) (read_okay S kinds_by_name)"

definition is_mounted_at :: "'d bao_socket \<Rightarrow> string \<Rightarrow> bao_mount \<Rightarrow> ('d, bool) calling" where
  "is_mounted_at S token mt =
     and_then (list_mounts S token) (\<lambda>ms. ok (map_of ms (show_mount mt @ ''/'') \<noteq> None))"

definition create_mount :: "'d bao_socket \<Rightarrow> string \<Rightarrow> bao_mount \<Rightarrow> ('d, unit) calling" where
  "create_mount S token mt =
     and_then (send S (post_json S (''/v1/sys/mounts/'' @ show_mount mt) token (Fields
       [(''type'', Text (engine_type mt)), (''description'', Text (mount_description mt)),
        (''config'', mount_config mt), (''options'', mount_options mt)]))) done_with"

definition ensure_key_value :: "bao_mount \<Rightarrow> ('d, unit) calling" where
  "ensure_key_value mt =
     (if engine_type mt = ''kv'' then ok () else fail (BaoGeneralError (show_mount mt @ '' is not a key value mount'')))"

record kv_config =
  max_versions :: nat
  cas_required :: bool

definition MANAGED_SECRETS_MAX_VERSIONS :: nat where
  "MANAGED_SECRETS_MAX_VERSIONS = 20"

definition kv_config_managed :: kv_config where
  "kv_config_managed = \<lparr>max_versions = MANAGED_SECRETS_MAX_VERSIONS, cas_required = True\<rparr>"

definition configure_kv :: "'d bao_socket \<Rightarrow> string \<Rightarrow> bao_mount \<Rightarrow> kv_config \<Rightarrow> ('d, unit) calling" where
  "configure_kv S token mt c =
     and_then (ensure_key_value mt) (\<lambda>_.
     and_then (send S (post_json S (''/v1/'' @ show_mount mt @ ''/config'') token (Fields
       [(''max_versions'', Number (int (max_versions c))), (''cas_required'', Flag (cas_required c))]))) done_with)"

definition kv_config_of :: "json_value \<Rightarrow> kv_config option" where
  "kv_config_of j =
     Option.bind (read_field ''max_versions'' (as_unsigned 32) j) (\<lambda>n.
       map_option (\<lambda>b. \<lparr>max_versions = n, cas_required = b\<rparr>) (read_field ''cas_required'' as_flag j))"

definition read_kv_config :: "'d bao_socket \<Rightarrow> string \<Rightarrow> bao_mount \<Rightarrow> ('d, kv_config) calling" where
  "read_kv_config S token mt =
     and_then (ensure_key_value mt) (\<lambda>_.
     and_then (send S (get_from (''/v1/'' @ show_mount mt @ ''/config'') [content_type_json, open_bao_token_header token]))
       (read_okay S (data_wrapper kv_config_of)))"

end
