(* ===== verification/OpenBaoClient.thy ===== *)
theory OpenBaoClient
  imports OpenBaoRequests
begin

text \<open>
  The rest of the requests to OpenBao (openbao/src/commands: the public key infrastructure, the state, the
  initialization, unsealing and the secrets of the key value store) and the client that is made of them all
  (openbao/src/client.rs).
\<close>

section \<open>The public key infrastructure\<close>

definition generate_root_ca :: "'d bao_socket \<Rightarrow> string \<Rightarrow> string \<Rightarrow> ('d, string) calling" where
  "generate_root_ca S token common_name =
     and_then (send S (post_json S ''/v1/pki/root/generate/internal'' token
       (Fields [(''common_name'', Text common_name), (''ttl'', Text ''87600h'')])))
       (read_okay S (data_wrapper (read_field ''certificate'' as_text)))"

definition root_ca_is_configured :: "'d bao_socket \<Rightarrow> string \<Rightarrow> ('d, bool) calling" where
  "root_ca_is_configured S token =
     and_then (send S (get_from ''/v1/pki/config/issuers'' [open_bao_token_header token])) (\<lambda>response.
     and_then (read_okay S (data_wrapper (read_field ''default'' as_text)) response) (\<lambda>default. ok (default \<noteq> [])))"

definition set_issuing_crl :: "'d bao_socket \<Rightarrow> string \<Rightarrow> string \<Rightarrow> ('d, unit) calling" where
  "set_issuing_crl S token base_url =
     and_then (send S (post_json S ''/v1/pki/config/urls'' token (Fields
       [(''issuing_certificates'', Items [Text (base_url @ ''/v1/pki/ca'')]),
        (''crl_distribution_points'', Items [Text (base_url @ ''/v1/pki/crl'')])]))) done_with"

definition set_cluster_url :: "'d bao_socket \<Rightarrow> string \<Rightarrow> string \<Rightarrow> ('d, unit) calling" where
  "set_cluster_url S token base_url =
     and_then (send S (post_json S ''/v1/pki/config/cluster'' token (Fields
       [(''path'', Text (base_url @ ''/v1/pki'')), (''aia_path'', Text (base_url @ ''/v1/pki''))]))) done_with"

definition set_acme_enabled :: "'d bao_socket \<Rightarrow> string \<Rightarrow> bool \<Rightarrow> ('d, unit) calling" where
  "set_acme_enabled S token enabled =
     and_then (send S (post_json S ''/v1/pki/config/acme'' token (Fields [(''enabled'', Flag enabled)]))) done_with"

definition is_acme_enabled :: "'d bao_socket \<Rightarrow> string \<Rightarrow> ('d, bool) calling" where
  "is_acme_enabled S token =
     and_then (send S (get_from ''/v1/pki/config/acme'' [open_bao_token_header token]))
       (read_okay S (data_wrapper (read_field ''enabled'' as_flag)))"

definition create_pki_role :: "'d bao_socket \<Rightarrow> string \<Rightarrow> string \<Rightarrow> string \<Rightarrow> ('d, unit) calling" where
  "create_pki_role S token role_name allowed_domains =
     and_then (send S (post_json S (''/v1/pki/roles/'' @ role_name) token (Fields
       [(''allowed_domains'', Text allowed_domains), (''allow_subdomains'', Flag True), (''max_ttl'', Text ''8760h'')])))
       done_with"

definition pki_role_exists :: "'d bao_socket \<Rightarrow> string \<Rightarrow> string \<Rightarrow> ('d, bool) calling" where
  "pki_role_exists S token role_name =
     and_then (send S (get_from (''/v1/pki/roles/'' @ role_name) [open_bao_token_header token])) (\<lambda>response.
       case response of
         RestError _ status body \<Rightarrow>
           if status = 404 then ok False else fail (ClientResponseError (not_successful status body))
       | _ \<Rightarrow>
           and_then (map_err ClientResponseError (of_result (assert_okay_with_body response))) (\<lambda>_. ok True))"

section \<open>State, initialization, unsealing\<close>

definition replication_mode :: "json_value \<Rightarrow> string option" where
  "replication_mode j =
     (case as_text j of
        Some s \<Rightarrow> if s \<in> set [''unknown'', ''disabled'', ''primary'', ''secondary''] then Some s else None
      | None \<Rightarrow> None)"

text \<open>\<open>Status\<close> of openbao_types/src/lib.rs, and \<open>seal_state\<close> of it; the fields that decide nothing are only read.\<close>

definition health_status_of :: "json_value \<Rightarrow> seal_state option" where
  "health_status_of j =
     (case (read_field ''initialized'' as_flag j, read_field ''sealed'' as_flag j, read_field ''standby'' as_flag j,
            read_field ''replication_performance_mode'' replication_mode j,
            read_field ''replication_dr_mode'' replication_mode j,
            read_field ''server_time_utc'' (as_unsigned 32) j, read_field ''version'' as_text j) of
        (Some initialized, Some is_sealed, Some _, Some _, Some _, Some _, Some _) \<Rightarrow>
          if field ''performance_standby'' j \<noteq> None \<and> read_field ''performance_standby'' as_flag j = None then None
          else Some (if \<not> initialized then Uninitialized else if is_sealed then Sealed else Unsealed)
      | _ \<Rightarrow> None)"

definition bao_status :: "'d bao_socket \<Rightarrow> ('d, seal_state) calling" where
  "bao_status S =
     and_then (send S ((get_from ''/v1/sys/health'' [])\<lparr>rest_query :=
       [(''uninitcode'', ''200''), (''sealedcode'', ''200''), (''standbyok'', ''true'')]\<rparr>)) (read_okay S health_status_of)"

record unseal_secret =
  secret_key :: string
  secret_base64 :: string

record init_secrets =
  init_shares :: "unseal_secret list"
  root_token :: string

definition is_initialized :: "'d bao_socket \<Rightarrow> ('d, bool) calling" where
  "is_initialized S =
     and_then (send S (get_from ''/v1/sys/init'' [])) (read_okay S (read_field ''initialized'' as_flag))"

text \<open>\<open>keys_base64[index]\<close> panics when OpenBao answers with fewer of them than keys.\<close>

definition secrets_of :: "string list \<Rightarrow> string list \<Rightarrow> string \<Rightarrow> ('d, init_secrets) calling" where
  "secrets_of ks ks64 root =
     (if length ks64 < length ks then fail Panicked
      else ok \<lparr>init_shares = map (\<lambda>(k, b). \<lparr>secret_key = k, secret_base64 = b\<rparr>) (zip ks ks64), root_token = root\<rparr>)"

definition init_response :: "json_value \<Rightarrow> (string list \<times> string list \<times> string) option" where
  "init_response j =
     (case (read_field ''keys'' as_texts j, read_field ''keys_base64'' as_texts j, read_field ''root_token'' as_text j) of
        (Some ks, Some ks64, Some root) \<Rightarrow> Some (ks, ks64, root)
      | _ \<Rightarrow> None)"

definition bao_initialize_with :: "'d bao_socket \<Rightarrow> nat \<Rightarrow> nat \<Rightarrow> ('d, init_secrets) calling" where
  "bao_initialize_with S secret_shares secret_threshold =
     (if secret_shares = 0 then fail SharesTooSmall
      else if secret_threshold = 0 then fail ThresholdTooSmall
      else if secret_shares < secret_threshold then fail InvalidThreshold
      else
        and_then (send S (post_to ''/v1/sys/init'' [content_type_json] (Some (show_json (sock_json S) (Fields
          [(''secret_shares'', Number (int secret_shares)), (''secret_threshold'', Number (int secret_threshold))])))))
          (\<lambda>response.
        and_then (read_okay S init_response response) (\<lambda>(ks, ks64, root). secrets_of ks ks64 root)))"

definition initialize_openbao :: "'d bao_socket \<Rightarrow> nat \<Rightarrow> nat \<Rightarrow> ('d, init_secrets) calling" where
  "initialize_openbao S secret_shares secret_threshold =
     and_then (is_initialized S) (\<lambda>already.
       if already then fail AlreadyInitialized else bao_initialize_with S secret_shares secret_threshold)"

definition unseal_response :: "json_value \<Rightarrow> bool option" where
  "unseal_response j =
     (case (read_field ''t'' (as_unsigned 8) j, read_field ''n'' (as_unsigned 8) j, read_field ''progress'' (as_unsigned 8) j,
            read_field ''sealed'' as_flag j) of
        (Some _, Some _, Some _, Some is_sealed) \<Rightarrow> Some is_sealed
      | _ \<Rightarrow> None)"

definition unseal_with :: "'d bao_socket \<Rightarrow> string \<Rightarrow> ('d, bool) calling" where
  "unseal_with S k =
     and_then (send S (post_to ''/v1/sys/unseal'' [content_type_json] (Some (show_json (sock_json S) (Fields [(''key'', Text k)])))))
       (\<lambda>response.
          case response of
            RestError _ _ (Some body) \<Rightarrow>
              and_then (parsed S (read_field ''errors'' as_texts) body) (\<lambda>es. fail (UnsealError es))
          | RestError _ _ None \<Rightarrow> fail (UnsealError [''No error context''])
          | _ \<Rightarrow> read_okay S unseal_response response)"

text \<open>The loop, with the shares in the order they are popped in.\<close>

fun unseal_loop :: "'d bao_socket \<Rightarrow> unseal_secret list \<Rightarrow> ('d, unit) calling" where
  "unseal_loop S [] = fail InsufficientSecrets"
| "unseal_loop S (k # ks) = and_then (unseal_with S (secret_key k)) (\<lambda>still. if still then unseal_loop S ks else ok ())"

text \<open>\<open>shuffle\<close> is the shuffle of \<open>rand\<close>.\<close>

definition unseal :: "'d bao_socket \<Rightarrow> (unseal_secret list \<Rightarrow> unseal_secret list) \<Rightarrow> unseal_secret list \<Rightarrow> ('d, unit) calling" where
  "unseal S shuffle ks = unseal_loop S (rev (shuffle ks))"

section \<open>The secrets of the key value store\<close>

datatype kv_path_error = KvEmpty | KvEmptySegment | KvRelativeSegment | KvInvalidCharacter char

definition kv_allowed :: "char \<Rightarrow> bool" where
  "kv_allowed c \<longleftrightarrow> alnum c \<or> c \<in> {CHR ''.'', CHR ''_'', CHR ''-''}"

definition kv_segment :: "string \<Rightarrow> kv_path_error + unit" where
  "kv_segment seg =
     (if seg = [] then Inl KvEmptySegment
      else if seg = ''.'' \<or> seg = ''..'' then Inl KvRelativeSegment
      else (case List.find (\<lambda>c. \<not> kv_allowed c) seg of Some c \<Rightarrow> Inl (KvInvalidCharacter c) | None \<Rightarrow> Inr ()))"

fun kv_segments :: "string list \<Rightarrow> kv_path_error + unit" where
  "kv_segments [] = Inr ()"
| "kv_segments (seg # segs) = (case kv_segment seg of Inl e \<Rightarrow> Inl e | Inr _ \<Rightarrow> kv_segments segs)"

definition kv_path_new :: "string \<Rightarrow> kv_path_error + string" where
  "kv_path_new p =
     (if p = [] then Inl KvEmpty
      else (case kv_segments (split_on (CHR ''/'') p) of Inl e \<Rightarrow> Inl e | Inr _ \<Rightarrow> Inr p))"

record secret_record =
  secret_data :: "(string \<times> string) list"
  secret_version :: nat

definition kv_at :: "bao_mount \<Rightarrow> string \<Rightarrow> string \<Rightarrow> string" where
  "kv_at mt kind p = ''/v1/'' @ show_mount mt @ ''/'' @ kind @ ''/'' @ p"

definition version_of :: "json_value \<Rightarrow> nat option" where
  "version_of = read_field ''version'' (as_unsigned 32)"

definition write_secret :: "'d bao_socket \<Rightarrow> string \<Rightarrow> bao_mount \<Rightarrow> string \<Rightarrow> (string \<times> string) list \<Rightarrow> nat \<Rightarrow> ('d, nat) calling" where
  "write_secret S token mt p d cas =
     and_then (ensure_key_value mt) (\<lambda>_.
     and_then (send S (post_json S (kv_at mt ''data'' p) token (Fields
       [(''options'', Fields [(''cas'', Number (int cas))]), (''data'', Fields (map (\<lambda>(k, v). (k, Text v)) d))])))
       (read_okay S (data_wrapper version_of)))"

definition read_body :: "json_value \<Rightarrow> secret_record option" where
  "read_body j =
     (case (read_field ''data'' (as_map as_text) j, read_field ''metadata'' version_of j) of
        (Some d, Some v) \<Rightarrow> Some \<lparr>secret_data = d, secret_version = v\<rparr>
      | _ \<Rightarrow> None)"

definition read_secret :: "'d bao_socket \<Rightarrow> string \<Rightarrow> bao_mount \<Rightarrow> string \<Rightarrow> nat option \<Rightarrow> ('d, secret_record option) calling" where
  "read_secret S token mt p v =
     and_then (ensure_key_value mt) (\<lambda>_.
     and_then (send S ((get_from (kv_at mt ''data'' p) [open_bao_token_header token])\<lparr>rest_query :=
       (case v of None \<Rightarrow> [] | Some k \<Rightarrow> [(''version'', show_nat k)])\<rparr>)) (\<lambda>response.
       case response of
         RestError _ status body \<Rightarrow>
           if status = 404 then ok None else fail (ClientResponseError (not_successful status body))
       | _ \<Rightarrow> and_then (read_okay S (data_wrapper read_body) response) (\<lambda>r. ok (Some r))))"

definition list_secrets :: "'d bao_socket \<Rightarrow> string \<Rightarrow> bao_mount \<Rightarrow> string \<Rightarrow> ('d, string list) calling" where
  "list_secrets S token mt p =
     and_then (ensure_key_value mt) (\<lambda>_. and_then (send S (list_from (kv_at mt ''metadata'' p) token)) (read_keys S))"

definition delete_secret :: "'d bao_socket \<Rightarrow> string \<Rightarrow> bao_mount \<Rightarrow> string \<Rightarrow> ('d, unit) calling" where
  "delete_secret S token mt p =
     and_then (ensure_key_value mt) (\<lambda>_. and_then (send S (delete_at (kv_at mt ''data'' p) token)) done_with)"

section \<open>The client\<close>

text \<open>What the blueprints of bract ask.  \<open>connect\<close> connects to the socket of OpenBao; \<open>show_error\<close> is the \<open>Display\<close> of
  errors.\<close>

definition calls :: "(bao_error \<Rightarrow> string) \<Rightarrow> ('d, 'a) calling \<Rightarrow> ('d, string, 'a) prog" where
  "calls show_error m = map_err show_error m"

definition socket_client :: "'d bao_socket \<Rightarrow> (bao_error \<Rightarrow> string) \<Rightarrow> (path \<Rightarrow> ('d, string, unit) prog) \<Rightarrow> 'd openbao_client" where
  "socket_client S show_error connect =
     \<lparr>bao_build = connect,
      bao_seal_state = calls show_error (bao_status S),
      bao_login = (\<lambda>role secret. calls show_error (log_in_as S role secret)),
      bao_create_policy = (\<lambda>token n p. calls show_error (acl_upsert S token n p)),
      bao_delete_policy = (\<lambda>token n. calls show_error (acl_delete S token n)),
      bao_list_policies = (\<lambda>token. calls show_error (acl_list S token)),
      bao_auth_exists = (\<lambda>token n. calls show_error (role_exists S token n)),
      bao_create_auth = (\<lambda>token n ps. calls show_error (role_create S token n ps)),
      bao_delete_auth = (\<lambda>token n. calls show_error (delete_role S token n)),
      bao_list_auth_roles = (\<lambda>token. calls show_error (list_roles S token)),
      bao_list_accessors = (\<lambda>token n. calls show_error (list_secret_id_accessors S token n)),
      bao_destroy_accessor = (\<lambda>token n a. calls show_error (destroy_secret_id_accessor S token n a)),
      bao_get_role_id = (\<lambda>token n. calls show_error (role_id_of S token n)),
      bao_create_auth_secret = (\<lambda>token n. calls show_error (role_create_secret S token n)),
      bao_list_mounts = (\<lambda>token. calls show_error (list_mounts S token)),
      bao_app_role_enabled = (\<lambda>token. calls show_error (is_auth_method_enabled S token)),
      bao_acme_enabled = (\<lambda>token. calls show_error (is_acme_enabled S token)),
      bao_root_ca_configured = (\<lambda>token. calls show_error (root_ca_is_configured S token)),
      bao_pki_role_exists = (\<lambda>token n. calls show_error (pki_role_exists S token n))\<rparr>"

end
