(* ===== verification/SeedlingStarts.thy ===== *)
theory SeedlingStarts
  imports SeedlingSecrets
begin

text \<open>
  Starting a seedling (bract/src/blueprints/start_seedling.rs): what is looked at, the plan, the health check and
  the steps.  Waiting changes nothing that the program looks at before its next request to docker.
\<close>

section \<open>Discovery\<close>

datatype start_error =
    StartFileSystemError fs_error
  | StartDockerError docker_error
  | StartFailedBootstrap "string list"
  | StartRolodexError rolodex_error
  | StartDockerNameError refined_error
  | StartSeedbankError client_error
  | CannotStartSeedling string
  | StartCoreSeedling name
  | StartImageSourceError refined_error

datatype readiness = MountsNotInitialized | ReadyStopped | ReadyRunning

record found =
  found_container :: string
  found_version :: seedling_version
  found_origin :: "origin option"
  has_health_check_failure :: bool
  found_readiness :: readiness

datatype seedling_found =
    SeedlingUndefined
  | SeedlingMissingCredentials
  | SeedlingGaveUp
  | SeedlingMissingImage
  | SeedlingMissingContainer
  | SeedlingContainer found

record start_state =
  start_agent :: container_presence
  start_agent_name :: string
  start_seedling_state :: seedling_found

type_synonym ('d, 'a) starting = "('d garden, start_error, 'a) prog"

definition start_docker :: "('d, docker_error, 'a) prog \<Rightarrow> ('d, 'a) starting" where
  "start_docker m = on_engine StartDockerError m"

definition start_bank :: "('d, 'a) asking \<Rightarrow> ('d, 'a) starting" where
  "start_bank m = map_err StartSeedbankError m"

definition start_file :: "(fs, fs_error, 'a) prog \<Rightarrow> ('d, 'a) starting" where
  "start_file m = on_disk StartFileSystemError m"

definition content_is_in_place :: "path \<Rightarrow> mount_contents \<Rightarrow> ('d, bool) starting" where
  "content_is_in_place mount item =
     (case item of
        FolderOnly p \<Rightarrow> gets (\<lambda>g. exists_path (disk g) (mount @ p))
      | FileContents f \<Rightarrow>
          and_then (gets (\<lambda>g. exists_path (disk g) (mount @ file_relative_path f))) (\<lambda>present.
            if \<not> present then ok False
            else
              and_then (start_file (reader_read_all_bytes (mount @ file_relative_path f))) (\<lambda>b.
                ok (file_bytes f = b))))"

text \<open>A loop that stops at the first \<open>false\<close>.\<close>

fun all_hold :: "('a \<Rightarrow> ('s, 'e, bool) prog) \<Rightarrow> 'a list \<Rightarrow> ('s, 'e, bool) prog" where
  "all_hold f [] = ok True"
| "all_hold f (x # xs) = and_then (f x) (\<lambda>b. if b then all_hold f xs else ok False)"

definition mount_is_initialized :: "'d tools \<Rightarrow> name \<Rightarrow> service_account \<Rightarrow> name \<times> mount \<Rightarrow> ('d, bool) starting" where
  "mount_is_initialized T n account x =
     (let expected = seedling_mount (t_folders T) n (fst x)
      in and_then (gets (\<lambda>g. exists_path (disk g) expected)) (\<lambda>present.
         if \<not> present then ok False
         else
           and_then (start_file (get_user_and_group_ownership expected)) (\<lambda>(owning_user, owning_group).
             if cred_system_name (account_user account) \<noteq> owning_user \<or>
                cred_system_name (account_group account) \<noteq> owning_group
             then ok False
             else
               and_then (start_file (get_mode expected)) (\<lambda>md.
                 if md \<noteq> EXPECTED_MOUNT_MODE then ok False
                 else all_hold (content_is_in_place expected) (mount_contents (snd x))))))"

definition mounts_are_initialized :: "'d tools \<Rightarrow> seedling \<Rightarrow> service_account \<Rightarrow> ('d, bool) starting" where
  "mounts_are_initialized T s account =
     all_hold (mount_is_initialized T (seedling_name s) account) (mounts (seedling_definition s))"

definition discover_running :: "'d tools \<Rightarrow> string \<Rightarrow> ('d, readiness) starting" where
  "discover_running T c =
     and_then (start_docker (docker_container_status (t_docker T) c)) (\<lambda>status.
       ok (if status = docker_status.Running then ReadyRunning else ReadyStopped))"

text \<open>From the image on: what there is to start.\<close>

definition discover_found :: "'d tools \<Rightarrow> name \<Rightarrow> service_account \<Rightarrow> bool \<Rightarrow> seedling \<Rightarrow> ('d, seedling_found) starting" where
  "discover_found T n account failed s =
     and_then (map_err StartImageSourceError
         (of_result (resolve_image (t_regex T) (image (seedling_definition s)) n))) (\<lambda>target.
     and_then (start_docker (docker_image_exists (t_docker T) target)) (\<lambda>has_image.
       if \<not> has_image then ok SeedlingMissingImage
       else
         and_then (map_err StartDockerNameError (of_result (container_name (t_regex T) n))) (\<lambda>c.
         and_then (start_docker (docker_container_exists (t_docker T) c)) (\<lambda>present.
           if \<not> present then ok SeedlingMissingContainer
           else
             and_then (start_docker (docker_container_labels (t_docker T) c)) (\<lambda>ls.
             and_then (mounts_are_initialized T s account) (\<lambda>initialized.
             and_then (if initialized then discover_running T c else ok MountsNotInitialized) (\<lambda>r.
               ok (SeedlingContainer
                 \<lparr>found_container = c, found_version = seedling_version s, found_origin = get_origin ls,
                  has_health_check_failure = failed, found_readiness = r\<rparr>))))))))"

definition discover_to_start :: "'d tools \<Rightarrow> requested_by \<Rightarrow> name \<Rightarrow> ('d, seedling_found) starting" where
  "discover_to_start T by_whom n =
     and_then (start_bank (client_exists (t_bank T) n)) (\<lambda>present.
       if \<not> present then ok SeedlingUndefined
       else
         and_then (map_err StartRolodexError (find_service_account (t_rolodex T) n)) (\<lambda>account.
           case account of
             None \<Rightarrow> ok SeedlingMissingCredentials
           | Some account \<Rightarrow>
               and_then (start_bank (client_health_check_log (t_bank T) n)) (\<lambda>log.
                 if by_whom = Watchdog \<and> (case log of None \<Rightarrow> False | Some l \<Rightarrow> reached_max_fail_count l)
                 then ok SeedlingGaveUp
                 else
                   and_then (start_bank (client_load (t_bank T) n)) (\<lambda>s.
                     discover_found T n account (log \<noteq> None) s))))"

definition discover_start :: "'d tools \<Rightarrow> requested_by \<Rightarrow> name \<Rightarrow> ('d, start_state) starting" where
  "discover_start T by_whom n =
     and_then (map_err StartDockerNameError (of_result (agent_container_name (t_regex T) n))) (\<lambda>a.
     and_then (start_docker (observe_container (t_docker T) a)) (\<lambda>agent.
     and_then (discover_to_start T by_whom n) (\<lambda>x.
       ok \<lparr>start_agent = agent, start_agent_name = a, start_seedling_state = x\<rparr>)))"

section \<open>The plan\<close>

datatype start_step =
    MarkRunning
  | StartAgentContainer string ipv4
  | StartSeedling health_check string seedling_version bool
  | ClearHealthCheckLogs

text \<open>The steps of a plan from what was found; \<open>Inl\<close> is the reason a seedling cannot be started.\<close>

definition found_to_start :: "seedling_found \<Rightarrow> start_error + found" where
  "found_to_start x =
     (case x of
        SeedlingUndefined \<Rightarrow> Inl (CannotStartSeedling ''Seedling not defined'')
      | SeedlingGaveUp \<Rightarrow> Inl (CannotStartSeedling ''Seedling has failed its health checks'')
      | SeedlingMissingCredentials \<Rightarrow> Inl (CannotStartSeedling ''Seedling credentials not created yet'')
      | SeedlingMissingImage \<Rightarrow> Inl (CannotStartSeedling ''Docker instance not initialized'')
      | SeedlingMissingContainer \<Rightarrow> Inl (CannotStartSeedling ''Docker instance not initialized'')
      | SeedlingContainer f \<Rightarrow> Inr f)"

definition already_running :: "found \<Rightarrow> start_error + bool" where
  "already_running f =
     (case found_readiness f of
        MountsNotInitialized \<Rightarrow> Inl (CannotStartSeedling ''Could not initialize'')
      | ReadyRunning \<Rightarrow>
          if \<not> has_health_check_failure f then Inl (CannotStartSeedling ''The seedling is already running'')
          else Inr True
      | ReadyStopped \<Rightarrow> Inr False)"

definition start_plan ::
    "name \<Rightarrow> health_check \<Rightarrow> ipv4 \<Rightarrow> start_state \<Rightarrow> requested_by \<Rightarrow> start_error + start_step list" where
  "start_plan n check agent_ip st by_whom =
     (case found_to_start (start_seedling_state st) of
        Inl e \<Rightarrow> Inl e
      | Inr f \<Rightarrow>
          if core_seedling_forbidden_for (found_origin f) by_whom then Inl (StartCoreSeedling n)
          else
            (case already_running f of
               Inl e \<Rightarrow> Inl e
             | Inr running \<Rightarrow>
                 Inr ([MarkRunning] @
                      (if presence_exists (start_agent st) \<and> \<not> presence_is_running (start_agent st)
                       then [StartAgentContainer (start_agent_name st) agent_ip] else []) @
                      [StartSeedling check (found_container f) (found_version f) running, ClearHealthCheckLogs])))"

section \<open>Health checks\<close>

definition EXIT_CODE_SUCCESS :: int where
  "EXIT_CODE_SUCCESS = 0"

definition container_is_running :: "'d tools \<Rightarrow> string \<Rightarrow> ('d, bool) stepping" where
  "container_is_running T c =
     and_then (step_docker (docker_container_status (t_docker T) c)) (\<lambda>status. ok (status = docker_status.Running))"

text \<open>The command is inspected until it has ended; \<open>None\<close> is the timeout.\<close>

fun poll_exec :: "'d tools \<Rightarrow> nat \<Rightarrow> string \<Rightarrow> ('d, int option option) stepping" where
  "poll_exec T 0 i = ok None"
| "poll_exec T (Suc k) i =
     and_then (step_docker (docker_inspect_exec (t_exec T) i)) (\<lambda>x.
       if exec_running x then poll_exec T k i else ok (Some (exit_code x)))"

definition run_shell_health_check :: "'d tools \<Rightarrow> string \<Rightarrow> string \<Rightarrow> ('d, bool) stepping" where
  "run_shell_health_check T c shell_command =
     and_then (step_docker (docker_create_exec (t_exec T) c [''/bin/sh'', ''-c'', shell_command])) (\<lambda>i.
     and_then (step_docker (docker_start_exec (t_exec T) i)) (\<lambda>_.
     and_then (poll_exec T (patience T) i) (\<lambda>r. ok (r = Some (Some EXIT_CODE_SUCCESS)))))"

definition record_health_check_failure :: "'d tools \<Rightarrow> name \<Rightarrow> string \<Rightarrow> ('d, unit) stepping" where
  "record_health_check_failure T n c =
     and_then (step_bank (client_increment_health_log_fail_count (t_bank T) n)) (\<lambda>reached.
       if reached
       then
         and_then (step_bank (client_set_desired_run_status (t_bank T) n desired_run_status.Stopped)) (\<lambda>_.
           step_docker (docker_stop_container (t_docker T) c))
       else ok ())"

section \<open>The steps\<close>

fun start_step_name :: "name \<Rightarrow> start_step \<Rightarrow> string" where
  "start_step_name n MarkRunning = ''Setting desired running state to running''"
| "start_step_name n (StartAgentContainer _ _) = ''Starting agent container''"
| "start_step_name n (StartSeedling _ _ _ _) = ''Starting seedling''"
| "start_step_name n ClearHealthCheckLogs = ''Clearing seedling '' @ [CHR 0x27] @ n @ [CHR 0x27] @ '' health check logs''"

definition agent_health_check_command :: "ipv4 \<Rightarrow> string" where
  "agent_health_check_command ip =
     ''BAO_ADDR=http://'' @ show_ipv4 ip @ '':'' @ show_nat AGENT_LOCAL_PROXY_PORT @ '' bao token lookup''"

definition start_agent_run :: "'d tools \<Rightarrow> string \<Rightarrow> ipv4 \<Rightarrow> ('d, unit) stepping" where
  "start_agent_run T a ip =
     and_then (step_docker (docker_start_container (t_docker T) a)) (\<lambda>_.
     and_then (container_is_running T a) (\<lambda>running.
     and_then (if running then run_shell_health_check T a (agent_health_check_command ip) else ok False) (\<lambda>healthy.
       if healthy then ok () else fail FailedToStart)))"

definition stop_again :: "'d tools \<Rightarrow> string \<Rightarrow> ('d, unit) stepping" where
  "stop_again T c = step_docker (ignore_missing (docker_stop_container (t_docker T) c))"

definition start_seedling_run :: "'d tools \<Rightarrow> name \<Rightarrow> health_check \<Rightarrow> string \<Rightarrow> bool \<Rightarrow> ('d, unit) stepping" where
  "start_seedling_run T n check c running_already =
     and_then (if running_already then ok () else step_docker (docker_start_container (t_docker T) c)) (\<lambda>_.
     and_then (container_is_running T c) (\<lambda>running.
     and_then (if running then run_shell_health_check T c (check_command check) else ok False) (\<lambda>healthy.
       if healthy then ok ()
       else and_then (record_health_check_failure T n c) (\<lambda>_. fail FailedToStart))))"

fun start_run :: "'d tools \<Rightarrow> name \<Rightarrow> start_step \<Rightarrow> ('d, unit) stepping" where
  "start_run T n MarkRunning = step_bank (client_set_desired_run_status (t_bank T) n desired_run_status.Running)"
| "start_run T n (StartAgentContainer a ip) = start_agent_run T a ip"
| "start_run T n (StartSeedling check c v running_already) = start_seedling_run T n check c running_already"
| "start_run T n ClearHealthCheckLogs = step_bank (client_reset_health_log (t_bank T) n)"

fun start_undo :: "'d tools \<Rightarrow> start_step \<Rightarrow> ('d, unit) stepping" where
  "start_undo T (StartAgentContainer a ip) = stop_again T a"
| "start_undo T (StartSeedling check c v running_already) = (if running_already then ok () else stop_again T c)"
| "start_undo T _ = ok ()"

definition start_seedling :: "'d tools \<Rightarrow> name \<Rightarrow> requested_by \<Rightarrow> ('d, unit) starting" where
  "start_seedling T n by_whom =
     and_then (discover_start T by_whom n) (\<lambda>st.
     and_then (start_bank (client_load (t_bank T) n)) (\<lambda>s.
       run_plan (plain_ops (start_step_name n) (start_run T n) (start_undo T)) (show_step T)
         (start_plan n (health_check (seedling_definition s)) (snd (agent_private_network (seedling_id s))) st by_whom)
         StartFailedBootstrap))"

end
