(* ===== verification/SeedlingStops.thy ===== *)
theory SeedlingStops
  imports Bract
begin

text \<open>
  Stopping a seedling (bract/src/blueprints/stop_seedling.rs): what is looked at, the plan, its steps, and the
  step that stops a container (bract/src/blueprints/container_steps.rs).
\<close>

section \<open>Discovery\<close>

datatype stop_error =
    StopDockerError docker_error
  | StopFailedBootstrap "string list"
  | StopDockerNameError refined_error
  | StopCoreSeedling name

record stop_state =
  stop_container :: container_presence
  stop_container_name :: string
  stop_version :: "seedling_version option"
  stop_origin :: "origin option"
  stop_agent :: container_presence
  stop_agent_name :: string

definition discover_stop :: "'d tools \<Rightarrow> name \<Rightarrow> ('d garden, stop_error, stop_state) prog" where
  "discover_stop T n =
     and_then (map_err StopDockerNameError (of_result (container_name (t_regex T) n))) (\<lambda>c.
     and_then (map_err StopDockerNameError (of_result (agent_container_name (t_regex T) n))) (\<lambda>a.
     and_then (on_engine StopDockerError (observe_container (t_docker T) a)) (\<lambda>agent.
     and_then (on_engine StopDockerError (observe_container (t_docker T) c)) (\<lambda>container.
       let st = \<lparr>stop_container = container, stop_container_name = c, stop_version = None, stop_origin = None,
                 stop_agent = agent, stop_agent_name = a\<rparr>
       in if \<not> presence_exists container then ok st
          else
            and_then (on_engine StopDockerError (docker_container_labels (t_docker T) c)) (\<lambda>ls.
              ok (st\<lparr>stop_origin := get_origin ls, stop_version := get_version ls\<rparr>))))))"

section \<open>The plan\<close>

datatype stop_step = SetDesiredRunStatusToStopped | StopSeedlingContainer string

definition stop_plan :: "name \<Rightarrow> stop_state \<Rightarrow> requested_by \<Rightarrow> stop_error + stop_step list" where
  "stop_plan n st by_whom =
     (if presence_exists (stop_container st) \<and> core_seedling_forbidden_for (stop_origin st) by_whom
      then Inl (StopCoreSeedling n)
      else
        Inr ([SetDesiredRunStatusToStopped] @
             (if presence_is_running (stop_container st) then [StopSeedlingContainer (stop_container_name st)] else []) @
             (if presence_is_running (stop_agent st) then [StopSeedlingContainer (stop_agent_name st)] else [])))"

section \<open>The steps\<close>

fun stop_step_name :: "stop_step \<Rightarrow> string" where
  "stop_step_name SetDesiredRunStatusToStopped = ''Setting desired running state to stopped''"
| "stop_step_name (StopSeedlingContainer _) = ''Stopping seedling''"

fun stop_run :: "'d tools \<Rightarrow> name \<Rightarrow> stop_step \<Rightarrow> ('d, unit) stepping" where
  "stop_run T n SetDesiredRunStatusToStopped =
     step_bank (client_set_desired_run_status (t_bank T) n desired_run_status.Stopped)"
| "stop_run T n (StopSeedlingContainer c) = step_docker (stop_container_run (t_docker T) c)"

fun stop_undo :: "'d tools \<Rightarrow> stop_step \<Rightarrow> ('d, unit) stepping" where
  "stop_undo T SetDesiredRunStatusToStopped = ok ()"
| "stop_undo T (StopSeedlingContainer c) = step_docker (stop_container_rollback (t_docker T) c)"

definition stop_seedling :: "'d tools \<Rightarrow> name \<Rightarrow> requested_by \<Rightarrow>
    ('d garden, stop_error, unit) prog" where
  "stop_seedling T n by_whom =
     and_then (discover_stop T n) (\<lambda>st.
       run_plan (plain_ops stop_step_name (stop_run T n) (stop_undo T)) (show_step T) (stop_plan n st by_whom)
         StopFailedBootstrap)"

section \<open>What a stop keeps\<close>

context tree_invariant begin

lemma inv_stop:
  assumes "safe (desired_run_state_path (bank_server (t_bank T)) n)"
  shows "keeps (in_garden D) (stop_seedling T n by_whom)"
proof -
  have "keeps (in_garden D) (discover_stop T n)"
    unfolding discover_stop_def Let_def by (intro keeps_intros keeps_on_engine)
  moreover have "keeps (in_garden D) (stop_run T n k)" "keeps (in_garden D) (stop_undo T k)" for k
    by (cases k; auto intro!: inv_step_calls inv_noting assms keeps_ok)+
  ultimately show ?thesis
    unfolding stop_seedling_def
    by (intro keeps_and_then plain_plan_keeps [where J = "\<lambda>_. True"]) (simp_all add: list_all_iff)
qed

end

end
