(* ===== verification/Watching.thy ===== *)
theory Watching
  imports SeedlingStarts SeedlingStops
begin

text \<open>
  The watchdog of bract (bract/src/blueprints/watchdog.rs): one sweep looks at every seedling of the seedbank,
  and stops, reconciles and starts, or checks it.
\<close>

section \<open>Discovery\<close>

datatype watchdog_error =
    WatchdogDockerError docker_error
  | WatchdogFailedBootstrap "string list"
  | WatchdogDockerNameError refined_error
  | WatchdogSeedbankError client_error

type_synonym ('d, 'a) sweeping = "('d garden, watchdog_error, 'a) prog"

record sweep_state =
  needing_start :: "name list"
  needing_stop :: "name list"
  needing_health_recheck :: "name list"

definition sweep_default :: sweep_state where
  "sweep_default = \<lparr>needing_start = [], needing_stop = [], needing_health_recheck = []\<rparr>"

definition sweep_is_running :: "'d tools \<Rightarrow> name \<Rightarrow> ('d, bool) sweeping" where
  "sweep_is_running T n =
     and_then (map_err WatchdogDockerNameError (of_result (container_name (t_regex T) n))) (\<lambda>c.
     and_then (on_engine WatchdogDockerError (docker_container_exists (t_docker T) c)) (\<lambda>present.
       if \<not> present then ok False
       else
         and_then (on_engine WatchdogDockerError (docker_container_status (t_docker T) c)) (\<lambda>status.
           ok (status = docker_status.Running))))"

text \<open>Where a seedling goes, from whether its container runs, whether it failed too often, and what is wanted.\<close>

definition sort_seedling :: "name \<Rightarrow> bool \<Rightarrow> bool \<Rightarrow> desired_run_status \<Rightarrow> sweep_state \<Rightarrow> sweep_state" where
  "sort_seedling n running reached wanted st =
     (if running then
        (if reached \<or> wanted = desired_run_status.Stopped
         then st\<lparr>needing_stop := needing_stop st @ [n]\<rparr>
         else st\<lparr>needing_health_recheck := needing_health_recheck st @ [n]\<rparr>)
      else if \<not> reached \<and> wanted = desired_run_status.Running
      then st\<lparr>needing_start := needing_start st @ [n]\<rparr>
      else st)"

definition look_at :: "'d tools \<Rightarrow> name \<Rightarrow> sweep_state \<Rightarrow> ('d, sweep_state) sweeping" where
  "look_at T n st =
     and_then (map_err WatchdogSeedbankError (client_get_desired_run_status (t_bank T) n)) (\<lambda>wanted.
     and_then (sweep_is_running T n) (\<lambda>running.
     and_then (map_err WatchdogSeedbankError (client_health_check_log (t_bank T) n)) (\<lambda>log.
       ok (sort_seedling n running (case log of None \<Rightarrow> False | Some l \<Rightarrow> reached_max_fail_count l) wanted st))))"

definition discover_sweep :: "'d tools \<Rightarrow> ('d, sweep_state) sweeping" where
  "discover_sweep T =
     and_then (map_err WatchdogSeedbankError (client_list (t_bank T))) (\<lambda>names.
       fold_prog (look_at T) names sweep_default)"

section \<open>The plan\<close>

datatype sweep_step = SweepStop name | SweepReconcile name | SweepStart name | SweepRecheck name

definition sweep_plan :: "sweep_state \<Rightarrow> sweep_step list" where
  "sweep_plan st =
     map SweepStop (needing_stop st) @
     concat (map (\<lambda>n. [SweepReconcile n, SweepStart n]) (needing_start st)) @
     map SweepRecheck (needing_health_recheck st)"

section \<open>The steps\<close>

datatype sweep_error =
    OfStop stop_error
  | OfStart start_error
  | OfReconcile reconcile_error
  | OfBank client_error
  | OfName refined_error
  | OfStep step_error

fun sweep_step_name :: "sweep_step \<Rightarrow> string" where
  "sweep_step_name (SweepStop _) = ''Stop seedling''"
| "sweep_step_name (SweepReconcile _) = ''Reconcile seedling''"
| "sweep_step_name (SweepStart _) = ''Start seedling''"
| "sweep_step_name (SweepRecheck _) = ''Rechecking seedling health''"

definition sweep_reconcile_run :: "'d tools \<Rightarrow> agent_provisioning option \<Rightarrow> name \<Rightarrow> ('d garden, sweep_error, unit) prog" where
  "sweep_reconcile_run T agent n =
     and_then (map_err OfBank (client_load (t_bank T) n)) (\<lambda>s.
       map_err OfReconcile (reconcile_execute T n (seedling_version s) (seedling_definition s) agent))"

definition recheck_run :: "'d tools \<Rightarrow> name \<Rightarrow> ('d garden, sweep_error, unit) prog" where
  "recheck_run T n =
     and_then (map_err OfBank (client_load (t_bank T) n)) (\<lambda>s.
     and_then (map_err OfName (of_result (container_name (t_regex T) n))) (\<lambda>c.
     and_then (map_err OfStep (run_shell_health_check T c (check_command (health_check (seedling_definition s))))) (\<lambda>healthy.
       if healthy then map_err OfBank (client_reset_health_log (t_bank T) n)
       else map_err OfStep (record_health_check_failure T n c))))"

fun sweep_run :: "'d tools \<Rightarrow> agent_provisioning option \<Rightarrow> sweep_step \<Rightarrow> ('d garden, sweep_error, unit) prog" where
  "sweep_run T agent (SweepStop n) = map_err OfStop (stop_seedling T n Watchdog)"
| "sweep_run T agent (SweepReconcile n) = sweep_reconcile_run T agent n"
| "sweep_run T agent (SweepStart n) = map_err OfStart (start_seedling T n Watchdog)"
| "sweep_run T agent (SweepRecheck n) = recheck_run T n"

definition sweep :: "'d tools \<Rightarrow> (sweep_error \<Rightarrow> string) \<Rightarrow> agent_provisioning option \<Rightarrow> ('d, unit) sweeping" where
  "sweep T display agent =
     and_then (discover_sweep T) (\<lambda>st.
       run_plan (plain_ops sweep_step_name (sweep_run T agent) no_undo) display (Inr (sweep_plan st))
         WatchdogFailedBootstrap)"

end
