(* ===== verification/SeedlingDrops.thy ===== *)
theory SeedlingDrops
  imports Bract
begin

text \<open>
  Dropping a seedling (bract/src/blueprints/drop_seedling.rs): what is looked at, the plan and its steps, none of
  which has a rollback.
\<close>

section \<open>Discovery\<close>

datatype drop_error =
    DropDockerError docker_error
  | DropFailedBootstrap "string list"
  | DropDockerNameError refined_error
  | CannotDropSeedling string
  | DropCoreSeedling name
  | DropSeedbankError client_error
  | DropNameParseError refined_error
  | DropRamDiskError string

record drop_state =
  drop_container :: container_presence
  drop_container_name :: string
  drop_version :: "seedling_version option"
  drop_origin :: "origin option"
  drop_network_exists :: bool
  drop_seedbank_entry_exists :: bool
  drop_route_exists :: bool
  drop_mounts_dir_exists :: bool
  drop_agent :: container_presence
  drop_agent_name :: string
  drop_agent_mount_is_ram_disk :: bool

type_synonym ('d, 'a) dropping = "('d garden, drop_error, 'a) prog"

definition determine_origin :: "'d tools \<Rightarrow> bool \<Rightarrow> name \<Rightarrow> ('d, origin option) dropping" where
  "determine_origin T seedbank_entry_exists n =
     (if \<not> seedbank_entry_exists then ok None
      else
        and_then (map_err DropSeedbankError (client_load (t_bank T) n)) (\<lambda>s.
          ok (Some (origin (seedling_definition s)))))"

definition discover_drop :: "'d tools \<Rightarrow> name \<Rightarrow> ('d, drop_state) dropping" where
  "discover_drop T n =
     and_then (map_err DropNameParseError (of_result (traefik_dynamic_dir (t_regex T) (t_folders T)))) (\<lambda>dynamic_dir.
     and_then (map_err DropDockerNameError (of_result (container_name (t_regex T) n))) (\<lambda>c.
     and_then (map_err DropSeedbankError (client_exists (t_bank T) n)) (\<lambda>entry_exists.
     and_then (gets (\<lambda>g. file_exists (disk g) (dynamic_dir @ [route_file n]))) (\<lambda>route_exists.
     and_then (gets (\<lambda>g. folder_exists (disk g) (seedling_mounts_dir (t_folders T) n))) (\<lambda>mounts_dir_exists.
     and_then (map_err DropDockerNameError (of_result (agent_container_name (t_regex T) n))) (\<lambda>a.
     and_then (map_err DropRamDiskError (ram_is_mounted (t_ram_disk T) (agent_mount_dir (t_folders T) n))) (\<lambda>mounted.
     and_then (determine_origin T entry_exists n) (\<lambda>og.
     and_then (map_err DropDockerNameError (of_result (seedling_network_name (t_regex T) n))) (\<lambda>network.
     and_then (on_engine DropDockerError (docker_network_exists (t_docker T) network)) (\<lambda>network_exists.
     and_then (on_engine DropDockerError (observe_container (t_docker T) a)) (\<lambda>agent.
     and_then (on_engine DropDockerError (observe_container (t_docker T) c)) (\<lambda>container.
       let st = \<lparr>drop_container = container, drop_container_name = c, drop_version = None, drop_origin = og,
                 drop_network_exists = network_exists, drop_seedbank_entry_exists = entry_exists,
                 drop_route_exists = route_exists, drop_mounts_dir_exists = mounts_dir_exists,
                 drop_agent = agent, drop_agent_name = a, drop_agent_mount_is_ram_disk = mounted\<rparr>
       in if \<not> presence_exists container then ok st
          else
            and_then (on_engine DropDockerError (docker_container_labels (t_docker T) c)) (\<lambda>ls.
              ok (st\<lparr>drop_version := get_version ls\<rparr>))))))))))))))"

section \<open>The plan\<close>

datatype drop_step =
    RemoveTraefikRoute
  | DropSeedlingContainer string
  | DeleteSeedlingNetwork
  | DeleteSeedbankEntry
  | UnmountAgentRamDisk
  | DeleteSeedlingMounts
  | ReleaseDefault
  | DeleteResinRepository

definition drop_plan :: "name \<Rightarrow> drop_state \<Rightarrow> drop_error + drop_step list" where
  "drop_plan n st =
     (if drop_origin st = Some Core then Inl (DropCoreSeedling n)
      else if presence_exists (drop_container st) \<and> \<not> presence_is_stopped (drop_container st)
      then Inl (CannotDropSeedling ''Seedling is not stopped'')
      else if presence_exists (drop_agent st) \<and> \<not> presence_is_stopped (drop_agent st)
      then Inl (CannotDropSeedling ''Seedling is not stopped'')
      else
        Inr ((if drop_route_exists st then [RemoveTraefikRoute] else []) @
             (if presence_exists (drop_container st) then [DropSeedlingContainer (drop_container_name st)] else []) @
             (if presence_exists (drop_agent st) then [DropSeedlingContainer (drop_agent_name st)] else []) @
             (if drop_network_exists st then [DeleteSeedlingNetwork] else []) @
             (if drop_seedbank_entry_exists st then [DeleteSeedbankEntry] else []) @
             (if drop_agent_mount_is_ram_disk st then [UnmountAgentRamDisk] else []) @
             (if drop_mounts_dir_exists st then [DeleteSeedlingMounts] else []) @
             [ReleaseDefault, DeleteResinRepository]))"

section \<open>The steps\<close>

fun drop_step_name :: "drop_step \<Rightarrow> string" where
  "drop_step_name RemoveTraefikRoute = ''Removing traefik route''"
| "drop_step_name (DropSeedlingContainer _) = ''Dropping seedling''"
| "drop_step_name DeleteSeedlingNetwork = ''Deleting network''"
| "drop_step_name DeleteSeedbankEntry = ''Deleting seedbank entry''"
| "drop_step_name UnmountAgentRamDisk = ''Unmounting OpenBao agent ram disk''"
| "drop_step_name DeleteSeedlingMounts = ''Deleting mounts''"
| "drop_step_name ReleaseDefault = ''Releasing default''"
| "drop_step_name DeleteResinRepository = ''Deleting resin repository''"

definition remove_route_run :: "'d tools \<Rightarrow> name \<Rightarrow> ('d, unit) stepping" where
  "remove_route_run T n =
     and_then (step_name_of (name_from_str (t_regex T) TRAEFIK_SEEDLING_NAME)) (\<lambda>traefik.
     and_then (step_name_of (container_name (t_regex T) traefik)) (\<lambda>traefik_container.
     and_then (step_name_of (seedling_network_name (t_regex T) n)) (\<lambda>network.
     and_then (step_docker (docker_disconnect_network (t_docker T) network traefik_container)) (\<lambda>_.
     and_then (step_name_of (traefik_dynamic_dir (t_regex T) (t_folders T))) (\<lambda>dynamic_dir.
       step_file (deleter_delete (dynamic_dir @ [route_file n])))))))"

definition delete_network_run :: "'d tools \<Rightarrow> name \<Rightarrow> ('d, unit) stepping" where
  "delete_network_run T n =
     and_then (step_name_of (seedling_network_name (t_regex T) n)) (\<lambda>network.
       step_docker (docker_delete_network (t_docker T) network))"

definition delete_resin_run :: "'d tools \<Rightarrow> name \<Rightarrow> ('d, unit) stepping" where
  "delete_resin_run T n =
     and_then (map_err StepResinName (of_result (repo_name_from_str (t_regex T) n))) (\<lambda>r.
       on_engine StepResin (resin_delete_repository (t_resin T) (LocalRepository r)))"

fun drop_run :: "'d tools \<Rightarrow> name \<Rightarrow> drop_step \<Rightarrow> ('d, unit) stepping" where
  "drop_run T n RemoveTraefikRoute = remove_route_run T n"
| "drop_run T n (DropSeedlingContainer c) = step_docker (drop_container_run (t_docker T) c)"
| "drop_run T n DeleteSeedlingNetwork = delete_network_run T n"
| "drop_run T n DeleteSeedbankEntry = step_bank (client_delete (t_bank T) n)"
| "drop_run T n UnmountAgentRamDisk =
     map_err StepRamDisk (ram_unmount (t_ram_disk T) (agent_mount_dir (t_folders T) n))"
| "drop_run T n DeleteSeedlingMounts = step_file (folder_deleter_delete (seedling_mounts_dir (t_folders T) n))"
| "drop_run T n ReleaseDefault = step_bank (client_release_default (t_bank T) n)"
| "drop_run T n DeleteResinRepository = delete_resin_run T n"

definition drop_seedling :: "'d tools \<Rightarrow> name \<Rightarrow> ('d, unit) dropping" where
  "drop_seedling T n =
     and_then (on_engine (\<lambda>e. DropFailedBootstrap [e]) (resin_build (t_resin T))) (\<lambda>_.
     and_then (discover_drop T n) (\<lambda>st.
       run_plan (plain_ops drop_step_name (drop_run T n) no_undo) (show_step T) (drop_plan n st) DropFailedBootstrap))"

end
