(* ===== verification/NewSeedlings.thy ===== *)
theory NewSeedlings
  imports Bract
begin

text \<open>
  Registering a seedling of a user (bract/src/blueprints/new_seedling.rs).
\<close>

section \<open>Discovery\<close>

text \<open>\<open>UserSeedlingDefinition\<close> of seedbank_types/src/lib.rs.\<close>

record user_seedling_definition =
  user_image :: image_source
  user_mounts :: "(name \<times> mount) list"
  user_ports :: port_spec
  user_route :: route_spec
  user_secrets :: "secrets_access option"
  user_health_check :: health_check

datatype new_error =
    NewDockerError docker_error
  | NewSeedbankError client_error
  | NewFailedBootstrap "string list"
  | NewDockerNameError refined_error
  | NewResinError string
  | NewResinNameError name_error
  | SeedlingAlreadyExists
  | SeedlingOrphaned
  | ReservedName name
  | MissingMountSiblings "name list"
  | NewImageSourceError refined_error

record new_state =
  new_seedling_exists :: bool
  new_container_exists :: bool
  new_image_exists :: bool
  new_registered :: bool
  missing_mount_siblings :: "name list"

type_synonym ('d, 'a) creating = "('d garden, new_error, 'a) prog"

definition new_default :: new_state where
  "new_default = \<lparr>new_seedling_exists = False, new_container_exists = False, new_image_exists = False,
     new_registered = False, missing_mount_siblings = []\<rparr>"

definition local_image_already_exists :: "'d tools \<Rightarrow> name \<Rightarrow> image_source \<Rightarrow> ('d, bool) creating" where
  "local_image_already_exists T n source =
     (if source \<noteq> Local then ok False
      else
        and_then (map_err NewImageSourceError (of_result (resolve_image (t_regex T) source n))) (\<lambda>target.
          on_engine NewDockerError (docker_image_exists (t_docker T) target)))"

definition missing_sibling :: "'d tools \<Rightarrow> name \<Rightarrow> name list \<Rightarrow> ('d, name list) creating" where
  "missing_sibling T sibling missing =
     and_then (map_err NewSeedbankError (client_exists (t_bank T) sibling)) (\<lambda>present.
       ok (if present then missing else missing @ [sibling]))"

definition missing_siblings :: "'d tools \<Rightarrow> name \<times> mount \<Rightarrow> name list \<Rightarrow> ('d, name list) creating" where
  "missing_siblings T x missing =
     (case mount_kind (snd x) of
        PersistedShared siblings \<Rightarrow> fold_prog (missing_sibling T) siblings missing
      | _ \<Rightarrow> ok missing)"

text \<open>The container is looked for under the bare name of the seedling, and an image that is there is noted as a
  container.\<close>

definition discover_new :: "'d tools \<Rightarrow> name \<Rightarrow> user_seedling_definition \<Rightarrow> ('d, new_state) creating" where
  "discover_new T n d =
     and_then (map_err NewDockerNameError (of_result (docker_name_from_str (t_regex T) n))) (\<lambda>c.
     and_then (map_err NewSeedbankError (client_exists (t_bank T) n)) (\<lambda>present.
       if present then ok (new_default\<lparr>new_seedling_exists := True\<rparr>)
       else
         and_then (on_engine NewDockerError (docker_container_exists (t_docker T) c)) (\<lambda>container_present.
           if container_present then ok (new_default\<lparr>new_container_exists := True\<rparr>)
           else
             and_then (local_image_already_exists T n (user_image d)) (\<lambda>image_present.
               if image_present then ok (new_default\<lparr>new_container_exists := True\<rparr>)
               else
                 and_then (map_err NewResinNameError (of_result (repo_name_from_str (t_regex T) n))) (\<lambda>r.
                 and_then (on_engine NewResinError (resin_repository_registered (t_resin T) (LocalRepository r))) (\<lambda>registered.
                 and_then (fold_prog (missing_siblings T) (user_mounts d) []) (\<lambda>missing.
                   ok (new_default\<lparr>new_registered := registered, missing_mount_siblings := missing\<rparr>))))))))"

section \<open>The plan\<close>

datatype new_step = NewSeedlingFromSpec | ClaimDefault

definition new_plan :: "user_seedling_definition \<Rightarrow> new_state \<Rightarrow> new_error + new_step list" where
  "new_plan d st =
     (if new_seedling_exists st then Inl SeedlingAlreadyExists
      else if new_container_exists st \<or> new_image_exists st \<or> new_registered st then Inl SeedlingOrphaned
      else if missing_mount_siblings st \<noteq> [] then Inl (MissingMountSiblings (missing_mount_siblings st))
      else Inr ([NewSeedlingFromSpec] @ (if user_route d = RootRoute then [ClaimDefault] else [])))"

section \<open>The steps\<close>

definition definition_from_spec :: "user_seedling_definition \<Rightarrow> seedling_definition" where
  "definition_from_spec d =
     (seedling_definition_new (user_image d) (user_mounts d) (Routed (user_route d) (user_ports d)) (user_health_check d))
       \<lparr>secrets := user_secrets d, origin := User\<rparr>"

fun new_step_name :: "new_step \<Rightarrow> string" where
  "new_step_name NewSeedlingFromSpec = ''Creating seedling''"
| "new_step_name ClaimDefault = ''Claiming default''"

fun new_run :: "'d tools \<Rightarrow> name \<Rightarrow> user_seedling_definition \<Rightarrow> new_step \<Rightarrow> ('d, unit) stepping" where
  "new_run T n d NewSeedlingFromSpec = step_bank (client_create (t_bank T) n 1 (definition_from_spec d))"
| "new_run T n d ClaimDefault = step_bank (client_claim_default (t_bank T) n)"

fun new_undo :: "'d tools \<Rightarrow> name \<Rightarrow> new_step \<Rightarrow> ('d, unit) stepping" where
  "new_undo T n NewSeedlingFromSpec = step_bank (client_delete (t_bank T) n)"
| "new_undo T n ClaimDefault = ok ()"

text \<open>The message that is answered is not modelled.\<close>

definition new_seedling :: "'d tools \<Rightarrow> name \<Rightarrow> user_seedling_definition \<Rightarrow> ('d, unit) creating" where
  "new_seedling T n d =
     (if n \<in> set RESERVED_SEEDLING_NAMES then fail (ReservedName n)
      else
        and_then (on_engine (\<lambda>e. NewFailedBootstrap [e]) (resin_build (t_resin T))) (\<lambda>_.
        and_then (discover_new T n d) (\<lambda>st.
          run_plan (plain_ops new_step_name (new_run T n d) (new_undo T n)) (show_step T) (new_plan d st)
            NewFailedBootstrap)))"

end
