(* ===== verification/TraefikRoutes.thy ===== *)
theory TraefikRoutes
  imports Bract
begin

text \<open>
  The routes of traefik (bract/src/blueprints/write_traefik_routes.rs): one file per routed seedling whose network
  is there, and traefik connected to that network.  YAML is a library: \<open>to_yaml\<close> is
  \<open>serde_yaml_ng::to_string\<close>.
\<close>

record router =
  router_rule :: string
  entry_points :: "string list"
  router_service :: string

record http_config =
  routers :: "(string \<times> router) list"
  services :: "(string \<times> string list) list"

type_synonym to_yaml = "http_config \<Rightarrow> string option"

datatype routes_error =
    RoutesSeedbank client_error
  | RoutesNameParse refined_error
  | RoutesDockerName refined_error
  | RoutesFileSystem fs_error
  | RoutesYaml
  | RoutesDocker docker_error
  | RoutesRolodex rolodex_error
  | RoutesMissingServiceAccount

type_synonym ('d, 'a) routing_prog = "('d garden, routes_error, 'a) prog"

definition routes_file :: "(fs, fs_error, 'a) prog \<Rightarrow> ('d, 'a) routing_prog" where
  "routes_file m = on_disk RoutesFileSystem m"

definition routes_docker :: "('d, docker_error, 'a) prog \<Rightarrow> ('d, 'a) routing_prog" where
  "routes_docker m = on_engine RoutesDocker m"

definition routes_name :: "refined_error + 'a \<Rightarrow> ('d, 'a) routing_prog" where
  "routes_name r = map_err RoutesDockerName (of_result r)"

text \<open>The servers of a service are the URLs of its load balancer.\<close>

definition route_config :: "name \<Rightarrow> route_spec \<Rightarrow> port_spec \<Rightarrow> string \<Rightarrow> http_config" where
  "route_config n route ports container =
     \<lparr>routers = [(n,
        \<lparr>router_rule = (case route of RootRoute \<Rightarrow> ''Host(`localhost`)'' | Subdomain \<Rightarrow> ''Host(`'' @ n @ ''.localhost`)''),
         entry_points = [''web''], router_service = n\<rparr>)],
      services = [(n, [''http://'' @ container @ '':'' @ show_u16 (public_port ports)])]\<rparr>"

definition render_route :: "to_yaml \<Rightarrow> name \<Rightarrow> route_spec \<Rightarrow> port_spec \<Rightarrow> string \<Rightarrow> routes_error + string" where
  "render_route to_yaml n route ports container =
     (case to_yaml (route_config n route ports container) of None \<Rightarrow> Inl RoutesYaml | Some s \<Rightarrow> Inr s)"

definition give_to :: "service_account \<Rightarrow> path \<Rightarrow> modes \<Rightarrow> ('d, unit) routing_prog" where
  "give_to account p md =
     and_then (routes_file (change_user_and_group_ownership p
         (cred_system_name (account_user account)) (cred_system_name (account_group account)))) (\<lambda>_.
       routes_file (change_mode p md))"

text \<open>The body of the loop over the seedlings.\<close>

definition write_route :: "'d tools \<Rightarrow> to_yaml \<Rightarrow> service_account \<Rightarrow> path \<Rightarrow> string \<Rightarrow> name \<Rightarrow> ('d, unit) routing_prog" where
  "write_route T to_yaml account dynamic_dir traefik_container n =
     and_then (map_err RoutesSeedbank (client_load (t_bank T) n)) (\<lambda>s.
       case routing (seedling_definition s) of
         Unrouted \<Rightarrow> ok ()
       | Routed route ports \<Rightarrow>
           and_then (routes_name (seedling_network_name (t_regex T) n)) (\<lambda>network.
           and_then (routes_docker (docker_network_exists (t_docker T) network)) (\<lambda>present.
             if \<not> present then ok ()
             else
               and_then (routes_name (container_name (t_regex T) n)) (\<lambda>c.
               and_then (of_result (render_route to_yaml n route ports c)) (\<lambda>contents.
               and_then (routes_file (writer_write_all (dynamic_dir @ [route_file n]) contents)) (\<lambda>_.
               and_then (give_to account (dynamic_dir @ [route_file n]) OwnerReadWriteGroupRead) (\<lambda>_.
                 routes_docker (docker_connect_network (t_docker T) network traefik_container None))))))))"

definition write_routes :: "'d tools \<Rightarrow> to_yaml \<Rightarrow> ('d, unit) routing_prog" where
  "write_routes T to_yaml =
     and_then (map_err RoutesNameParse (of_result (name_from_str (t_regex T) TRAEFIK_SEEDLING_NAME))) (\<lambda>traefik.
     and_then (routes_name (container_name (t_regex T) traefik)) (\<lambda>traefik_container.
     and_then (map_err RoutesRolodex (find_service_account (t_rolodex T) traefik)) (\<lambda>account.
       case account of
         None \<Rightarrow> fail RoutesMissingServiceAccount
       | Some account \<Rightarrow>
           and_then (map_err RoutesNameParse (of_result (traefik_dynamic_dir (t_regex T) (t_folders T)))) (\<lambda>dynamic_dir.
           and_then (routes_file (folder_create_recursively dynamic_dir)) (\<lambda>_.
           and_then (give_to account dynamic_dir InheritedOwnerReadWriteExecuteGroupReadWriteExecute) (\<lambda>_.
           and_then (map_err RoutesSeedbank (client_list (t_bank T))) (\<lambda>names.
             for_each (write_route T to_yaml account dynamic_dir traefik_container) names)))))))"

end
