(* ===== verification/Deadwood.thy ===== *)
theory Deadwood
  imports SeedlingSecrets
begin

text \<open>
  Deadwood: what is left of seedlings that the seedbank no longer knows, found
  (bract/src/blueprints/find_deadwood.rs) and removed (bract/src/blueprints/prune_deadwood.rs).  A \<open>HashSet\<close>
  that is only searched is a list; one that is turned into a list keeps the order of its elements.
\<close>

record deadwood =
  dead_containers :: "name list"
  dead_networks :: "name list"
  dead_route_files :: "name list"
  dead_resin_repositories :: "string list"
  dead_mounts :: "name list"
  dead_openbao_secrets :: "name list"

section \<open>Finding\<close>

datatype find_error =
    FindSeedbank client_error
  | FindDocker docker_error
  | FindResin string
  | FindNameParse refined_error
  | FindFileSystem fs_error

type_synonym ('d, 'a) finding = "('d garden, find_error, 'a) prog"

definition parsed_name :: "regex \<Rightarrow> string \<Rightarrow> name option" where
  "parsed_name im s = (case name_from_str im s of Inl _ \<Rightarrow> None | Inr n \<Rightarrow> Some n)"

definition strip_suffix :: "string \<Rightarrow> string \<Rightarrow> string option" where
  "strip_suffix suf s = map_option rev (strip_prefix (rev suf) (rev s))"

definition known_repository :: "regex \<Rightarrow> name \<Rightarrow> image_source \<Rightarrow> repository option" where
  "known_repository im n source =
     (case source of
        Local \<Rightarrow> (case repo_name_from_str im n of Inl _ \<Rightarrow> None | Inr r \<Rightarrow> Some (LocalRepository r))
      | External ref \<Rightarrow>
          (case repository_from_str im (reference_formatted_name ref) of Inl _ \<Rightarrow> None | Inr r \<Rightarrow> Some r))"

definition protect_core_seedling_names :: "name list \<Rightarrow> name list" where
  "protect_core_seedling_names ns = OPENBAO_SEEDLING_NAME # TRAEFIK_SEEDLING_NAME # ns"

definition seedling_names_from_live_containers :: "regex \<Rightarrow> string list \<Rightarrow> name list" where
  "seedling_names_from_live_containers im cs =
     remdups (List.map_filter (seedling_name_from_doug_prefixed im) cs @
              List.map_filter (seedling_name_from_agent_prefixed im) cs)"

text \<open>The names of the entries of a folder, none if there is no such folder.\<close>

definition entry_names :: "path \<Rightarrow> ('d, string list) finding" where
  "entry_names p =
     and_then (gets (\<lambda>g. folder_exists (disk g) p)) (\<lambda>present.
       if \<not> present then ok []
       else and_then (on_disk FindFileSystem (folder_entries p)) (\<lambda>es. ok (map entry_name es)))"

definition list_mount_names :: "'d tools \<Rightarrow> ('d, name list) finding" where
  "list_mount_names T =
     and_then (entry_names (seedling_mounts (t_folders T))) (\<lambda>ns.
       ok (List.map_filter (parsed_name (t_regex T)) ns))"

definition route_seedling :: "regex \<Rightarrow> string \<Rightarrow> name option" where
  "route_seedling im file_name =
     (case strip_suffix ''.yml'' file_name of None \<Rightarrow> None | Some n \<Rightarrow> parsed_name im n)"

definition list_route_file_names :: "'d tools \<Rightarrow> ('d, name list) finding" where
  "list_route_file_names T =
     and_then (map_err FindNameParse (of_result (traefik_dynamic_dir (t_regex T) (t_folders T)))) (\<lambda>dynamic_dir.
     and_then (entry_names dynamic_dir) (\<lambda>ns.
       ok (List.map_filter (route_seedling (t_regex T)) ns)))"

text \<open>Whatever keeps OpenBao from answering, there are no secrets then.\<close>

definition list_openbao_secret_names :: "'d tools \<Rightarrow> crypto \<Rightarrow> 'd openbao_client \<Rightarrow> ('d, name list) finding" where
  "list_openbao_secret_names T C B =
     and_then (attempt (open_bao C B (t_folders T))) (\<lambda>r.
       case r of
         Inl _ \<Rightarrow> ok []
       | Inr token \<Rightarrow>
           and_then (or_default [] (bao_list_auth_roles B token)) (\<lambda>roles.
           and_then (or_default [] (bao_list_policies B token)) (\<lambda>policies.
             ok (remdups (List.map_filter (seedling_name_from_approle (t_regex T)) (roles @ policies))))))"

definition not_in :: "name list \<Rightarrow> name list \<Rightarrow> name list" where
  "not_in names candidates = filter (\<lambda>n. n \<notin> set names) candidates"

text \<open>\<open>compute_deadwood\<close>: the names and the repositories that are known, and what was observed.\<close>

definition compute_deadwood :: "name list \<Rightarrow> string list \<Rightarrow> deadwood \<Rightarrow> deadwood" where
  "compute_deadwood names known_repositories observed =
     \<lparr>dead_containers = not_in names (dead_containers observed),
      dead_networks = not_in names (dead_networks observed),
      dead_route_files = not_in names (dead_route_files observed),
      dead_resin_repositories = filter (\<lambda>r. r \<notin> set known_repositories) (dead_resin_repositories observed),
      dead_mounts = not_in names (dead_mounts observed),
      dead_openbao_secrets = not_in names (dead_openbao_secrets observed)\<rparr>"

definition note_repository :: "'d tools \<Rightarrow> name \<Rightarrow> string list \<Rightarrow> ('d, string list) finding" where
  "note_repository T n ks =
     and_then (map_err FindSeedbank (client_load (t_bank T) n)) (\<lambda>s.
       ok (case known_repository (t_regex T) n (image (seedling_definition s)) of
             None \<Rightarrow> ks | Some r \<Rightarrow> show_repository r # ks))"

definition local_repositories :: "repository list \<Rightarrow> repository list" where
  "local_repositories rs = filter (\<lambda>r. case r of LocalRepository _ \<Rightarrow> True | _ \<Rightarrow> False) rs"

definition find_deadwood :: "'d tools \<Rightarrow> crypto \<Rightarrow> 'd openbao_client \<Rightarrow> ('d, deadwood) finding" where
  "find_deadwood T C B =
     and_then (map_err FindSeedbank (client_list (t_bank T))) (\<lambda>names.
     and_then (fold_prog (note_repository T) names []) (\<lambda>known_repositories.
     and_then (on_engine FindDocker (docker_list_containers (t_docker T))) (\<lambda>live.
     and_then (on_engine FindDocker (docker_list_networks (t_docker T))) (\<lambda>networks.
     and_then (list_route_file_names T) (\<lambda>routes.
     and_then (on_engine FindResin (resin_list_repositories (t_resin T))) (\<lambda>repositories.
     and_then (list_mount_names T) (\<lambda>mount_names.
     and_then (list_openbao_secret_names T C B) (\<lambda>secret_names.
       ok (compute_deadwood (protect_core_seedling_names names) known_repositories
         \<lparr>dead_containers = seedling_names_from_live_containers (t_regex T) live,
          dead_networks = List.map_filter (seedling_name_from_doug_prefixed (t_regex T)) networks,
          dead_route_files = routes,
          dead_resin_repositories = map show_repository (local_repositories repositories),
          dead_mounts = mount_names, dead_openbao_secrets = secret_names\<rparr>)))))))))"

section \<open>Pruning\<close>

text \<open>\<open>PruneSecrets\<close> stands for the variants OpenBao, AppRole and ProvisionSeedlingSecrets.\<close>

datatype prune_error =
    PruneDocker docker_error
  | PruneDockerName refined_error
  | PruneNameParse refined_error
  | PruneFileSystem fs_error
  | PruneResin string
  | PruneSecrets secrets_error

type_synonym ('d, 'a) pruning = "('d garden, prune_error, 'a) prog"

definition prune_docker :: "('d, docker_error, 'a) prog \<Rightarrow> ('d, 'a) pruning" where
  "prune_docker m = on_engine PruneDocker m"

definition prune_name :: "refined_error + 'a \<Rightarrow> ('d, 'a) pruning" where
  "prune_name r = map_err PruneDockerName (of_result r)"

definition remove_container :: "'d tools \<Rightarrow> string \<Rightarrow> ('d, unit) pruning" where
  "remove_container T c =
     and_then (ignore (prune_docker (docker_stop_container (t_docker T) c))) (\<lambda>_.
       prune_docker (ignore_missing (docker_delete_container (t_docker T) c)))"

definition prune_container :: "'d tools \<Rightarrow> name \<Rightarrow> ('d, unit) pruning" where
  "prune_container T n =
     and_then (prune_name (container_name (t_regex T) n)) (\<lambda>c.
     and_then (remove_container T c) (\<lambda>_.
     and_then (prune_name (agent_container_name (t_regex T) n)) (\<lambda>a. remove_container T a)))"

definition disconnect_traefik :: "'d tools \<Rightarrow> name \<Rightarrow> ('d, unit) pruning" where
  "disconnect_traefik T n =
     and_then (map_err PruneNameParse (of_result (name_from_str (t_regex T) TRAEFIK_SEEDLING_NAME))) (\<lambda>traefik.
     and_then (prune_name (container_name (t_regex T) traefik)) (\<lambda>traefik_container.
     and_then (prune_name (seedling_network_name (t_regex T) n)) (\<lambda>network.
       prune_docker (ignore_missing (docker_disconnect_network (t_docker T) network traefik_container)))))"

definition prune_network :: "'d tools \<Rightarrow> name \<Rightarrow> ('d, unit) pruning" where
  "prune_network T n =
     and_then (disconnect_traefik T n) (\<lambda>_.
     and_then (prune_name (seedling_network_name (t_regex T) n)) (\<lambda>network.
       prune_docker (docker_delete_network (t_docker T) network)))"

definition prune_route_file :: "'d tools \<Rightarrow> path \<Rightarrow> name \<Rightarrow> ('d, unit) pruning" where
  "prune_route_file T dynamic_dir n =
     and_then (disconnect_traefik T n) (\<lambda>_.
       on_disk PruneFileSystem (deleter_delete (dynamic_dir @ [route_file n])))"

definition prune_repository :: "'d tools \<Rightarrow> string \<Rightarrow> ('d, unit) pruning" where
  "prune_repository T s =
     (case repository_from_str (t_regex T) s of
        Inl _ \<Rightarrow> ok ()
      | Inr r \<Rightarrow> on_engine PruneResin (resin_delete_repository (t_resin T) r))"

definition prune_mounts :: "'d tools \<Rightarrow> name \<Rightarrow> ('d, unit) pruning" where
  "prune_mounts T n = on_disk PruneFileSystem (folder_deleter_delete (seedling_mounts_dir (t_folders T) n))"

definition prune_routes :: "'d tools \<Rightarrow> name list \<Rightarrow> ('d, unit) pruning" where
  "prune_routes T ns =
     (if ns = [] then ok ()
      else
        and_then (map_err PruneNameParse (of_result (traefik_dynamic_dir (t_regex T) (t_folders T)))) (\<lambda>dynamic_dir.
          for_each (prune_route_file T dynamic_dir) ns))"

definition prune_secrets :: "'d tools \<Rightarrow> crypto \<Rightarrow> 'd openbao_client \<Rightarrow> name list \<Rightarrow> ('d, unit) pruning" where
  "prune_secrets T C B ns =
     (if ns = [] then ok ()
      else
        and_then (map_err PruneSecrets (open_bao C B (t_folders T))) (\<lambda>token.
          for_each (\<lambda>n. map_err PruneSecrets (revoke B token n)) ns))"

definition prune_deadwood :: "'d tools \<Rightarrow> crypto \<Rightarrow> 'd openbao_client \<Rightarrow> deadwood \<Rightarrow> ('d, unit) pruning" where
  "prune_deadwood T C B w =
     and_then (for_each (prune_container T) (dead_containers w)) (\<lambda>_.
     and_then (for_each (prune_network T) (dead_networks w)) (\<lambda>_.
     and_then (prune_routes T (dead_route_files w)) (\<lambda>_.
     and_then (for_each (prune_repository T) (dead_resin_repositories w)) (\<lambda>_.
     and_then (for_each (prune_mounts T) (dead_mounts w)) (\<lambda>_.
       prune_secrets T C B (dead_openbao_secrets w))))))"

end
