(* ===== verification/LogRotation.thy ===== *)
theory LogRotation
  imports Bract
begin

text \<open>
  Rotating the logs that seedlings write to their mounts (bract/src/blueprints/rotate_seedling_logs.rs).
\<close>

definition MAX_LOG_BYTES :: nat where
  "MAX_LOG_BYTES = 10 * 1024 * 1024"

definition MAX_ROTATED_FILES :: nat where
  "MAX_ROTATED_FILES = 5"

definition supports_rotation :: "mount \<Rightarrow> bool" where
  "supports_rotation mt = (case mount_kind mt of PersistedShared _ \<Rightarrow> False | _ \<Rightarrow> True)"

text \<open>\<open>Path::extension\<close>: what follows the last dot, if something precedes it.\<close>

definition extension :: "string \<Rightarrow> string option" where
  "extension file_name =
     (let suf = takeWhile (\<lambda>c. c \<noteq> CHR ''.'') (rev file_name);
          pre = drop (Suc (length suf)) (rev file_name)
      in if CHR ''.'' \<in> set file_name \<and> pre \<noteq> [] then Some (rev suf) else None)"

definition is_already_rotated :: "path \<Rightarrow> bool" where
  "is_already_rotated p =
     (case extension (last p) of None \<Rightarrow> False | Some e \<Rightarrow> e \<noteq> [] \<and> list_all is_digit e)"

definition needs_rotation :: "entry \<Rightarrow> bool" where
  "needs_rotation e \<longleftrightarrow>
     entry_kind e = FileKind \<and> \<not> is_already_rotated (entry_path e) \<and> MAX_LOG_BYTES \<le> entry_size e"

text \<open>A folder that cannot be read is left alone.\<close>

definition rotate_oversized_files :: "path \<Rightarrow> ('d garden, 'e, unit) prog" where
  "rotate_oversized_files dir =
     and_then (attempt (on_disk id (folder_entries dir))) (\<lambda>r.
       case r of
         Inl _ \<Rightarrow> ok ()
       | Inr es \<Rightarrow>
           for_each (\<lambda>e. ignore (on_disk id (rotator_rotate (entry_path e) MAX_ROTATED_FILES)))
             (filter needs_rotation es))"

definition rotate_mount :: "'d tools \<Rightarrow> name \<Rightarrow> name \<times> mount \<Rightarrow> ('d garden, client_error, unit) prog" where
  "rotate_mount T n x =
     (if rotate_logs (snd x) \<and> supports_rotation (snd x)
      then rotate_oversized_files (seedling_mount (t_folders T) n (fst x)) else ok ())"

definition rotate_seedling :: "'d tools \<Rightarrow> name \<Rightarrow> ('d garden, client_error, unit) prog" where
  "rotate_seedling T n =
     and_then (attempt (client_load (t_bank T) n)) (\<lambda>r.
       case r of
         Inl _ \<Rightarrow> ok ()
       | Inr s \<Rightarrow> for_each (rotate_mount T n) (mounts (seedling_definition s)))"

definition rotate_seedling_logs :: "'d tools \<Rightarrow> ('d garden, client_error, unit) prog" where
  "rotate_seedling_logs T = and_then (client_list (t_bank T)) (for_each (rotate_seedling T))"

end
