(* ===== verification/BractServer.thy ===== *)
theory BractServer
  imports Watching SeedlingDrops NewSeedlings TraefikRoutes Deadwood LogRotation
begin

text \<open>
  The server of bract (bract/src/lib.rs, bract/src/protocol.rs): what it answers to each request of its socket, the
  reconciliations that its trigger socket asks for, and the sweeps of its watchdog and of the log rotation.  The
  tasks of the server are the steps of \<open>bract_step\<close>, one after the other.  Reports and heartbeats are not modelled,
  nor is the end of the process after a stop request.
\<close>

section \<open>The server\<close>

record 'd bract_server =
  b_tools :: "'d tools"
  b_crypto :: crypto
  b_bao :: "'d openbao_client"
  b_yaml :: to_yaml
  b_json :: "json_value \<Rightarrow> string option"
  show_sweep :: "sweep_error \<Rightarrow> string"

datatype bract_error =
    BractBuildError string
  | BractNameError refined_error
  | BractDockerError docker_error
  | UnknownSeedling
  | BractSeedbankError client_error
  | BractLabelError
  | BractReconcile reconcile_error
  | BractStart start_error
  | BractStop stop_error
  | BractDrop drop_error
  | BractNew new_error
  | BractRoutes routes_error
  | BractFind find_error
  | BractPrune prune_error
  | BractOpenBaoStatus string
  | BractSecrets secrets_error
  | BractNameParse refined_error
  | BractRolodex rolodex_error

type_synonym ('d, 'a) serving = "('d garden, bract_error, 'a) prog"

abbreviation bank_of :: "'d bract_server \<Rightarrow> bank" where
  "bank_of S \<equiv> t_bank (b_tools S)"

definition of_bank :: "('d, 'a) asking \<Rightarrow> ('d, 'a) serving" where
  "of_bank m = map_err BractSeedbankError m"

section \<open>The status of a seedling\<close>

datatype definition_status = DefinitionCurrent | DefinitionStale | DefinitionNewer

datatype run_status =
    StatusRunning definition_status
  | StatusDefined definition_status
  | StatusMissing
  | StatusUnknown

definition check_container_status :: "container_snapshot \<Rightarrow> seedling_version \<Rightarrow> bract_error + run_status" where
  "check_container_status c v =
     (case get_version (snapshot_labels c) of
        None \<Rightarrow> Inl BractLabelError
      | Some actual \<Rightarrow>
          (let d = (if actual = v then DefinitionCurrent else if actual < v then DefinitionStale else DefinitionNewer)
           in Inr (case snapshot_status c of
                docker_status.Running \<Rightarrow> StatusRunning d
              | docker_status.Exited \<Rightarrow> StatusDefined d
              | docker_status.Created \<Rightarrow> StatusDefined d
              | _ \<Rightarrow> StatusMissing)))"

text \<open>\<open>None\<close> is the error \<open>UnknownSeedling\<close>.\<close>

definition load_known :: "'d bract_server \<Rightarrow> name \<Rightarrow> ('d, seedling option) serving" where
  "load_known S n =
     and_then (of_bank (client_exists (bank_of S) n)) (\<lambda>present.
       if present then and_then (of_bank (client_load (bank_of S) n)) (\<lambda>s. ok (Some s)) else ok None)"

definition named_mount :: "regex \<Rightarrow> name \<times> mount \<Rightarrow> refined_error + (path \<times> string)" where
  "named_mount im x =
     (case docker_name_from_str im (fst x) of Inl e \<Rightarrow> Inl e | Inr m \<Rightarrow> Inr (remote_path (snd x), m))"

definition seedling_status_of :: "'d bract_server \<Rightarrow> name \<Rightarrow> ('d, run_status) serving" where
  "seedling_status_of S n =
     (let im = t_regex (b_tools S)
      in and_then (load_known S n) (\<lambda>found.
         case found of
           None \<Rightarrow> ok StatusUnknown
         | Some s \<Rightarrow>
             and_then (map_err BractNameError (of_result (container_name im (seedling_name s)))) (\<lambda>c.
             and_then (map_err BractNameError
                 (of_result (collect_sum (named_mount im) (mounts (seedling_definition s))))) (\<lambda>mount_names.
             and_then (attempt (on_engine id (docker_inspect_container (t_exec (b_tools S)) c mount_names))) (\<lambda>r.
               case r of
                 Inr container \<Rightarrow> of_result (check_container_status container (seedling_version s))
               | Inl ResourceNotFound \<Rightarrow> ok StatusMissing
               | Inl e \<Rightarrow> fail (BractDockerError e))))))"

section \<open>Reconciling, starting, stopping, dropping\<close>

definition do_reconcile_seedling ::
    "'d bract_server \<Rightarrow> name \<Rightarrow> seedling_version \<Rightarrow> seedling_definition \<Rightarrow> seedling_id option \<Rightarrow> ('d, unit) serving" where
  "do_reconcile_seedling S n v d i =
     and_then (map_err BractSecrets
         (provision_agent_if_requested (b_crypto S) (b_bao S) (b_json S) (t_folders (b_tools S)) n i d)) (\<lambda>agent.
     and_then (map_err BractReconcile (reconcile_execute (b_tools S) n v d agent)) (\<lambda>_.
       map_err BractRoutes (write_routes (b_tools S) (b_yaml S))))"

definition reconcile_loaded :: "'d bract_server \<Rightarrow> name \<Rightarrow> ('d, unit) serving" where
  "reconcile_loaded S n =
     and_then (of_bank (client_load (bank_of S) n)) (\<lambda>s.
       do_reconcile_seedling S n (seedling_version s) (seedling_definition s) (Some (seedling_id s)))"

text \<open>A seedling that was registered and never reconciled is reconciled.\<close>

definition serve_start :: "'d bract_server \<Rightarrow> name \<Rightarrow> ('d, unit) serving" where
  "serve_start S n =
     and_then (attempt (client_exists (bank_of S) n)) (\<lambda>r.
     and_then
       (if r = Inr True
        then and_then (map_err BractRolodex (find_service_account (t_rolodex (b_tools S)) n)) (\<lambda>a. ok (a = None))
        else ok False)
       (\<lambda>never_reconciled.
          if never_reconciled then reconcile_loaded S n
          else map_err BractStart (start_seedling (b_tools S) n Operator)))"

definition serve_drop :: "'d bract_server \<Rightarrow> name \<Rightarrow> ('d, unit) serving" where
  "serve_drop S n =
     and_then (of_bank (client_exists (bank_of S) n)) (\<lambda>present.
     and_then
       (if present then
          and_then (of_bank (client_load (bank_of S) n)) (\<lambda>s.
            ignore (revoke_if_provisioned (b_crypto S) (b_bao S) (t_folders (b_tools S)) n (seedling_definition s)))
        else ok ())
       (\<lambda>_. map_err BractDrop (drop_seedling (b_tools S) n)))"

definition build_resin :: "'d bract_server \<Rightarrow> ('d, unit) serving" where
  "build_resin S = on_engine BractBuildError (resin_build (t_resin (b_tools S)))"

definition serve_find :: "'d bract_server \<Rightarrow> ('d, deadwood) serving" where
  "serve_find S =
     and_then (build_resin S) (\<lambda>_. map_err BractFind (find_deadwood (b_tools S) (b_crypto S) (b_bao S)))"

definition serve_prune :: "'d bract_server \<Rightarrow> deadwood \<Rightarrow> ('d, unit) serving" where
  "serve_prune S w =
     and_then (build_resin S) (\<lambda>_. map_err BractPrune (prune_deadwood (b_tools S) (b_crypto S) (b_bao S) w))"

definition serve_openbao_status :: "'d bract_server \<Rightarrow> ('d, openbao_report) serving" where
  "serve_openbao_status S =
     and_then (map_err BractNameParse (of_result (name_from_str (t_regex (b_tools S)) OPENBAO_SEEDLING_NAME))) (\<lambda>n.
     and_then (seedling_status_of S n) (\<lambda>status.
       map_err BractOpenBaoStatus (openbao_status (b_crypto S) (b_bao S) (t_folders (b_tools S))
         (case status of StatusRunning _ \<Rightarrow> True | _ \<Rightarrow> False))))"

section \<open>Stopping bract\<close>

definition stop_core_seedling :: "'d bract_server \<Rightarrow> name \<Rightarrow> ('d, unit) serving" where
  "stop_core_seedling S raw =
     (case name_from_str (t_regex (b_tools S)) raw of
        Inl _ \<Rightarrow> ok ()
      | Inr n \<Rightarrow> ignore (stop_seedling (b_tools S) n Watchdog))"

definition stop_core_seedlings :: "'d bract_server \<Rightarrow> ('d, unit) serving" where
  "stop_core_seedlings S = for_each (stop_core_seedling S) [TRAEFIK_SEEDLING_NAME, OPENBAO_SEEDLING_NAME]"

definition stop_user_seedling :: "'d bract_server \<Rightarrow> name \<Rightarrow> ('d, unit) serving" where
  "stop_user_seedling S n =
     and_then (attempt (client_get_desired_run_status (bank_of S) n)) (\<lambda>r.
       case r of
         Inl _ \<Rightarrow> ok ()
       | Inr wanted \<Rightarrow>
           if wanted = desired_run_status.Stopped then ok ()
           else
             and_then (attempt (seedling_status_of S n)) (\<lambda>r.
               case r of
                 Inr (StatusRunning _) \<Rightarrow> ignore (stop_seedling (b_tools S) n Operator)
               | _ \<Rightarrow> ok ()))"

definition stop_user_seedlings :: "'d bract_server \<Rightarrow> ('d, unit) serving" where
  "stop_user_seedlings S =
     and_then (attempt (client_list (bank_of S))) (\<lambda>r.
       case r of Inl _ \<Rightarrow> ok () | Inr ns \<Rightarrow> for_each (stop_user_seedling S) ns)"

definition serve_stop :: "'d bract_server \<Rightarrow> bool \<Rightarrow> ('d, unit) serving" where
  "serve_stop S including_containers =
     (if \<not> including_containers then ok ()
      else and_then (stop_core_seedlings S) (\<lambda>_. stop_user_seedlings S))"

section \<open>The protocol\<close>

datatype bract_request =
    SeedlingStatusRequest name
  | StartSeedlingRequest name
  | StopSeedlingRequest name
  | DropSeedlingRequest name
  | ReconcileSeedlingRequest name seedling_version seedling_definition
  | NewSeedlingRequest name user_seedling_definition
  | FindDeadwoodRequest
  | PruneDeadwoodRequest deadwood
  | ListSeedlingsRequest
  | OpenBaoStatusRequest
  | StopBractRequest bool

datatype bract_response =
    SeedlingStatusResponse run_status
  | CreatedResponse
  | StartedResponse
  | StoppedResponse
  | BractStoppedResponse bool
  | DroppedResponse
  | DeadwoodResponse deadwood
  | PrunedResponse
  | SeedlingsResponse "name list"
  | OpenBaoStatusResponse openbao_report
  | BractErrorResponse bract_error

definition answer :: "('a \<Rightarrow> bract_response) \<Rightarrow> ('d, 'a) serving \<Rightarrow> 'd garden \<Rightarrow> bract_response \<times> 'd garden" where
  "answer wrap m g = (case m g of (Inr a, h) \<Rightarrow> (wrap a, h) | (Inl e, h) \<Rightarrow> (BractErrorResponse e, h))"

definition bract_handle :: "'d bract_server \<Rightarrow> bract_request \<Rightarrow> 'd garden \<Rightarrow> bract_response \<times> 'd garden" where
  "bract_handle S request =
     (case request of
        SeedlingStatusRequest n \<Rightarrow> answer SeedlingStatusResponse (seedling_status_of S n)
      | StartSeedlingRequest n \<Rightarrow> answer (\<lambda>_. StartedResponse) (serve_start S n)
      | StopSeedlingRequest n \<Rightarrow>
          answer (\<lambda>_. StoppedResponse) (map_err BractStop (stop_seedling (b_tools S) n Operator))
      | DropSeedlingRequest n \<Rightarrow> answer (\<lambda>_. DroppedResponse) (serve_drop S n)
      | ReconcileSeedlingRequest n v d \<Rightarrow> answer (\<lambda>_. StartedResponse) (do_reconcile_seedling S n v d None)
      | NewSeedlingRequest n d \<Rightarrow> answer (\<lambda>_. CreatedResponse) (map_err BractNew (new_seedling (b_tools S) n d))
      | FindDeadwoodRequest \<Rightarrow> answer DeadwoodResponse (serve_find S)
      | PruneDeadwoodRequest w \<Rightarrow> answer (\<lambda>_. PrunedResponse) (serve_prune S w)
      | ListSeedlingsRequest \<Rightarrow> answer SeedlingsResponse (of_bank (client_list (bank_of S)))
      | OpenBaoStatusRequest \<Rightarrow> answer OpenBaoStatusResponse (serve_openbao_status S)
      | StopBractRequest including_containers \<Rightarrow>
          answer (\<lambda>_. BractStoppedResponse including_containers) (serve_stop S including_containers))"

section \<open>The tasks\<close>

datatype trigger_response = Accepted | TriggerInvalidName

text \<open>The answer of the trigger socket, and the reconciliation it leaves to a task of its own.\<close>

definition handle_trigger :: "'d bract_server \<Rightarrow> string \<Rightarrow> 'd garden \<Rightarrow> trigger_response \<times> 'd garden" where
  "handle_trigger S raw g =
     (case name_from_str (t_regex (b_tools S)) raw of
        Inr n \<Rightarrow> (Accepted, snd (reconcile_loaded S n g))
      | Inl _ \<Rightarrow> (TriggerInvalidName, g))"

datatype bract_event =
    Startup
  | Asked bract_request
  | Triggered string
  | WatchdogTick
  | RotationTick

definition bract_step :: "'d bract_server \<Rightarrow> bract_event \<Rightarrow> 'd garden \<Rightarrow> 'd garden" where
  "bract_step S x g =
     (case x of
        Startup \<Rightarrow> snd (write_routes (b_tools S) (b_yaml S) g)
      | Asked request \<Rightarrow> snd (bract_handle S request g)
      | Triggered raw \<Rightarrow> snd (handle_trigger S raw g)
      | WatchdogTick \<Rightarrow> snd (sweep (b_tools S) (show_sweep S) None g)
      | RotationTick \<Rightarrow> snd (rotate_seedling_logs (b_tools S) g))"

definition bract_runs :: "'d bract_server \<Rightarrow> bract_event list \<Rightarrow> 'd garden \<Rightarrow> 'd garden" where
  "bract_runs S xs g = fold (bract_step S) xs g"

end
