(* ===== verification/OpenBaoSetup.thy ===== *)
theory OpenBaoSetup
  imports OpenBaoClient BractServer
begin

text \<open>
  Setting up OpenBao (src/src/bootstrap/openbao.rs), at every start of douglas: what is found, the plan and its
  steps, which initialize OpenBao, unseal it, keep the codes for unsealing, mount what is needed and give douglas a
  role of its own.  The steps share a context, which is the state of the run beside the host.
\<close>

section \<open>The tools and the context\<close>

datatype setup_error =
    SetupOpenBao string
  | SetupFile fs_error
  | SetupIdentity identity_error
  | SecretsRequired
  | SetupNotRunning
  | NoUnsealCodes
  | DouglasSecretsFailed
  | SetupBract string
  | SetupName refined_error
  | SetupBase64
  | SetupAppRole app_role_error
  | SetupFailed "string list"

text \<open>\<open>s_bract_status\<close> is what bract answers about a seedling, \<open>s_sleep\<close> what other programs do while this one sleeps;
  \<open>s_hex\<close> is \<open>hex::encode\<close>, \<open>s_shuffle\<close> the shuffle of \<open>rand\<close>, and the nonces are those generated.\<close>

record 'd setup_tools =
  s_regex :: regex
  s_folders :: douglas_folders
  s_crypto :: crypto
  s_hex :: "string \<Rightarrow> string"
  s_socket :: "'d bao_socket"
  s_connect :: "path \<Rightarrow> ('d, string, unit) prog"
  s_show_bao :: "bao_error \<Rightarrow> string"
  s_shuffle :: "unseal_secret list \<Rightarrow> unseal_secret list"
  s_bract_status :: "name \<Rightarrow> ('d garden, string, run_status) prog"
  s_sleep :: "'d garden \<Rightarrow> 'd garden"
  s_nonce_codes :: string
  s_nonce_role :: string
  s_nonce_secret :: string
  s_show :: "setup_error \<Rightarrow> string"

record 'd setup_context =
  su_garden :: "'d garden"
  su_identity :: "string option"
  su_unseal_codes :: "unseal_secret list option"
  su_admin_token :: "string option"
  su_role_id :: "string option"
  su_secret_id :: "string option"

type_synonym ('d, 'a) observing = "('d garden, setup_error, 'a) prog"
type_synonym ('d, 'a) setting_up = "('d setup_context, setup_error, 'a) prog"

definition bao_of :: "'d setup_tools \<Rightarrow> 'd openbao_client" where
  "bao_of T = socket_client (s_socket T) (s_show_bao T) (s_connect T)"

definition unseal_codes_path :: "douglas_folders \<Rightarrow> path" where
  "unseal_codes_path d = credential_file d ''unseal.codes''"

definition base_url :: string where
  "base_url = ''http://doug.'' @ OPENBAO_SEEDLING_NAME @ '':'' @ show_nat OPENBAO_API_PORT"

section \<open>Discovery\<close>

record setup_installed =
  has_kv :: bool
  has_managed_secrets :: bool
  managed_secrets_configured :: bool
  has_pki :: bool
  ca_configured :: bool
  has_acme :: bool
  has_acme_pki_role :: bool
  has_app_role :: bool

datatype douglas_credentials = CredentialsMissing | CredentialsRefused | CredentialsAccepted setup_installed

datatype setup_state = NotRunningState | UninitializedState | SealedState bool | UnsealedState douglas_credentials

definition openbao_is_running :: "'d setup_tools \<Rightarrow> ('d, bool) observing" where
  "openbao_is_running T =
     and_then (map_err SetupName (of_result (name_from_str (s_regex T) OPENBAO_SEEDLING_NAME))) (\<lambda>n.
     and_then (map_err SetupBract (s_bract_status T n)) (\<lambda>st.
       ok (case st of StatusRunning _ \<Rightarrow> True | _ \<Rightarrow> False)))"

definition sleep :: "'d setup_tools \<Rightarrow> ('d, unit) observing" where
  "sleep T g = (Inr (), s_sleep T g)"

text \<open>The path is looked for as often as the first argument says.\<close>

fun eventually_exists :: "nat \<Rightarrow> 'd setup_tools \<Rightarrow> path \<Rightarrow> ('d, bool) observing" where
  "eventually_exists 0 T p = ok False"
| "eventually_exists (Suc k) T p =
     and_then (gets (\<lambda>g. exists_path (disk g) p)) (\<lambda>present.
       if present then ok True
       else if k = 0 then ok False
       else and_then (sleep T) (\<lambda>_. eventually_exists k T p))"

text \<open>\<open>yes\<close> is \<open>let Ok(state) = \<dots> else { return false }\<close>.\<close>

definition yes :: "'d setup_tools \<Rightarrow> ('d, bool) calling \<Rightarrow> ('d, bool) observing" where
  "yes T m = or_default False (calls (s_show_bao T) m)"

definition managed_secrets_are_configured :: "'d setup_tools \<Rightarrow> string \<Rightarrow> ('d, bool) observing" where
  "managed_secrets_are_configured T token =
     and_then (attempt (on_engine id (read_kv_config (s_socket T) token ManagedSecrets))) (\<lambda>r.
       ok (case r of Inl _ \<Rightarrow> False | Inr c \<Rightarrow> c = kv_config_managed))"

definition discover_installed :: "'d setup_tools \<Rightarrow> string \<Rightarrow> ('d, setup_installed) observing" where
  "discover_installed T token =
     (let S = s_socket T
      in and_then (yes T (is_mounted_at S token ManagedSecrets)) (\<lambda>managed.
         and_then (if managed then managed_secrets_are_configured T token else ok False) (\<lambda>configured.
         and_then (yes T (is_auth_method_enabled S token)) (\<lambda>app_role.
         and_then (yes T (is_mounted_at S token KeyValueStore)) (\<lambda>kv.
         and_then (yes T (is_mounted_at S token PublicKeyInfrastructure)) (\<lambda>pki.
         and_then (yes T (is_acme_enabled S token)) (\<lambda>acme.
         and_then (yes T (root_ca_is_configured S token)) (\<lambda>ca.
         and_then (yes T (pki_role_exists S token ''traefik'')) (\<lambda>acme_pki_role.
           ok \<lparr>has_kv = kv, has_managed_secrets = managed, managed_secrets_configured = configured, has_pki = pki,
               ca_configured = ca, has_acme = acme, has_acme_pki_role = acme_pki_role, has_app_role = app_role\<rparr>)))))))))"

text \<open>The second component is the identity that is in memory afterwards.\<close>

definition observe :: "'d setup_tools \<Rightarrow> seal_state \<Rightarrow> bool \<Rightarrow> bool \<Rightarrow> ('d, setup_state \<times> string option) observing" where
  "observe T seal credentials_available has_unseal_codes =
     (case seal of
        Uninitialized \<Rightarrow> ok (UninitializedState, None)
      | Sealed \<Rightarrow> ok (SealedState has_unseal_codes, None)
      | Unsealed \<Rightarrow>
          if \<not> credentials_available then ok (UnsealedState CredentialsMissing, None)
          else
            and_then (attempt (log_in (s_crypto T) None (bao_of T) (s_folders T))) (\<lambda>r.
              case r of
                Inl _ \<Rightarrow> ok (UnsealedState CredentialsRefused, None)
              | Inr (token, b) \<Rightarrow>
                  and_then (discover_installed T token) (\<lambda>i. ok (UnsealedState (CredentialsAccepted i), Some b))))"

fun ask_status :: "nat \<Rightarrow> 'd setup_tools \<Rightarrow> ('d, seal_state) observing" where
  "ask_status k T =
     and_then (attempt (on_engine id (bao_seal_state (bao_of T)))) (\<lambda>r.
       case r of
         Inr seal \<Rightarrow> ok seal
       | Inl e \<Rightarrow> (case k of 0 \<Rightarrow> fail (SetupOpenBao e) | Suc j \<Rightarrow> and_then (sleep T) (\<lambda>_. ask_status j T)))"

definition discover_setup :: "'d setup_tools \<Rightarrow> ('d, setup_state \<times> string option) observing" where
  "discover_setup T =
     and_then (openbao_is_running T) (\<lambda>running.
       if \<not> running then ok (NotRunningState, None)
       else
         and_then (gets (\<lambda>g. available (s_folders T) (disk g))) (\<lambda>credentials_available.
         and_then (gets (\<lambda>g. file_exists (disk g) (unseal_codes_path (s_folders T)))) (\<lambda>has_unseal_codes.
         and_then (eventually_exists 5 T (openbao_socket_path (s_folders T))) (\<lambda>socket_exists.
         and_then (on_engine SetupOpenBao (s_connect T (openbao_socket_path (s_folders T)))) (\<lambda>_.
         and_then (ask_status 5 T) (\<lambda>seal.
         and_then (observe T seal credentials_available has_unseal_codes) (\<lambda>(state, cached).
           ok (if socket_exists then state else NotRunningState, cached))))))))"

section \<open>The plan\<close>

datatype setup_step =
    InitializeOpenBao
  | LoadUnsealCodes
  | UnsealOpenBao
  | RecordSecrets
  | MountEngine bao_mount
  | LoginAsDouglas
  | ConfigureManagedSecrets
  | EnableAppRoleAuth
  | GenerateRootCA
  | SetIssuingCRL
  | ConfigureClusterPath
  | EnableAcme
  | CreateAcmePkiRole
  | CreateDouglasAppRolePolicy
  | CreateDouglasAppRoleSecret
  | StoreDouglasAppRoleCredentials
  | RevokeAdminToken

definition managed_secrets_setup :: "setup_step list" where
  "managed_secrets_setup = [MountEngine ManagedSecrets, ConfigureManagedSecrets]"

definition full_setup :: "setup_step list" where
  "full_setup =
     [MountEngine KeyValueStore] @ managed_secrets_setup @
     [MountEngine PublicKeyInfrastructure, GenerateRootCA, SetIssuingCRL, ConfigureClusterPath, EnableAcme,
      CreateAcmePkiRole, EnableAppRoleAuth, CreateDouglasAppRolePolicy, CreateDouglasAppRoleSecret,
      StoreDouglasAppRoleCredentials, RevokeAdminToken]"

definition top_up :: "setup_installed \<Rightarrow> setup_step list" where
  "top_up i =
     (if \<not> has_kv i then [MountEngine KeyValueStore] else []) @
     (if \<not> has_managed_secrets i then managed_secrets_setup
      else if \<not> managed_secrets_configured i then [ConfigureManagedSecrets] else []) @
     (if \<not> has_pki i then [MountEngine PublicKeyInfrastructure] else []) @
     (if \<not> ca_configured i then [GenerateRootCA, SetIssuingCRL, ConfigureClusterPath] else []) @
     (if \<not> has_acme i then [EnableAcme] else []) @
     (if \<not> has_acme_pki_role i then [CreateAcmePkiRole] else []) @
     (if \<not> has_app_role i then [EnableAppRoleAuth] else [])"

definition setup_plan :: "setup_state \<Rightarrow> setup_error + setup_step list" where
  "setup_plan st =
     (case st of
        NotRunningState \<Rightarrow> Inl SetupNotRunning
      | UninitializedState \<Rightarrow> Inr ([InitializeOpenBao, UnsealOpenBao, RecordSecrets] @ full_setup)
      | SealedState has_unseal_codes \<Rightarrow>
          if has_unseal_codes then Inr ([LoadUnsealCodes, UnsealOpenBao, RecordSecrets] @ full_setup)
          else Inl NoUnsealCodes
      | UnsealedState CredentialsMissing \<Rightarrow> Inl SecretsRequired
      | UnsealedState CredentialsRefused \<Rightarrow> Inl DouglasSecretsFailed
      | UnsealedState (CredentialsAccepted i) \<Rightarrow>
          Inr (if top_up i = [] then [] else LoginAsDouglas # top_up i))"

section \<open>The steps\<close>

fun setup_step_name :: "setup_step \<Rightarrow> string" where
  "setup_step_name InitializeOpenBao = ''Initialize OpenBao''"
| "setup_step_name LoadUnsealCodes = ''Load unseal OpenBao''"
| "setup_step_name UnsealOpenBao = ''Unseal OpenBao''"
| "setup_step_name RecordSecrets = ''Record OpenBao secrets''"
| "setup_step_name (MountEngine KeyValueStore) = ''key value store''"
| "setup_step_name (MountEngine ManagedSecrets) = ''managed secrets''"
| "setup_step_name (MountEngine PublicKeyInfrastructure) = ''public key infrastructure''"
| "setup_step_name LoginAsDouglas = ''Log in as Douglas''"
| "setup_step_name ConfigureManagedSecrets = ''Configure managed secrets''"
| "setup_step_name EnableAppRoleAuth = ''Enable AppRole auth method''"
| "setup_step_name GenerateRootCA = ''Generate root CA''"
| "setup_step_name SetIssuingCRL = ''Set issuing/CRL URLs''"
| "setup_step_name ConfigureClusterPath = ''Configure cluster path''"
| "setup_step_name EnableAcme = ''Enable ACME''"
| "setup_step_name CreateAcmePkiRole = ''Create ACME PKI Role''"
| "setup_step_name CreateDouglasAppRolePolicy = ''Create Douglas App Role Policy''"
| "setup_step_name CreateDouglasAppRoleSecret = ''Create Douglas App Role Secret''"
| "setup_step_name StoreDouglasAppRoleCredentials = ''Store Douglas App Role Secret''"
| "setup_step_name RevokeAdminToken = ''Revoke root token''"

definition on_garden :: "('d, 'a) observing \<Rightarrow> ('d, 'a) setting_up" where
  "on_garden m x = (case m (su_garden x) of (r, g) \<Rightarrow> (r, x\<lparr>su_garden := g\<rparr>))"

definition updating :: "('d setup_context \<Rightarrow> 'd setup_context) \<Rightarrow> ('d, unit) setting_up" where
  "updating f x = (Inr (), f x)"

definition ask_bao :: "'d setup_tools \<Rightarrow> ('d, 'a) calling \<Rightarrow> ('d, 'a) setting_up" where
  "ask_bao T m = on_garden (on_engine SetupOpenBao (calls (s_show_bao T) m))"

definition needing :: "('d setup_context \<Rightarrow> 'b option) \<Rightarrow> ('b \<Rightarrow> ('d, 'a) setting_up) \<Rightarrow> ('d, 'a) setting_up" where
  "needing f m = and_then (gets f) (\<lambda>b. case b of None \<Rightarrow> fail SecretsRequired | Some b \<Rightarrow> m b)"

definition with_token :: "'d setup_tools \<Rightarrow> ('d bao_socket \<Rightarrow> string \<Rightarrow> ('d, 'a) calling) \<Rightarrow> ('d, 'a) setting_up" where
  "with_token T m = needing su_admin_token (\<lambda>token. ask_bao T (m (s_socket T) token))"

definition SECRET_SHARES :: nat where
  "SECRET_SHARES = 5"

definition SECRET_THRESHOLD :: nat where
  "SECRET_THRESHOLD = 3"

definition initialize_openbao_run :: "'d setup_tools \<Rightarrow> ('d, unit) setting_up" where
  "initialize_openbao_run T =
     and_then (ask_bao T (initialize_openbao (s_socket T) SECRET_SHARES SECRET_THRESHOLD)) (\<lambda>s.
       updating (\<lambda>x. x\<lparr>su_unseal_codes := Some (init_shares s), su_admin_token := Some (root_token s)\<rparr>))"

definition secret_from_base64 :: "'d setup_tools \<Rightarrow> string \<Rightarrow> setup_error + unseal_secret" where
  "secret_from_base64 T s =
     (case base64_decode (s_crypto T) s of
        None \<Rightarrow> Inl SetupBase64
      | Some b \<Rightarrow> Inr \<lparr>secret_key = s_hex T b, secret_base64 = s\<rparr>)"

definition newline :: char where
  "newline = CHR 0x0A"

definition load_unseal_codes_run :: "'d setup_tools \<Rightarrow> ('d, unit) setting_up" where
  "load_unseal_codes_run T =
     and_then (on_garden (on_disk SetupFile (reader_read_all (unseal_codes_path (s_folders T))))) (\<lambda>encrypted.
     and_then (gets su_identity) (\<lambda>cached.
     and_then (on_garden (on_disk SetupIdentity (decrypt (s_crypto T) cached Unseal encrypted))) (\<lambda>(plain, b).
     and_then (updating (\<lambda>x. x\<lparr>su_identity := Some b\<rparr>)) (\<lambda>_.
     and_then (of_result (collect_sum (secret_from_base64 T) (split_on newline plain))) (\<lambda>codes.
       updating (\<lambda>x. x\<lparr>su_unseal_codes := Some codes\<rparr>))))))"

definition unseal_run :: "'d setup_tools \<Rightarrow> ('d, unit) setting_up" where
  "unseal_run T = needing su_unseal_codes (\<lambda>codes. ask_bao T (unseal (s_socket T) (s_shuffle T) codes))"

definition record_codes :: "'d setup_tools \<Rightarrow> string option \<Rightarrow> unseal_secret list \<Rightarrow> (fs, setup_error, string) prog" where
  "record_codes T cached codes =
     (let p = unseal_codes_path (s_folders T)
      in and_then (gets (\<lambda>s. file_exists s p)) (\<lambda>present.
         and_then (if present then map_err SetupFile (deleter_delete p) else ok ()) (\<lambda>_.
         and_then (map_err SetupIdentity (encrypt (s_crypto T) cached (s_nonce_codes T) Unseal
             (join_with [newline] (map secret_base64 codes)))) (\<lambda>(encrypted, b).
         and_then (map_err SetupFile (writer_write_all p encrypted)) (\<lambda>_.
         and_then (map_err SetupFile (change_user_and_group_ownership p ''root'' ''root'')) (\<lambda>_.
         and_then (map_err SetupFile (change_mode p OwnerReadWrite)) (\<lambda>_. ok b)))))))"

definition record_secrets_run :: "'d setup_tools \<Rightarrow> ('d, unit) setting_up" where
  "record_secrets_run T =
     needing su_unseal_codes (\<lambda>codes.
     and_then (gets su_identity) (\<lambda>cached.
     and_then (on_garden (on_disk id (record_codes T cached codes))) (\<lambda>b.
       updating (\<lambda>x. x\<lparr>su_identity := Some b\<rparr>))))"

definition mount_engine :: "bao_mount \<Rightarrow> 'd bao_socket \<Rightarrow> string \<Rightarrow> ('d, unit) calling" where
  "mount_engine mt S token =
     and_then (is_mounted_at S token mt) (\<lambda>already. if already then ok () else create_mount S token mt)"

definition login_as_douglas_run :: "'d setup_tools \<Rightarrow> ('d, unit) setting_up" where
  "login_as_douglas_run T =
     and_then (gets su_identity) (\<lambda>cached.
     and_then (on_garden (map_err SetupAppRole (log_in (s_crypto T) cached (bao_of T) (s_folders T)))) (\<lambda>(token, b).
       updating (\<lambda>x. x\<lparr>su_admin_token := Some token, su_identity := Some b\<rparr>)))"

definition enable_app_role :: "'d bao_socket \<Rightarrow> string \<Rightarrow> ('d, unit) calling" where
  "enable_app_role S token =
     and_then (is_auth_method_enabled S token) (\<lambda>already. if already then ok () else enable_auth_method S token)"

definition ensure_root_ca :: "'d bao_socket \<Rightarrow> string \<Rightarrow> ('d, unit) calling" where
  "ensure_root_ca S token =
     and_then (root_ca_is_configured S token) (\<lambda>already.
       if already then ok () else and_then (generate_root_ca S token ''douglas'') (\<lambda>_. ok ()))"

definition DOUGLAS_APP_ROLE_NAME :: string where
  "DOUGLAS_APP_ROLE_NAME = ''douglas.cli''"

definition DOUGLAS_ADMIN_POLICY_NAME :: string where
  "DOUGLAS_ADMIN_POLICY_NAME = ''douglas-admin''"

definition mount_rights :: "bao_capability set" where
  "mount_rights = {CanCreate, CanRead, CanUpdate, CanSudo}"

definition douglas_admin_policy :: policy where
  "douglas_admin_policy =
     [(''sys/mounts'', {CanRead}), (''sys/auth'', {CanRead}),
      (''sys/mounts/kv'', mount_rights), (''sys/mounts/pki'', mount_rights), (''sys/mounts/douglas'', mount_rights),
      (''pki/*'', {CanCreate, CanRead, CanUpdate}),
      (''douglas/config'', {CanCreate, CanRead, CanUpdate}),
      (''douglas/data/*'', {CanCreate, CanRead, CanUpdate, CanDelete}),
      (''douglas/metadata/*'', {CanRead, CanUpdate, CanDelete, CanList}),
      (''sys/policies/acl/*'', {CanCreate, CanRead, CanUpdate, CanDelete}),
      (''auth/approle/role/*'', {CanCreate, CanRead, CanUpdate, CanDelete, CanList})]"

definition create_douglas_policy :: "'d bao_socket \<Rightarrow> string \<Rightarrow> ('d, unit) calling" where
  "create_douglas_policy S token =
     and_then (acl_upsert S token DOUGLAS_ADMIN_POLICY_NAME douglas_admin_policy) (\<lambda>_.
       role_create S token DOUGLAS_APP_ROLE_NAME [DOUGLAS_ADMIN_POLICY_NAME])"

definition create_douglas_secret_run :: "'d setup_tools \<Rightarrow> ('d, unit) setting_up" where
  "create_douglas_secret_run T =
     and_then (with_token T (\<lambda>S token.
       and_then (role_id_of S token DOUGLAS_APP_ROLE_NAME) (\<lambda>role.
       and_then (role_create_secret S token DOUGLAS_APP_ROLE_NAME) (\<lambda>secret. ok (role, secret))))) (\<lambda>(role, secret).
         updating (\<lambda>x. x\<lparr>su_role_id := Some role, su_secret_id := Some secret\<rparr>))"

definition store_credentials_run :: "'d setup_tools \<Rightarrow> ('d, unit) setting_up" where
  "store_credentials_run T =
     needing su_role_id (\<lambda>role. needing su_secret_id (\<lambda>secret.
     and_then (gets su_identity) (\<lambda>cached.
       on_garden (on_disk SetupAppRole
         (store (s_crypto T) cached (s_nonce_role T) (s_nonce_secret T) (s_folders T) role secret)))))"

fun setup_run :: "'d setup_tools \<Rightarrow> setup_step \<Rightarrow> ('d, unit) setting_up" where
  "setup_run T InitializeOpenBao = initialize_openbao_run T"
| "setup_run T LoadUnsealCodes = load_unseal_codes_run T"
| "setup_run T UnsealOpenBao = unseal_run T"
| "setup_run T RecordSecrets = record_secrets_run T"
| "setup_run T (MountEngine mt) = with_token T (mount_engine mt)"
| "setup_run T LoginAsDouglas = login_as_douglas_run T"
| "setup_run T ConfigureManagedSecrets = with_token T (\<lambda>S token. configure_kv S token ManagedSecrets kv_config_managed)"
| "setup_run T EnableAppRoleAuth = with_token T enable_app_role"
| "setup_run T GenerateRootCA = with_token T ensure_root_ca"
| "setup_run T SetIssuingCRL = with_token T (\<lambda>S token. set_issuing_crl S token base_url)"
| "setup_run T ConfigureClusterPath = with_token T (\<lambda>S token. set_cluster_url S token base_url)"
| "setup_run T EnableAcme = with_token T (\<lambda>S token. set_acme_enabled S token True)"
| "setup_run T CreateAcmePkiRole = with_token T (\<lambda>S token. create_pki_role S token ''traefik'' ''localhost'')"
| "setup_run T CreateDouglasAppRolePolicy = with_token T create_douglas_policy"
| "setup_run T CreateDouglasAppRoleSecret = create_douglas_secret_run T"
| "setup_run T StoreDouglasAppRoleCredentials = store_credentials_run T"
| "setup_run T RevokeAdminToken = with_token T revoke_self"

definition setup_openbao_with :: "'d setup_tools \<Rightarrow> setup_state \<Rightarrow> ('d, unit) setting_up" where
  "setup_openbao_with T st =
     run_plan (plain_ops setup_step_name (setup_run T) no_undo) (s_show T) (setup_plan st) SetupFailed"

text \<open>\<open>perform\<close>: whether it succeeded.\<close>

definition setup_openbao :: "'d setup_tools \<Rightarrow> 'd garden \<Rightarrow> bool \<times> 'd garden" where
  "setup_openbao T g =
     (case and_then (discover_setup T) (\<lambda>found.
             and_then (on_engine SetupOpenBao (s_connect T (openbao_socket_path (s_folders T)))) (\<lambda>_. ok found)) g of
        (Inl _, h) \<Rightarrow> (False, h)
      | (Inr (st, cached), h) \<Rightarrow>
          (case setup_openbao_with T st
             \<lparr>su_garden = h, su_identity = cached, su_unseal_codes = None, su_admin_token = None, su_role_id = None,
              su_secret_id = None\<rparr> of
             (r, x) \<Rightarrow> (\<not> isl r, su_garden x)))"

end
