(* ===== verification/OpenBaoSafety.thy ===== *)
theory OpenBaoSafety
  imports OpenBaoSetup
begin

text \<open>
  What setting up OpenBao guarantees and what it does not: what the policy of douglas lets it do, and what happens
  to an OpenBao that is found sealed.
\<close>

section \<open>What a policy permits\<close>

text \<open>
  The capabilities that OpenBao asks of a token for a request, as it documents them: a request without a token is
  not subject to any policy, a list is asked for at the path with a slash at its end, and a write creates or updates.
\<close>

definition wants_list :: "rest_request \<Rightarrow> bool" where
  "wants_list r \<longleftrightarrow> (''list'', ''true'') \<in> set (rest_query r)"

definition asked_path :: "rest_request \<Rightarrow> string" where
  "asked_path r = drop 4 (rest_path r) @ (if wants_list r then ''/'' else [])"

definition needed_capabilities :: "rest_request \<Rightarrow> bao_capability set" where
  "needed_capabilities r =
     (if map_of (rest_headers r) ''X-Vault-Token'' = None then {}
      else (case rest_method r of
              GetMethod \<Rightarrow> if wants_list r then {CanList} else {CanRead}
            | HeadMethod \<Rightarrow> {CanRead}
            | PostMethod \<Rightarrow> {CanCreate, CanUpdate}
            | PutMethod \<Rightarrow> {CanCreate, CanUpdate}
            | DeleteMethod \<Rightarrow> {CanDelete}))"

definition permitted :: "policy \<Rightarrow> rest_request \<Rightarrow> bool" where
  "permitted P r \<longleftrightarrow> needed_capabilities r \<subseteq> allowed P (asked_path r)"

text \<open>A server that holds every token to the policy.\<close>

definition guarded :: "policy \<Rightarrow> 'd bao_socket \<Rightarrow> 'd bao_socket" where
  "guarded P S = S\<lparr>sock_send := (\<lambda>r. if permitted P r then sock_send S r
     else ok (RestError [] 403 (Some ''permission denied'')))\<rparr>"

lemma guarded_json [simp]: "sock_json (guarded P S) = sock_json S"
  by (simp add: guarded_def)

lemma send_permitted: "permitted P r \<Longrightarrow> send (guarded P S) r = send S r"
  by (simp add: send_def guarded_def)

lemma send_refused: "\<not> permitted P r \<Longrightarrow> send (guarded P S) r = ok (RestError [] 403 (Some ''permission denied''))"
  by (simp add: send_def guarded_def map_err_def ok_def fun_eq_iff)

lemma parsed_unchanged: "parsed (guarded P S) f = parsed S f"
  by (simp add: fun_eq_iff parsed_def)

lemma reading_unchanged:
  "post_json (guarded P S) = post_json S" "read_okay (guarded P S) f = read_okay S f" "read_keys (guarded P S) = read_keys S"
  unfolding fun_eq_iff post_json_def read_okay_def read_keys_def parsed_unchanged guarded_json by simp_all

abbreviation douglas_guarded :: "'d bao_socket \<Rightarrow> 'd bao_socket" where
  "douglas_guarded S \<equiv> guarded douglas_admin_policy S"

lemma covered_folder: "covers (root @ ''*'') (root @ n)"
  by (simp add: covers_def)

lemma covered_itself: "last q \<noteq> CHR ''*'' \<Longrightarrow> covers q q"
  by (simp add: covers_def)

lemma allowed_by: "(pattern, caps) \<in> set P \<Longrightarrow> covers pattern q \<Longrightarrow> caps \<subseteq> allowed P q"
  by (force simp: allowed_def)

lemma permitted_by:
  "(pattern, caps) \<in> set P \<Longrightarrow> covers pattern (asked_path r) \<Longrightarrow> needed_capabilities r \<subseteq> caps \<Longrightarrow> permitted P r"
  unfolding permitted_def using allowed_by by blast

text \<open>The requests of douglas, by the entry of its policy that they come under.\<close>

lemmas request_defs =
  wants_list_def asked_path_def needed_capabilities_def get_from_def list_from_def delete_at_def post_to_def
  post_json_def open_bao_token_header_def content_type_json_def role_path_def APP_ROLE_def

lemma in_policy:
  "(''sys/mounts'', {CanRead}) \<in> set douglas_admin_policy"
  "(''sys/auth'', {CanRead}) \<in> set douglas_admin_policy"
  "(''sys/mounts/'' @ show_mount mt, mount_rights) \<in> set douglas_admin_policy"
  "(''pki/'' @ ''*'', {CanCreate, CanRead, CanUpdate}) \<in> set douglas_admin_policy"
  "(''douglas/config'', {CanCreate, CanRead, CanUpdate}) \<in> set douglas_admin_policy"
  "(''sys/policies/acl/'' @ ''*'', {CanCreate, CanRead, CanUpdate, CanDelete}) \<in> set douglas_admin_policy"
  "(''auth/approle/role/'' @ ''*'', {CanCreate, CanRead, CanUpdate, CanDelete, CanList}) \<in> set douglas_admin_policy"
  by (cases mt; simp add: douglas_admin_policy_def)+

lemma covered_pki: "covers (''pki/'' @ ''*'') (''pki/'' @ n)"
  and covered_acl: "covers (''sys/policies/acl/'' @ ''*'') (''sys/policies/acl/'' @ n)"
  and covered_role: "covers (''auth/approle/role/'' @ ''*'') (''auth/approle/role/'' @ n)"
  by (rule covered_folder)+

lemma permitted_pki:
  "asked_path r = ''pki/'' @ n \<Longrightarrow> needed_capabilities r \<subseteq> {CanCreate, CanRead, CanUpdate} \<Longrightarrow>
   permitted douglas_admin_policy r"
  using permitted_by [OF in_policy(4), of r] covered_pki by simp

lemma permitted_acl:
  "asked_path r = ''sys/policies/acl/'' @ n \<Longrightarrow> needed_capabilities r \<subseteq> {CanCreate, CanRead, CanUpdate, CanDelete} \<Longrightarrow>
   permitted douglas_admin_policy r"
  using permitted_by [OF in_policy(6), of r] covered_acl by simp

lemma permitted_role:
  "asked_path r = ''auth/approle/role/'' @ n \<Longrightarrow>
   needed_capabilities r \<subseteq> {CanCreate, CanRead, CanUpdate, CanDelete, CanList} \<Longrightarrow> permitted douglas_admin_policy r"
  using permitted_by [OF in_policy(7), of r] covered_role by simp

lemma permitted_exactly:
  "(q, caps) \<in> set douglas_admin_policy \<Longrightarrow> asked_path r = q \<Longrightarrow> last q \<noteq> CHR ''*'' \<Longrightarrow> needed_capabilities r \<subseteq> caps \<Longrightarrow>
   permitted douglas_admin_policy r"
  using permitted_by covered_itself by blast

lemma policy_requests:
  "acl_upsert (douglas_guarded S) token n p = acl_upsert S token n p"
  "acl_delete (douglas_guarded S) token n = acl_delete S token n"
  unfolding acl_upsert_def acl_delete_def reading_unchanged guarded_json
  by (subst send_permitted [OF permitted_acl [where n = n]]; simp add: request_defs)+

lemma role_requests:
  "role_exists (douglas_guarded S) token n = role_exists S token n"
  "role_create (douglas_guarded S) token n ps = role_create S token n ps"
  "role_id_of (douglas_guarded S) token n = role_id_of S token n"
  "role_create_secret (douglas_guarded S) token n = role_create_secret S token n"
  "list_secret_id_accessors (douglas_guarded S) token n = list_secret_id_accessors S token n"
  "destroy_secret_id_accessor (douglas_guarded S) token n a = destroy_secret_id_accessor S token n a"
  "delete_role (douglas_guarded S) token n = delete_role S token n"
  unfolding role_exists_def role_create_def role_id_of_def role_create_secret_def list_secret_id_accessors_def
    destroy_secret_id_accessor_def delete_role_def reading_unchanged guarded_json
  by (subst send_permitted [OF permitted_role]; force simp: request_defs)+

lemma list_requests:
  "list_roles (douglas_guarded S) token = list_roles S token"
  unfolding list_roles_def reading_unchanged
  by (subst send_permitted [OF permitted_role [where n = "[]"]]; simp add: request_defs)

lemma engine_requests:
  "list_mounts (douglas_guarded S) token = list_mounts S token"
  "create_mount (douglas_guarded S) token mt = create_mount S token mt"
  "list_auth_methods (douglas_guarded S) token = list_auth_methods S token"
  "configure_kv (douglas_guarded S) token ManagedSecrets c = configure_kv S token ManagedSecrets c"
proof -
  show "list_mounts (douglas_guarded S) token = list_mounts S token"
    unfolding list_mounts_def reading_unchanged
    by (subst send_permitted [OF permitted_exactly [OF in_policy(1)]]; simp add: request_defs)
  show "list_auth_methods (douglas_guarded S) token = list_auth_methods S token"
    unfolding list_auth_methods_def reading_unchanged
    by (subst send_permitted [OF permitted_exactly [OF in_policy(2)]]; simp add: request_defs)
  have "last (''sys/mounts/'' @ show_mount mt) \<noteq> CHR ''*''" by (cases mt) simp_all
  then show "create_mount (douglas_guarded S) token mt = create_mount S token mt"
    unfolding create_mount_def reading_unchanged guarded_json
    by (subst send_permitted [OF permitted_exactly [OF in_policy(3) [of mt]]]; simp add: request_defs mount_rights_def)
  show "configure_kv (douglas_guarded S) token ManagedSecrets c = configure_kv S token ManagedSecrets c"
    unfolding configure_kv_def reading_unchanged guarded_json
    by (subst send_permitted [OF permitted_exactly [OF in_policy(5)]]; simp add: request_defs)
qed

lemma pki_requests:
  "generate_root_ca (douglas_guarded S) token c = generate_root_ca S token c"
  "root_ca_is_configured (douglas_guarded S) token = root_ca_is_configured S token"
  "set_issuing_crl (douglas_guarded S) token url = set_issuing_crl S token url"
  "set_cluster_url (douglas_guarded S) token url = set_cluster_url S token url"
  "set_acme_enabled (douglas_guarded S) token b = set_acme_enabled S token b"
  "is_acme_enabled (douglas_guarded S) token = is_acme_enabled S token"
  "create_pki_role (douglas_guarded S) token q ds = create_pki_role S token q ds"
  "pki_role_exists (douglas_guarded S) token q = pki_role_exists S token q"
  unfolding generate_root_ca_def root_ca_is_configured_def set_issuing_crl_def set_cluster_url_def set_acme_enabled_def
    is_acme_enabled_def create_pki_role_def pki_role_exists_def reading_unchanged guarded_json
  by (subst send_permitted [OF permitted_pki]; force simp: request_defs)+

text \<open>Requests without a token.\<close>

lemma open_requests:
  "log_in_as (guarded P S) role secret = log_in_as S role secret" "bao_status (guarded P S) = bao_status S"
  unfolding log_in_as_def bao_status_def reading_unchanged guarded_json
  by (subst send_permitted; simp add: permitted_def request_defs)+

lemmas guarded_requests =
  policy_requests role_requests list_requests engine_requests pki_requests open_requests

lemma composed_requests:
  "is_mounted_at (douglas_guarded S) token mt = is_mounted_at S token mt"
  "mount_engine mt (douglas_guarded S) token = mount_engine mt S token"
  "ensure_root_ca (douglas_guarded S) token = ensure_root_ca S token"
  "is_auth_method_enabled (douglas_guarded S) token = is_auth_method_enabled S token"
  unfolding is_mounted_at_def mount_engine_def ensure_root_ca_def is_auth_method_enabled_def guarded_requests by simp_all

lemma policies_refused:
  "acl_list (douglas_guarded S) token = fail (ClientResponseError (AssertUnexpected 403 (Some ''permission denied'') ''non successful response''))"
proof -
  have "\<not> permitted douglas_admin_policy (list_from ''/v1/sys/policies/acl'' token)"
    by (simp add: permitted_def request_defs allowed_def douglas_admin_policy_def covers_def mount_rights_def)
  then show ?thesis
    by (simp add: acl_list_def send_refused fun_eq_iff and_then_Inr ok_run read_keys_def assert_okay_with_body_def
        with_body_def assert_okay_def not_successful_def)
qed

lemma guarded_client:
  "socket_client (douglas_guarded S) show_error connect =
     (socket_client S show_error connect)\<lparr>bao_list_policies := (\<lambda>token. calls show_error (acl_list (douglas_guarded S) token))\<rparr>"
  by (simp add: socket_client_def guarded_requests composed_requests)

section \<open>What douglas may do\<close>

definition guarded_tools :: "'d setup_tools \<Rightarrow> 'd setup_tools" where
  "guarded_tools T = T\<lparr>s_socket := douglas_guarded (s_socket T)\<rparr>"

lemma guarded_provisioning:
  "provision (socket_client (douglas_guarded S) show_error connect) = provision (socket_client S show_error connect)"
  "revoke (socket_client (douglas_guarded S) show_error connect) = revoke (socket_client S show_error connect)"
  "installed (socket_client (douglas_guarded S) show_error connect) = installed (socket_client S show_error connect)"
  by (simp_all add: fun_eq_iff guarded_client provision_def revoke_def installed_def cong del: if_weak_cong)

lemma guarded_login:
  "log_in C cached (socket_client (douglas_guarded S) show_error connect) d = log_in C cached (socket_client S show_error connect) d"
  by (simp add: log_in_def guarded_client)

lemma guarded_step:
  assumes "k \<in> set (LoginAsDouglas # top_up i)" and "k \<noteq> EnableAppRoleAuth"
  shows "setup_run (guarded_tools T) k = setup_run T k"
proof -
  have token: "with_token (guarded_tools T) m' = with_token T m"
    if "\<And>token. m' (douglas_guarded (s_socket T)) token = m (s_socket T) token" for m m'
    unfolding with_token_def guarded_tools_def ask_bao_def by (simp add: that)
  show ?thesis
    using assms
    by (auto simp: top_up_def managed_secrets_setup_def guarded_requests composed_requests login_as_douglas_run_def
        guarded_login bao_of_def guarded_tools_def intro!: token [unfolded guarded_tools_def] split: if_splits)
qed


text \<open>
  C34: The policy does not let douglas list policies, so the search for deadwood never sees any: under a server that
  holds douglas to its policy it finds the secrets of the roles that are left, as if there were no policies at all.
\<close>

theorem orphaned_policies_are_never_found:
  "list_openbao_secret_names T C (socket_client (guarded douglas_admin_policy S) show_error connect) =
   list_openbao_secret_names T C ((socket_client S show_error connect)\<lparr>bao_list_policies := (\<lambda>token. ok [])\<rparr>)"
proof -
  let ?B = "socket_client S show_error connect"
  have refused: "or_default [] (bao_list_policies (socket_client (guarded douglas_admin_policy S) show_error connect) token) =
      or_default [] (ok [])" for token :: string
    by (simp add: guarded_client policies_refused calls_def or_default_def fun_eq_iff and_then_def attempt_def on_engine_def
        map_err_def fail_def ok_def)
  have entered: "open_bao C (socket_client (guarded douglas_admin_policy S) show_error connect) d = open_bao C ?B d"
    "open_bao C (?B\<lparr>bao_list_policies := (\<lambda>token. ok [])\<rparr>) d = open_bao C ?B d" for d
    by (simp_all add: open_bao_def log_in_def guarded_client)
  have roles: "bao_list_auth_roles (socket_client (guarded douglas_admin_policy S) show_error connect) = bao_list_auth_roles ?B"
    by (simp add: guarded_client)
  show ?thesis unfolding list_openbao_secret_names_def entered refused roles by simp
qed

section \<open>An OpenBao that is found sealed\<close>

named_theorems setup_intros \<open>what a part of setting up OpenBao keeps\<close>

abbreviation tokenless :: "'d setup_context \<Rightarrow> bool" where
  "tokenless x \<equiv> su_admin_token x = None"

lemma tokenless_on_garden [setup_intros]: "keeps tokenless (on_garden m)"
  by (auto simp: keeps_def on_garden_def split: prod.split)

lemma keeps_updating [setup_intros]: "(\<And>x. I x \<Longrightarrow> I (f x)) \<Longrightarrow> keeps I (updating f)"
  by (simp add: keeps_def updating_def)

lemma keeps_needing [setup_intros]: "(\<And>b. keeps I (m b)) \<Longrightarrow> keeps I (needing f m)"
  unfolding needing_def by (intro keeps_intros) (auto intro: keeps_intros split: option.split)

lemma tokenless_steps:
  "keeps tokenless (setup_run T LoadUnsealCodes)" "keeps tokenless (setup_run T UnsealOpenBao)"
  "keeps tokenless (setup_run T RecordSecrets)"
proof -
  show "keeps tokenless (setup_run T LoadUnsealCodes)"
    unfolding setup_run.simps load_unseal_codes_run_def
    by (intro keeps_intros setup_intros; clarsimp split: prod.splits; intro keeps_intros setup_intros; simp)
  show "keeps tokenless (setup_run T UnsealOpenBao)" "keeps tokenless (setup_run T RecordSecrets)"
    unfolding setup_run.simps unseal_run_def record_secrets_run_def ask_bao_def
    by (intro keeps_intros setup_intros; simp)+
qed

lemma without_token: "tokenless x \<Longrightarrow> with_token T m x = (Inl SecretsRequired, x)"
  by (simp add: with_token_def needing_def prog_simps)

lemma for_each_Cons_Inr:
  "for_each f (k # ks) x = (Inr (), y) \<longleftrightarrow> (\<exists>x1. f k x = (Inr (), x1) \<and> for_each f ks x1 = (Inr (), y))"
  by (auto simp: and_then_def split: prod.splits sum.splits)

lemma sealed_plan_fails:
  assumes "tokenless x"
  shows "isl (fst (setup_openbao_with T (SealedState b) x))"
proof -
  obtain r y where run: "setup_openbao_with T (SealedState b) x = (r, y)" by (cases "setup_openbao_with T (SealedState b) x") auto
  have False if "r = Inr ()"
  proof -
    from run [unfolded that] obtain steps where steps: "setup_plan (SealedState b) = Inr steps" "for_each (setup_run T) steps x = (Inr (), y)"
      unfolding setup_openbao_with_def plain_plan_Inr by blast
    then have "for_each (setup_run T) ([LoadUnsealCodes, UnsealOpenBao, RecordSecrets] @ full_setup) x = (Inr (), y)"
      by (cases b) (simp_all add: setup_plan_def del: for_each.simps)
    then obtain x1 x2 x3 where s: "setup_run T LoadUnsealCodes x = (Inr (), x1)" "setup_run T UnsealOpenBao x1 = (Inr (), x2)"
        "setup_run T RecordSecrets x2 = (Inr (), x3)" "for_each (setup_run T) full_setup x3 = (Inr (), y)"
      unfolding append_Cons append_Nil for_each_Cons_Inr by blast
    have "tokenless x3"
      by (rule keeps_result [OF tokenless_steps(3) _ s(3)], rule keeps_result [OF tokenless_steps(2) _ s(2)],
          rule keeps_result [OF tokenless_steps(1) assms s(1)])
    then have "setup_run T (MountEngine KeyValueStore) x3 = (Inl SecretsRequired, x3)" by (simp add: without_token)
    with s(4) show False unfolding full_setup_def append_Cons append_Nil for_each_Cons_Inr by (simp del: for_each.simps setup_run.simps)
  qed
  with run show ?thesis by (cases r) auto
qed

text \<open>
  C20: A start of douglas that finds OpenBao sealed never succeeds: the plan unseals it and then goes through the whole
  setup, for which the token of an administrator is needed, and nothing in the plan gets one.
\<close>

theorem sealed_start_never_succeeds:
  assumes "discover_setup T g = (Inr (SealedState b, cached), h)"
  shows "\<not> fst (setup_openbao T g)"
proof -
  have failed: "isl r" if "setup_openbao_with T (SealedState b) x = (r, y)" and "tokenless x" for x r y
    using sealed_plan_fails [OF that(2), of T b] that(1) by simp
  show ?thesis
    using assms by (auto simp: setup_openbao_def and_then_def ok_def dest!: failed split: prod.splits sum.splits)
qed

section \<open>The codes for unsealing\<close>

text \<open>Nobody else writes while douglas waits.\<close>

definition undisturbed :: "'d setup_tools \<Rightarrow> bool" where
  "undisturbed T \<longleftrightarrow> (\<forall>n g. disk (snd (s_bract_status T n g)) = disk g) \<and> (\<forall>g. disk (s_sleep T g) = disk g)"

lemma undisturbed_keeps:
  assumes "undisturbed T"
  shows "keeps (\<lambda>g. disk g = t) (openbao_is_running T)"
  using assms unfolding openbao_is_running_def undisturbed_def
  by (intro keeps_intros) (auto simp: keeps_def)

lemma disk_asked [setup_intros]: "keeps (\<lambda>x. disk (su_garden x) = t) (ask_bao T m)"
  by (auto simp: keeps_def ask_bao_def on_garden_def on_engine_def split: prod.split)

lemma disk_before_recording:
  "keeps (\<lambda>x. disk (su_garden x) = t) (initialize_openbao_run T)"
  "keeps (\<lambda>x. disk (su_garden x) = t) (unseal_run T)"
  unfolding initialize_openbao_run_def unseal_run_def by (intro keeps_intros setup_intros; simp)+

lemma observed_seal: "observe T seal a c g = (Inr (SealedState b, cached), h) \<Longrightarrow> b = c"
  by (auto simp: observe_def prog_simps elim!: and_then_InrE split: seal_state.splits if_splits sum.splits prod.splits)

lemma guarded_InrE:
  assumes "(if \<not> a then ok x else m) s = (Inr z, h)" and "z \<noteq> x"
  obtains a and "m s = (Inr z, h)"
  using assms by (cases a) (auto simp: ok_run)

lemma discovered_seal:
  assumes "undisturbed T" and "discover_setup T g = (Inr (SealedState b, cached), h)"
  shows "b = file_exists (disk g) (unseal_codes_path (s_folders T))"
proof -
  obtain running g1 where one: "openbao_is_running T g = (Inr running, g1)" and "running"
    by (insert assms(2) [unfolded discover_setup_def], erule and_then_InrE, erule guarded_InrE, simp, rule that)
  have same: "disk g1 = disk g" by (rule keeps_result [OF undisturbed_keeps [OF assms(1)] refl one])
  define found where "found = file_exists (disk g1) (unseal_codes_path (s_folders T))"
  have "(and_then (eventually_exists 5 T (openbao_socket_path (s_folders T))) (\<lambda>socket_exists.
         and_then (on_engine SetupOpenBao (s_connect T (openbao_socket_path (s_folders T)))) (\<lambda>_.
         and_then (ask_status 5 T) (\<lambda>seal.
         and_then (observe T seal (available (s_folders T) (disk g1)) found) (\<lambda>(state, cached).
           ok (if socket_exists then state else NotRunningState, cached)))))) g1 = (Inr (SealedState b, cached), h)"
    using assms(2) \<open>running\<close> unfolding discover_setup_def and_then_Inr [where m = "openbao_is_running T", OF one] found_def
    by (simp add: and_then_Inr [where m = "gets f" for f, OF gets_run])
  then have "b = found"
    by (elim and_then_InrE; clarsimp simp: ok_run split: if_splits) (auto dest: observed_seal)
  with same show ?thesis by (simp add: found_def)
qed

text \<open>
  C29: When OpenBao was initialized and unsealing it fails, the codes are gone: they were never written, nothing on the
  disk has changed, and every later start that finds this OpenBao sealed has no plan for want of codes.
\<close>

theorem failed_unsealing_loses_the_codes:
  assumes "undisturbed T" and "\<not> file_exists (disk (su_garden x)) (unseal_codes_path (s_folders T))"
    and "setup_run T InitializeOpenBao x = (Inr (), x1)" and "setup_run T UnsealOpenBao x1 = (Inl e, x2)"
    and "setup_openbao_with T UninitializedState x = (r, y)"
    and "disk g = disk (su_garden y)" and "discover_setup T g = (Inr (SealedState b, cached), h)"
  shows "isl r \<and> disk (su_garden y) = disk (su_garden x) \<and> setup_plan (SealedState b) = Inl NoUnsealCodes"
proof -
  let ?ops = "plain_ops setup_step_name (setup_run T) no_undo"
  have first_step: "completes ?ops x [InitializeOpenBao] [InitializeOpenBao] x1"
    using assms(3) by (simp add: plain_completes and_then_Inr ok_run del: setup_run.simps)
  have broken: "step_fails ?ops x1 UnsealOpenBao e x2"
    using assms(4) by (simp add: step_fails_def del: setup_run.simps)
  have undo: "undo_all ?ops ks c = ([], c)" for ks c
    by (rule plain_undo_nothing) (simp add: no_undo_def)
  have "executor_run ?ops [] x ([InitializeOpenBao] @ UnsealOpenBao # RecordSecrets # full_setup) =
      (Failed 1 ''Unseal OpenBao'' e [], [], x2)"
    unfolding run_failure [OF first_step broken] by (simp add: undo del: undo_all.simps)
  with assms(5) have "(r, y) = (Inl (SetupFailed [failure_reason (s_show T) 1 ''Unseal OpenBao'' e]), x2)"
    by (simp add: setup_openbao_with_def run_plan_def execute_plan_def setup_plan_def del: setup_run.simps)
  then have y: "isl r" "y = x2" by auto
  have "disk (su_garden x2) = disk (su_garden x)"
    by (rule keeps_result [OF disk_before_recording(2) _ assms(4) [unfolded setup_run.simps]],
        rule keeps_result [OF disk_before_recording(1) refl assms(3) [unfolded setup_run.simps]])
  with y assms(2,6) discovered_seal [OF assms(1,7)] show ?thesis by (simp add: setup_plan_def)
qed

section \<open>A small OpenBao\<close>

text \<open>It is sealed and takes no keys; its answers are the names of the values they stand for.\<close>

fun small_value :: "string \<Rightarrow> json_value option" where
  "small_value s =
     (if s = ''sealed'' then Some (Fields
        [(''initialized'', Flag True), (''sealed'', Flag True), (''standby'', Flag False),
         (''replication_performance_mode'', Text ''disabled''), (''replication_dr_mode'', Text ''disabled''),
         (''server_time_utc'', Number 0), (''version'', Text ''2'')])
      else if s = ''not initialized'' then Some (Fields [(''initialized'', Flag False)])
      else if s = ''secrets'' then Some (Fields
        [(''keys'', Items [Text ''61'']), (''keys_base64'', Items [Text ''YQ'']), (''root_token'', Text ''t'')])
      else None)"

definition printed :: "json_value \<Rightarrow> string" where
  "printed j = []"

definition small_answer :: "rest_request \<Rightarrow> rest_response" where
  "small_answer r =
     (if rest_path r = ''/v1/sys/health'' then RestOkay [] (Some ''sealed'')
      else if rest_path r = ''/v1/sys/init''
      then (case rest_method r of GetMethod \<Rightarrow> RestOkay [] (Some ''not initialized'') | _ \<Rightarrow> RestOkay [] (Some ''secrets''))
      else RestError [] 500 None)"

definition answering :: "rest_request \<Rightarrow> (unit, string, rest_response) prog" where
  "answering r = ok (small_answer r)"

definition connected :: "path \<Rightarrow> (unit, string, unit) prog" where
  "connected p = ok ()"

definition running_status :: "name \<Rightarrow> (unit garden, string, run_status) prog" where
  "running_status n = ok (StatusRunning DefinitionCurrent)"

definition nameless :: "'e \<Rightarrow> string" where
  "nameless e = ''failed''"

definition small_setup :: "unit setup_tools" where
  "small_setup =
     \<lparr>s_regex = table_regex, s_folders = douglas_folders_new, s_crypto = open_crypto, s_hex = id,
      s_socket = \<lparr>sock_send = answering, sock_json = \<lparr>parse_json = small_value, show_json = printed\<rparr>\<rparr>,
      s_connect = connected, s_show_bao = nameless, s_shuffle = id, s_bract_status = running_status, s_sleep = id,
      s_nonce_codes = ''nonce-nonce1'', s_nonce_role = ''nonce-nonce2'', s_nonce_secret = ''nonce-nonce3'',
      s_show = nameless\<rparr>"

definition host_with :: "path list \<Rightarrow> unit garden" where
  "host_with ps =
     \<lparr>disk = \<lparr>nodes = map (\<lambda>p. (p, File root_meta [])) ps, outcomes = [], creator = root_meta, known_users = [],
         known_groups = []\<rparr>,
      people = \<lparr>passwd = [], groups = []\<rparr>, engine = (), wire = []\<rparr>"

definition beginning :: "unit setup_context" where
  "beginning = \<lparr>su_garden = host_with [openbao_socket_path douglas_folders_new], su_identity = None, su_unseal_codes = None,
     su_admin_token = None, su_role_id = None, su_secret_id = None\<rparr>"

definition state_of :: "(setup_error + setup_state \<times> string option) \<times> unit garden \<Rightarrow> setup_state option" where
  "state_of r = (case fst r of Inl _ \<Rightarrow> None | Inr (st, _) \<Rightarrow> Some st)"

lemma state_ofE:
  assumes "state_of (discover_setup T g) = Some st"
  obtains cached h where "discover_setup T g = (Inr (st, cached), h)"
  using assms by (cases "discover_setup T g") (auto simp: state_of_def split: sum.splits)

theorem sealed_start_never_succeeds_witness:
  "\<not> fst (setup_openbao small_setup
     (host_with [openbao_socket_path douglas_folders_new, unseal_codes_path douglas_folders_new]))" (is "\<not> fst (setup_openbao _ ?g)")
proof -
  have "state_of (discover_setup small_setup ?g) = Some (SealedState True)" by code_simp
  then obtain cached h where "discover_setup small_setup ?g = (Inr (SealedState True, cached), h)" by (rule state_ofE)
  then show ?thesis by (rule sealed_start_never_succeeds)
qed

theorem failed_unsealing_loses_the_codes_witness:
  "isl (fst (setup_openbao_with small_setup UninitializedState beginning)) \<and>
   disk (su_garden (snd (setup_openbao_with small_setup UninitializedState beginning))) = disk (su_garden beginning) \<and>
   setup_plan (SealedState False) = Inl NoUnsealCodes"
proof -
  let ?run = "setup_openbao_with small_setup UninitializedState beginning"
  let ?one = "setup_run small_setup InitializeOpenBao beginning"
  let ?two = "setup_run small_setup UnsealOpenBao (snd ?one)"
  have "state_of (discover_setup small_setup (su_garden (snd ?run))) = Some (SealedState False)" by code_simp
  then obtain cached h where found: "discover_setup small_setup (su_garden (snd ?run)) = (Inr (SealedState False, cached), h)"
    by (rule state_ofE)
  have "fst ?one = Inr ()" by code_simp
  then have one: "?one = (Inr (), snd ?one)" by (metis prod.collapse)
  have "isl (fst ?two)" by code_simp
  then obtain e where two: "?two = (Inl e, snd ?two)" by (metis isl_def prod.collapse)
  show ?thesis
  proof (rule failed_unsealing_loses_the_codes [OF _ _ one two _ refl found])
    show "undisturbed small_setup" by (simp add: undisturbed_def small_setup_def running_status_def ok_def)
    show "\<not> file_exists (disk (su_garden beginning)) (unseal_codes_path (s_folders small_setup))" by code_simp
  qed simp
qed

end
