(* ===== verification/DockerRequests.thy ===== *)
theory DockerRequests
  imports SeedlingSecrets
begin

text \<open>
  The client of docker (docker/src/client.rs, docker/src/commands, the JSON of docker_types/src/lib.rs): the request
  of every operation and how its answer is read.  What answers is the docker engine, behind \<open>dock_send\<close>; JSON, the
  quoting of a shell, the encoding of URLs and the reading of a point in time are libraries.  \<open>socket_docker\<close> and
  \<open>socket_exec\<close> are the clients that the rest of the development is given.
\<close>

section \<open>Sending and reading\<close>

text \<open>The wording of the errors of the JSON library is the one text \<open>dock_unreadable\<close>.\<close>

record 'd docker_socket =
  dock_send :: "('d, rest_response) sender"
  dock_json :: json_tools
  dock_regex :: regex
  dock_urlencode :: "string \<Rightarrow> string"
  dock_shlex_split :: "string \<Rightarrow> string list option"
  dock_shlex_join :: "string list \<Rightarrow> string option"
  dock_parse_time :: "string \<Rightarrow> int option"
  dock_show_assertion :: "assertion_error \<Rightarrow> string"
  dock_show_name_error :: "refined_error \<Rightarrow> string"
  dock_unreadable :: string

type_synonym ('d, 'a) docking = "('d, docker_error, 'a) prog"

definition execute :: "'d docker_socket \<Rightarrow> rest_request \<Rightarrow> ('d, rest_response) docking" where
  "execute S r = map_err GeneralError (dock_send S r)"

text \<open>\<open>From<AssertionError> for DockerError\<close>.\<close>

definition docker_error_of :: "'d docker_socket \<Rightarrow> assertion_error \<Rightarrow> docker_error" where
  "docker_error_of S e = (case e of AssertNotFound \<Rightarrow> ResourceNotFound | _ \<Rightarrow> GeneralError (dock_show_assertion S e))"

definition asserted :: "'d docker_socket \<Rightarrow> assertion_error + 'a \<Rightarrow> ('d, 'a) docking" where
  "asserted S r = map_err (docker_error_of S) (of_result r)"

definition readable :: "'d docker_socket \<Rightarrow> 'a option \<Rightarrow> ('d, 'a) docking" where
  "readable S x = (case x of None \<Rightarrow> fail (GeneralError (dock_unreadable S)) | Some a \<Rightarrow> ok a)"

definition json_of :: "'d docker_socket \<Rightarrow> string \<Rightarrow> ('d, json_value) docking" where
  "json_of S body = readable S (parse_json (dock_json S) body)"

definition docker_get :: "string \<Rightarrow> rest_request" where
  "docker_get p = \<lparr>rest_method = GetMethod, rest_path = p, rest_headers = [], rest_body = None, rest_query = []\<rparr>"

definition docker_delete_at :: "string \<Rightarrow> rest_request" where
  "docker_delete_at p = \<lparr>rest_method = DeleteMethod, rest_path = p, rest_headers = [], rest_body = None, rest_query = []\<rparr>"

definition docker_post :: "string \<Rightarrow> rest_request" where
  "docker_post p = \<lparr>rest_method = PostMethod, rest_path = p, rest_headers = [], rest_body = None, rest_query = []\<rparr>"

definition docker_post_json :: "'d docker_socket \<Rightarrow> string \<Rightarrow> json_value \<Rightarrow> rest_request" where
  "docker_post_json S p body =
     \<lparr>rest_method = PostMethod, rest_path = p, rest_headers = [content_type_json],
      rest_body = Some (show_json (dock_json S) body), rest_query = []\<rparr>"

text \<open>A request whose answer is okay, with a body in JSON.\<close>

definition asking_json :: "'d docker_socket \<Rightarrow> rest_request \<Rightarrow> ('d, json_value) docking" where
  "asking_json S r =
     and_then (execute S r) (\<lambda>response. and_then (asserted S (assert_okay_with_body response)) (json_of S))"

definition docker_ping :: "'d docker_socket \<Rightarrow> ('d, unit) docking" where
  "docker_ping S =
     and_then (execute S (docker_get ''/_ping'')) (\<lambda>response.
     and_then (asserted S (assert_okay_with_body response)) (\<lambda>body.
       if body = ''OK'' then ok () else fail (PingFailed body)))"

section \<open>Reading JSON\<close>

text \<open>The values of \<open>DockerTypes\<close>, which tell numbers and booleans apart from strings only.\<close>

fun untyped :: "json_value \<Rightarrow> json" where
  "untyped NullValue = JsonNull"
| "untyped (Flag b) = JsonScalar"
| "untyped (Number i) = JsonScalar"
| "untyped (Text s) = JsonString s"
| "untyped (Items js) = JsonArray (map untyped js)"
| "untyped (Fields fs) = JsonObject (map (\<lambda>(k, v). (k, untyped v)) fs)"

definition as_labels :: "regex \<Rightarrow> json_value \<Rightarrow> label list option" where
  "as_labels im j = (case deserialize_labels im (untyped j) of Inl _ \<Rightarrow> None | Inr ls \<Rightarrow> Some ls)"

definition as_environment :: "regex \<Rightarrow> json_value \<Rightarrow> env_var list option" where
  "as_environment im j = (case deserialize_environment_variables im (untyped j) of Inl _ \<Rightarrow> None | Inr vs \<Rightarrow> Some vs)"

definition as_content_id :: "json_value \<Rightarrow> content_id option" where
  "as_content_id j = map_option deserialize_id (as_text j)"

fun as_signed :: "nat \<Rightarrow> json_value \<Rightarrow> int option" where
  "as_signed bits (Number i) = (if - (2 ^ (bits - 1)) \<le> i \<and> i < 2 ^ (bits - 1) then Some i else None)"
| "as_signed _ _ = None"

definition as_list :: "(json_value \<Rightarrow> 'a option) \<Rightarrow> json_value \<Rightarrow> 'a list option" where
  "as_list f j = (case j of Items js \<Rightarrow> those (map f js) | _ \<Rightarrow> None)"

text \<open>An \<open>Option\<close>: null is nothing.  A field that is an option may be missing, unless a function reads it.\<close>

definition as_option :: "(json_value \<Rightarrow> 'a option) \<Rightarrow> json_value \<Rightarrow> 'a option option" where
  "as_option f j = (if j = NullValue then Some None else map_option Some (f j))"

definition read_optional :: "string \<Rightarrow> (json_value \<Rightarrow> 'a option) \<Rightarrow> json_value \<Rightarrow> 'a option option" where
  "read_optional k f j = (case field k j of None \<Rightarrow> Some None | Some v \<Rightarrow> as_option f v)"

definition as_command :: "'d docker_socket \<Rightarrow> json_value \<Rightarrow> string option option" where
  "as_command S j = as_option (\<lambda>v. Option.bind (as_texts v) (dock_shlex_join S)) j"

text \<open>The names of the fields of an object, none of null; \<open>default\<close> makes a missing field an empty list.\<close>

definition as_names :: "json_value \<Rightarrow> string list option" where
  "as_names j = (case j of NullValue \<Rightarrow> Some [] | Fields fs \<Rightarrow> Some (map fst fs) | _ \<Rightarrow> None)"

definition read_names :: "string \<Rightarrow> json_value \<Rightarrow> string list option" where
  "read_names k j = (case field k j of None \<Rightarrow> Some [] | Some v \<Rightarrow> as_names v)"

definition as_docker_status :: "json_value \<Rightarrow> docker_status option" where
  "as_docker_status j =
     Option.bind (as_text j) (\<lambda>s. map_of
       [(''created'', docker_status.Created), (''running'', docker_status.Running), (''paused'', docker_status.Paused),
        (''restarting'', docker_status.Restarting), (''removing'', docker_status.Removing), (''exited'', docker_status.Exited),
        (''dead'', docker_status.Dead)] s)"

datatype health_status = HealthStarting | HealthHealthy | HealthUnhealthy | HealthNone

definition as_health_status :: "json_value \<Rightarrow> health_status option" where
  "as_health_status j =
     Option.bind (as_text j) (\<lambda>s. map_of
       [(''starting'', HealthStarting), (''healthy'', HealthHealthy), (''unhealthy'', HealthUnhealthy), (''none'', HealthNone)] s)"

definition as_capability :: "json_value \<Rightarrow> capability option" where
  "as_capability j =
     Option.bind (as_text j) (\<lambda>s. if s = ''IPC_LOCK'' then Some IpcLock else if s = ''CAP_CHOWN'' then Some Chown else None)"

section \<open>Images\<close>

record docker_healthcheck =
  hc_test :: "string list"
  hc_interval :: int
  hc_timeout :: int
  hc_retries :: int
  hc_start_period :: int

record image_definition =
  id_id :: content_id
  id_created :: string
  id_architecture :: string
  id_exposed_ports :: "string list"
  id_environment :: "env_var list"
  id_command :: "string option"
  id_health_check :: "docker_healthcheck option"
  id_volumes :: "string list"
  id_working_dir :: string
  id_entrypoint :: "string option"
  id_labels :: "label list"

definition as_healthcheck :: "json_value \<Rightarrow> docker_healthcheck option" where
  "as_healthcheck j =
     Option.bind (read_field ''Test'' as_texts j) (\<lambda>test.
     Option.bind (read_field ''Interval'' (as_signed 64) j) (\<lambda>interval.
     Option.bind (read_field ''Timeout'' (as_signed 64) j) (\<lambda>timeout.
     Option.bind (read_field ''Retries'' (as_signed 64) j) (\<lambda>retries.
     Option.bind (read_field ''StartPeriod'' (as_signed 64) j) (\<lambda>start_period.
       Some \<lparr>hc_test = test, hc_interval = interval, hc_timeout = timeout, hc_retries = retries,
             hc_start_period = start_period\<rparr>)))))"

text \<open>\<open>InspectedImage\<close>, and the definition that is made of it.\<close>

definition as_image :: "'d docker_socket \<Rightarrow> json_value \<Rightarrow> image_definition option" where
  "as_image S j =
     Option.bind (read_field ''Id'' as_content_id j) (\<lambda>i.
     Option.bind (read_field ''Created'' as_text j) (\<lambda>created.
     Option.bind (read_field ''Architecture'' as_text j) (\<lambda>architecture.
     Option.bind (field ''Config'' j) (\<lambda>c.
     Option.bind (read_names ''ExposedPorts'' c) (\<lambda>ports.
     Option.bind (read_field ''Env'' (as_environment (dock_regex S)) c) (\<lambda>env.
     Option.bind (read_field ''Cmd'' (as_command S) c) (\<lambda>cmd.
     Option.bind (read_optional ''Healthcheck'' as_healthcheck c) (\<lambda>health.
     Option.bind (read_names ''Volumes'' c) (\<lambda>volumes.
     Option.bind (read_field ''WorkingDir'' as_text c) (\<lambda>working_dir.
     Option.bind (read_field ''Entrypoint'' (as_command S) c) (\<lambda>entrypoint.
     Option.bind (read_field ''Labels'' (as_labels (dock_regex S)) c) (\<lambda>ls.
       Some \<lparr>id_id = i, id_created = created, id_architecture = architecture, id_exposed_ports = ports,
             id_environment = env, id_command = cmd, id_health_check = health, id_volumes = volumes,
             id_working_dir = working_dir, id_entrypoint = entrypoint, id_labels = ls\<rparr>))))))))))))"

definition image_inspect :: "'d docker_socket \<Rightarrow> content_id \<Rightarrow> ('d, image_definition) docking" where
  "image_inspect S i =
     and_then (asking_json S (docker_get (''/images/'' @ show_content_id i @ ''/json''))) (\<lambda>j. readable S (as_image S j))"

datatype image_ref = ImageTarget pull_target | ImageById docker_id

definition image_reference_text :: "string \<Rightarrow> pull_target \<Rightarrow> string" where
  "image_reference_text registry target = registry @ ''/'' @ pull_version_formatted_name target"

text \<open>\<open>{"key":["value"]}\<close>, as the parameter \<open>filters\<close> of a list.\<close>

definition filters_text :: "'d docker_socket \<Rightarrow> string \<Rightarrow> string \<Rightarrow> string" where
  "filters_text S key value = show_json (dock_json S) (Fields [(key, Items [Text value])])"

definition list_path :: "'d docker_socket \<Rightarrow> string \<Rightarrow> string \<Rightarrow> string \<Rightarrow> string" where
  "list_path S p key value =
     create_path_and_query_string (dock_urlencode S) p [(''all'', ''true''), (''filters'', filters_text S key value)]"

definition find_image :: "'d docker_socket \<Rightarrow> string \<Rightarrow> image_ref \<Rightarrow> ('d, json_value) docking" where
  "find_image S registry r =
     (let (key, value) = (case r of ImageTarget target \<Rightarrow> (''reference'', image_reference_text registry target)
                                  | ImageById i \<Rightarrow> (''id'', show_id i))
      in asking_json S (docker_get (list_path S ''/images/json'' key value)))"

text \<open>One match, none, or too many.\<close>

definition exactly_one :: "string \<Rightarrow> json_value \<Rightarrow> ('d, bool) docking" where
  "exactly_one unexpected j =
     (case j of
        Items [] \<Rightarrow> ok False
      | Items [_] \<Rightarrow> ok True
      | Items _ \<Rightarrow> fail AmbiguousMatch
      | _ \<Rightarrow> fail (GeneralError unexpected))"

definition image_exists :: "'d docker_socket \<Rightarrow> string \<Rightarrow> image_ref \<Rightarrow> ('d, bool) docking" where
  "image_exists S registry r =
     and_then (find_image S registry r) (exactly_one ''Expected response body to be an array'')"

definition image_find :: "'d docker_socket \<Rightarrow> string \<Rightarrow> image_ref \<Rightarrow> ('d, image_definition) docking" where
  "image_find S registry r =
     and_then (find_image S registry r) (\<lambda>j.
     and_then (readable S (as_list (read_field ''Id'' as_content_id) j)) (\<lambda>ids.
       case ids of
         [] \<Rightarrow> fail ResourceNotFound
       | [i] \<Rightarrow> image_inspect S i
       | _ \<Rightarrow> fail AmbiguousMatch))"

text \<open>\<open>ChunkedJsonParser\<close>: values separated by \<open>\r\n\<close>.\<close>

fun split_crlf :: "string \<Rightarrow> string list" where
  "split_crlf [] = [[]]"
| "split_crlf (c # s) =
     (if c = CHR 0x0D \<and> s \<noteq> [] \<and> hd s = CHR 0x0A then [] # split_crlf (tl s)
      else (case split_crlf s of [] \<Rightarrow> [[c]] | p # ps \<Rightarrow> (c # p) # ps))"

definition chunks_of :: "'d docker_socket \<Rightarrow> string \<Rightarrow> json_value list option" where
  "chunks_of S body = those (map (parse_json (dock_json S)) (filter (\<lambda>chunk. chunk \<noteq> []) (split_crlf body)))"

fun assert_no_docker_errors :: "'d docker_socket \<Rightarrow> json_value list \<Rightarrow> ('d, unit) docking" where
  "assert_no_docker_errors S [] = ok ()"
| "assert_no_docker_errors S (j # js) =
     (case field ''error'' j of
        Some message \<Rightarrow>
          fail (GeneralError (case as_text message of Some text \<Rightarrow> text | None \<Rightarrow> show_json (dock_json S) message))
      | None \<Rightarrow> assert_no_docker_errors S js)"

definition image_pull :: "'d docker_socket \<Rightarrow> string \<Rightarrow> pull_target \<Rightarrow> ('d, image_definition) docking" where
  "image_pull S registry target =
     and_then (execute S (docker_post (create_path_and_query_string (dock_urlencode S) ''/images/create''
       [(''fromImage'', registry @ ''/'' @ pull_formatted_name target), (''tag'', show_version (pull_version target))]))) (\<lambda>response.
     and_then (asserted S (assert_okay_with_body response)) (\<lambda>body.
     and_then (readable S (chunks_of S body)) (\<lambda>chunks.
     and_then (assert_no_docker_errors S chunks) (\<lambda>_.
       image_find S registry (ImageTarget target)))))"

section \<open>Containers\<close>

datatype container_ref = FullName string | ContainerById docker_id

fun show_container_ref :: "container_ref \<Rightarrow> string" where
  "show_container_ref (FullName c) = c"
| "show_container_ref (ContainerById i) = show_id i"

definition container_at :: "container_ref \<Rightarrow> string \<Rightarrow> string" where
  "container_at r action = ''/containers/'' @ show_container_ref r @ action"

record docker_mount =
  dm_type :: string
  dm_source :: string
  dm_destination :: string
  dm_writable :: bool

definition as_mount_type :: "json_value \<Rightarrow> string option" where
  "as_mount_type j =
     Option.bind (as_text j) (\<lambda>s.
       if s \<in> set [''bind'', ''volume'', ''image'', ''tmpfs'', ''npipe'', ''cluster''] then Some s else None)"

definition as_docker_mount :: "json_value \<Rightarrow> docker_mount option" where
  "as_docker_mount j =
     Option.bind (read_field ''Type'' as_mount_type j) (\<lambda>kind.
     Option.bind (read_field ''Source'' as_text j) (\<lambda>source.
     Option.bind (read_field ''Destination'' as_text j) (\<lambda>destination.
     Option.bind (read_field ''RW'' as_flag j) (\<lambda>rw.
       Some \<lparr>dm_type = kind, dm_source = source, dm_destination = destination, dm_writable = rw\<rparr>))))"

record container_state_report =
  cs_status :: docker_status
  cs_started_at :: int
  cs_health :: "health_status option"

definition as_state :: "'d docker_socket \<Rightarrow> json_value \<Rightarrow> container_state_report option" where
  "as_state S j =
     Option.bind (read_field ''Status'' as_docker_status j) (\<lambda>status.
     Option.bind (read_field ''StartedAt'' (\<lambda>v. Option.bind (as_text v) (dock_parse_time S)) j) (\<lambda>started.
     Option.bind (read_optional ''Health'' (read_field ''Status'' as_health_status) j) (\<lambda>health.
       Some \<lparr>cs_status = status, cs_started_at = started, cs_health = health\<rparr>)))"

record inspected_container =
  ic_id :: string
  ic_name :: string
  ic_state :: container_state_report
  ic_image :: content_id
  ic_mounts :: "docker_mount list"
  ic_command :: "string option"
  ic_environment :: "env_var list"
  ic_labels :: "label list"
  ic_capabilities :: "capability list"

definition as_inspected :: "'d docker_socket \<Rightarrow> json_value \<Rightarrow> inspected_container option" where
  "as_inspected S j =
     Option.bind (read_field ''Id'' as_text j) (\<lambda>i.
     Option.bind (read_field ''Name'' as_text j) (\<lambda>name.
     Option.bind (read_field ''State'' (as_state S) j) (\<lambda>st.
     Option.bind (read_field ''Image'' as_content_id j) (\<lambda>img.
     Option.bind (read_field ''Mounts'' (as_list as_docker_mount) j) (\<lambda>ms.
     Option.bind (field ''Config'' j) (\<lambda>c.
     Option.bind (read_field ''Cmd'' (as_command S) c) (\<lambda>cmd.
     Option.bind (read_field ''Env'' (as_environment (dock_regex S)) c) (\<lambda>env.
     Option.bind (read_field ''Labels'' (as_labels (dock_regex S)) c) (\<lambda>ls.
     Option.bind (read_field ''HostConfig'' (read_field ''CapAdd'' (as_list as_capability)) j) (\<lambda>caps.
       Some \<lparr>ic_id = i, ic_name = name, ic_state = st, ic_image = img, ic_mounts = ms, ic_command = cmd,
             ic_environment = env, ic_labels = ls, ic_capabilities = caps\<rparr>))))))))))"

definition inspect_json :: "'d docker_socket \<Rightarrow> container_ref \<Rightarrow> ('d, json_value) docking" where
  "inspect_json S r = asking_json S (docker_get (container_at r ''/json''))"

definition find_request :: "'d docker_socket \<Rightarrow> container_ref \<Rightarrow> rest_request" where
  "find_request S r =
     docker_get (case r of FullName c \<Rightarrow> list_path S ''/containers/json'' ''name'' c
                         | ContainerById i \<Rightarrow> list_path S ''/containers/json'' ''id'' (show_id i))"

definition container_exists :: "'d docker_socket \<Rightarrow> container_ref \<Rightarrow> ('d, bool) docking" where
  "container_exists S r = and_then (asking_json S (find_request S r)) (exactly_one ''Unexpected response'')"

definition container_labels :: "'d docker_socket \<Rightarrow> container_ref \<Rightarrow> ('d, label list) docking" where
  "container_labels S r =
     and_then (inspect_json S r) (\<lambda>j.
       readable S (read_field ''Config'' (read_field ''Labels'' (as_labels (dock_regex S))) j))"

text \<open>The first name of every container, without the slash it begins with, when it is a valid name.\<close>

definition listed_name :: "regex \<Rightarrow> string list \<Rightarrow> string option" where
  "listed_name im names =
     (case names of
        [] \<Rightarrow> None
      | n # _ \<Rightarrow>
          (case docker_name_from_str im (dropWhile (\<lambda>c. c = CHR ''/'') n) of Inl _ \<Rightarrow> None | Inr m \<Rightarrow> Some m))"

definition container_list :: "'d docker_socket \<Rightarrow> ('d, string list) docking" where
  "container_list S =
     and_then (asking_json S (docker_get
       (create_path_and_query_string (dock_urlencode S) ''/containers/json'' [(''all'', ''true'')]))) (\<lambda>j.
     and_then (readable S (as_list (read_field ''Names'' as_texts) j)) (\<lambda>entries.
       ok (List.map_filter (listed_name (dock_regex S)) entries)))"

definition container_find_id :: "'d docker_socket \<Rightarrow> container_ref \<Rightarrow> ('d, string) docking" where
  "container_find_id S r =
     and_then (inspect_json S r) (\<lambda>j. and_then (readable S (as_inspected S j)) (\<lambda>c. ok (ic_id c)))"

definition mount_of :: "(path \<times> string) list \<Rightarrow> docker_mount \<Rightarrow> (string \<times> docker_mount) option" where
  "mount_of mount_names mt =
     map_option (\<lambda>(_, n). (n, mt))
       (List.find (\<lambda>(p, _). SeedbankTypes.path_components (dm_destination mt) = RootDir # map Normal p) mount_names)"

record full_snapshot =
  fs_name :: string
  fs_container :: inspected_container
  fs_image :: image_definition
  fs_mounts :: "(string \<times> docker_mount) list"

definition container_find :: "'d docker_socket \<Rightarrow> container_ref \<Rightarrow> (path \<times> string) list \<Rightarrow> ('d, full_snapshot) docking" where
  "container_find S r mount_names =
     and_then (inspect_json S r) (\<lambda>j.
     and_then (readable S (as_inspected S j)) (\<lambda>c.
     and_then (map_err (\<lambda>e. InvalidDockerName (ic_name c) (dock_show_name_error S e))
       (of_result (docker_name_from_str (dock_regex S) (dropWhile (\<lambda>a. a = CHR ''/'') (ic_name c))))) (\<lambda>name.
     and_then (image_inspect S (ic_image c)) (\<lambda>img.
       ok \<lparr>fs_name = name, fs_container = c, fs_image = img,
           fs_mounts = List.map_filter (mount_of mount_names) (ic_mounts c)\<rparr>))))"

definition container_delete :: "'d docker_socket \<Rightarrow> container_ref \<Rightarrow> ('d, unit) docking" where
  "container_delete S r =
     and_then (execute S (docker_delete_at
       (create_path_and_query_string (dock_urlencode S) (container_at r []) [(''v'', ''true'')]))) (\<lambda>response.
     and_then (asserted S (assert_no_content response)) (\<lambda>_. ok ()))"

text \<open>A container that runs already is not an error (304).\<close>

definition container_start :: "'d docker_socket \<Rightarrow> container_ref \<Rightarrow> ('d, unit) docking" where
  "container_start S r =
     and_then (execute S (docker_post (container_at r ''/start''))) (\<lambda>response.
       if (case response of RestError _ status _ \<Rightarrow> status = 304 | _ \<Rightarrow> False) then ok ()
       else and_then (asserted S (assert_no_content response)) (\<lambda>_. ok ()))"

definition container_stop :: "'d docker_socket \<Rightarrow> container_ref \<Rightarrow> ('d, unit) docking" where
  "container_stop S r =
     and_then (execute S (docker_post (container_at r ''/stop''))) (\<lambda>response.
     and_then (asserted S (assert_no_content response)) (\<lambda>_. ok ()))"

definition docker_status_of :: "'d docker_socket \<Rightarrow> container_ref \<Rightarrow> ('d, docker_status) docking" where
  "docker_status_of S r =
     and_then (inspect_json S r) (\<lambda>j.
     and_then (readable S (read_field ''State'' (as_state S) j)) (\<lambda>st. ok (cs_status st)))"

section \<open>Creating a container\<close>

definition path_text :: "path \<Rightarrow> string" where
  "path_text p = (if p = [] then ''/'' else concat (map (\<lambda>c. CHR ''/'' # c) p))"

definition mount_json :: "mount_definition \<Rightarrow> json_value" where
  "mount_json mt = Fields
     [(''Type'', Text ''bind''), (''Name'', Text (mount_name mt)), (''Source'', Text (path_text (host_path mt))),
      (''Target'', Text (path_text (container_path mt))), (''RW'', Flag (writable mt))]"

definition labels_json :: "label list \<Rightarrow> json_value" where
  "labels_json ls = Fields (map (\<lambda>l. (label_name l, Text (label_value l))) ls)"

definition environment_json :: "env_var list \<Rightarrow> json_value" where
  "environment_json vs = Items (map (\<lambda>v. Text (env_name v @ ''='' @ env_value v)) vs)"

definition port_key :: "published_port \<Rightarrow> string" where
  "port_key p = show_nat (unat (container_port p)) @ ''/tcp''"

definition exposed_ports_json :: "published_port list \<Rightarrow> json_value" where
  "exposed_ports_json ps = Fields (map (\<lambda>p. (port_key p, Fields [])) ps)"

definition port_bindings_json :: "published_port list \<Rightarrow> json_value" where
  "port_bindings_json ps =
     Fields (map (\<lambda>p. (port_key p, Items [Fields
       [(''HostIp'', Text ''127.0.0.1''), (''HostPort'', Text (show_nat (unat (host_port p))))]])) ps)"

definition log_config_json :: json_value where
  "log_config_json = Fields
     [(''Type'', Text ''json-file''), (''Config'', Fields [(''max-size'', Text ''10m''), (''max-file'', Text ''5'')])]"

definition user_text :: "container_user \<Rightarrow> string" where
  "user_text u = show_nat (unat (container_uid u)) @ '':'' @ show_nat (unat (container_gid u))"

definition host_config_json :: "new_container \<Rightarrow> json_value" where
  "host_config_json nc = Fields
     [(''Mounts'', Items (map mount_json (nc_mounts nc))),
      (''CapAdd'', Items (map (Text \<circ> show_capability) (nc_capabilities nc))),
      (''PortBindings'', port_bindings_json (nc_ports nc)), (''LogConfig'', log_config_json)]"

text \<open>\<open>shlex::split(command).unwrap()\<close>: a command that is not a list of words is a panic, here \<open>None\<close>.\<close>

definition command_json :: "'d docker_socket \<Rightarrow> string option \<Rightarrow> (string \<times> json_value) list option" where
  "command_json S cmd =
     (case cmd of
        None \<Rightarrow> Some []
      | Some c \<Rightarrow> map_option (\<lambda>words. [(''Cmd'', Items (map Text words))]) (dock_shlex_split S c))"

definition create_body :: "'d docker_socket \<Rightarrow> string \<Rightarrow> new_container \<Rightarrow> json_value option" where
  "create_body S registry nc =
     map_option (\<lambda>cmd. Fields (
       [(''Image'', Text (image_reference_text registry (nc_image nc)))] @ cmd @
       [(''Env'', environment_json (nc_environment nc)), (''Labels'', labels_json (nc_labels nc))] @
       (case nc_run_as nc of None \<Rightarrow> [] | Some u \<Rightarrow> [(''User'', Text (user_text u))]) @
       [(''ExposedPorts'', exposed_ports_json (nc_ports nc)), (''HostConfig'', host_config_json nc)]))
       (command_json S (nc_command nc))"

text \<open>A panic is the error \<open>panicked\<close>: nothing is sent.\<close>

definition panicked :: docker_error where
  "panicked = GeneralError ''panicked''"

definition container_create :: "'d docker_socket \<Rightarrow> string \<Rightarrow> new_container \<Rightarrow> ('d, unit) docking" where
  "container_create S registry nc =
     (case create_body S registry nc of
        None \<Rightarrow> fail panicked
      | Some body \<Rightarrow>
          and_then (execute S (docker_post_json S (create_path_and_query_string (dock_urlencode S) ''/containers/create''
            [(''name'', nc_name nc)]) body)) (\<lambda>response.
          and_then (asserted S (assert_created_with_body response)) (\<lambda>answer.
          and_then (json_of S answer) (\<lambda>j.
          and_then (readable S (read_field ''Id'' as_text j)) (\<lambda>_. ok ())))))"

section \<open>Networks\<close>

record docker_network =
  net_id :: string
  net_name :: string

definition as_network :: "json_value \<Rightarrow> docker_network option" where
  "as_network j =
     Option.bind (read_field ''Id'' as_text j) (\<lambda>i. map_option (\<lambda>n. \<lparr>net_id = i, net_name = n\<rparr>) (read_field ''Name'' as_text j))"

definition network_inspect :: "'d docker_socket \<Rightarrow> string \<Rightarrow> ('d, docker_network) docking" where
  "network_inspect S n =
     and_then (asking_json S (docker_get (''/networks/'' @ n))) (\<lambda>j. readable S (as_network j))"

definition network_list :: "'d docker_socket \<Rightarrow> ('d, docker_network list) docking" where
  "network_list S = and_then (asking_json S (docker_get ''/networks'')) (\<lambda>j. readable S (as_list as_network j))"

definition network_delete :: "'d docker_socket \<Rightarrow> string \<Rightarrow> ('d, unit) docking" where
  "network_delete S i =
     and_then (execute S (docker_delete_at (''/networks/'' @ i))) (\<lambda>response.
     and_then (asserted S (assert_no_content response)) (\<lambda>_. ok ()))"

definition network_exists :: "'d docker_socket \<Rightarrow> string \<Rightarrow> ('d, bool) docking" where
  "network_exists S n =
     and_then (attempt (network_inspect S n)) (\<lambda>r.
       case r of Inr _ \<Rightarrow> ok True | Inl ResourceNotFound \<Rightarrow> ok False | Inl e \<Rightarrow> fail e)"

definition network_body :: "string \<Rightarrow> label list \<Rightarrow> ipv4_subnet option \<Rightarrow> json_value" where
  "network_body n ls subnet = Fields (
     [(''Name'', Text n), (''Labels'', labels_json ls)] @
     (case subnet of
        None \<Rightarrow> []
      | Some s \<Rightarrow> [(''IPAM'', Fields [(''Config'', Items [Fields
          [(''Subnet'', Text (cidr s)), (''Gateway'', Text (show_ipv4 (gateway s)))]])])]))"

definition network_create :: "'d docker_socket \<Rightarrow> string \<Rightarrow> label list \<Rightarrow> ipv4_subnet option \<Rightarrow> ('d, string) docking" where
  "network_create S n ls subnet =
     and_then (execute S (docker_post_json S ''/networks/create'' (network_body n ls subnet))) (\<lambda>response.
     and_then (asserted S (assert_created_with_body response)) (\<lambda>answer.
     and_then (json_of S answer) (\<lambda>j. readable S (read_field ''Id'' as_text j))))"

definition connection_body :: "string \<Rightarrow> ipv4 option \<Rightarrow> json_value" where
  "connection_body container_id static_ipv4 = Fields (
     [(''Container'', Text container_id)] @
     (case static_ipv4 of
        None \<Rightarrow> []
      | Some ip \<Rightarrow> [(''EndpointConfig'', Fields [(''IPAMConfig'', Fields [(''IPv4Address'', Text (show_ipv4 ip))])])]))"

text \<open>An error with this status whose message contains the text.\<close>

definition complains :: "'d docker_socket \<Rightarrow> nat \<Rightarrow> string \<Rightarrow> rest_response \<Rightarrow> bool" where
  "complains S code text' response =
     (case response of
        RestError _ status (Some body) \<Rightarrow>
          status = code \<and>
          (case parse_json (dock_json S) body of
             None \<Rightarrow> False
           | Some j \<Rightarrow> (case read_field ''message'' as_text j of None \<Rightarrow> False | Some message \<Rightarrow> sublist text' message))
      | _ \<Rightarrow> False)"

definition is_already_connected :: "'d docker_socket \<Rightarrow> rest_response \<Rightarrow> bool" where
  "is_already_connected S = complains S 403 ''already exists in network''"

definition is_already_disconnected :: "'d docker_socket \<Rightarrow> rest_response \<Rightarrow> bool" where
  "is_already_disconnected S = complains S 500 ''not connected''"

definition network_connect :: "'d docker_socket \<Rightarrow> string \<Rightarrow> string \<Rightarrow> ipv4 option \<Rightarrow> ('d, unit) docking" where
  "network_connect S network_id container_id static_ipv4 =
     and_then (execute S (docker_post_json S (''/networks/'' @ network_id @ ''/connect'') (connection_body container_id static_ipv4)))
       (\<lambda>response.
          if is_already_connected S response then ok ()
          else and_then (asserted S (assert_okay response)) (\<lambda>_. ok ()))"

definition network_disconnect :: "'d docker_socket \<Rightarrow> string \<Rightarrow> string \<Rightarrow> ('d, unit) docking" where
  "network_disconnect S network_id container_id =
     and_then (execute S (docker_post_json S (''/networks/'' @ network_id @ ''/disconnect'') (connection_body container_id None)))
       (\<lambda>response.
          if is_already_disconnected S response then ok ()
          else and_then (asserted S (assert_okay response)) (\<lambda>_. ok ()))"

section \<open>Commands in a container\<close>

record exec_options =
  attach_stdin :: bool
  attach_stdout :: bool
  attach_stderr :: bool
  exec_cmd :: "string list"

definition exec_options_json :: "exec_options \<Rightarrow> json_value" where
  "exec_options_json opts = Fields
     [(''AttachStdin'', Flag (attach_stdin opts)), (''AttachStdout'', Flag (attach_stdout opts)),
      (''AttachStderr'', Flag (attach_stderr opts)), (''Cmd'', Items (map Text (exec_cmd opts)))]"

definition exec_create :: "'d docker_socket \<Rightarrow> container_ref \<Rightarrow> exec_options \<Rightarrow> ('d, string) docking" where
  "exec_create S r opts =
     and_then (execute S (docker_post_json S (container_at r ''/exec'') (exec_options_json opts))) (\<lambda>response.
     and_then (asserted S (assert_created_with_body response)) (\<lambda>body.
     and_then (json_of S body) (\<lambda>j. readable S (read_field ''Id'' as_text j))))"

definition exec_start :: "'d docker_socket \<Rightarrow> string \<Rightarrow> bool \<Rightarrow> bool \<Rightarrow> ('d, unit) docking" where
  "exec_start S i in_background on_tty =
     and_then (execute S (docker_post_json S (''/exec/'' @ i @ ''/start'') (Fields [(''Detach'', Flag in_background), (''Tty'', Flag on_tty)])))
       (\<lambda>response. and_then (asserted S (assert_okay response)) (\<lambda>_. ok ()))"

definition as_process_config :: "json_value \<Rightarrow> unit option" where
  "as_process_config j =
     (case (read_field ''arguments'' as_texts j, read_field ''entrypoint'' as_text j, read_field ''privileged'' as_flag j,
            read_field ''tty'' as_flag j, read_field ''user'' as_text j) of
        (Some _, Some _, Some _, Some _, Some _) \<Rightarrow> Some ()
      | _ \<Rightarrow> None)"

definition as_full_id :: "regex \<Rightarrow> json_value \<Rightarrow> string option" where
  "as_full_id im j =
     Option.bind (as_text j) (\<lambda>s. case full_id_from_str im s of Inl _ \<Rightarrow> None | Inr i \<Rightarrow> Some i)"

text \<open>Of an inspection only whether the command runs and its exit code are used; the rest must be there.\<close>

definition as_exec_inspection :: "regex \<Rightarrow> json_value \<Rightarrow> exec_inspection option" where
  "as_exec_inspection im j =
     (case (read_field ''CanRemove'' as_flag j, read_field ''ContainerID'' (as_full_id im) j, read_field ''DetachKeys'' as_text j,
            read_field ''ID'' as_text j, read_field ''OpenStderr'' as_flag j, read_field ''OpenStdin'' as_flag j,
            read_field ''OpenStdout'' as_flag j, read_field ''ProcessConfig'' as_process_config j,
            read_field ''Pid'' (as_unsigned 32) j) of
        (Some _, Some _, Some _, Some _, Some _, Some _, Some _, Some _, Some _) \<Rightarrow>
          Option.bind (read_optional ''ExitCode'' (as_signed 32) j) (\<lambda>code.
            map_option (\<lambda>b. \<lparr>exec_running = b, exit_code = code\<rparr>) (read_field ''Running'' as_flag j))
      | _ \<Rightarrow> None)"

definition exec_inspect :: "'d docker_socket \<Rightarrow> string \<Rightarrow> ('d, exec_inspection) docking" where
  "exec_inspect S i =
     and_then (asking_json S (docker_get (''/exec/'' @ i @ ''/json''))) (\<lambda>j. readable S (as_exec_inspection (dock_regex S) j))"

section \<open>The clients\<close>

text \<open>The methods of \<open>UdsClient\<close> that make several requests.\<close>

definition uds_connect_network :: "'d docker_socket \<Rightarrow> string \<Rightarrow> container_ref \<Rightarrow> ipv4 option \<Rightarrow> ('d, unit) docking" where
  "uds_connect_network S n r static_ipv4 =
     and_then (network_inspect S n) (\<lambda>target.
     and_then (container_find_id S r) (\<lambda>i. network_connect S (net_id target) i static_ipv4))"

definition uds_disconnect_network :: "'d docker_socket \<Rightarrow> string \<Rightarrow> container_ref \<Rightarrow> ('d, unit) docking" where
  "uds_disconnect_network S n r =
     and_then (network_inspect S n) (\<lambda>target.
     and_then (container_find_id S r) (\<lambda>i. network_disconnect S (net_id target) i))"

definition uds_list_networks :: "'d docker_socket \<Rightarrow> ('d, string list) docking" where
  "uds_list_networks S =
     and_then (network_list S) (\<lambda>networks.
       ok (List.map_filter (\<lambda>n. case docker_name_from_str (dock_regex S) (net_name n) of Inl _ \<Rightarrow> None | Inr m \<Rightarrow> Some m) networks))"

definition uds_delete_network :: "'d docker_socket \<Rightarrow> string \<Rightarrow> ('d, unit) docking" where
  "uds_delete_network S n = and_then (network_inspect S n) (\<lambda>target. network_delete S (net_id target))"

text \<open>What bract uses of the client: every container by its name, every image from the registry of douglas.\<close>

definition socket_docker :: "'d docker_socket \<Rightarrow> string \<Rightarrow> 'd docker_client" where
  "socket_docker S registry =
     \<lparr>docker_image_exists = (\<lambda>target. image_exists S registry (ImageTarget target)),
      docker_pull_image = (\<lambda>target. and_then (image_pull S registry target) (\<lambda>_. ok ())),
      docker_container_labels = (\<lambda>c. container_labels S (FullName c)),
      docker_container_status = (\<lambda>c. docker_status_of S (FullName c)),
      docker_container_exists = (\<lambda>c. container_exists S (FullName c)),
      docker_create_container = container_create S registry,
      docker_start_container = (\<lambda>c. container_start S (FullName c)),
      docker_stop_container = (\<lambda>c. container_stop S (FullName c)),
      docker_delete_container = (\<lambda>c. container_delete S (FullName c)),
      docker_network_exists = network_exists S,
      docker_create_network = (\<lambda>n subnet. and_then (network_create S n [] subnet) (\<lambda>_. ok ())),
      docker_connect_network = (\<lambda>n c ip. uds_connect_network S n (FullName c) ip),
      docker_disconnect_network = (\<lambda>n c. uds_disconnect_network S n (FullName c)),
      docker_delete_network = uds_delete_network S,
      docker_list_containers = container_list S,
      docker_list_networks = uds_list_networks S\<rparr>"

definition socket_exec :: "'d docker_socket \<Rightarrow> 'd exec_client" where
  "socket_exec S =
     \<lparr>docker_create_exec = (\<lambda>c cmd. exec_create S (FullName c)
        \<lparr>attach_stdin = False, attach_stdout = True, attach_stderr = True, exec_cmd = cmd\<rparr>),
      docker_start_exec = (\<lambda>i. exec_start S i False False),
      docker_inspect_exec = exec_inspect S,
      docker_inspect_container = (\<lambda>c mount_names. and_then (container_find S (FullName c) mount_names) (\<lambda>s.
        ok \<lparr>snapshot_labels = ic_labels (fs_container s), snapshot_status = cs_status (ic_state (fs_container s))\<rparr>))\<rparr>"

end
