(* ===== verification/DockerSafety.thy ===== *)
theory DockerSafety
  imports DockerRequests SeedlingStops
begin

text \<open>
  Where the client of docker and the engine misunderstand each other: names that are part of other names, assignments
  with more than one equals sign, and mounts that are to be read only.
\<close>

section \<open>Names that are part of other names\<close>

text \<open>What docker documents: a request that asks changes nothing, and the filter \<open>name\<close> of a list matches on a part of
  the name.\<close>

definition asks_only :: "'d docker_socket \<Rightarrow> bool" where
  "asks_only S \<longleftrightarrow> (\<forall>r. rest_method r = GetMethod \<longrightarrow> reads_only (dock_send S r))"

definition lists_by_part :: "'d docker_socket \<Rightarrow> ('d \<Rightarrow> string list) \<Rightarrow> bool" where
  "lists_by_part S names \<longleftrightarrow>
     (\<forall>c x. \<exists>hs body js. fst (dock_send S (find_request S (FullName c)) x) = Inr (RestOkay hs (Some body)) \<and>
        parse_json (dock_json S) body = Some (Items js) \<and> length js = length (filter (sublist c) (names x)))"

lemma reads_only_asking: "asks_only S \<Longrightarrow> rest_method r = GetMethod \<Longrightarrow> reads_only (asking_json S r)"
  unfolding asking_json_def execute_def asserted_def json_of_def readable_def asks_only_def
  by (intro reads_only_intros; simp split: option.split; blast intro: reads_only_intros)

lemma reads_only_inspecting: "asks_only S \<Longrightarrow> reads_only (inspect_json S r)"
  unfolding inspect_json_def by (rule reads_only_asking) (simp_all add: docker_get_def)

lemma reads_only_exactly_one: "reads_only (exactly_one u j)"
  by (auto simp: exactly_one_def reads_only_def prog_simps split: json_value.split list.split)

lemma reads_only_readable: "reads_only (readable S x)"
  by (auto simp: readable_def reads_only_def prog_simps split: option.split)

lemma reads_only_observing:
  assumes "asks_only S"
  shows "reads_only (container_exists S r)" "reads_only (docker_status_of S r)" "reads_only (container_labels S r)"
    "reads_only (observe_container (socket_docker S registry) c)"
proof -
  show "reads_only (container_exists S r)" for r
    unfolding container_exists_def
    by (intro reads_only_and_then reads_only_asking assms reads_only_exactly_one)
      (simp add: find_request_def docker_get_def split: container_ref.split)
  moreover show "reads_only (docker_status_of S r)" "reads_only (container_labels S r)" for r
    unfolding docker_status_of_def container_labels_def
    by (intro reads_only_and_then reads_only_inspecting assms reads_only_readable reads_only_ok)+
  ultimately show "reads_only (observe_container (socket_docker S registry) c)"
    by (auto simp: observe_container_def socket_docker_def intro!: reads_only_intros
        split: sum.split docker_error.split)
qed

lemma found_by_part:
  assumes "asks_only S" and "lists_by_part S names"
  shows "\<exists>js. container_exists S (FullName c) x = exactly_one ''Unexpected response'' (Items js) x \<and>
    length js = length (filter (sublist c) (names x))"
proof -
  from assms(2) obtain hs body js where sent: "fst (dock_send S (find_request S (FullName c)) x) = Inr (RestOkay hs (Some body))"
    and js: "parse_json (dock_json S) body = Some (Items js)" "length js = length (filter (sublist c) (names x))"
    unfolding lists_by_part_def by blast
  have "snd (dock_send S (find_request S (FullName c)) x) = x"
    using assms(1) by (simp add: asks_only_def reads_only_def find_request_def docker_get_def)
  with sent have "dock_send S (find_request S (FullName c)) x = (Inr (RestOkay hs (Some body)), x)" by (simp add: prod_eq_iff)
  with js show ?thesis
    by (intro exI [of _ js]) (simp add: container_exists_def asking_json_def execute_def asserted_def json_of_def readable_def
        assert_okay_with_body_def with_body_def assert_okay_def and_then_def map_err_def of_result_def ok_def)
qed

lemma two_matches: "2 \<le> length js \<Longrightarrow> exactly_one u (Items js) x = (Inl AmbiguousMatch, x)"
  by (cases js; cases "tl js") (auto simp: exactly_one_def fail_def)

lemma two_in_filter:
  assumes "a \<in> set xs" "b \<in> set xs" "a \<noteq> b" "P a" "P b"
  shows "2 \<le> length (filter P xs)"
proof -
  have "card {a, b} \<le> card (set (filter P xs))" by (rule card_mono) (use assms in auto)
  also have "\<dots> \<le> length (filter P xs)" by (rule card_length)
  finally show ?thesis using assms(3) by simp
qed

lemma ambiguous_name:
  assumes "asks_only S" "lists_by_part S names" "c \<in> set (names x)" "pre @ c @ post \<in> set (names x)" "pre @ c @ post \<noteq> c"
  shows "container_exists S (FullName c) x = (Inl AmbiguousMatch, x)"
proof -
  obtain js where js: "container_exists S (FullName c) x = exactly_one ''Unexpected response'' (Items js) x"
    "length js = length (filter (sublist c) (names x))"
    using found_by_part [OF assms(1,2)] by blast
  have "2 \<le> length js"
    unfolding js(2) using assms(3-5) by (intro two_in_filter [of c _ "pre @ c @ post"]) auto
  with js(1) two_matches show ?thesis by metis
qed

lemma on_engine_reads: "reads_only m \<Longrightarrow> on_engine f m g = (map_sum f id (fst (m (engine g))), g)"
  by (cases "m (engine g)") (auto simp: on_engine_def dest: reads_onlyD)

text \<open>A program whose first parts only look and whose last one fails.\<close>

lemma looks_then_fails:
  "snd (m g) = g \<Longrightarrow> (\<And>a. fst (m g) = Inr a \<Longrightarrow> \<exists>e. k a g = (Inl e, g)) \<Longrightarrow> \<exists>e. and_then m k g = (Inl e, g)"
  by (cases "m g"; cases "fst (m g)") (auto simp: and_then_def)

text \<open>
  C21: A seedling whose container has a name that is part of the name of another container can neither be stopped nor be
  looked at for a drop: docker's filter matches on a part of the name, two matches are taken for an error, and
  nothing has been done then.
\<close>

theorem similar_names_cannot_be_stopped:
  assumes "asks_only S" and "lists_by_part S names" and "t_docker T = socket_docker S registry"
    and "container_name (t_regex T) n = Inr c" and "c \<in> set (names (engine g))"
    and "pre @ c @ post \<in> set (names (engine g))" and "pre @ c @ post \<noteq> c"
  shows "observe_container (t_docker T) c (engine g) = (Inl AmbiguousMatch, engine g) \<and>
    (\<exists>e. stop_seedling T n by_whom g = (Inl e, g))"
proof
  show observed: "observe_container (t_docker T) c (engine g) = (Inl AmbiguousMatch, engine g)"
    using ambiguous_name [OF assms(1,2,5-7)] assms(3) by (simp add: observe_container_def socket_docker_def and_then_Inl)
  have unchanged: "on_engine f (observe_container (t_docker T) a) g = (map_sum f id (fst (observe_container (t_docker T) a (engine g))), g)"
    for f :: "docker_error \<Rightarrow> stop_error" and a
    by (rule on_engine_reads) (simp add: assms(3) reads_only_observing(4) [OF assms(1)])
  have "\<exists>e. discover_stop T n g = (Inl e, g)"
    unfolding discover_stop_def Let_def
  proof (rule looks_then_fails)
    fix c' assume "fst (map_err StopDockerNameError (of_result (container_name (t_regex T) n)) g) = Inr c'"
    then have "c' = c" by (simp add: assms(4) map_err_def of_result_def)
    then have last: "\<exists>e. and_then (on_engine StopDockerError (observe_container (t_docker T) c')) k g = (Inl e, g)"
      for k :: "container_presence \<Rightarrow> ('a garden, stop_error, stop_state) prog"
      by (simp add: and_then_def unchanged observed)
    show "\<exists>e. and_then (map_err StopDockerNameError (of_result (agent_container_name (t_regex T) n)))
        (\<lambda>a. and_then (on_engine StopDockerError (observe_container (t_docker T) a))
          (\<lambda>agent. and_then (on_engine StopDockerError (observe_container (t_docker T) c')) (k a agent))) g = (Inl e, g)"
      for k :: "string \<Rightarrow> container_presence \<Rightarrow> container_presence \<Rightarrow> ('a garden, stop_error, stop_state) prog"
      by (rule looks_then_fails, simp add: map_err_def of_result_def split: sum.split,
          rule looks_then_fails, simp add: unchanged, rule last)
  qed (simp add: map_err_def of_result_def split: sum.split)
  then show "\<exists>e. stop_seedling T n by_whom g = (Inl e, g)" by (auto simp: stop_seedling_def and_then_Inl)
qed

section \<open>Assignments with several equals signs\<close>

text \<open>The engine answers the request at this path with a description whose environment has this assignment in it.\<close>

definition reports_assignment :: "'d docker_socket \<Rightarrow> string \<Rightarrow> string \<Rightarrow> bool" where
  "reports_assignment S p s \<longleftrightarrow>
     (\<forall>x. \<exists>hs body j c vs. fst (dock_send S (docker_get p) x) = Inr (RestOkay hs (Some body)) \<and>
        parse_json (dock_json S) body = Some j \<and> field ''Config'' j = Some c \<and> field ''Env'' c = Some (Items vs) \<and>
        Text s \<in> set vs)"

lemma split_on_length: "length (split_on a s) = Suc (count_list s a)"
  by (induction s) (auto split: list.split)

lemma unreadable_assignment:
  assumes "documented_regex im" and "2 \<le> count_list s CHR ''=''" and "Text s \<in> set vs"
  shows "as_environment im (Items vs) = None"
proof -
  have "CHR ''='' \<in> set s" using assms(2) count_list_0_iff [of s "CHR ''=''"] by force
  then have "\<exists>e. env_name_from_str im s = Inl e"
    using env_name_word(2) [OF assms(1)] by (cases "env_name_from_str im s") auto
  moreover have "(case split_on CHR ''='' s of [a, b] \<Rightarrow> (a, b) | _ \<Rightarrow> (s, [])) = (s, [])"
    using assms(2) split_on_length [of "CHR ''=''" s] by (auto split: list.split)
  ultimately obtain e where bad: "deserialize_assignment im (JsonString s) = Inl e"
    by (auto simp: deserialize_assignment_def)
  have "\<exists>e. collect_sum f xs = Inl e" if "x \<in> set xs" "f x = Inl e'" for f :: "json \<Rightarrow> json_error + env_var" and x xs e'
    using that by (induction xs) (auto split: sum.split)
  moreover have "JsonString s \<in> set (map untyped vs)"
    using image_eqI [OF _ assms(3), of _ untyped] by simp
  ultimately obtain e' where "collect_sum (deserialize_assignment im) (map untyped vs) = Inl e'" using bad by blast
  then show ?thesis by (simp add: as_environment_def deserialize_environment_variables_def)
qed

lemma asking_reported:
  assumes "reports_assignment S p s"
  obtains j c vs y where "asking_json S (docker_get p) x = (Inr j, y)" "field ''Config'' j = Some c"
    "field ''Env'' c = Some (Items vs)" "Text s \<in> set vs"
proof -
  from assms obtain hs body j c vs where sent: "fst (dock_send S (docker_get p) x) = Inr (RestOkay hs (Some body))"
    and j: "parse_json (dock_json S) body = Some j" "field ''Config'' j = Some c" "field ''Env'' c = Some (Items vs)"
      "Text s \<in> set vs"
    unfolding reports_assignment_def by blast
  have "asking_json S (docker_get p) x = (Inr j, snd (dock_send S (docker_get p) x))"
    using sent j(1) by (cases "dock_send S (docker_get p) x") (simp add: asking_json_def execute_def asserted_def json_of_def readable_def
        assert_okay_with_body_def with_body_def assert_okay_def and_then_def map_err_def of_result_def ok_def)
  with j(2-4) that show thesis by blast
qed

lemma not_inspected:
  assumes "documented_regex (dock_regex S)" "2 \<le> count_list s CHR ''=''" "field ''Config'' j = Some c"
    "field ''Env'' c = Some (Items vs)" "Text s \<in> set vs"
  shows "as_inspected S j = None" "as_image S j = None"
proof -
  have "read_field ''Env'' (as_environment (dock_regex S)) c = None"
    using unreadable_assignment [OF assms(1,2,5)] assms(4) by (simp add: read_field_def)
  then show "as_inspected S j = None" "as_image S j = None"
    using assms(3) by (auto simp: as_inspected_def as_image_def bind_eq_None_conv split: option.split)
qed

text \<open>
  C27: A container with an environment variable whose assignment has two or more equals signs, which docker allows and
  douglas writes itself, can be created but never be read: it is not connected to a network nor disconnected, its
  description is an error, and so is that of an image with such a variable.
\<close>

theorem equals_signs_are_unreadable:
  assumes "documented_regex (dock_regex S)" and "2 \<le> count_list s CHR ''=''"
  shows "(reports_assignment S (container_at r ''/json'') s \<longrightarrow>
      isl (fst (uds_connect_network S n r ip x)) \<and> isl (fst (uds_disconnect_network S n r x)) \<and>
      fst (container_find S r ms x) = Inl (GeneralError (dock_unreadable S))) \<and>
    (reports_assignment S (''/images/'' @ show_content_id i @ ''/json'') s \<longrightarrow>
      fst (image_inspect S i x) = Inl (GeneralError (dock_unreadable S)))"
proof (intro conjI impI)
  assume reported: "reports_assignment S (container_at r ''/json'') s"
  have unreadable: "\<exists>j y. inspect_json S r x = (Inr j, y) \<and> as_inspected S j = None" for x
    unfolding inspect_json_def
    by (rule asking_reported [OF reported, of x]) (use not_inspected(1) [OF assms] in blast)
  have broken: "\<exists>y. container_find_id S r x = (Inl (GeneralError (dock_unreadable S)), y)" for x
    using unreadable [of x] by (auto simp: container_find_id_def and_then_def readable_def fail_def)
  have blocked: "isl (fst (and_then m (\<lambda>a. and_then (container_find_id S r) (k a)) x))"
    for m :: "('a, docker_network) docking" and k :: "docker_network \<Rightarrow> string \<Rightarrow> ('a, unit) docking" and x
    using broken by (auto simp: and_then_def split: prod.split sum.split) (metis prod.inject sum.simps(4))
  show "isl (fst (uds_connect_network S n r ip x))" "isl (fst (uds_disconnect_network S n r x))"
    unfolding uds_connect_network_def uds_disconnect_network_def by (rule blocked)+
  show "fst (container_find S r ms x) = Inl (GeneralError (dock_unreadable S))"
    using unreadable [of x] by (auto simp: container_find_def and_then_def readable_def fail_def)
next
  assume "reports_assignment S (''/images/'' @ show_content_id i @ ''/json'') s"
  then show "fst (image_inspect S i x) = Inl (GeneralError (dock_unreadable S))"
    unfolding image_inspect_def
    by (rule asking_reported [of S _ s x]) (simp add: and_then_Inr readable_def not_inspected(2) [OF assms] fail_def)
qed

section \<open>Mounts\<close>

text \<open>Docker mounts a folder for reading only when it is asked to by \<open>ReadOnly\<close>, as it documents.\<close>

definition asks_read_only :: "json_value \<Rightarrow> bool" where
  "asks_read_only j \<longleftrightarrow> field ''ReadOnly'' j = Some (Flag True)"

text \<open>
  C38: No mount is ever asked to be read only: what douglas sends to create a container has the access of a mount in a
  field that docker does not read there, so that the mounts a seedling declares as read only are writable.
\<close>

theorem mounts_are_never_read_only:
  "case create_body S registry nc of
     None \<Rightarrow> True
   | Some body \<Rightarrow>
       (\<exists>ms. Option.bind (field ''HostConfig'' body) (field ''Mounts'') = Some (Items ms) \<and>
          map (read_field ''RW'' as_flag) ms = map (\<lambda>mt. Some (writable mt)) (nc_mounts nc) \<and>
          list_all (\<lambda>j. \<not> asks_read_only j) ms)"
proof (cases "create_body S registry nc")
  case (Some body)
  then obtain cmd where body: "body = Fields ([(''Image'', Text (image_reference_text registry (nc_image nc)))] @ cmd @
       [(''Env'', environment_json (nc_environment nc)), (''Labels'', labels_json (nc_labels nc))] @
       (case nc_run_as nc of None \<Rightarrow> [] | Some u \<Rightarrow> [(''User'', Text (user_text u))]) @
       [(''ExposedPorts'', exposed_ports_json (nc_ports nc)), (''HostConfig'', host_config_json nc)])"
    and cmd: "map_of cmd ''HostConfig'' = None"
    by (auto simp: create_body_def command_json_def split: option.splits)
  then have "field ''HostConfig'' body = Some (host_config_json nc)"
    by (simp add: body map_of_append map_add_def split: option.split)
  moreover have "field ''Mounts'' (host_config_json nc) = Some (Items (map mount_json (nc_mounts nc)))"
    by (simp add: host_config_json_def)
  moreover have "map (read_field ''RW'' as_flag) (map mount_json (nc_mounts nc)) = map (\<lambda>mt. Some (writable mt)) (nc_mounts nc)"
    by (simp add: mount_json_def read_field_def)
  moreover have "list_all (\<lambda>j. \<not> asks_read_only j) (map mount_json (nc_mounts nc))"
    by (simp add: list_all_iff mount_json_def asks_read_only_def)
  ultimately show ?thesis by (simp add: Some)
qed simp

text \<open>A command that is not a list of words, an unbalanced quote say, is a panic.\<close>

lemma unquoted_command_panics:
  "create_body S registry nc = None \<longleftrightarrow> (\<exists>c. nc_command nc = Some c \<and> dock_shlex_split S c = None)"
  by (auto simp: create_body_def command_json_def split: option.split)

end
