(* ===== verification/ReconcileSafety.thy ===== *)
theory ReconcileSafety
  imports Reconcile GardenInvariants
begin

text \<open>
  What a reconciliation guarantees and what it does not: which files it may touch, when it has nothing to
  do, in which order it does things, and what its rollbacks leave behind.
\<close>

section \<open>A reconciliation stays in its seedling\<close>

text \<open>The files of the agent of a seedling.\<close>

definition agent_touches :: "'d plot \<Rightarrow> path \<Rightarrow> bool" where
  "agent_touches P q \<longleftrightarrow>
     (case plot_agent P of
        None \<Rightarrow> False
      | Some a \<Rightarrow> below (mount_dir a) q \<or> q = role_id_path a \<or> q = secret_id_path a \<or> q = agent_config_path a)"

text \<open>The files of a seedling: its folder in the seedbank, its mounts, the accounts of the rolodex and what
  belongs to its agent.\<close>

definition plot_touches :: "'d plot \<Rightarrow> path \<Rightarrow> bool" where
  "plot_touches P q \<longleftrightarrow>
     below (create_seedling_path (bank_server (plot_bank P)) (plot_name P)) q \<or>
     below (seedling_mounts_dir (plot_folders P) (plot_name P)) q \<or>
     below (rolodex_root (plot_rolodex P)) q \<or> agent_touches P q"

text \<open>What a single step may touch.\<close>

fun step_touches :: "'d plot \<Rightarrow> reconcile_step \<Rightarrow> path \<Rightarrow> bool" where
  "step_touches P CreateSeedling q = below (create_seedling_path (bank_server (plot_bank P)) (plot_name P)) q"
| "step_touches P (UpdateSeedling _) q = below (create_seedling_path (bank_server (plot_bank P)) (plot_name P)) q"
| "step_touches P SetDesiredRunStatusToRunning q =
     (q = desired_run_state_path (bank_server (plot_bank P)) (plot_name P))"
| "step_touches P (CreateMountFolder p) q = below p q"
| "step_touches P (WriteFile parent file_name _ _) q = (q = parent @ [file_name])"
| "step_touches P (EnsureAgentMount _ _) q = (agent_touches P q \<or> below (rolodex_root (plot_rolodex P)) q)"
| "step_touches P _ q = below (rolodex_root (plot_rolodex P)) q"

text \<open>A RAM disk changes nothing outside the folder it is mounted on.\<close>

definition ram_stays_below :: "'d ram_disk \<Rightarrow> bool" where
  "ram_stays_below D \<longleftrightarrow> (\<forall>p n g q. \<not> below p q \<longrightarrow>
     content (disk (snd (ram_is_mounted D p g))) q = content (disk g) q \<and>
     content (disk (snd (ram_mount D p n g))) q = content (disk g) q \<and>
     content (disk (snd (ram_unmount D p g))) q = content (disk g) q)"

definition ram_keeps :: "(fs \<Rightarrow> bool) \<Rightarrow> 'd ram_disk \<Rightarrow> path \<Rightarrow> bool" where
  "ram_keeps D R p \<longleftrightarrow> keeps (in_garden D) (ram_is_mounted R p) \<and> (\<forall>n. keeps (in_garden D) (ram_mount R p n)) \<and>
     keeps (in_garden D) (ram_unmount R p)"

lemma ram_keeps_agrees:
  assumes "ram_stays_below R" and "\<And>q. below p q \<Longrightarrow> \<not> A q"
  shows "ram_keeps (agrees A s) R p"
proof -
  have out: "A q \<Longrightarrow> \<not> below p q" for q using assms(2) by blast
  show ?thesis
    using assms(1) out unfolding ram_keeps_def ram_stays_below_def
    by (auto intro!: keepsI simp: in_garden_def agrees_def)
qed

text \<open>The folders and files a state or a step names lie in the mounts of the seedling.\<close>

definition state_inside :: "path \<Rightarrow> seedling_state \<Rightarrow> bool" where
  "state_inside root st \<longleftrightarrow>
     list_all (below root) (missing_mount_folders st) \<and>
     list_all (\<lambda>(parent, _). below root parent) (missing_mount_files st)"

fun step_inside :: "path \<Rightarrow> reconcile_step \<Rightarrow> bool" where
  "step_inside root (CreateMountFolder p) = below root p"
| "step_inside root (WriteFile parent _ _ _) = below root parent"
| "step_inside root _ = True"

lemma state_inside_push [simp]:
  "state_inside root (push_folder p st) \<longleftrightarrow> state_inside root st \<and> below root p"
  "state_inside root (push_file f st) \<longleftrightarrow> state_inside root st \<and> below root (fst f)"
  "state_inside root (push_ownership x st) = state_inside root st"
  "state_inside root (push_mode p st) = state_inside root st"
  "state_inside root (st\<lparr>missing_share_groups := gs\<rparr>) = state_inside root st"
  by (auto simp: state_inside_def push_folder_def push_file_def push_ownership_def push_mode_def
      case_prod_beta)

lemma created_file_inside:
  "create_missing_mount_file f (root @ mn # rel) = Inr x \<Longrightarrow> below root (fst x)"
  by (auto simp: create_missing_mount_file_def folder_parent_def folder_pop_def butlast_append below_append)

lemma yields_created_file:
  "yields (\<lambda>x. below root (fst x)) (of_result (create_missing_mount_file f (root @ mn # rel)))"
  unfolding yields_def by (auto simp: prog_simps created_file_inside)

lemma note_missing_file_inside:
  assumes "state_inside root st"
  shows "yields (state_inside root) (note_missing_file f (root @ mn # rel) st)"
proof -
  have "below root (butlast (root @ mn # rel))" by (simp add: butlast_append below_append)
  with assms show ?thesis
    unfolding note_missing_file_def
    by (auto simp: folder_parent_def intro!: yields_ok yields_fail yields_and_then [OF yields_created_file])
qed

lemma contents_inside:
  assumes "state_inside root st"
  shows "yields (state_inside root) (discover_contents (root @ [mn]) item st)"
    and "yields (state_inside root) (add_missing_contents (root @ [mn]) item st)"
proof -
  show "yields (state_inside root) (discover_contents (root @ [mn]) item st)"
  proof (cases item)
    case (FolderOnly p)
    with assms show ?thesis by (auto simp: discover_contents_def yields_def prog_simps below_append)
  next
    case (FileContents f)
    with assms show ?thesis
      by (auto simp: discover_contents_def Let_def intro!: yields_intros note_missing_file_inside
          yields_and_then [OF yields_created_file])
  qed
  show "yields (state_inside root) (add_missing_contents (root @ [mn]) item st)"
    using assms
    by (cases item) (auto simp: add_missing_contents_def below_append intro!: yields_ok note_missing_file_inside)
qed

lemma discovered_inside:
  "yields (state_inside (seedling_mounts_dir (plot_folders P) (plot_name P))) (discover_seedling P)"
proof -
  let ?root = "seedling_mounts_dir (plot_folders P) (plot_name P)"
  have fold: "yields (state_inside ?root) (discover_missing_mount_contents mt (plot_mount_path P mn) st)"
    "yields (state_inside ?root) (add_missing_mount mn mt (plot_mount_path P mn) st)"
    if "state_inside ?root st" for mt mn st
    unfolding discover_missing_mount_contents_def add_missing_mount_def plot_mount_path_def seedling_mount_def
    using that by (intro yields_fold_prog contents_inside; simp add: below_append)+
  have share: "yields (state_inside ?root) (discover_share_group P x st)" if "state_inside ?root st" for x st
    using that unfolding discover_share_group_def
    by (auto intro!: yields_intros split: mount_kind.split option.split)
  have mount: "yields (state_inside ?root) (discover_missing_mount P x st)" if st: "state_inside ?root st" for x st
  proof -
    have own: "yields (state_inside ?root)
        (case expected of
           None \<Rightarrow> ok (push_ownership y st)
         | Some expected_group \<Rightarrow>
             and_then (disk_call (get_user_and_group_ownership p)) (\<lambda>(_, actual_group).
               ok (if actual_group \<noteq> expected_group then push_ownership y st else st)))"
      if "state_inside ?root st" for expected p y st
      using that by (auto intro!: yields_intros split: option.split prod.split)
    have present: "yields (state_inside ?root)
        (and_then (expected_mount_group_name P mn mt) (\<lambda>expected.
         and_then (case expected of
             None \<Rightarrow> ok (push_ownership y st)
           | Some expected_group \<Rightarrow>
               and_then (disk_call (get_user_and_group_ownership p)) (\<lambda>(_, actual_group).
                 ok (if actual_group \<noteq> expected_group then push_ownership y st else st))) (\<lambda>st.
         and_then (disk_call (get_mode p')) (\<lambda>actual_mode.
           discover_missing_mount_contents mt (plot_mount_path P mn)
             (if actual_mode \<noteq> EXPECTED_MOUNT_MODE then push_mode p' st else st)))))"
      if "state_inside ?root st" for mn mt y p p' st
      by (rule yields_after, rule yields_and_then [OF own [OF that]], rule yields_after, rule fold) simp
    show ?thesis
      unfolding discover_missing_mount_def Let_def
      by (rule yields_and_then [OF share [OF st]], rule yields_after, rule yields_split(1))
        (auto intro!: fold present)
  qed
  have start: "state_inside ?root (initial_state c)" for c
    by (simp add: state_inside_def initial_state_def)
  have agent: "yields (state_inside ?root) (discover_agent P st)" if "state_inside ?root st" for st
    using that unfolding discover_agent_def
    by (auto intro!: yields_intros simp: state_inside_def)
  show ?thesis
    unfolding discover_seedling_def
    by (intro yields_intros(3) yields_and_then [OF agent] start yields_fold_prog mount)
      (simp_all add: state_inside_def)
qed

lemma planned_inside:
  assumes "create_plan P st = Inr steps" and "state_inside root st"
  shows "list_all (step_inside root) steps"
proof -
  have image: "list_all (step_inside root) xs" if "plan_image_step P status = Inr xs" for xs status
    using that by (auto simp: plan_image_step_def split: image_status.splits sum.splits)
  have agent: "list_all (step_inside root) xs" if "plan_agent_container_steps P presence = Inr xs" for xs presence
    using that by (auto simp: plan_agent_container_steps_def split: if_splits sum.splits)
  have container: "list_all (step_inside root) xs" if "plan_container_steps c x = Inr xs" for xs c x
    using that by (auto simp: plan_container_steps_def split: container_state.splits)
  have "list_all (step_inside root) (plan_seedling_and_credentials_steps b st)" for b
    by (simp add: plan_seedling_and_credentials_steps_def split: version_comparison.split)
  moreover have "list_all (step_inside root) (plan_mount_steps st)"
    using assms(2) by (auto simp: plan_mount_steps_def state_inside_def list_all_iff)
  ultimately show ?thesis
    using assms(1) image agent container
    by (auto simp: create_plan_def Let_def split: sum.splits if_splits)
qed

lemma reads_owner_and_mode: "reads_tree (get_user_and_group_ownership p)" "reads_tree (get_mode p)"
  unfolding method_defs by (intro reads_tree_intros)+

text \<open>Whoever meets the contract of \<open>tree_invariant\<close> survives every step whose target is safe.\<close>

context tree_invariant begin

lemma inv_rolo:
  assumes "\<And>q. below (rolodex_root (plot_rolodex P)) q \<Longrightarrow> safe q"
  shows "keeps (in_garden D) (rolo_call (find_service_account (plot_rolodex P) n))"
    and "keeps (in_garden D) (rolo_call (create_service_account (plot_rolodex P) n))"
    and "keeps (in_garden D) (rolo_call (find_share_group (plot_rolodex P) n m))"
    and "keeps (in_garden D) (rolo_call (create_share_group (plot_rolodex P) n m guests))"
  unfolding rolo_call_def by (intro keeps_map_err inv_rolodex assms; assumption)+

lemma inv_bank:
  "keeps (in_garden D) (bank_call (client_status B n))"
  "keeps (in_garden D) (bank_call (client_load B n))"
  "safe (desired_run_state_path (bank_server B) n) \<Longrightarrow>
     keeps (in_garden D) (bank_call (client_set_desired_run_status B n st))"
  unfolding bank_call_def client_status_def client_load_def client_set_desired_run_status_def
  by (intro keeps_map_err inv_ask; auto)+

lemma inv_seedling:
  assumes "\<And>q. below (create_seedling_path (bank_server B) n) q \<Longrightarrow> safe q"
  shows "keeps (in_garden D) (bank_call (client_create B n v d))"
    and "keeps (in_garden D) (bank_call (client_update B n v d))"
    and "keeps (in_garden D) (bank_call (client_delete B n))"
  unfolding bank_call_def client_create_def client_update_def client_delete_def
  by (intro keeps_map_err inv_ask assms; auto simp: below_seedling)+

lemma inv_docker: "keeps (in_garden D) (docker_call m)"
  unfolding docker_call_def by (intro garden_intros keeps_intros)

lemma inv_reading: "reads_tree m \<Longrightarrow> keeps (in_garden D) (disk_call m)"
  unfolding disk_call_def by (intro keeps_in_garden inv_reads)

lemmas reading_calls = inv_reading [OF reads_tree_methods(2)] inv_reading [OF reads_owner_and_mode(1)]
  inv_reading [OF reads_owner_and_mode(2)]

lemma inv_docker_name: "keeps (in_garden D) (docker_name r)"
  unfolding docker_name_def by (intro keeps_intros)

lemma inv_marking:
  "keeps (in_garden D) (disk_call (change_user_and_group_ownership p u g))"
  "keeps (in_garden D) (disk_call (change_mode p md))"
  "keeps (in_garden D) (disk_call (folder_create_recursively p))"
proof -
  have "keeps D (change_user_and_group_ownership p u g)" "keeps D (change_mode p md)"
    unfolding change_user_and_group_ownership_def change_mode_def by (intro keeps_intros marking)+
  then show "keeps (in_garden D) (disk_call (change_user_and_group_ownership p u g))"
    "keeps (in_garden D) (disk_call (change_mode p md))"
    "keeps (in_garden D) (disk_call (folder_create_recursively p))"
    unfolding disk_call_def by (intro keeps_in_garden making; simp)+
qed

lemma inv_writing:
  "safe p \<Longrightarrow> keeps (in_garden D) (disk_call (writer_write_all_bytes p b))"
  "safe p \<Longrightarrow> keeps (in_garden D) (disk_call (deleter_delete p))"
  "(\<And>q. below p q \<Longrightarrow> safe q) \<Longrightarrow> keeps (in_garden D) (disk_call (folder_deleter_delete p))"
  unfolding disk_call_def by (intro keeps_in_garden writing deleting deleting_folder; simp)+

lemma inv_discover:
  assumes "\<And>q. below (rolodex_root (plot_rolodex P)) q \<Longrightarrow> safe q"
  shows "keeps (in_garden D) (discover_seedling P)"
proof -
  let ?K = "in_garden D"
  note rolo = inv_rolo [of P, OF assms]
  have noted: "keeps ?K (note_missing_file f p st)" for f p st
    unfolding note_missing_file_def by (intro keeps_intros)
  have contents: "keeps ?K (discover_contents root item st)" "keeps ?K (add_missing_contents root item st)"
    for root item st
    unfolding discover_contents_def add_missing_contents_def Let_def
    by (cases item; simp; intro keeps_intros reading_calls noted)+
  have share: "keeps ?K (discover_share_group P x st)" for x st
    unfolding discover_share_group_def
    by (cases "mount_kind (snd x)"; simp; intro keeps_intros rolo)
  have group: "keeps ?K (expected_mount_group_name P mn mt)" for mn mt
    unfolding expected_mount_group_name_def
    by (cases "mount_kind mt"; simp; intro keeps_intros rolo)
  have mount: "keeps ?K (discover_missing_mount P x st)" for x st
    unfolding discover_missing_mount_def Let_def add_missing_mount_def discover_missing_mount_contents_def
    by (intro keeps_intros share group contents reading_calls)
  have running: "keeps ?K (discover_container_is_running P c)" for c
    unfolding discover_container_is_running_def
    by (auto intro!: keeps_intros garden_intros split: sum.split docker_error.split)
  have container: "keeps ?K (discover_container P c)" for c
    unfolding discover_container_def
    by (auto intro!: keeps_intros garden_intros running split: sum.split docker_error.split option.split)
  have image: "keeps ?K (discover_image_status P)"
    unfolding discover_image_status_def Let_def
    by (auto intro!: keeps_intros garden_intros inv_docker split: image_source.split)
  have agent: "keeps ?K (discover_agent P st)" for st
    unfolding discover_agent_def by (intro keeps_intros rolo inv_docker inv_docker_name)
  show ?thesis
    unfolding discover_seedling_def discover_current_seedbank_version_def
    by (intro keeps_intros inv_docker_name agent image container mount rolo inv_bank)
qed

lemma inv_ids: "keeps (in_garden D) (account_ids a)"
  unfolding account_ids_def by (intro keeps_intros)

lemma inv_network: "keeps (in_garden D) (ensure_network P n subnet)"
  unfolding ensure_network_def by (intro keeps_intros inv_docker)

text \<open>The steps that read accounts and build containers.\<close>

lemma inv_account:
  assumes "\<And>q. below (rolodex_root (plot_rolodex P)) q \<Longrightarrow> safe q"
  shows "keeps (in_garden D) (require_account P n)"
  unfolding require_account_def by (intro keeps_intros inv_rolo assms)

lemmas inv_calls = inv_ids inv_network inv_marking inv_docker_name inv_docker reading_calls

lemma inv_containers:
  assumes "\<And>q. below (rolodex_root (plot_rolodex P)) q \<Longrightarrow> safe q"
  shows "keeps (in_garden D) (build_container_run P)"
    and "keeps (in_garden D) (build_agent_container_run P)"
    and "keeps (in_garden D) (set_ownership_run P p mn kind)"
proof -
  note rolo = inv_rolo [of P, OF assms] inv_account [of P, OF assms]
  show "keeps (in_garden D) (build_container_run P)"
    unfolding build_container_run_def agent_address_def by (intro keeps_intros rolo inv_calls)
  have "keeps (in_garden D) (require_agent P)"
    unfolding require_agent_def by (intro keeps_intros)
  then show "keeps (in_garden D) (build_agent_container_run P)"
    unfolding build_agent_container_run_def by (intro keeps_and_then keeps_map_err rolo inv_calls keeps_intros)
  show "keeps (in_garden D) (set_ownership_run P p mn kind)"
    unfolding set_ownership_run_def
    by (cases kind; simp; intro keeps_intros rolo inv_calls)
qed

lemma inv_build_rollback: "keeps (in_garden D) (build_rollback P c b)"
  unfolding build_rollback_def by (intro keeps_intros inv_calls)

text \<open>The agent's folder and files.\<close>

lemma inv_agent_mount:
  assumes "\<And>a. plot_agent P = Some a \<Longrightarrow> ram_keeps D (plot_ram_disk P) (mount_dir a)" and "\<And>q. agent_touches P q \<Longrightarrow> safe q"
  shows "(\<And>q. below (rolodex_root (plot_rolodex P)) q \<Longrightarrow> safe q) \<Longrightarrow> keeps (in_garden D) (ensure_agent_mount_run P)"
    and "keeps (in_garden D) (ensure_agent_mount_rollback P created mounted)"
proof -
  have ram: "keeps (in_garden D) (ram_call (ram_is_mounted (plot_ram_disk P) (mount_dir a)))"
      "keeps (in_garden D) (ram_call (ram_mount (plot_ram_disk P) (mount_dir a) n))"
      "keeps (in_garden D) (ram_call (ram_unmount (plot_ram_disk P) (mount_dir a)))"
    if "plot_agent P = Some a" for a n
    unfolding ram_call_def using assms(1) [OF that]
    by (intro keeps_map_err; simp add: ram_keeps_def)+
  have files: "keeps (in_garden D) (disk_call (writer_write_all_bytes (role_id_path a) b))"
      "keeps (in_garden D) (disk_call (writer_write_all_bytes (secret_id_path a) b))"
      "keeps (in_garden D) (disk_call (writer_write_all_bytes (agent_config_path a) b))"
      "keeps (in_garden D) (disk_call (folder_deleter_delete (mount_dir a)))"
    if "plot_agent P = Some a" for a b
    using that by (intro inv_writing assms(2); simp add: agent_touches_def)+
  show "keeps (in_garden D) (ensure_agent_mount_run P)"
    if rolo: "\<And>q. below (rolodex_root (plot_rolodex P)) q \<Longrightarrow> safe q"
  proof (cases "plot_agent P")
    case None
    then show ?thesis
      by (auto simp: ensure_agent_mount_run_def require_agent_def keeps_def and_then_def fail_def)
  next
    case (Some a)
    have start: "and_then (require_agent P) k = k a" for k :: "agent_provisioning \<Rightarrow> ('a, bool \<times> bool) reconciling"
      using Some by (simp add: require_agent_def and_then_def ok_def fun_eq_iff)
    show ?thesis
      unfolding ensure_agent_mount_run_def start
      by (intro keeps_and_then keeps_gets keeps_ok ram [OF Some] files [OF Some] inv_calls inv_account rolo)
  qed
  show "keeps (in_garden D) (ensure_agent_mount_rollback P created mounted)"
    unfolding ensure_agent_mount_rollback_def
    by (cases "plot_agent P") (auto intro!: keeps_intros ram files)
qed

text \<open>A step and its rollback only change what the step may touch.\<close>

lemma inv_step:
  assumes "\<And>a. plot_agent P = Some a \<Longrightarrow> ram_keeps D (plot_ram_disk P) (mount_dir a)" and away: "\<And>q. step_touches P k q \<Longrightarrow> safe q"
  shows "keeps (in_garden D) (reconcile_run P k)" and "keeps (in_garden D) (reconcile_undo P k)"
proof -
  have rolo: "below (rolodex_root (plot_rolodex P)) q \<Longrightarrow> safe q"
    if "k \<notin> {CreateSeedling, SetDesiredRunStatusToRunning}" "\<nexists>x. k = UpdateSeedling x" "\<nexists>p. k = CreateMountFolder p"
      "\<nexists>p n b x. k = WriteFile p n b x" for q
    using that away [of q] by (cases k) auto
  note calls = inv_calls inv_bank(2) inv_writing inv_build_rollback
  show "keeps (in_garden D) (reconcile_run P k)"
    using assms rolo
    by (cases k) (auto simp: write_file_run_def update_run_def Let_def stop_container_run_def drop_container_run_def
        intro!: keeps_intros calls inv_bank(3) inv_seedling inv_rolo inv_containers inv_agent_mount)
  show "keeps (in_garden D) (reconcile_undo P k)"
    using assms
    by (cases k) (auto simp: write_file_rollback_def
        intro!: keeps_intros calls inv_seedling inv_agent_mount split: option.split)
qed

end

lemma step_touches_plot:
  "step_inside (seedling_mounts_dir (plot_folders P) (plot_name P)) k \<Longrightarrow> step_touches P k q \<Longrightarrow> plot_touches P q"
  by (cases k) (auto simp: plot_touches_def desired_run_state_path_def below_append)

lemma ran_inside:
  "step_inside root k \<Longrightarrow> reconcile_run P k c = (Inr k', c') \<Longrightarrow> step_inside root k'"
  by (cases k) (auto elim!: and_then_InrE simp: prog_simps)

lemma reconcile_perform:
  "snd (snd (perform (reconcile_ops P) k c)) = snd (reconcile_run P k c)"
  "perform (reconcile_ops P) k c = (Inr (), k', c') \<longleftrightarrow> reconcile_run P k c = (Inr k', c')"
  "snd (snd (undo (reconcile_ops P) k c)) = snd (reconcile_undo P k c)"
  by (auto simp: reconcile_ops_def split: prod.splits sum.splits)

context tree_invariant begin

lemma inv_reconcile:
  fixes P :: "'d plot"
  assumes ram: "\<And>a. plot_agent P = Some a \<Longrightarrow> ram_keeps D (plot_ram_disk P) (mount_dir a)"
    and away: "\<And>q. plot_touches P q \<Longrightarrow> safe q"
  shows "keeps (in_garden D) (reconcile_seedling P display)"
proof (rule keepsI)
  fix g :: "'d garden" assume g: "in_garden D g"
  let ?root = "seedling_mounts_dir (plot_folders P) (plot_name P)"
  have step: "keeps (in_garden D) (reconcile_run P k)" "keeps (in_garden D) (reconcile_undo P k)"
    if "step_inside ?root k" for k
    using step_touches_plot [OF that] by (intro inv_step ram away; auto)+
  have planned: "keeps (in_garden D) (run_plan (reconcile_ops P) display (create_plan P st) FailedBootstrap)"
    if "state_inside ?root st" for st
    by (rule plan_keeps [where J = "step_inside ?root"])
      (auto simp: reconcile_perform step [THEN keepsD] ran_inside dest: planned_inside [OF _ that])
  obtain r h where d: "discover_seedling P g = (r, h)" by (cases "discover_seedling P g") auto
  have "keeps (in_garden D) (discover_seedling P)" by (rule inv_discover) (simp add: away plot_touches_def)
  from keeps_result [OF this g d] have h: "in_garden D h" .
  show "in_garden D (snd (reconcile_seedling P display g))"
  proof (cases r)
    case (Inl e)
    with d h show ?thesis by (simp add: reconcile_seedling_def and_then_Inl)
  next
    case (Inr st)
    with d have "reconcile_seedling P display g =
        run_plan (reconcile_ops P) display (create_plan P st) FailedBootstrap h"
      by (simp add: reconcile_seedling_def and_then_Inr)
    with keepsD [OF planned h] yieldsD [OF discovered_inside d [unfolded Inr]] show ?thesis by simp
  qed
qed

end

text \<open>
  C4: Whatever a reconciliation finds, plans, does and rolls back, and whatever fails on the way (system calls,
  docker, the RAM disk, the wire to the seedbank), it changes no file outside the folder of its seedling in
  the seedbank, the mounts of its seedling, the records of the rolodex and the files of its agent.
\<close>

theorem reconciliation_is_confined:
  assumes "ram_stays_below (plot_ram_disk P)" and "\<not> plot_touches P q"
  shows "content (disk (snd (reconcile_seedling P display g))) q = content (disk g) q"
proof -
  have "keeps (in_garden (agrees (\<lambda>q. \<not> plot_touches P q) (disk g))) (reconcile_seedling P display)"
    by (intro framed.inv_reconcile ram_keeps_agrees assms(1)) (auto simp: plot_touches_def agent_touches_def)
  from keepsD [OF this, of g] show ?thesis using assms(2) by (simp add: in_garden_def agrees_def)
qed

section \<open>The plan\<close>

text \<open>
  A reconciliation has nothing to do but to note that the seedling is meant to run exactly when the seedbank
  holds this version or a newer one, all accounts, share groups, mounts and files are there, the image is
  local, the container of this version runs, and the seedling has no secrets: the mount of an agent is made
  anew every time.
\<close>

theorem nothing_to_do:
  "create_plan P st = Inr [SetDesiredRunStatusToRunning] \<longleftrightarrow>
     st_version st \<in> {VersionCurrent, VersionNewer} \<and> \<not> missing_service_credentials st \<and>
     missing_share_groups st = [] \<and> missing_mount_folders st = [] \<and> needs_mount_ownership st = [] \<and>
     missing_mount_mode st = [] \<and> missing_mount_files st = [] \<and> st_image st = ImageLocal \<and>
     secrets (plot_definition P) = None \<and> st_container st = ContainerCurrent True"
proof -
  have seedling: "plan_seedling_and_credentials_steps b st = [SetDesiredRunStatusToRunning] \<longleftrightarrow>
      st_version st \<in> {VersionCurrent, VersionNewer} \<and> \<not> missing_service_credentials st \<and>
      \<not> (b \<and> agent_missing_service_credentials st)" for b
    by (simp add: plan_seedling_and_credentials_steps_def split: version_comparison.split)
  have some: "plan_seedling_and_credentials_steps b st \<noteq> []" for b
    by (simp add: plan_seedling_and_credentials_steps_def)
  have own: "SetDesiredRunStatusToRunning \<in> set (plan_seedling_and_credentials_steps b st)" for b
    by (simp add: plan_seedling_and_credentials_steps_def)
  have mount: "plan_mount_steps st = [] \<longleftrightarrow> missing_share_groups st = [] \<and> missing_mount_folders st = [] \<and>
      needs_mount_ownership st = [] \<and> missing_mount_mode st = [] \<and> missing_mount_files st = []"
    by (auto simp: plan_mount_steps_def)
  have image: "plan_image_step P status = Inr [] \<longleftrightarrow> status = ImageLocal" for status
    by (auto simp: plan_image_step_def split: image_status.splits sum.splits)
  have agent: "plan_agent_container_steps P presence \<noteq> Inr []" for presence
    by (auto simp: plan_agent_container_steps_def split: sum.splits)
  have container: "plan_container_steps c x = Inr [] \<longleftrightarrow> x = ContainerCurrent True" for c x
    by (auto simp: plan_container_steps_def split: container_state.splits)
  have parts: "xs @ ys = [k] \<longleftrightarrow> xs = [k] \<and> ys = []" if "xs \<noteq> []" for xs ys :: "reconcile_step list" and k
    using that by (auto simp: append_eq_Cons_conv)
  show ?thesis
    unfolding create_plan_def Let_def
    using agent [of "st_agent_container st"]
    by (cases "secrets (plot_definition P) = None";
        cases "plan_image_step P (st_image st)"; cases "plan_agent_container_steps P (st_agent_container st)";
        cases "plan_container_steps (st_container_name st) (st_container st)")
      (auto simp: parts [OF some] seedling mount simp flip: image [of "st_image st"]
        container [of "st_container_name st" "st_container st"])
qed

text \<open>The order of the steps; \<open>c\<close> is the container of the seedling itself.\<close>

fun plan_stage :: "string \<Rightarrow> reconcile_step \<Rightarrow> nat" where
  "plan_stage c CreateSeedling = 0"
| "plan_stage c (UpdateSeedling _) = 0"
| "plan_stage c SetDesiredRunStatusToRunning = 1"
| "plan_stage c CreateServiceAccount = 2"
| "plan_stage c CreateAgentServiceAccount = 2"
| "plan_stage c (CreateShareGroup _ _) = 3"
| "plan_stage c (CreateMountFolder _) = 4"
| "plan_stage c (SetMountOwnership _ _ _) = 5"
| "plan_stage c (SetMountMode _ _) = 6"
| "plan_stage c (WriteFile _ _ _ _) = 7"
| "plan_stage c (PullImageFromResin _) = 8"
| "plan_stage c (EnsureAgentMount _ _) = 9"
| "plan_stage c (BuildAgentContainer _) = 10"
| "plan_stage c (StartContainer d) = (if d = c then 15 else 11)"
| "plan_stage c (StopContainerStep _) = 12"
| "plan_stage c (DropContainerStep _) = 13"
| "plan_stage c (BuildContainer _) = 14"

lemma agent_container_other:
  "container_name im n = Inr c \<Longrightarrow> agent_container_name im n = Inr d \<Longrightarrow> d \<noteq> c"
  by (auto simp: container_name_def agent_container_name_def docker_name_from_str_def validated_Inr
      CONTAINER_NAME_PREFIX_def AGENT_CONTAINER_NAME_PREFIX_def)

lemma sorted_constant: "\<forall>x \<in> set xs. f x = (m :: nat) \<Longrightarrow> sorted (map f xs)"
  by (induction xs) auto

text \<open>
  The steps of every plan come in one order: the seedling is registered and meant to run before its accounts
  are made, accounts before share groups, all of them before folders are made, owned, opened and filled, the
  image is there before a container is built, the agent runs before the old container is stopped, dropped and
  built anew, and the container of the seedling is started last.
\<close>

theorem plan_in_order:
  assumes "container_name (plot_regex P) (plot_name P) = Inr (st_container_name st)"
    and "create_plan P st = Inr steps"
  shows "sorted (map (plan_stage (st_container_name st)) steps)"
proof -
  let ?c = "st_container_name st"
  have seedling: "sorted (map (plan_stage ?c) (plan_seedling_and_credentials_steps b st)) \<and>
      (\<forall>k \<in> set (plan_seedling_and_credentials_steps b st). plan_stage ?c k \<le> 2)" for b
    by (simp add: plan_seedling_and_credentials_steps_def split: version_comparison.split)
  have mount: "sorted (map (plan_stage ?c) (plan_mount_steps st)) \<and>
      (\<forall>k \<in> set (plan_mount_steps st). 3 \<le> plan_stage ?c k \<and> plan_stage ?c k \<le> 7)"
    by (auto simp: plan_mount_steps_def sorted_append comp_def case_prod_beta intro!: sorted_constant)
  have image: "sorted (map (plan_stage ?c) xs) \<and> (\<forall>k \<in> set xs. plan_stage ?c k = 8)" if "plan_image_step P status = Inr xs" for xs status
    using that by (auto simp: plan_image_step_def split: image_status.splits sum.splits)
  have agent: "sorted (map (plan_stage ?c) xs) \<and> (\<forall>k \<in> set xs. 9 \<le> plan_stage ?c k \<and> plan_stage ?c k \<le> 11)"
    if "plan_agent_container_steps P presence = Inr xs" for xs presence
    using that agent_container_other [OF assms(1)]
    by (auto simp: plan_agent_container_steps_def split: if_splits sum.splits)
  have container: "sorted (map (plan_stage ?c) xs) \<and> (\<forall>k \<in> set xs. 12 \<le> plan_stage ?c k)"
    if "plan_container_steps ?c x = Inr xs" for xs x
    using that by (auto simp: plan_container_steps_def split: container_state.splits if_splits)
  from assms(2) obtain as bs cs where steps: "steps = plan_seedling_and_credentials_steps (secrets (plot_definition P) \<noteq> None) st @
      plan_mount_steps st @ as @ bs @ cs"
    and parts: "plan_image_step P (st_image st) = Inr as" "bs = [] \<or> plan_agent_container_steps P (st_agent_container st) = Inr bs"
      "plan_container_steps ?c (st_container st) = Inr cs"
    by (auto simp: create_plan_def Let_def split: sum.splits if_splits)
  have "sorted (map (plan_stage ?c) bs) \<and> (\<forall>k \<in> set bs. 9 \<le> plan_stage ?c k \<and> plan_stage ?c k \<le> 11)"
    using parts(2) agent by auto
  with seedling mount image [OF parts(1)] container [OF parts(3)] show ?thesis
    unfolding steps by (fastforce simp: sorted_append)
qed

section \<open>Rollbacks\<close>

lemma reader_bytes_content: "reader_read_all_bytes p s = (Inr b, t) \<Longrightarrow> content s p = Some b"
  unfolding reader_read_all_bytes_def by (auto elim!: map_err_InrE dest: std_read_content(2))

lemma writer_bytes_content: "writer_write_all_bytes p b s = (Inr (), t) \<Longrightarrow> content t p = Some b"
  unfolding writer_write_all_bytes_def by (auto elim!: map_err_InrE dest: std_write_content(1))

text \<open>
  A file that a reconciliation wrote is given back by the rollback of that step, whatever happened in
  between: its old contents if it was there, and no file if it was not.
\<close>

theorem written_file_is_given_back:
  assumes "reconcile_run P (WriteFile parent file_name bytes x) g = (Inr k, h)"
    and "reconcile_undo P k h1 = (Inr (), h2)"
  shows "content (disk h2) (parent @ [file_name]) = content (disk g) (parent @ [file_name])"
proof -
  let ?p = "parent @ [file_name]"
  from assms(1) obtain previous where k: "k = WriteFile parent file_name bytes previous"
    and run: "write_file_run parent file_name bytes g = (Inr previous, h)"
    by (auto elim!: and_then_InrE simp: prog_simps)
  have "previous = content (disk g) ?p"
  proof (cases "file_exists (disk g) ?p")
    case True
    with run show ?thesis
      by (auto simp: write_file_run_def Let_def prog_simps disk_call_def on_disk_Inr elim!: and_then_InrE
          dest!: reader_bytes_content)
  next
    case False
    with run show ?thesis
      by (auto simp: write_file_run_def Let_def prog_simps not_file_content elim!: and_then_InrE)
  qed
  moreover have "content (disk h2) ?p = previous"
    using assms(2) k
    by (cases previous) (auto simp: write_file_rollback_def disk_call_def on_disk_Inr
        dest!: writer_bytes_content deleter_delete_content(1))
  ultimately show ?thesis by simp
qed

text \<open>A missing file is noted with its folder, and nothing is asked about that folder.\<close>

lemma missing_file_notes_folder:
  assumes "\<not> exists_path (disk g) (root @ folder @ [n])"
  shows "discover_contents root (FileContents \<lparr>file_relative_path = folder @ [n], file_bytes = b\<rparr>) st g =
    (Inr (push_file (root @ folder, n, b) (push_folder (root @ folder) st)), g)"
  using assms
  by (simp add: discover_contents_def Let_def note_missing_file_def folder_parent_def folder_pop_def
      create_missing_mount_file_def prog_simps butlast_append)

text \<open>A container of the right version is never built again, whatever it is connected to.\<close>

lemma current_container_not_rebuilt:
  assumes "create_plan P st = Inr steps" and "st_container st = ContainerCurrent running"
  shows "BuildContainer x \<notin> set steps"
proof -
  have "BuildContainer x \<notin> set xs" if "plan_image_step P status = Inr xs" for xs status
    using that by (auto simp: plan_image_step_def split: image_status.splits sum.splits)
  moreover have "BuildContainer x \<notin> set xs" if "plan_agent_container_steps P presence = Inr xs" for xs presence
    using that by (auto simp: plan_agent_container_steps_def split: if_splits sum.splits)
  moreover have "BuildContainer x \<notin> set (plan_seedling_and_credentials_steps b st)" for b
    by (simp add: plan_seedling_and_credentials_steps_def split: version_comparison.split)
  ultimately show ?thesis
    using assms by (auto simp: create_plan_def Let_def plan_container_steps_def plan_mount_steps_def
        split: sum.splits if_splits)
qed

text \<open>A folder whose rollback succeeds is gone with everything in it.\<close>

lemma deleted_folder_empty:
  assumes "folder_deleter_delete p s = (Inr (), t)" and "wf_fs s" and "below p q"
  shows "content t q = None"
proof (cases "exists_path s p")
  case True
  with assms(1,3) show ?thesis
    unfolding folder_deleter_delete_def std_remove_dir_all_def
    by (auto simp: gets_run and_then_def map_err_def split: sum.splits prod.splits if_splits option.splits node.splits
        elim!: call_cases)
next
  case False
  then have t: "t = s" using assms(1) by (auto simp: folder_deleter_delete_def and_then_def prog_simps)
  show ?thesis
  proof (rule ccontr)
    assume "content t q \<noteq> None"
    then have q: "exists_path s q"
      using t by (auto simp: content_def exists_path_def split: option.splits node.splits)
    obtain r where r: "q = p @ r" using assms(3) by (auto simp: below_append)
    with q False have "r \<noteq> []" by auto
    with q r assms(2) have "is_dir s (p @ butlast r)" by (auto simp: wf_fs_def butlast_append)
    from wf_ancestor [OF assms(2) this, of "length p"] False show False by (simp add: exists_iff)
  qed
qed

text \<open>Only the steps before the mount folders run before them.\<close>

fun before_folders :: "reconcile_step \<Rightarrow> bool" where
  "before_folders CreateSeedling = True"
| "before_folders (UpdateSeedling _) = True"
| "before_folders SetDesiredRunStatusToRunning = True"
| "before_folders CreateServiceAccount = True"
| "before_folders CreateAgentServiceAccount = True"
| "before_folders (CreateShareGroup _ _) = True"
| "before_folders (CreateMountFolder _) = True"
| "before_folders _ = False"

lemma split_before_folders:
  assumes "create_plan P st = Inr steps"
  obtains as bs where "steps = as @ bs" "list_all before_folders as" "\<forall>p. CreateMountFolder p \<notin> set bs"
proof -
  have image: "\<forall>p. CreateMountFolder p \<notin> set xs" if "plan_image_step P status = Inr xs" for xs status
    using that by (auto simp: plan_image_step_def split: image_status.splits sum.splits)
  have agent: "\<forall>p. CreateMountFolder p \<notin> set xs" if "plan_agent_container_steps P presence = Inr xs" for xs presence
    using that by (auto simp: plan_agent_container_steps_def split: if_splits sum.splits)
  have container: "\<forall>p. CreateMountFolder p \<notin> set xs" if "plan_container_steps c x = Inr xs" for xs c x
    using that by (auto simp: plan_container_steps_def split: container_state.splits if_splits)
  from assms obtain xs ys zs where steps: "steps = plan_seedling_and_credentials_steps (secrets (plot_definition P) \<noteq> None) st @
      plan_mount_steps st @ xs @ ys @ zs"
    and parts: "plan_image_step P (st_image st) = Inr xs" "ys = [] \<or> plan_agent_container_steps P (st_agent_container st) = Inr ys"
      "plan_container_steps (st_container_name st) (st_container st) = Inr zs"
    by (auto simp: create_plan_def Let_def split: sum.splits if_splits)
  have seedling: "list_all before_folders (plan_seedling_and_credentials_steps b st)" for b
    by (simp add: plan_seedling_and_credentials_steps_def split: version_comparison.split)
  show thesis
    by (rule that [of "plan_seedling_and_credentials_steps (secrets (plot_definition P) \<noteq> None) st @
          map (\<lambda>(mn, guests). CreateShareGroup mn guests) (missing_share_groups st) @
          map CreateMountFolder (missing_mount_folders st)"
          "map (\<lambda>(p, mn, kind). SetMountOwnership p mn kind) (needs_mount_ownership st) @
           map (\<lambda>(p, md). SetMountMode p md) (missing_mount_mode st) @
           map (\<lambda>(parent, file_name, bytes). WriteFile parent file_name bytes None) (missing_mount_files st) @
           xs @ ys @ zs"])
      (use seedling [of "secrets (plot_definition P) \<noteq> None"] parts image agent container in
        \<open>auto simp: steps plan_mount_steps_def list_all_iff\<close>)
qed

lemma early_undo_restores_nothing:
  assumes "before_folders k" and "content (disk g) q = None"
    and "\<not> below (create_seedling_path (bank_server (plot_bank P)) (plot_name P)) q"
  shows "content (disk (snd (reconcile_undo P k g))) q = None"
proof -
  have bank: "content (disk (snd (m g))) q = None"
    if "keeps (in_garden (agrees (\<lambda>x. x = q) (disk g))) m" for m :: "('a, unit) reconciling"
    using keepsD [OF that, of g] assms(2) by (simp add: in_garden_def agrees_def)
  show ?thesis
  proof (cases k)
    case (CreateMountFolder p)
    obtain r t where "folder_deleter_delete p (disk g) = (r, t)" by fastforce
    with delete_only_removes [of p "disk g" r t q] assms(2) CreateMountFolder show ?thesis
      by (auto simp: disk_call_def on_disk_def)
  qed (use assms in \<open>auto simp: prog_simps split: option.split intro!: bank framed.inv_seedling\<close>)
qed

lemma ran_before: "before_folders k \<Longrightarrow> reconcile_run P k c = (Inr k', c') \<Longrightarrow> before_folders k'"
  by (cases k) (auto elim!: and_then_InrE simp: prog_simps)

lemma reconcile_skips [simp]: "skips (reconcile_ops P) k c \<longleftrightarrow> False"
  by (simp add: reconcile_ops_def)

text \<open>
  C14: When a reconciliation fails and its rollback succeeds, nothing is left below any folder that the plan was
  to make and made, whatever was there before: the plan makes the folder of every missing file, and one that
  was there all along, with files of its own, is deleted by the rollback like a new one.
\<close>

theorem rollback_empties_folders:
  assumes "create_plan P st = Inr steps"
    and "executor_run (reconcile_ops P) [] g steps = (Failed i nm e [], j, g')"
    and "n < i" and "steps ! n = CreateMountFolder p" and "below p q"
    and "\<not> below (create_seedling_path (bank_server (plot_bank P)) (plot_name P)) q"
    and "wf_fs (disk g)" and "\<And>a. plot_agent P = Some a \<Longrightarrow> ram_keeps wf_fs (plot_ram_disk P) (mount_dir a)"
  shows "content (disk g') q = None"
proof -
  let ?ops = "reconcile_ops P"
  let ?wf = "in_garden wf_fs :: 'a garden \<Rightarrow> bool"
  from assms(2) obtain pre k post pre' d d' where steps: "steps = pre @ k # post" "i = length pre"
    and ran: "completes ?ops g pre pre' d" and failing: "step_fails ?ops d k e d'"
    and undone: "undo_all ?ops (rev pre') d' = ([], g')"
    by (rule failed_split)
  define xs ys where "xs = take n pre" and "ys = drop (Suc n) pre"
  have pre: "pre = xs @ [CreateMountFolder p] @ ys"
    using assms(3,4) steps id_take_nth_drop [of n pre] by (simp add: xs_def ys_def nth_append)
  have early: "list_all before_folders xs"
  proof -
    obtain as bs where "steps = as @ bs" "list_all before_folders as" "\<forall>p. CreateMountFolder p \<notin> set bs"
      by (rule split_before_folders [OF assms(1)])
    with pre steps(1) show ?thesis by (auto simp: append_eq_append_conv2)
  qed
  from ran [unfolded pre] obtain us m vs' where "pre' = us @ vs'" and us: "completes ?ops g xs us m"
    and "completes ?ops m ([CreateMountFolder p] @ ys) vs' d"
    by (rule completes_split)
  then obtain vs where pre': "pre' = us @ CreateMountFolder p # vs"
    by (auto simp: completes_Cons_iff reconcile_perform(2) prog_simps elim!: and_then_InrE)
  have wf_step: "?wf c \<Longrightarrow> ?wf (snd (snd (perform ?ops k c)))" "?wf c \<Longrightarrow> ?wf (snd (snd (undo ?ops k c)))" for k c
    unfolding reconcile_perform using grown.inv_step [OF assms(8)] by (blast intro: keepsD)+
  have "?wf g" using assms(7) by (simp add: in_garden_def)
  with completes_keeps [where J = "\<lambda>_. True" and I = ?wf, OF wf_step(1) _ ran] have "?wf d" by (simp add: list_all_iff)
  with failing wf_step(1) have "?wf d'" by (metis step_fails_def snd_conv)
  obtain e1 g1 where late: "undo_all ?ops (rev vs) d' = (e1, g1)" by fastforce
  with \<open>?wf d'\<close> undo_all_keeps [where J = "\<lambda>_. True" and I = ?wf, OF wf_step(2), of "rev vs" d'] have g1: "?wf g1"
    by (simp add: list_all_iff)
  have split: "undo_all ?ops (CreateMountFolder p # rev us) g1 = ([], g')"
  proof -
    have "undo_all ?ops (rev vs @ (CreateMountFolder p # rev us)) d' = ([], g')"
      using undone unfolding pre' by simp
    with late show ?thesis
      unfolding undo_all_append by (auto simp del: undo_all.simps split: prod.splits)
  qed
  then obtain g2 where u: "reconcile_undo P (CreateMountFolder p) g1 = (Inr (), g2)"
    and rest': "undo_all ?ops (rev us) g2 = ([], g')"
    by (auto simp: reconcile_ops_def split: prod.splits sum.splits)
  have "content (disk g2) q = None"
    using u g1 assms(5) deleted_folder_empty by (auto simp: disk_call_def on_disk_Inr in_garden_def)
  moreover have "list_all before_folders us"
    using completes_keeps [where J = before_folders and I = "\<lambda>_. True", OF _ _ us early]
    unfolding reconcile_perform(2) by (blast intro: ran_before)
  ultimately show ?thesis
    using undo_all_keeps [where J = before_folders and I = "\<lambda>g. content (disk g) q = None" and ops = ?ops,
        of "rev us" g2] rest' assms(6)
    by (simp add: reconcile_perform(3) early_undo_restores_nothing)
qed

text \<open>A seedling may have the name that the agent of another one has its account under.\<close>

lemma agent_account_is_a_seedling_name:
  "name_from_str table_regex (agent_account_full_name ''ab'') = Inr ''ab-openbao-agent''"
  by code_simp

section \<open>Updates\<close>

lemma ask_Inr:
  assumes "ask B r wanted g = (Inr a, h)"
  obtains response where "seedbank_handle (bank_server B) (bank_clock B) r (disk g) = (response, disk h)"
    and "wanted response = Some a"
  using assms unfolding ask_def
  by (elim and_then_InrE)
    (auto simp: client_request_def next_event_def serve_on_def prog_simps
      split: wire_event.splits list.splits prod.splits option.splits seedbank_response.splits)

lemma load_InrE:
  assumes "bank_call (client_load B n) g = (Inr s, h)"
  shows "stored_version (bank_server B) (disk g) n = Some (seedling_version s) \<and>
    stored_version (bank_server B) (disk h) n = Some (seedling_version s)"
proof -
  from assms obtain response where r: "seedbank_handle (bank_server B) (bank_clock B) (LoadRequest n) (disk g) = (response, disk h)"
    and s: "response = SeedlingResponse s"
    unfolding bank_call_def client_load_def
    by (auto elim!: map_err_InrE ask_Inr split: seedbank_response.splits)
  then have l: "load_seedling (bank_server B) n (disk g) = (Inr s, disk h)"
    by (auto simp: seedbank_handle_def respond_def split: prod.splits sum.splits)
  then obtain d u i w where "load_definition (bank_server B) n (disk g) = (Inr d, u)"
    and "load_id (bank_server B) n u = (Inr i, w)" and "load_version (bank_server B) n w = (Inr (seedling_version s), disk h)"
    unfolding load_seedling_def by (auto elim!: and_then_InrE simp: prog_simps)
  then have "stored_version (bank_server B) w n = Some (seedling_version s)" and "content w = content (disk g)"
    and "content (disk h) = content w"
    using load_version_stored reads_tree_content [OF load_definition_reads] reads_tree_content [OF load_id_reads]
      reads_tree_content [OF load_version_reads] by metis+
  then show ?thesis by (simp add: stored_version_def)
qed

lemma update_InrE:
  assumes "bank_call (client_update B n v d) g = (Inr (), h)"
  obtains c where "stored_version (bank_server B) (disk g) n = Some c" "c < v"
    "stored_version (bank_server B) (disk h) n = Some v"
proof -
  from assms obtain response where r: "seedbank_handle (bank_server B) (bank_clock B) (UpdateRequest n v d) (disk g) = (response, disk h)"
    and s: "response = OkResponse"
    unfolding bank_call_def client_update_def okay_def
    by (auto elim!: map_err_InrE ask_Inr split: seedbank_response.splits)
  then have "seedbank_update (bank_server B) n v d (disk g) = (Inr (), disk h)"
    by (auto simp: seedbank_handle_def respond_def split: prod.splits sum.splits)
  then show thesis using that by (cases rule: update_cases) (auto dest: write_definition_version)
qed

text \<open>A version that is not newer is refused, and nothing changes, whatever happens on the wire.\<close>

lemma update_stale:
  assumes "stored_version (bank_server B) (disk g) n = Some c" and "v \<le> c"
  shows "fst (bank_call (client_update B n v d) g) \<noteq> Inr ()"
    and "stored_version (bank_server B) (disk (snd (bank_call (client_update B n v d) g))) n = Some c"
proof -
  show "fst (bank_call (client_update B n v d) g) \<noteq> Inr ()"
  proof
    assume "fst (bank_call (client_update B n v d) g) = Inr ()"
    then obtain h where "bank_call (client_update B n v d) g = (Inr (), h)" by (metis prod.collapse)
    then show False by (rule update_InrE) (use assms in auto)
  qed
  obtain r t where u: "seedbank_update (bank_server B) n v d (disk g) = (r, t)" by fastforce
  then have "content t = content (disk g)"
    using assms by (cases rule: update_cases) auto
  with u have "content (snd (seedbank_handle (bank_server B) (bank_clock B) (UpdateRequest n v d) (disk g))) = content (disk g)"
    by (cases r) (simp_all add: seedbank_handle_def respond_def)
  then have "content (disk (snd (bank_call (client_update B n v d) g))) = content (disk g)"
    unfolding bank_call_def client_update_def ask_def map_err_def and_then_def client_request_def next_event_def serve_on_def
    by (auto simp: okay_def fail_def ok_def split: list.splits wire_event.splits prod.splits seedbank_response.splits)
  with assms(1) show "stored_version (bank_server B) (disk (snd (bank_call (client_update B n v d) g))) n = Some c"
    by (simp add: stored_version_def)
qed

lemma update_run_InrE:
  assumes "reconcile_run P (UpdateSeedling x) g = (Inr k, h)"
  obtains c d where "k = UpdateSeedling (Some (c, d))" "c < plot_version P"
    "stored_version (bank_server (plot_bank P)) (disk h) (plot_name P) = Some (plot_version P)"
proof -
  from assms obtain s g1 where l: "bank_call (client_load (plot_bank P) (plot_name P)) g = (Inr s, g1)"
    and u: "bank_call (client_update (plot_bank P) (plot_name P) (plot_version P) (plot_definition P)) g1 = (Inr (), h)"
    and k: "k = UpdateSeedling (Some (seedling_version s, seedling_definition s))"
    by (auto simp: update_run_def prog_simps elim!: and_then_InrE)
  from load_InrE [OF l] update_InrE [OF u] k that show thesis by fastforce
qed

text \<open>The steps that write a version.\<close>

fun writes_version :: "reconcile_step \<Rightarrow> bool" where
  "writes_version CreateSeedling = True"
| "writes_version (UpdateSeedling _) = True"
| "writes_version _ = False"

lemma stale_plan:
  assumes "create_plan P st = Inr steps" and "st_version st = VersionStale"
  obtains ks where "steps = UpdateSeedling None # ks" "list_all (\<lambda>k. \<not> writes_version k) ks"
proof -
  have image: "list_all (\<lambda>k. \<not> writes_version k) xs" if "plan_image_step P status = Inr xs" for xs status
    using that by (auto simp: plan_image_step_def split: image_status.splits sum.splits)
  have agent: "list_all (\<lambda>k. \<not> writes_version k) xs" if "plan_agent_container_steps P presence = Inr xs" for xs presence
    using that by (auto simp: plan_agent_container_steps_def split: if_splits sum.splits)
  have container: "list_all (\<lambda>k. \<not> writes_version k) xs" if "plan_container_steps c x = Inr xs" for xs c x
    using that by (auto simp: plan_container_steps_def split: container_state.splits if_splits)
  have mount: "list_all (\<lambda>k. \<not> writes_version k) (plan_mount_steps st)"
    by (auto simp: plan_mount_steps_def list_all_iff)
  from assms image agent container mount that show thesis
    by (auto simp: create_plan_def Let_def plan_seedling_and_credentials_steps_def split: sum.splits if_splits)
qed

lemma ran_no_version: "\<not> writes_version k \<Longrightarrow> reconcile_run P k c = (Inr k', c') \<Longrightarrow> \<not> writes_version k'"
  by (cases k) (auto elim!: and_then_InrE simp: prog_simps)

lemma step_touches_inside:
  "step_inside root k \<Longrightarrow> \<not> writes_version k \<Longrightarrow> step_touches P k q \<Longrightarrow>
     below root q \<or> q = desired_run_state_path (bank_server (plot_bank P)) (plot_name P) \<or> agent_touches P q \<or>
     below (rolodex_root (plot_rolodex P)) q"
  by (cases k) (auto simp: below_append)

text \<open>
  C35: An update that was registered is never taken back: when a later step of the reconciliation fails, the rollback
  asks the seedbank for the previous version, which it refuses because it is not newer, so that the rollback
  reports an error and the seedbank goes on with the version that could not be brought up.
\<close>

theorem failed_update_stays:
  fixes P :: "'d plot"
  defines "vp \<equiv> version_path (bank_server (plot_bank P)) (plot_name P)"
  assumes "discover_seedling P g0 = (Inr st, g)" and "st_version st = VersionStale"
    and "create_plan P st = Inr steps"
    and "executor_run (reconcile_ops P) [] g steps = (Failed i nm e errors, j, g')" and "0 < i"
    and "ram_stays_below (plot_ram_disk P)"
    and "\<not> below (seedling_mounts_dir (plot_folders P) (plot_name P)) vp" and "\<not> below (rolodex_root (plot_rolodex P)) vp"
    and "\<not> agent_touches P vp"
  shows "errors \<noteq> [] \<and> stored_version (bank_server (plot_bank P)) (disk g') (plot_name P) = Some (plot_version P)"
proof -
  let ?root = "seedling_mounts_dir (plot_folders P) (plot_name P)" and ?ops = "reconcile_ops P"
  let ?stored = "\<lambda>g :: 'd garden. stored_version (bank_server (plot_bank P)) (disk g) (plot_name P)"
  define J where "J k \<longleftrightarrow> step_inside ?root k \<and> \<not> writes_version k" for k
  let ?I = "\<lambda>g :: 'd garden. ?stored g = Some (plot_version P)"
  obtain ks where ks: "steps = UpdateSeedling None # ks" "list_all (\<lambda>k. \<not> writes_version k) ks"
    by (rule stale_plan [OF assms(4,3)])
  have J: "list_all J ks"
    using planned_inside [OF assms(4) yieldsD [OF discovered_inside assms(2)]] ks by (simp add: J_def list_all_iff)
  have away: "\<not> step_touches P k vp" if "J k" for k
    using that assms(8-10) step_touches_inside [of ?root k P vp] by (auto simp: J_def vp_def path_defs)
  have kept: "?I (snd (m c))" if "\<And>s. keeps (in_garden (agrees (\<lambda>q. q = vp) s)) m" and "?I c"
    for m :: "('d garden, reconcile_error, 'x) prog" and c
    using keepsD [OF that(1), of "disk c" c] that(2) by (simp add: in_garden_def agrees_def vp_def stored_version_def)
  have step: "?I (snd (reconcile_run P k c))" "?I (snd (reconcile_undo P k c))" if "J k" "?I c" for k c
    using away [OF that(1)] assms(8-10) that(2)
    by (intro kept framed.inv_step ram_keeps_agrees assms(7); auto simp: agent_touches_def)+
  have ran: "J k'" if "J k" "reconcile_run P k c = (Inr k', c')" for k k' c c'
    using that ran_inside ran_no_version unfolding J_def by blast
  from assms(5) obtain pre k post pre' d d' where steps: "steps = pre @ k # post" "i = length pre"
    and done': "completes ?ops g pre pre' d" and failing: "step_fails ?ops d k e d'"
    and undone: "undo_all ?ops (rev pre') d' = (errors, g')"
    by (rule failed_split)
  with ks assms(6) obtain pre1 where pre1: "pre = UpdateSeedling None # pre1" "list_all J pre1" "J k"
    using J by (cases pre) auto
  then obtain c d1 g1 us where pre': "pre' = UpdateSeedling (Some (c, d1)) # us" and c: "c < plot_version P" and g1: "?I g1"
    and us: "completes ?ops g1 pre1 us d"
    using done' by (auto simp: completes_Cons_iff reconcile_perform(2) simp del: reconcile_run.simps elim!: update_run_InrE)
  have "?I d \<and> list_all J us"
    using completes_keeps [where J = J and I = ?I, OF _ _ us pre1(2) g1] step(1) ran unfolding reconcile_perform by blast
  moreover have "?I d'"
    using failing calculation step(1) [OF pre1(3), of d] reconcile_perform(1) [of P k d]
    by (auto simp: step_fails_def)
  moreover obtain e1 g2 where late: "undo_all ?ops (rev us) d' = (e1, g2)" by fastforce
  ultimately have g2: "?I g2"
    using undo_all_keeps [where J = J and I = ?I and ops = ?ops, of "rev us" d'] step(2)
    unfolding reconcile_perform(3) by simp
  obtain r h where u: "reconcile_undo P (UpdateSeedling (Some (c, d1))) g2 = (r, h)" by fastforce
  then have r: "r \<noteq> Inr ()" "?I h"
    using update_stale [where B = "plot_bank P" and v = c and d = d1, OF g2] c by auto
  have "undo_all ?ops (rev us @ [UpdateSeedling (Some (c, d1))]) d' = (errors, g')"
    using undone unfolding pre' by simp
  with late u r show ?thesis
    unfolding undo_all_append by (cases r) (auto simp: reconcile_ops_def)
qed

end
