(* ===== verification/ReconcileRuns.thy ===== *)
theory ReconcileRuns
  imports ReconcileSafety
begin

text \<open>
  Reconciliations of one small seedling: the instances of the theorems of \<open>ReconcileSafety\<close>, with an engine
  that is a list of containers with their labels and the list of the running ones, and that cannot pull images.
\<close>

section \<open>A small engine\<close>

record small_engine =
  built :: "(string \<times> label list) list"
  started :: "string list"

definition labels_of :: "string \<Rightarrow> (small_engine, docker_error, label list) prog" where
  "labels_of c = and_then (gets (\<lambda>d. map_of (built d) c))
     (\<lambda>r. case r of None \<Rightarrow> fail ResourceNotFound | Some ls \<Rightarrow> ok ls)"

text \<open>What the fields of the records below do, each a constant.\<close>

definition never_there :: "pull_target \<Rightarrow> (small_engine, docker_error, bool) prog" where
  "never_there x = ok False"

definition offline :: "pull_target \<Rightarrow> (small_engine, docker_error, unit) prog" where
  "offline x = fail (GeneralError ''offline'')"

definition status_of :: "string \<Rightarrow> (small_engine, docker_error, docker_status) prog" where
  "status_of c = and_then (labels_of c) (\<lambda>_. gets (\<lambda>d.
     if c \<in> set (started d) then docker_status.Running else docker_status.Created))"

definition is_built :: "string \<Rightarrow> (small_engine, docker_error, bool) prog" where
  "is_built c = gets (\<lambda>d. map_of (built d) c \<noteq> None)"

definition build :: "new_container \<Rightarrow> (small_engine, docker_error, unit) prog" where
  "build nc d = (Inr (), d\<lparr>built := (nc_name nc, nc_labels nc) # built d\<rparr>)"

definition start :: "string \<Rightarrow> (small_engine, docker_error, unit) prog" where
  "start c d = (Inr (), d\<lparr>started := c # started d\<rparr>)"

definition stop :: "string \<Rightarrow> (small_engine, docker_error, unit) prog" where
  "stop c d = (Inr (), d\<lparr>started := removeAll c (started d)\<rparr>)"

definition remove :: "string \<Rightarrow> (small_engine, docker_error, unit) prog" where
  "remove c d = (Inr (), d\<lparr>built := filter (\<lambda>x. fst x \<noteq> c) (built d)\<rparr>)"

definition has_network :: "string \<Rightarrow> (small_engine, docker_error, bool) prog" where
  "has_network n = ok True"

definition no_creation :: "string \<Rightarrow> ipv4_subnet option \<Rightarrow> (small_engine, docker_error, unit) prog" where
  "no_creation n subnet = ok ()"

definition no_connection :: "string \<Rightarrow> string \<Rightarrow> ipv4 option \<Rightarrow> (small_engine, docker_error, unit) prog" where
  "no_connection n c ip = ok ()"

definition no_disconnection :: "string \<Rightarrow> string \<Rightarrow> (small_engine, docker_error, unit) prog" where
  "no_disconnection n c = ok ()"

definition no_deletion :: "string \<Rightarrow> (small_engine, docker_error, unit) prog" where
  "no_deletion n = ok ()"

definition all_built :: "(small_engine, docker_error, string list) prog" where
  "all_built d = (Inr (map fst (built d)), d)"

definition all_networks :: "(small_engine, docker_error, string list) prog" where
  "all_networks d = (Inr [], d)"

definition small_docker :: "small_engine docker_client" where
  "small_docker =
     \<lparr>docker_image_exists = never_there, docker_pull_image = offline, docker_container_labels = labels_of,
      docker_container_status = status_of, docker_container_exists = is_built, docker_create_container = build,
      docker_start_container = start, docker_stop_container = stop, docker_delete_container = remove,
      docker_network_exists = has_network, docker_create_network = no_creation,
      docker_connect_network = no_connection, docker_disconnect_network = no_disconnection,
      docker_delete_network = no_deletion, docker_list_containers = all_built, docker_list_networks = all_networks\<rparr>"

definition not_mounted :: "path \<Rightarrow> ('d garden, string, bool) prog" where
  "not_mounted p = ok False"

definition mounted :: "path \<Rightarrow> nat \<Rightarrow> ('d garden, string, bool) prog" where
  "mounted p n = ok True"

definition unmounted :: "path \<Rightarrow> ('d garden, string, unit) prog" where
  "unmounted p = ok ()"

definition small_ram_disk :: "'d ram_disk" where
  "small_ram_disk = \<lparr>ram_is_mounted = not_mounted, ram_mount = mounted, ram_unmount = unmounted\<rparr>"

definition print_d :: "seedling_definition \<Rightarrow> string option" where
  "print_d d = Some ''d''"

definition parse_d :: "string \<Rightarrow> seedling_definition option" where
  "parse_d s = Some demo_definition"

definition print_log :: "health_check_log \<Rightarrow> string option" where
  "print_log l = None"

definition parse_log :: "string \<Rightarrow> health_check_log option" where
  "parse_log s = None"

definition print_status :: "desired_run_status \<Rightarrow> string option" where
  "print_status st = Some (if st = Running then ''r'' else ''s'')"

definition parse_status :: "string \<Rightarrow> desired_run_status option" where
  "parse_status s = Some (if s = ''r'' then Running else Stopped)"

definition small_server :: server where
  "small_server =
     \<lparr>seeds = [''seeds''],
      codecs = \<lparr>is_match = table_regex, print_definition = print_d, parse_definition = parse_d,
        print_health_log = print_log, parse_health_log = parse_log, print_run_status = print_status,
        parse_run_status = parse_status\<rparr>\<rparr>"

definition same_hash :: hash where
  "same_hash s = replicate 32 CHR ''x''"

definition no_command :: "string \<Rightarrow> string list \<Rightarrow> (accounts, os_error, unit) prog" where
  "no_command c args a = (Inr (), a)"

definition no_output :: "string \<Rightarrow> string list \<Rightarrow> (accounts, os_error, string) prog" where
  "no_output c args a = (Inr [], a)"

definition small_rolodex :: rolodex where
  "small_rolodex =
     \<lparr>rolodex_root = [''r''], rolodex_sha = same_hash, rolodex_os = \<lparr>os_execute = no_command, os_output = no_output\<rparr>\<rparr>"

definition in_resin :: "versioned_image_name \<Rightarrow> (small_engine, string, bool) prog" where
  "in_resin x = ok True"

lemma small_ram_stays_below: "ram_stays_below small_ram_disk"
  by (simp add: ram_stays_below_def small_ram_disk_def not_mounted_def mounted_def unmounted_def ok_def)

definition small_folders :: douglas_folders where
  "small_folders =
     \<lparr>logs = [''log''], transients = [''run''], configs = [''etc''], seedlings_root = [''lib''], identity = [''id'']\<rparr>"

definition small_plot :: "seedling_version \<Rightarrow> small_engine plot" where
  "small_plot v =
     \<lparr>plot_name = ''a'', plot_version = v,
      plot_definition = seedling_definition_new Local [] Unrouted
        \<lparr>check_command = ''true'', wait_time_in_seconds = 1\<rparr>,
      plot_agent = None, plot_regex = table_regex, plot_folders = small_folders,
      plot_bank = \<lparr>bank_server = small_server, bank_clock = 0\<rparr>, plot_docker = small_docker,
      plot_rolodex = small_rolodex, plot_ram_disk = small_ram_disk, plot_resin = in_resin,
      plot_agent_image = Local\<rparr>"

text \<open>The mount of the seedling has a file that the seedling wrote; the engine is offline.\<close>

definition data_root :: path where
  "data_root = [''lib'', ''mounts'', ''a'', ''data'']"

definition small_garden :: "small_engine garden" where
  "small_garden =
     \<lparr>disk = \<lparr>nodes =
          map (\<lambda>p. (p, Dir root_meta))
            [[], [''seeds''], [''seeds'', ''a''], [''lib''], [''lib'', ''mounts''], [''lib'', ''mounts'', ''a''], data_root] @
          map (\<lambda>(p, b). (p, File root_meta b))
            [([''seeds'', ''a'', ''id''], ''0''), ([''seeds'', ''a'', ''version''], ''3''),
             ([''seeds'', ''a'', ''seedling.toml''], ''d''), (data_root @ [''photo''], ''p'')],
        outcomes = [], creator = root_meta, known_users = [], known_groups = []\<rparr>,
      people = \<lparr>passwd = [], groups = []\<rparr>,
      engine = \<lparr>built = [(''doug.a'', [create_version_label 3, create_origin_label User])], started = [''doug.a'']\<rparr>,
      wire = []\<rparr>"

definition small_state :: seedling_state where
  "small_state =
     \<lparr>st_version = VersionCurrent, st_container_name = ''doug.a'', st_image = ImageAvailableFromResin,
      st_container = ContainerCurrent True, missing_service_credentials = False, missing_share_groups = [],
      missing_mount_folders = [data_root], needs_mount_ownership = [], missing_mount_mode = [],
      missing_mount_files = [(data_root, ''conf'', ''c'')], agent_missing_service_credentials = False,
      st_agent_container = Absent\<rparr>"

section \<open>The instances\<close>

lemma small_plan:
  "create_plan (small_plot 3) small_state =
     Inr [SetDesiredRunStatusToRunning, CreateMountFolder data_root, WriteFile data_root ''conf'' ''c'' None,
       PullImageFromResin \<lparr>pull_path = [''a''], pull_version = Latest\<rparr>]"
  by code_simp

text \<open>The reconciliation leaves a file of another seedling alone.\<close>

theorem reconciliation_is_confined_witness:
  "content (disk (snd (reconcile_seedling (small_plot 3) (\<lambda>_. ''failed'') small_garden))) [''lib'', ''mounts'', ''b'', ''f''] =
     content (disk small_garden) [''lib'', ''mounts'', ''b'', ''f'']"
proof (rule reconciliation_is_confined)
  show "ram_stays_below (plot_ram_disk (small_plot 3))"
    by (simp add: small_plot_def small_ram_stays_below)
  show "\<not> plot_touches (small_plot 3) [''lib'', ''mounts'', ''b'', ''f'']"
    by (simp add: plot_touches_def agent_touches_def small_plot_def small_folders_def small_server_def small_rolodex_def
        path_defs seedling_mounts_dir_def seedling_mounts_def below_def)
qed

theorem plan_in_order_witness:
  "\<exists>steps. create_plan (small_plot 3) small_state = Inr steps \<and> length steps = 4 \<and>
     sorted (map (plan_stage ''doug.a'') steps)"
proof -
  have "container_name (plot_regex (small_plot 3)) (plot_name (small_plot 3)) = Inr (st_container_name small_state)"
    by code_simp
  from plan_in_order [OF this small_plan] show ?thesis
    using small_plan by (simp add: small_state_def)
qed

theorem written_file_is_given_back_witness:
  "\<exists>k h h2. reconcile_run (small_plot 3) (WriteFile data_root ''photo'' ''x'' None) small_garden = (Inr k, h) \<and>
     content (disk h) (data_root @ [''photo'']) = Some ''x'' \<and>
     reconcile_undo (small_plot 3) k h = (Inr (), h2) \<and> content (disk h2) (data_root @ [''photo'']) = Some ''p''"
proof -
  let ?run = "reconcile_run (small_plot 3) (WriteFile data_root ''photo'' ''x'' None) small_garden"
  let ?k = "WriteFile data_root ''photo'' ''x'' (Some ''p'')"
  have run: "fst ?run = Inr ?k" "content (disk (snd ?run)) (data_root @ [''photo'']) = Some ''x''"
    by code_simp+
  moreover have undo: "fst (reconcile_undo (small_plot 3) ?k (snd ?run)) = Inr ()"
    by code_simp
  moreover have "content (disk small_garden) (data_root @ [''photo'']) = Some ''p''"
    by code_simp
  ultimately show ?thesis
    using written_file_is_given_back [of "small_plot 3" data_root "''photo''" "''x''" None small_garden ?k "snd ?run"
        "snd ?run" "snd (reconcile_undo (small_plot 3) ?k (snd ?run))"]
    by (metis prod.collapse)
qed

lemma small_garden_wf: "wf_fs (disk small_garden)"
  unfolding wf_fs_def
  by (auto simp: exists_path_def is_dir_def node_at_def small_garden_def data_root_def split: if_splits)

definition small_run :: "seedling_version \<Rightarrow> reconcile_step list \<Rightarrow>
    reconcile_error execution_result \<times> reconcile_step list \<times> small_engine garden" where
  "small_run v steps = executor_run (reconcile_ops (small_plot v)) [] small_garden steps"

lemma small_run_fails:
  "fst (small_run 3 [SetDesiredRunStatusToRunning, CreateMountFolder data_root, WriteFile data_root ''conf'' ''c'' None,
       PullImageFromResin \<lparr>pull_path = [''a''], pull_version = Latest\<rparr>]) =
     Failed 3 ''Pulling image'' (ReconcileDockerError (GeneralError ''offline'')) []"
  by code_simp

theorem rollback_empties_folders_witness:
  "\<exists>steps g'. create_plan (small_plot 3) small_state = Inr steps \<and>
     (\<exists>j. small_run 3 steps = (Failed 3 ''Pulling image'' (ReconcileDockerError (GeneralError ''offline'')) [], j, g')) \<and>
     content (disk small_garden) (data_root @ [''photo'']) = Some ''p'' \<and>
     content (disk g') (data_root @ [''photo'']) = None"
proof -
  let ?steps = "[SetDesiredRunStatusToRunning, CreateMountFolder data_root, WriteFile data_root ''conf'' ''c'' None,
       PullImageFromResin \<lparr>pull_path = [''a''], pull_version = Latest\<rparr>]"
  obtain j g' where run: "small_run 3 ?steps =
      (Failed 3 ''Pulling image'' (ReconcileDockerError (GeneralError ''offline'')) [], j, g')"
    using small_run_fails by (metis prod.collapse)
  have "content (disk g') (data_root @ [''photo'']) = None"
  proof (rule rollback_empties_folders [OF small_plan run [unfolded small_run_def], of 1 data_root])
    show "\<not> below (create_seedling_path (bank_server (plot_bank (small_plot 3))) (plot_name (small_plot 3))) (data_root @ [''photo''])"
      by (simp add: small_plot_def small_server_def path_defs data_root_def below_def)
  qed (simp_all add: small_garden_wf below_append small_plot_def)
  moreover have "content (disk small_garden) (data_root @ [''photo'']) = Some ''p''"
    by code_simp
  ultimately show ?thesis using small_plan run by blast
qed

definition stale_state :: seedling_state where
  "stale_state =
     \<lparr>st_version = VersionStale, st_container_name = ''doug.a'', st_image = ImageAvailableFromResin,
      st_container = ContainerStale 3 True, missing_service_credentials = True, missing_share_groups = [],
      missing_mount_folders = [], needs_mount_ownership = [], missing_mount_mode = [],
      missing_mount_files = [], agent_missing_service_credentials = True, st_agent_container = Absent\<rparr>"

text \<open>The seedbank on the small garden, step by step.\<close>

lemma small_loads:
  "load_definition small_server ''a'' (disk small_garden) = (Inr demo_definition, disk small_garden)"
  "load_id small_server ''a'' (disk small_garden) = (Inr 0, disk small_garden)"
  "load_version small_server ''a'' (disk small_garden) = (Inr 3, disk small_garden)"
  "seedling_status small_server ''a'' (disk small_garden) = (Inr (Defined 3), disk small_garden)"
  "fst (write_definition small_server ''a'' 4 (Some demo_definition) (plot_definition (small_plot 4)) (disk small_garden)) = Inr ()"
proof -
  show "load_definition small_server ''a'' (disk small_garden) = (Inr demo_definition, disk small_garden)" by code_simp
  have d: "digit_char 0 = CHR ''0''" "digit_char 3 = CHR ''3''" by code_simp+
  have number: "trim ''0'' = ''0''" "id_from_str ''0'' = Inr 0" "trim ''3'' = ''3''" "version_from_str ''3'' = Inr 3"
    using id_round_trip [of 0] trim_show_nat [of 0] show_u16_round_trip [of 3] trim_show_nat [of 3]
    by (simp_all add: show_u16_def show_nat.simps d MAX_SEEDLINGS_def)
  have "reader_read_all (id_path small_server ''a'') (disk small_garden) = (Inr ''0'', disk small_garden)"
    "reader_read_all (version_path small_server ''a'') (disk small_garden) = (Inr ''3'', disk small_garden)"
    by code_simp+
  with number show "load_id small_server ''a'' (disk small_garden) = (Inr 0, disk small_garden)"
    and version: "load_version small_server ''a'' (disk small_garden) = (Inr 3, disk small_garden)"
    by (simp_all add: load_id_def load_version_def attempt_then map_err_def prog_simps)
  have "seedling_exists small_server ''a'' (disk small_garden) = (Inr True, disk small_garden)" by code_simp
  with version show "seedling_status small_server ''a'' (disk small_garden) = (Inr (Defined 3), disk small_garden)"
    by (simp add: seedling_status_def and_then_def prog_simps)
  show "fst (write_definition small_server ''a'' 4 (Some demo_definition) (plot_definition (small_plot 4)) (disk small_garden)) = Inr ()"
    by code_simp
qed

lemma small_plot_fields: "plot_name (small_plot v) = ''a''" "plot_version (small_plot v) = v"
  by (simp_all add: small_plot_def)

lemma small_ask:
  assumes "seedbank_handle small_server 0 request (disk small_garden) = (response, t)" and "wanted response = Some a"
  shows "ask (plot_bank (small_plot v)) request wanted small_garden = (Inr a, small_garden\<lparr>disk := t\<rparr>)"
  using assms by (subst ask_calm) (simp_all add: small_plot_def small_garden_def)

lemma same_disk [simp]: "g\<lparr>disk := disk g\<rparr> = (g :: 'd garden)"
  by simp

lemma small_status: "client_status (plot_bank (small_plot 4)) ''a'' small_garden = (Inr (Defined 3), small_garden)"
proof -
  have "seedbank_handle small_server 0 (StatusRequest ''a'') (disk small_garden) =
      (StatusResponse (Defined 3), disk small_garden)"
    by (simp add: seedbank_handle_def respond_def small_loads)
  from small_ask [OF this, of "\<lambda>r. case r of StatusResponse st \<Rightarrow> Some st | _ \<Rightarrow> None"] show ?thesis
    by (simp add: client_status_def)
qed

lemma small_update:
  "\<exists>k h. reconcile_run (small_plot 4) (UpdateSeedling None) small_garden = (Inr k, h)"
proof -
  let ?P = "small_plot 4"
  let ?s = "\<lparr>seedling_id = 0, seedling_name = ''a'', seedling_version = 3, seedling_definition = demo_definition\<rparr>"
  have "load_seedling small_server ''a'' (disk small_garden) = (Inr ?s, disk small_garden)"
    by (simp add: load_seedling_def and_then_def small_loads prog_simps)
  then have "seedbank_handle small_server 0 (LoadRequest ''a'') (disk small_garden) = (SeedlingResponse ?s, disk small_garden)"
    by (simp add: seedbank_handle_def respond_def)
  from small_ask [OF this, of "\<lambda>r. case r of SeedlingResponse s \<Rightarrow> Some s | _ \<Rightarrow> None"]
  have load: "client_load (plot_bank ?P) ''a'' small_garden = (Inr ?s, small_garden)"
    by (simp add: client_load_def)
  obtain t where "write_definition small_server ''a'' 4 (Some demo_definition) (plot_definition ?P) (disk small_garden) = (Inr (), t)"
    using small_loads(5) by (metis prod.collapse)
  then have "seedbank_update small_server ''a'' 4 (plot_definition ?P) (disk small_garden) = (Inr (), t)"
    by (simp add: seedbank_update_def and_then_def small_loads)
  then have "seedbank_handle small_server 0 (UpdateRequest ''a'' 4 (plot_definition ?P)) (disk small_garden) = (OkResponse, t)"
    by (simp add: seedbank_handle_def respond_def)
  from small_ask [OF this, of okay]
  have "client_update (plot_bank ?P) ''a'' 4 (plot_definition ?P) small_garden = (Inr (), small_garden\<lparr>disk := t\<rparr>)"
    by (simp add: client_update_def okay_def)
  with load have "update_run ?P small_garden = (Inr (3, demo_definition), small_garden\<lparr>disk := t\<rparr>)"
    by (simp add: update_run_def bank_call_def and_then_def map_err_def prog_simps small_plot_fields)
  then show ?thesis by (simp add: and_then_def prog_simps)
qed

lemma stale_discovered: "discover_seedling (small_plot 4) small_garden = (Inr stale_state, small_garden)"
proof -
  let ?P = "small_plot 4"
  have "(docker_name (container_name (plot_regex ?P) (plot_name ?P)) :: (small_engine, string) reconciling) small_garden =
      (Inr ''doug.a'', small_garden)" by code_simp
  moreover have "discover_agent ?P st small_garden = (Inr st, small_garden)" for st
    by (simp add: discover_agent_def small_plot_def prog_simps)
  moreover have "discover_current_seedbank_version ?P small_garden = (Inr VersionStale, small_garden)"
    using small_status by (simp add: discover_current_seedbank_version_def bank_call_def and_then_def map_err_def prog_simps
        small_plot_fields)
  moreover have "discover_image_status ?P small_garden = (Inr ImageAvailableFromResin, small_garden)" by code_simp
  moreover have "discover_container ?P ''doug.a'' small_garden = (Inr (ContainerStale 3 True), small_garden)"
  proof -
    have labels: "on_engine id (docker_container_labels (plot_docker ?P) ''doug.a'') small_garden =
        (Inr [create_version_label 3, create_origin_label User], small_garden)"
      by (simp add: on_engine_def small_plot_def small_docker_def labels_of_def small_garden_def and_then_def prog_simps)
    have "discover_container_is_running ?P ''doug.a'' small_garden = (Inr True, small_garden)"
      by (simp add: discover_container_is_running_def attempt_then on_engine_def small_plot_def small_docker_def
          status_of_def labels_of_def small_garden_def and_then_def prog_simps)
    with labels show ?thesis
      by (simp add: discover_container_def attempt_then version_label_round_trip small_plot_fields
          and_then_def prog_simps)
  qed
  moreover have "rolo_call (find_service_account (plot_rolodex ?P) (plot_name ?P)) small_garden = (Inr None, small_garden)"
    by code_simp
  moreover have "mounts (plot_definition ?P) = []" by (simp add: small_plot_def seedling_definition_new_def)
  ultimately show ?thesis
    unfolding discover_seedling_def and_then_def by (simp add: initial_state_def stale_state_def prog_simps)
qed

definition stale_steps :: "reconcile_step list" where
  "stale_steps = [UpdateSeedling None, SetDesiredRunStatusToRunning, reconcile_step.CreateServiceAccount,
     PullImageFromResin \<lparr>pull_path = [''a''], pull_version = Latest\<rparr>, StopContainerStep ''doug.a'',
     DropContainerStep ''doug.a'', BuildContainer False, StartContainer ''doug.a'']"

lemma stale_plan_of: "create_plan (small_plot 4) stale_state = Inr stale_steps"
  by code_simp

theorem failed_update_stays_witness:
  "\<exists>i nm e errors j g'. executor_run (reconcile_ops (small_plot 4)) [] small_garden stale_steps = (Failed i nm e errors, j, g') \<and>
     errors \<noteq> [] \<and> stored_version small_server (disk g') ''a'' = Some 4"
proof -
  let ?P = "small_plot 4"
  have pull: "\<exists>e k' h'. perform (reconcile_ops ?P) (PullImageFromResin x) h = (Inl e, k', h')" for x h
    by (simp add: reconcile_ops_def docker_call_def on_engine_def small_plot_def small_docker_def offline_def prog_simps and_then_def)
  obtain i nm e errors j g' where run: "executor_run (reconcile_ops ?P) [] small_garden stale_steps = (Failed i nm e errors, j, g')"
  proof (cases rule: run_cases [of "reconcile_ops ?P" small_garden stale_steps])
    case (success ks' d)
    then show ?thesis using pull by (auto simp: stale_steps_def completes_Cons_iff) (metis Inl_not_Inr prod.inject)
  next
    case (failure pre k post pre' d e d')
    then show ?thesis
      using that run_failure [OF failure(2,3), of "[]" post] by (auto simp: Let_def split: prod.splits)
  qed
  have "0 < i"
  proof (rule failed_split [OF run])
    fix pre k post pre' d d'
    assume a: "stale_steps = pre @ k # post" "i = length pre" "completes (reconcile_ops ?P) small_garden pre pre' d"
      "step_fails (reconcile_ops ?P) d k e d'"
    show "0 < i"
    proof (rule ccontr)
      assume "\<not> 0 < i"
      with a have "step_fails (reconcile_ops ?P) small_garden (UpdateSeedling None) e d'"
        by (auto simp: stale_steps_def)
      with small_update show False
        by (auto simp: step_fails_def reconcile_ops_def)
    qed
  qed
  have "errors \<noteq> [] \<and> stored_version (bank_server (plot_bank ?P)) (disk g') (plot_name ?P) = Some (plot_version ?P)"
  proof (rule failed_update_stays [OF stale_discovered _ stale_plan_of run \<open>0 < i\<close>])
    show "ram_stays_below (plot_ram_disk ?P)" by (simp add: small_plot_def small_ram_stays_below)
  qed (simp_all add: stale_state_def agent_touches_def small_plot_def small_folders_def small_server_def small_rolodex_def
        path_defs seedling_mounts_dir_def seedling_mounts_def below_def)
  with run show ?thesis by (auto simp: small_plot_def)
qed

end
