(* ===== verification/BractSafety.thy ===== *)
theory BractSafety
  imports BractServer ReconcileSafety
begin

text \<open>
  What bract may touch, whatever it is asked: the contract of \<open>tree_invariant\<close> is carried through every blueprint
  and every task of the server, and instantiated with the files outside of its folders and with the tree of files.
\<close>

section \<open>Where bract writes\<close>

definition route_files_touch :: "'d tools \<Rightarrow> path \<Rightarrow> bool" where
  "route_files_touch T q \<longleftrightarrow>
     (case traefik_dynamic_dir (t_regex T) (t_folders T) of Inl _ \<Rightarrow> False | Inr dir \<Rightarrow> below dir q)"

definition routes_touch :: "'d tools \<Rightarrow> path \<Rightarrow> bool" where
  "routes_touch T q \<longleftrightarrow> below (rolodex_root (t_rolodex T)) q \<or> route_files_touch T q"

text \<open>What belongs to one seedling: its folder in the seedbank, its mounts, the claim of the default seedling, and what the routes and the accounts of all seedlings are written to.\<close>

definition seedling_touches :: "'d tools \<Rightarrow> name \<Rightarrow> path \<Rightarrow> bool" where
  "seedling_touches T n q \<longleftrightarrow>
     below (create_seedling_path (bank_server (t_bank T)) n) q \<or> below (seedling_mounts_dir (t_folders T) n) q \<or>
     q = default_path (bank_server (t_bank T)) \<or> routes_touch T q"

definition event_touches :: "'d bract_server \<Rightarrow> bract_event \<Rightarrow> path \<Rightarrow> bool" where
  "event_touches S x q =
     (let T = b_tools S
      in case x of
        Startup \<Rightarrow> routes_touch T q
      | Asked r \<Rightarrow>
          (case r of
             StartSeedlingRequest n \<Rightarrow> seedling_touches T n q
           | StopSeedlingRequest n \<Rightarrow> q = desired_run_state_path (bank_server (t_bank T)) n
           | DropSeedlingRequest n \<Rightarrow> seedling_touches T n q
           | ReconcileSeedlingRequest n _ _ \<Rightarrow> seedling_touches T n q
           | NewSeedlingRequest n _ \<Rightarrow> seedling_touches T n q
           | PruneDeadwoodRequest w \<Rightarrow>
               (\<exists>n \<in> set (dead_mounts w). below (seedling_mounts_dir (t_folders T) n) q) \<or>
               (dead_route_files w \<noteq> [] \<and> route_files_touch T q)
           | StopBractRequest _ \<Rightarrow> \<exists>n. q = desired_run_state_path (bank_server (t_bank T)) n
           | _ \<Rightarrow> False)
      | Triggered raw \<Rightarrow> (case name_from_str (t_regex T) raw of Inl _ \<Rightarrow> False | Inr n \<Rightarrow> seedling_touches T n q)
      | WatchdogTick \<Rightarrow> \<exists>n. seedling_touches T n q
      | RotationTick \<Rightarrow> \<exists>n m. below (seedling_mount (t_folders T) n m) q)"

lemma touches_seed:
  "below (create_seedling_path (bank_server (t_bank T)) n) q \<Longrightarrow> seedling_touches T n q"
  "seedling_touches T n (default_path (bank_server (t_bank T)))"
  "seedling_touches T n (desired_run_state_path (bank_server (t_bank T)) n)"
  "seedling_touches T n (health_log_path (bank_server (t_bank T)) n)"
  by (auto simp: seedling_touches_def path_defs below_append)

lemma touches_mounts:
  "below (seedling_mounts_dir (t_folders T) n) q \<Longrightarrow> seedling_touches T n q"
  "below (agent_mount_dir (t_folders T) n) q \<Longrightarrow> seedling_touches T n q"
  by (auto simp: seedling_touches_def agent_mount_dir_def seedling_mount_def below_append)

lemma touches_route_file:
  "traefik_dynamic_dir (t_regex T) (t_folders T) = Inr dir \<Longrightarrow> route_files_touch T (dir @ [route_file n])"
  by (auto simp: route_files_touch_def below_append)

lemma touches_route_files: "route_files_touch T q \<Longrightarrow> routes_touch T q"
  by (simp add: routes_touch_def)

lemma touches_rolodex: "below (rolodex_root (t_rolodex T)) q \<Longrightarrow> routes_touch T q"
  by (simp add: routes_touch_def)

lemma touches_routes: "routes_touch T q \<Longrightarrow> seedling_touches T n q"
  by (simp add: seedling_touches_def)

section \<open>What is known of a first result\<close>

lemma keeps_and_yields:
  "keeps I m \<Longrightarrow> yields Q m \<Longrightarrow> (\<And>a. Q a \<Longrightarrow> keeps I (k a)) \<Longrightarrow> keeps I (and_then m k)"
  unfolding keeps_def yields_def and_then_def by (auto split: prod.splits sum.splits) (metis snd_conv)+

lemma yields_attempted:
  "yields Q m \<Longrightarrow> yields (\<lambda>r. case r of Inl e \<Rightarrow> True | Inr a \<Rightarrow> Q a) (attempt (on_disk f m))"
  unfolding yields_def attempt_def on_disk_def by (auto simp: map_sum_Inr_iff split: prod.splits sum.splits)

lemma yields_map_err: "yields Q m \<Longrightarrow> yields Q (map_err f m)"
  unfolding yields_def map_err_def by (auto simp: map_sum_Inr_iff split: prod.splits sum.splits)

lemma keeps_of_parsed:
  "(\<And>a. r = Inr a \<Longrightarrow> keeps I (k a)) \<Longrightarrow> keeps I (and_then (map_err f (of_result r)) k)"
  by (cases r) (auto simp: keeps_def and_then_def map_err_def of_result_def)

lemma keeps_for_each_in: "(\<And>x. x \<in> set xs \<Longrightarrow> keeps I (f x)) \<Longrightarrow> keeps I (for_each f xs)"
  by (induction xs) (auto intro!: keeps_intros)

lemma keeps_all_hold: "(\<And>x. keeps I (f x)) \<Longrightarrow> keeps I (all_hold f xs)"
  by (induction xs) (auto intro!: keeps_intros)

lemma keeps_routing:
  "keeps I m \<Longrightarrow> (\<And>route ports. keeps I (f route ports)) \<Longrightarrow>
   keeps I (case r of Unrouted \<Rightarrow> m | Routed route ports \<Rightarrow> f route ports)"
  by (cases r) simp_all

lemma agent_inside:
  "yields (\<lambda>a. case a of None \<Rightarrow> True | Some a \<Rightarrow> mount_dir a = agent_mount_dir d n \<and>
      (\<forall>q. q \<in> {role_id_path a, secret_id_path a, agent_config_path a} \<longrightarrow> below (agent_mount_dir d n) q))
     (provision_agent_if_requested C B to_json d n i def)"
  unfolding provision_agent_if_requested_def Let_def
  by (auto intro!: yields_intros simp: below_append split: option.split prod.split)

section \<open>The blueprints\<close>

context tree_invariant begin

lemma inv_ignore: "keeps (in_garden D) m \<Longrightarrow> keeps (in_garden D) (ignore m)"
  by (rule keeps_ignore)

text \<open>Secrets: OpenBao is asked, the disk is only read.\<close>

lemma inv_open_bao: "keeps (in_garden D) (open_bao C B d)" "keeps (in_garden D) (log_in C cached B d)"
proof -
  have "reads_tree (decrypt C c i x)" for c i x
    unfolding decrypt_def derive_key_def local_identity_def by (intro reads_tree_intros)
  then have "reads_tree (read_credentials C k d)" for k
    unfolding read_credentials_def by (intro reads_tree_intros)
  then have log_in: "keeps (in_garden D) (log_in C k B d)" for k
    unfolding log_in_def
    by (intro keeps_and_then keeps_in_garden inv_reads) (auto intro!: keeps_intros keeps_on_engine split: prod.split)
  then show "keeps (in_garden D) (log_in C cached B d)" .
  from log_in show "keeps (in_garden D) (open_bao C B d)"
    unfolding open_bao_def bao_call_def by (intro keeps_intros keeps_on_engine)
qed

lemma inv_provision:
  "keeps (in_garden D) (provision_agent_if_requested C B to_json d n i def)"
  "keeps (in_garden D) (revoke B token n)"
  "keeps (in_garden D) (revoke_if_provisioned C B d n def)"
proof -
  show r: "keeps (in_garden D) (revoke B token n)" for token
    unfolding revoke_def bao_call_def Let_def by (intro keeps_intros keeps_on_engine)
  have "keeps (in_garden D) (provision B token n access)" for token access
    unfolding provision_def bao_call_def Let_def by (intro keeps_intros keeps_on_engine)
  then show "keeps (in_garden D) (provision_agent_if_requested C B to_json d n i def)"
    unfolding provision_agent_if_requested_def role_credentials_def Let_def
    by (intro keeps_intros keeps_in_garden inv_reads reads_tree_methods inv_open_bao)
  show "keeps (in_garden D) (revoke_if_provisioned C B d n def)"
    unfolding revoke_if_provisioned_def by (intro keeps_intros inv_open_bao r)
qed

lemma inv_installed: "keeps (in_garden D) (or_default x m)" "keeps (in_garden D) (installed B token)"
  unfolding installed_def or_default_def by (intro keeps_intros keeps_on_engine)+

lemma inv_openbao_status: "keeps (in_garden D) (openbao_status C B d running)"
  unfolding openbao_status_def
  by (auto intro!: keeps_intros keeps_on_engine inv_open_bao inv_installed split: seal_state.split)

text \<open>The blueprints that act on one seedling.\<close>

lemma inv_drop_discover:
  assumes "ram_keeps D (t_ram_disk T) (agent_mount_dir (t_folders T) n)"
  shows "keeps (in_garden D) (discover_drop T n)"
  unfolding discover_drop_def determine_origin_def Let_def
  by (intro keeps_intros keeps_on_engine inv_asking assms [unfolded ram_keeps_def, THEN conjunct1])

lemma inv_drop_run:
  assumes away: "\<And>q. seedling_touches T n q \<Longrightarrow> safe q"
    and ram: "ram_keeps D (t_ram_disk T) (agent_mount_dir (t_folders T) n)"
  shows "keeps (in_garden D) (drop_run T n k)"
proof (cases k)
  case RemoveTraefikRoute
  have "keeps (in_garden D) (remove_route_run T n)"
    unfolding remove_route_run_def step_name_of_def
    by (intro keeps_of_parsed keeps_and_then inv_step_calls inv_step_files away touches_routes touches_route_files
        touches_route_file) assumption
  with RemoveTraefikRoute show ?thesis by simp
next
  case DeleteSeedlingNetwork
  then show ?thesis by (simp add: delete_network_run_def) (intro keeps_and_then inv_step_calls)
next
  case DeleteSeedbankEntry
  then show ?thesis by (simp, intro inv_step_calls inv_registering away touches_seed(1))
next
  case DeleteSeedlingMounts
  then show ?thesis by (simp, intro inv_step_files away touches_mounts(1))
next
  case ReleaseDefault
  then show ?thesis by (simp, intro inv_step_calls inv_noting away touches_seed(2))
next
  case DeleteResinRepository
  then show ?thesis by (simp add: delete_resin_run_def) (intro keeps_and_then keeps_map_err keeps_of_result keeps_on_engine)
qed (use ram in \<open>simp_all add: inv_step_calls keeps_map_err ram_keeps_def\<close>)

lemma inv_drop:
  assumes "\<And>q. seedling_touches T n q \<Longrightarrow> safe q" and "ram_keeps D (t_ram_disk T) (agent_mount_dir (t_folders T) n)"
  shows "keeps (in_garden D) (drop_seedling T n)"
  unfolding drop_seedling_def using inv_drop_discover [OF assms(2)] inv_drop_run [OF assms]
  by (intro keeps_and_then keeps_on_engine plain_plan_keeps [where J = "\<lambda>_. True"])
    (simp_all add: no_undo_def keeps_ok list_all_iff)

lemma inv_health:
  assumes away: "\<And>q. seedling_touches T n q \<Longrightarrow> safe q"
  shows "keeps (in_garden D) (run_shell_health_check T c cmd)"
    and "keeps (in_garden D) (record_health_check_failure T n c)"
    and "keeps (in_garden D) (container_is_running T c)"
proof -
  have "keeps (in_garden D) (poll_exec T k i)" for k i
    by (induction k) (auto intro!: keeps_intros inv_step_calls)
  then show "keeps (in_garden D) (run_shell_health_check T c cmd)"
    unfolding run_shell_health_check_def by (intro keeps_intros inv_step_calls)
  show "keeps (in_garden D) (record_health_check_failure T n c)"
    unfolding record_health_check_failure_def by (intro keeps_intros inv_step_calls inv_noting away touches_seed(3) touches_seed(4))
  show "keeps (in_garden D) (container_is_running T c)"
    unfolding container_is_running_def by (intro keeps_intros inv_step_calls)
qed

lemma inv_start:
  assumes away: "\<And>q. seedling_touches T n q \<Longrightarrow> safe q"
  shows "keeps (in_garden D) (start_seedling T n by_whom)"
proof -
  have item: "keeps (in_garden D) (content_is_in_place p x)" for p x
    unfolding content_is_in_place_def start_file_def
    by (cases x) (auto intro!: keeps_intros keeps_in_garden inv_reads reads_tree_methods)
  have mount: "keeps (in_garden D) (mount_is_initialized T n a x)" for n a x
    unfolding mount_is_initialized_def start_file_def Let_def
    by (intro keeps_intros keeps_in_garden inv_reads reads_owner_and_mode keeps_all_hold item)
  have found: "keeps (in_garden D) (discover_found T n a b s)" for n a b s
    unfolding discover_found_def start_docker_def mounts_are_initialized_def discover_running_def
    by (intro keeps_intros keeps_on_engine keeps_all_hold mount)
  have "keeps (in_garden D) (discover_start T by_whom n)"
    unfolding discover_start_def discover_to_start_def start_docker_def start_bank_def
    by (intro keeps_intros keeps_on_engine inv_asking inv_rolodex found away touches_routes touches_rolodex)
  moreover have "keeps (in_garden D) (start_run T n k)" for k
  proof (cases k)
    case MarkRunning
    then show ?thesis by (simp, intro inv_step_calls inv_noting away touches_seed(3))
  next
    case (StartAgentContainer a ip)
    have "keeps (in_garden D) (start_agent_run T a ip)"
      unfolding start_agent_run_def by (intro keeps_intros inv_step_calls inv_health away)
    with StartAgentContainer show ?thesis by simp
  next
    case (StartSeedling check c v r)
    have "keeps (in_garden D) (start_seedling_run T n check c r)"
      unfolding start_seedling_run_def by (intro keeps_intros inv_step_calls inv_health away)
    with StartSeedling show ?thesis by simp
  next
    case ClearHealthCheckLogs
    then show ?thesis by (simp, intro inv_step_calls inv_noting away touches_seed(4))
  qed
  moreover have "keeps (in_garden D) (start_undo T k)" for k
    by (cases k) (simp_all add: stop_again_def keeps_ok inv_step_calls)
  ultimately show ?thesis
    unfolding start_seedling_def start_bank_def
    by (intro keeps_and_then keeps_map_err inv_asking plain_plan_keeps [where J = "\<lambda>_. True"])
      (simp_all add: list_all_iff)
qed

lemma inv_new:
  assumes away: "\<And>q. seedling_touches T n q \<Longrightarrow> safe q"
  shows "keeps (in_garden D) (new_seedling T n d)"
proof -
  have "keeps (in_garden D) (missing_siblings T x ms)" for x ms
    unfolding missing_siblings_def missing_sibling_def
    by (cases "mount_kind (snd x)"; simp; intro keeps_intros inv_asking)
  then have "keeps (in_garden D) (discover_new T n d)"
    unfolding discover_new_def local_image_already_exists_def
    by (intro keeps_intros keeps_on_engine inv_asking)
  moreover
  have run: "keeps (in_garden D) (step_bank (client_create (t_bank T) n v e) :: ('d, unit) stepping)"
      "keeps (in_garden D) (step_bank (client_delete (t_bank T) n) :: ('d, unit) stepping)"
      "keeps (in_garden D) (step_bank (client_claim_default (t_bank T) n) :: ('d, unit) stepping)" for v e
    by (intro inv_step_calls inv_registering inv_noting away touches_seed(1) touches_seed(2); assumption?)+
  have "keeps (in_garden D) (new_run T n d k)" for k
    by (cases k) (simp_all only: new_run.simps run)
  moreover have "keeps (in_garden D) (new_undo T n k)" for k
    by (cases k) (simp_all only: new_undo.simps run keeps_ok)
  ultimately show ?thesis
    unfolding new_seedling_def
    by (intro keeps_if keeps_fail keeps_and_then keeps_on_engine plain_plan_keeps [where J = "\<lambda>_. True"])
      (simp_all add: list_all_iff)
qed

text \<open>The blueprints that act on all seedlings.\<close>

lemma inv_routes:
  assumes away: "\<And>q. routes_touch T q \<Longrightarrow> safe q"
  shows "keeps (in_garden D) (write_routes T to_yaml)"
proof -
  have give: "keeps (in_garden D) (give_to account p md)" for account p md
    unfolding give_to_def routes_file_def change_user_and_group_ownership_def change_mode_def
    by (intro keeps_intros keeps_in_garden marking)
  have written: "keeps (in_garden D) (routes_file (writer_write_all (dir @ [route_file n]) contents))"
    if "traefik_dynamic_dir (t_regex T) (t_folders T) = Inr dir" for dir n contents
    unfolding routes_file_def writer_write_all_def
    by (intro keeps_in_garden writing away touches_route_files touches_route_file [OF that])
  have route: "keeps (in_garden D) (write_route T to_yaml account dir c n)"
    if "traefik_dynamic_dir (t_regex T) (t_folders T) = Inr dir" for account dir c n
    unfolding write_route_def routes_name_def routes_docker_def
    by (intro keeps_intros keeps_on_engine keeps_map_err keeps_of_result keeps_routing inv_asking give written [OF that])
  show ?thesis
    unfolding write_routes_def routes_name_def routes_file_def
    by (intro keeps_of_parsed keeps_intros keeps_in_garden inv_rolodex inv_asking making give route away touches_rolodex)
qed

lemma inv_entry_names: "keeps (in_garden D) (entry_names p)"
  unfolding entry_names_def by (intro keeps_intros keeps_in_garden inv_reads reads_tree_methods)

lemma inv_find: "keeps (in_garden D) (find_deadwood T C B)"
proof -
  have "keeps (in_garden D) (list_route_file_names T)" "keeps (in_garden D) (list_mount_names T)"
    unfolding list_route_file_names_def list_mount_names_def by (intro keeps_intros inv_entry_names)+
  moreover have "keeps (in_garden D) (list_openbao_secret_names T C B)"
    unfolding list_openbao_secret_names_def
    by (intro keeps_intros keeps_on_engine inv_open_bao inv_installed)
  moreover have "keeps (in_garden D) (note_repository T n ks)" for n ks
    unfolding note_repository_def by (intro keeps_intros inv_asking)
  ultimately show ?thesis
    unfolding find_deadwood_def by (intro keeps_intros keeps_on_engine inv_asking)
qed

lemma inv_prune:
  assumes mine: "\<And>n q. n \<in> set (dead_mounts w) \<Longrightarrow> below (seedling_mounts_dir (t_folders T) n) q \<Longrightarrow> safe q"
    and away: "\<And>q. dead_route_files w \<noteq> [] \<Longrightarrow> route_files_touch T q \<Longrightarrow> safe q"
  shows "keeps (in_garden D) (prune_deadwood T C B w)"
proof -
  have calls: "keeps (in_garden D) (prune_docker m)" "keeps (in_garden D) (prune_name r)" for m r
    unfolding prune_docker_def prune_name_def by (intro keeps_intros keeps_on_engine)+
  have container: "keeps (in_garden D) (prune_container T n)" for n
    unfolding prune_container_def remove_container_def by (intro keeps_intros calls)
  have traefik: "keeps (in_garden D) (disconnect_traefik T n)" for n
    unfolding disconnect_traefik_def by (intro keeps_intros calls)
  have network: "keeps (in_garden D) (prune_network T n)" for n
    unfolding prune_network_def by (intro keeps_intros calls traefik)
  have route: "keeps (in_garden D) (prune_route_file T dir n)"
    if "traefik_dynamic_dir (t_regex T) (t_folders T) = Inr dir" "dead_route_files w \<noteq> []" for dir n
    unfolding prune_route_file_def
    by (intro keeps_and_then keeps_in_garden traefik deleting away [OF that(2)] touches_route_file [OF that(1)])
  have routes: "keeps (in_garden D) (prune_routes T (dead_route_files w))"
    by (auto simp: prune_routes_def intro!: keeps_ok keeps_of_parsed keeps_for_each route)
  have repository: "keeps (in_garden D) (prune_repository T r)" for r
    unfolding prune_repository_def by (intro keeps_intros keeps_on_engine)
  have mounts: "keeps (in_garden D) (prune_mounts T n)" if "n \<in> set (dead_mounts w)" for n
    unfolding prune_mounts_def by (intro keeps_in_garden deleting_folder mine [OF that])
  have "keeps (in_garden D) (prune_secrets T C B ns)" for ns
    unfolding prune_secrets_def by (intro keeps_intros inv_open_bao inv_provision)
  with container network routes repository mounts show ?thesis
    unfolding prune_deadwood_def by (intro keeps_and_then keeps_for_each_in)
qed

text \<open>The log files that are rotated lie in the folder that was read.\<close>

lemma inv_rotation:
  assumes away: "\<And>n m q. below (seedling_mount (t_folders T) n m) q \<Longrightarrow> safe q"
  shows "keeps (in_garden D) (rotate_seedling_logs T)"
proof -
  have listed: "yields (\<lambda>es. \<forall>e \<in> set es. \<exists>f. entry_path e = dir @ [f]) (folder_entries dir)" for dir
    unfolding folder_entries_def by (intro yields_after yields_ok) (auto simp: entry_of_def)
  have mount: "keeps (in_garden D) (rotate_mount T n x)" for n x
  proof -
    let ?dir = "seedling_mount (t_folders T) n (fst x)"
    have rotated: "keeps (in_garden D) (ignore (on_disk id (rotator_rotate (entry_path e) MAX_ROTATED_FILES)))"
      if "\<exists>f. entry_path e = ?dir @ [f]" for e
    proof -
      from that obtain f where "entry_path e = ?dir @ [f]" by blast
      then show ?thesis by (simp, intro keeps_ignore keeps_in_garden rotating away)
    qed
    have "keeps (in_garden D) (rotate_oversized_files ?dir)"
      unfolding rotate_oversized_files_def
      by (intro keeps_and_yields [OF _ yields_attempted [OF listed]] keeps_attempt keeps_in_garden inv_reads
          reads_tree_methods) (auto split: sum.split intro!: keeps_ok keeps_for_each_in rotated)
    then show ?thesis
      unfolding rotate_mount_def by (intro keeps_if keeps_ok)
  qed
  then show ?thesis
    unfolding rotate_seedling_logs_def rotate_seedling_def by (intro keeps_intros inv_asking)
qed

lemma inv_reconcile_execute:
  assumes away: "\<And>q. seedling_touches T n q \<Longrightarrow> safe q"
    and ram: "ram_keeps D (t_ram_disk T) (agent_mount_dir (t_folders T) n)"
    and agent: "case agent of None \<Rightarrow> True | Some a \<Rightarrow> mount_dir a = agent_mount_dir (t_folders T) n \<and>
      (\<forall>q. q \<in> {role_id_path a, secret_id_path a, agent_config_path a} \<longrightarrow> below (agent_mount_dir (t_folders T) n) q)"
  shows "keeps (in_garden D) (reconcile_execute T n v d agent)"
proof -
  have "keeps (in_garden D) (reconcile_seedling (plot_of T n v d agent) (show_reconcile T))"
  proof (rule inv_reconcile)
    show "ram_keeps D (plot_ram_disk (plot_of T n v d agent)) (mount_dir a)"
      if "plot_agent (plot_of T n v d agent) = Some a" for a
      using that agent ram by (simp add: plot_of_def)
    show "safe q" if "plot_touches (plot_of T n v d agent) q" for q
      using that agent
      by (intro away)
        (auto simp: plot_touches_def agent_touches_def plot_of_def split: option.splits
          dest: touches_seed(1) touches_mounts touches_routes [OF touches_rolodex])
  qed
  then show ?thesis unfolding reconcile_execute_def by (intro keeps_and_then keeps_on_engine)
qed

lemma inv_sweep:
  assumes away: "\<And>n q. seedling_touches T n q \<Longrightarrow> safe q"
    and ram: "\<And>n. ram_keeps D (t_ram_disk T) (agent_mount_dir (t_folders T) n)"
  shows "keeps (in_garden D) (sweep T display None)"
proof -
  have "keeps (in_garden D) (look_at T n st)" for n st
    unfolding look_at_def sweep_is_running_def by (intro keeps_intros keeps_on_engine inv_asking)
  then have discovered: "keeps (in_garden D) (discover_sweep T)"
    unfolding discover_sweep_def by (intro keeps_intros inv_asking)
  have "keeps (in_garden D) (sweep_reconcile_run T None n)" for n
    unfolding sweep_reconcile_run_def
    by (intro keeps_and_then keeps_map_err inv_asking inv_reconcile_execute away ram) simp_all
  moreover have "keeps (in_garden D) (recheck_run T n)" for n
    unfolding recheck_run_def
    by (intro keeps_and_then keeps_map_err keeps_of_result keeps_if inv_asking inv_noting inv_health away [of n]
        touches_seed(4))
  moreover have "keeps (in_garden D) (stop_seedling T n Watchdog)" "keeps (in_garden D) (start_seedling T n Watchdog)" for n
    by (rule inv_stop, rule away, rule touches_seed(3)) (rule inv_start, erule away)
  ultimately have "keeps (in_garden D) (sweep_run T None k)" for k
    by (cases k) (simp_all add: keeps_map_err)
  with discovered show ?thesis
    unfolding sweep_def
    by (intro keeps_and_then plain_plan_keeps [where J = "\<lambda>_. True"]) (simp_all add: no_undo_def keeps_ok list_all_iff)
qed

text \<open>The server.\<close>

lemma inv_status_of: "keeps (in_garden D) (seedling_status_of S n)"
proof -
  have "keeps (in_garden D) (load_known S n)"
    unfolding load_known_def of_bank_def by (intro keeps_intros inv_asking)
  then show ?thesis
    unfolding seedling_status_of_def Let_def
    by (intro keeps_intros keeps_on_engine; simp add: keeps_ok keeps_fail split: docker_error.split)
qed

lemma inv_do_reconcile:
  assumes away: "\<And>q. seedling_touches (b_tools S) n q \<Longrightarrow> safe q"
    and ram: "ram_keeps D (t_ram_disk (b_tools S)) (agent_mount_dir (t_folders (b_tools S)) n)"
  shows "keeps (in_garden D) (do_reconcile_seedling S n v d i)"
proof -
  have agent: "yields (\<lambda>a. case a of None \<Rightarrow> True | Some a \<Rightarrow> mount_dir a = agent_mount_dir (t_folders (b_tools S)) n \<and>
      (\<forall>q. q \<in> {role_id_path a, secret_id_path a, agent_config_path a} \<longrightarrow> below (agent_mount_dir (t_folders (b_tools S)) n) q))
      (map_err BractSecrets (provision_agent_if_requested C B to_json (t_folders (b_tools S)) n i d))" for C B to_json
    by (rule yields_map_err [OF agent_inside])
  have "keeps (in_garden D) (write_routes (b_tools S) y)" for y
    by (intro inv_routes away touches_routes)
  then show ?thesis
    unfolding do_reconcile_seedling_def
    by (intro keeps_and_yields [OF _ agent] keeps_and_then keeps_map_err inv_provision inv_reconcile_execute away ram)
qed

lemma inv_seedling_calls:
  assumes away: "\<And>q. seedling_touches (b_tools S) n q \<Longrightarrow> safe q"
    and ram: "ram_keeps D (t_ram_disk (b_tools S)) (agent_mount_dir (t_folders (b_tools S)) n)"
  shows "keeps (in_garden D) (reconcile_loaded S n)"
    and "keeps (in_garden D) (serve_start S n)"
    and "keeps (in_garden D) (serve_drop S n)"
proof -
  show loaded: "keeps (in_garden D) (reconcile_loaded S n)"
    unfolding reconcile_loaded_def of_bank_def by (intro keeps_and_then keeps_map_err inv_asking inv_do_reconcile away ram)
  have "keeps (in_garden D) (find_service_account (t_rolodex (b_tools S)) n)"
    by (intro inv_rolodex away touches_routes touches_rolodex)
  then show "keeps (in_garden D) (serve_start S n)"
    unfolding serve_start_def
    by (intro keeps_and_then keeps_attempt keeps_map_err keeps_if keeps_ok inv_asking loaded inv_start away)
  show "keeps (in_garden D) (serve_drop S n)"
    unfolding serve_drop_def of_bank_def
    by (intro keeps_and_then keeps_if keeps_ok keeps_ignore keeps_map_err inv_asking inv_provision inv_drop away ram)
qed

lemma inv_server_calls:
  shows "keeps (in_garden D) (serve_find S)"
    and "keeps (in_garden D) (serve_openbao_status S)"
    and "(\<And>n. safe (desired_run_state_path (bank_server (t_bank (b_tools S))) n)) \<Longrightarrow> keeps (in_garden D) (serve_stop S b)"
proof -
  have build: "keeps (in_garden D) (build_resin S)"
    unfolding build_resin_def by (rule keeps_on_engine)
  show "keeps (in_garden D) (serve_find S)"
    unfolding serve_find_def by (intro keeps_and_then keeps_map_err build inv_find)
  show "keeps (in_garden D) (serve_openbao_status S)"
    unfolding serve_openbao_status_def
    by (intro keeps_and_then keeps_map_err keeps_of_result inv_status_of inv_openbao_status)
  assume "\<And>n. safe (desired_run_state_path (bank_server (t_bank (b_tools S))) n)"
  note stopping = inv_stop [OF this]
  have "keeps (in_garden D) (stop_core_seedling S raw)" for raw
    unfolding stop_core_seedling_def by (intro keeps_case_sum keeps_ok keeps_ignore stopping)
  moreover have "keeps (in_garden D) (stop_user_seedling S n)" for n
    unfolding stop_user_seedling_def
    by (intro keeps_and_then keeps_attempt keeps_case_sum keeps_if keeps_ok inv_asking inv_status_of)
      (simp add: keeps_ok keeps_ignore stopping split: run_status.split)
  ultimately show "keeps (in_garden D) (serve_stop S b)"
    unfolding serve_stop_def stop_core_seedlings_def stop_user_seedlings_def
    by (intro keeps_if keeps_ok keeps_and_then keeps_for_each keeps_attempt keeps_case_sum inv_asking)
qed

lemma inv_serve_prune:
  assumes "\<And>q. event_touches S (Asked (PruneDeadwoodRequest w)) q \<Longrightarrow> safe q"
  shows "keeps (in_garden D) (serve_prune S w)"
  unfolding serve_prune_def build_resin_def
  by (intro keeps_and_then keeps_map_err keeps_on_engine inv_prune assms) (auto simp: event_touches_def Let_def)

lemma inv_answer:
  "keeps (in_garden D) m \<Longrightarrow> in_garden D g \<Longrightarrow> in_garden D (snd (answer wrap m g))"
  using keepsD [of "in_garden D" m g] by (auto simp: answer_def split: prod.splits sum.splits)

lemma inv_bract_handle:
  assumes away: "\<And>q. event_touches S (Asked r) q \<Longrightarrow> safe q"
    and ram: "\<And>p. (\<And>q. below p q \<Longrightarrow> safe q) \<Longrightarrow> ram_keeps D (t_ram_disk (b_tools S)) p"
    and g: "in_garden D g"
  shows "in_garden D (snd (bract_handle S r g))"
proof -
  let ?T = "b_tools S"
  have about: "keeps (in_garden D) (serve_start S n)" "keeps (in_garden D) (serve_drop S n)"
      "keeps (in_garden D) (do_reconcile_seedling S n v d None)" "keeps (in_garden D) (new_seedling ?T n u)"
    if "\<And>q. seedling_touches ?T n q \<Longrightarrow> safe q" for n v d u
  proof -
    have m: "ram_keeps D (t_ram_disk ?T) (agent_mount_dir (t_folders ?T) n)" by (intro ram that touches_mounts(2))
    show "keeps (in_garden D) (serve_start S n)" "keeps (in_garden D) (serve_drop S n)"
      "keeps (in_garden D) (do_reconcile_seedling S n v d None)" "keeps (in_garden D) (new_seedling ?T n u)"
      by (rule inv_seedling_calls [OF that m] inv_do_reconcile [OF that m] inv_new [OF that]; assumption)+
  qed
  show ?thesis
  proof (cases r)
    case (PruneDeadwoodRequest w)
    with away have "keeps (in_garden D) (serve_prune S w)" by (intro inv_serve_prune) simp
    with PruneDeadwoodRequest show ?thesis by (simp add: bract_handle_def inv_answer g)
  next
    case (StopBractRequest b)
    with away have "keeps (in_garden D) (serve_stop S b)" by (intro inv_server_calls) (auto simp: event_touches_def)
    with StopBractRequest show ?thesis by (simp add: bract_handle_def inv_answer g)
  next
    case (StopSeedlingRequest n)
    with away have "keeps (in_garden D) (stop_seedling ?T n Operator)" by (intro inv_stop) (simp add: event_touches_def)
    with StopSeedlingRequest show ?thesis by (simp add: bract_handle_def inv_answer keeps_map_err g)
  qed (use away in \<open>simp_all add: bract_handle_def of_bank_def event_touches_def inv_answer keeps_map_err about
      inv_server_calls inv_status_of inv_asking g\<close>)
qed

lemma inv_bract_step:
  assumes away: "\<And>q. event_touches S x q \<Longrightarrow> safe q"
    and ram: "\<And>p. (\<And>q. below p q \<Longrightarrow> safe q) \<Longrightarrow> ram_keeps D (t_ram_disk (b_tools S)) p"
    and g: "in_garden D g"
  shows "in_garden D (bract_step S x g)"
proof -
  let ?T = "b_tools S"
  have mounts: "ram_keeps D (t_ram_disk ?T) (agent_mount_dir (t_folders ?T) n)"
    if "\<And>q. seedling_touches ?T n q \<Longrightarrow> safe q" for n
    by (intro ram that touches_mounts(2))
  show ?thesis
  proof (cases x)
    case Startup
    with away have "keeps (in_garden D) (write_routes ?T (b_yaml S))" by (intro inv_routes) (simp add: event_touches_def)
    from keepsD [OF this g] Startup show ?thesis by (simp add: bract_step_def)
  next
    case (Asked r)
    with away ram g show ?thesis by (simp add: bract_step_def inv_bract_handle)
  next
    case (Triggered raw)
    show ?thesis
    proof (cases "name_from_str (t_regex ?T) raw")
      case (Inr n)
      with Triggered away have n: "\<And>q. seedling_touches ?T n q \<Longrightarrow> safe q" by (simp add: event_touches_def)
      from keepsD [OF inv_seedling_calls(1) [OF n mounts [OF n]] g] Inr Triggered show ?thesis
        by (simp add: bract_step_def handle_trigger_def)
    qed (simp add: Triggered bract_step_def handle_trigger_def g)
  next
    case WatchdogTick
    with away have n: "\<And>n q. seedling_touches ?T n q \<Longrightarrow> safe q" by (auto simp: event_touches_def)
    from keepsD [OF inv_sweep [OF n mounts [OF n]] g] WatchdogTick show ?thesis by (simp add: bract_step_def)
  next
    case RotationTick
    with away have "keeps (in_garden D) (rotate_seedling_logs ?T)" by (intro inv_rotation) (auto simp: event_touches_def)
    from keepsD [OF this g] RotationTick show ?thesis by (simp add: bract_step_def)
  qed
qed

lemma inv_bract_runs:
  assumes "\<And>x q. x \<in> set xs \<Longrightarrow> event_touches S x q \<Longrightarrow> safe q"
    and "\<And>p. (\<And>q. below p q \<Longrightarrow> safe q) \<Longrightarrow> ram_keeps D (t_ram_disk (b_tools S)) p"
  shows "in_garden D g \<Longrightarrow> in_garden D (bract_runs S xs g)"
  using assms(1) unfolding bract_runs_def
proof (induction xs arbitrary: g)
  case (Cons x xs)
  then have "in_garden D (bract_step S x g)" by (intro inv_bract_step assms(2)) auto
  then have "in_garden D (fold (bract_step S) xs (bract_step S x g))" by (rule Cons.IH) (auto intro: Cons.prems)
  then show ?case by simp
qed simp

end

section \<open>Whatever bract is asked\<close>

text \<open>
  C5: Whatever requests, triggers and ticks bract serves, in whatever order and with whatever failures of docker,
  of resin, of OpenBao and of the disk on the way, a file that none of them is about keeps its contents: a request
  about one seedling leaves the files of all others alone, and questions change no file, as long as what
  mounts ram disks stays below the folder it is given.
\<close>

theorem bract_is_confined:
  assumes "ram_stays_below (t_ram_disk (b_tools S))" and "list_all (\<lambda>x. \<not> event_touches S x q) xs"
  shows "content (disk (bract_runs S xs g)) q = content (disk g) q"
proof -
  have "in_garden (agrees (\<lambda>p. p = q) (disk g)) (bract_runs S xs g)"
    using assms(2)
    by (intro framed.inv_bract_runs ram_keeps_agrees assms(1)) (auto simp: in_garden_def agrees_def list_all_iff)
  then show ?thesis by (simp add: in_garden_def agrees_def)
qed


section \<open>Pruning\<close>

text \<open>No folder of mounts holds files of another.\<close>

lemma mounts_apart: "below (seedling_mounts_dir d n) q \<Longrightarrow> below (seedling_mounts_dir d m) q \<Longrightarrow> m = n"
  by (auto simp: seedling_mounts_dir_def below_append)

lemma route_files_in_mounts: "route_files_touch T q \<Longrightarrow> below (seedling_mounts_dir (t_folders T) TRAEFIK_SEEDLING_NAME) q"
  by (auto simp: route_files_touch_def traefik_dynamic_dir_def seedling_mount_def below_append
      dest: name_from_str_same split: sum.splits)

lemma found_is_not_known:
  assumes "client_list (t_bank T) g = (Inr names, g')" and "find_deadwood T C B g = (Inr w, h)"
    and "n \<in> set (protect_core_seedling_names names)"
  shows "n \<notin> set (dead_containers w) \<union> set (dead_networks w) \<union> set (dead_route_files w) \<union> set (dead_mounts w) \<union>
      set (dead_openbao_secrets w)"
proof -
  from assms(1,2) obtain rs observed where "w = compute_deadwood (protect_core_seedling_names names) rs observed"
    unfolding find_deadwood_def by (auto elim!: and_then_InrE map_err_InrE simp: prog_simps)
  with assms(3) show ?thesis by (simp add: compute_deadwood_def not_in_def)
qed


end
