(* ===== verification/DropSafety.thy ===== *)
theory DropSafety
  imports BractSafety
begin

text \<open>
  What is left of a seedling that was dropped: nothing in the seedbank, the mounts and the routes.
\<close>

section \<open>Files that are gone stay away\<close>

abbreviation gone :: "path \<Rightarrow> fs \<Rightarrow> bool" where
  "gone q s \<equiv> content s q = None"

lemma deleting_keeps_gone: "keeps (gone q) (deleter_delete p)" "keeps (gone q) (folder_deleter_delete p)"
proof -
  show "keeps (gone q) (deleter_delete p)"
  proof (rule keepsI)
    fix s assume q: "gone q s"
    obtain r t where run: "deleter_delete p s = (r, t)" by (cases "deleter_delete p s") auto
    with q deleter_delete_content [OF run] show "gone q (snd (deleter_delete p s))"
      by (cases "r = Inr ()") auto
  qed
  show "keeps (gone q) (folder_deleter_delete p)"
  proof (rule keepsI)
    fix s assume "gone q s"
    then show "gone q (snd (folder_deleter_delete p s))"
      using delete_only_removes [of p s "fst (folder_deleter_delete p s)" "snd (folder_deleter_delete p s)" q] by auto
  qed
qed

lemma serving_keeps_gone:
  "gone q s \<Longrightarrow> gone q (snd (seedbank_handle sv now (DeleteRequest n) s))"
  "gone q s \<Longrightarrow> gone q (snd (seedbank_handle sv now (ReleaseDefaultRequest n) s))"
proof -
  have "keeps (gone q) (seedbank_delete sv n)"
    unfolding seedbank_delete_def seedling_exists_def by (intro keeps_intros deleting_keeps_gone)
  from keepsD [OF this, of s] show "gone q s \<Longrightarrow> gone q (snd (seedbank_handle sv now (DeleteRequest n) s))"
    by (simp add: seedbank_handle_def)
  have "reads_tree (read_default sv)" unfolding read_default_def by (intro reads_tree_intros reads_tree_methods)
  then have "keeps (gone q) (read_default sv)"
    by (intro keepsI) (metis prod.collapse reads_tree_content)
  then have "keeps (gone q) (release_default sv n)"
    unfolding release_default_def by (intro keeps_intros deleting_keeps_gone)
  from keepsD [OF this, of s] show "gone q s \<Longrightarrow> gone q (snd (seedbank_handle sv now (ReleaseDefaultRequest n) s))"
    by (simp add: seedbank_handle_def)
qed

lemma asking_keeps:
  assumes "\<And>s. D s \<Longrightarrow> D (snd (seedbank_handle (bank_server B) (bank_clock B) r s))"
  shows "keeps (in_garden D) (ask B r wanted :: ('d, 'a) asking)"
proof -
  have "keeps (in_garden D) (client_request B r :: ('d, seedbank_response) asking)"
  proof (rule keepsI)
    fix g :: "'d garden" assume g: "in_garden D g"
    obtain x h where n: "next_event g = (x, h)" by (cases "next_event g") auto
    then have "in_garden D h"
      using g by (auto simp: next_event_def in_garden_def split: list.splits)
    then have "in_garden D (snd (serve_on B r h))"
      using assms by (simp add: in_garden_def serve_on_def case_prod_beta)
    with n \<open>in_garden D h\<close> show "in_garden D (snd (client_request B r g))"
      by (cases x) (auto simp: client_request_def case_prod_beta)
  qed
  then show ?thesis
    unfolding ask_def
    by (intro keeps_and_then keeps_case_option keeps_ok) (auto simp: keeps_fail split: seedbank_response.split)
qed

lemma drop_run_keeps_gone:
  assumes ram: "ram_stays_below (t_ram_disk T)"
    and "\<not> below (agent_mount_dir (t_folders T) n) q \<or> k \<noteq> UnmountAgentRamDisk"
  shows "keeps (in_garden (gone q)) (drop_run T n k)"
proof (cases k)
  case RemoveTraefikRoute
  then show ?thesis
    unfolding drop_run.simps RemoveTraefikRoute remove_route_run_def step_name_of_def step_docker_def step_file_def
    by (intro keeps_intros keeps_on_engine keeps_in_garden deleting_keeps_gone)
next
  case UnmountAgentRamDisk
  with assms have "keeps (in_garden (gone q)) (ram_unmount (t_ram_disk T) (agent_mount_dir (t_folders T) n))"
    by (auto intro!: keepsI simp: in_garden_def ram_stays_below_def)
  with UnmountAgentRamDisk show ?thesis by (simp add: keeps_map_err)
next
  case DeleteSeedbankEntry
  then show ?thesis
    by (simp add: step_bank_def client_delete_def keeps_map_err asking_keeps serving_keeps_gone)
next
  case ReleaseDefault
  then show ?thesis
    by (simp add: step_bank_def client_release_default_def keeps_map_err asking_keeps serving_keeps_gone)
next
  case DeleteSeedlingMounts
  then show ?thesis by (simp add: step_file_def keeps_in_garden deleting_keeps_gone)
next
  case DeleteSeedlingNetwork
  then show ?thesis
    by (simp add: delete_network_run_def step_name_of_def step_docker_def) (intro keeps_intros keeps_on_engine)
next
  case DeleteResinRepository
  then show ?thesis by (simp add: delete_resin_run_def) (intro keeps_intros keeps_on_engine)
qed (simp add: step_docker_def keeps_on_engine)

section \<open>What a drop leaves\<close>

text \<open>The files of a seedling: its entry in the seedbank, its mounts and its route.\<close>

definition belongs_to :: "'d tools \<Rightarrow> name \<Rightarrow> path \<Rightarrow> bool" where
  "belongs_to T n q \<longleftrightarrow>
     (let entry = create_seedling_path (bank_server (t_bank T)) n; mounts = seedling_mounts_dir (t_folders T) n
      in below entry q \<and> q \<noteq> entry \<or> below mounts q \<and> q \<noteq> mounts \<or>
         (case traefik_dynamic_dir (t_regex T) (t_folders T) of Inl _ \<Rightarrow> False | Inr dir \<Rightarrow> q = dir @ [route_file n]))"

text \<open>The step that removes a file; its success empties it.\<close>

definition removes :: "'d tools \<Rightarrow> name \<Rightarrow> path \<Rightarrow> drop_step \<Rightarrow> bool" where
  "removes T n q k =
     (case k of
        RemoveTraefikRoute \<Rightarrow>
          (case traefik_dynamic_dir (t_regex T) (t_folders T) of Inl _ \<Rightarrow> False | Inr dir \<Rightarrow> q = dir @ [route_file n])
      | DeleteSeedbankEntry \<Rightarrow> below (create_seedling_path (bank_server (t_bank T)) n) q
      | DeleteSeedlingMounts \<Rightarrow> below (seedling_mounts_dir (t_folders T) n) q
      | _ \<Rightarrow> False)"

lemma removed_is_gone:
  assumes "removes T n q k" and "drop_run T n k g = (Inr (), h)" and "wf_fs (disk g)"
  shows "gone q (disk h)"
proof (cases k)
  case RemoveTraefikRoute
  with assms(1) obtain dir where dir: "traefik_dynamic_dir (t_regex T) (t_folders T) = Inr dir" "q = dir @ [route_file n]"
    by (auto simp: removes_def split: sum.splits)
  from assms(2) RemoveTraefikRoute obtain g' where "step_file (deleter_delete q) g' = (Inr (), h)"
    by (auto simp: remove_route_run_def step_name_of_def prog_simps dir elim!: and_then_InrE map_err_InrE)
  then have "deleter_delete q (disk g') = (Inr (), disk h)" by (auto simp: step_file_def on_disk_Inr)
  then show ?thesis by (auto dest: deleter_delete_content(1))
next
  case DeleteSeedbankEntry
  with assms(2) have "ask (t_bank T) (DeleteRequest n) okay g = (Inr (), h)"
    by (auto simp: step_bank_def client_delete_def elim!: map_err_InrE)
  then obtain response where "seedbank_handle (bank_server (t_bank T)) (bank_clock (t_bank T)) (DeleteRequest n) (disk g) =
      (response, disk h)" and "okay response = Some ()"
    by (rule ask_Inr)
  then have "seedbank_delete (bank_server (t_bank T)) n (disk g) = (Inr (), disk h)"
    by (auto simp: seedbank_handle_def respond_def okay_def split: prod.splits sum.splits)
  then have "folder_deleter_delete (create_seedling_path (bank_server (t_bank T)) n) (disk g) = (Inr (), disk h)"
    by (auto simp: seedbank_delete_def seedling_exists_def gets_run fail_def elim!: and_then_InrE map_err_InrE split: if_splits)
  with assms(1,3) DeleteSeedbankEntry show ?thesis by (simp add: removes_def deleted_folder_empty)
next
  case DeleteSeedlingMounts
  with assms(2) have "folder_deleter_delete (seedling_mounts_dir (t_folders T) n) (disk g) = (Inr (), disk h)"
    by (auto simp: step_file_def on_disk_Inr)
  with assms(1,3) DeleteSeedlingMounts show ?thesis by (simp add: removes_def deleted_folder_empty)
qed (use assms(1) in \<open>simp_all add: removes_def\<close>)

text \<open>A plan that ran to its end, with a step that removes a file and only steps after it that do not
  bring it back.\<close>

lemma removed_by_plan:
  assumes "for_each (drop_run T n) (xs @ k # ys) g = (Inr (), h)" and "removes T n q k" and "in_garden wf_fs g"
    and wf: "\<And>k. keeps (in_garden wf_fs) (drop_run T n k)"
    and kept: "\<And>k. k \<in> set ys \<Longrightarrow> keeps (in_garden (gone q)) (drop_run T n k)"
  shows "gone q (disk h)"
proof -
  from assms(1) obtain g1 g2 where xs: "for_each (drop_run T n) xs g = (Inr (), g1)" and k: "drop_run T n k g1 = (Inr (), g2)"
    and ys: "for_each (drop_run T n) ys g2 = (Inr (), h)"
    unfolding for_each_append by (auto elim!: and_then_InrE)
  have "in_garden wf_fs g1" by (rule keeps_result [OF keeps_for_each [OF wf] assms(3) xs])
  then have "in_garden (gone q) g2" using removed_is_gone [OF assms(2) k] by (simp add: in_garden_def)
  from keeps_result [OF keeps_for_each_in [OF kept] this ys] show ?thesis by (simp add: in_garden_def)
qed

lemma kept_by_plan:
  assumes "for_each (drop_run T n) ks g = (Inr (), h)" and "gone q (disk g)"
    and "\<And>k. keeps (in_garden (gone q)) (drop_run T n k)"
  shows "gone q (disk h)"
  using keeps_result [OF keeps_for_each [OF assms(3)] _ assms(1)] assms(2) by (simp add: in_garden_def)

text \<open>What discovery says of the files, which it does not change.\<close>

lemma client_exists_Inr:
  assumes "client_exists B n g = (Inr b, h)"
  shows "b = folder_exists (disk g) (create_seedling_path (bank_server B) n)" and "disk h = disk g"
proof -
  from assms obtain response where "seedbank_handle (bank_server B) (bank_clock B) (ExistsRequest n) (disk g) = (response, disk h)"
    and "(case response of ExistsResponse b \<Rightarrow> Some b | _ \<Rightarrow> None) = Some b"
    unfolding client_exists_def by (rule ask_Inr)
  then show "b = folder_exists (disk g) (create_seedling_path (bank_server B) n)" and "disk h = disk g"
    by (auto simp: seedbank_handle_def respond_def seedling_exists_def gets_run)
qed

lemma discovered_drop:
  assumes "discover_drop T n g = (Inr st, h)"
  obtains dir where "traefik_dynamic_dir (t_regex T) (t_folders T) = Inr dir"
    and "drop_route_exists st = file_exists (disk g) (dir @ [route_file n])"
    and "drop_seedbank_entry_exists st = folder_exists (disk g) (create_seedling_path (bank_server (t_bank T)) n)"
    and "drop_mounts_dir_exists st = folder_exists (disk g) (seedling_mounts_dir (t_folders T) n)"
proof -
  from assms obtain dir b g' where "traefik_dynamic_dir (t_regex T) (t_folders T) = Inr dir"
    and "client_exists (t_bank T) n g = (Inr b, g')"
    and "drop_seedbank_entry_exists st = b"
    and "drop_route_exists st = file_exists (disk g') (dir @ [route_file n])"
    and "drop_mounts_dir_exists st = folder_exists (disk g') (seedling_mounts_dir (t_folders T) n)"
    unfolding discover_drop_def Let_def
    by (auto elim!: and_then_InrE map_err_InrE simp: gets_run prog_simps split: if_splits sum.splits)
  with client_exists_Inr [of "t_bank T" n g b g'] show thesis by (intro that [of dir]) simp_all
qed

lemma nothing_below:
  assumes "wf_fs s" and "\<not> folder_exists s p" and "below p q" and "q \<noteq> p"
  shows "gone q s"
proof (rule ccontr)
  assume "\<not> gone q s"
  then have "exists_path s q" by (auto simp: content_def exists_path_def split: option.splits)
  moreover obtain r where r: "q = p @ r" "r \<noteq> []" using assms(3,4) by (auto simp: below_append)
  ultimately have "is_dir s (p @ butlast r)" using assms(1) by (auto simp: wf_fs_def butlast_append)
  from wf_ancestor [OF assms(1) this, of "length p"] have "is_dir s p" by simp
  with assms(2) show False by (auto simp: folder_exists_def is_dir_def exists_path_def split: option.splits)
qed

lemma planned_drop:
  assumes "drop_plan n st = Inr steps"
  shows "steps = (if drop_route_exists st then [RemoveTraefikRoute] else []) @
      (if presence_exists (drop_container st) then [DropSeedlingContainer (drop_container_name st)] else []) @
      (if presence_exists (drop_agent st) then [DropSeedlingContainer (drop_agent_name st)] else []) @
      (if drop_network_exists st then [DeleteSeedlingNetwork] else []) @
      (if drop_seedbank_entry_exists st then [DeleteSeedbankEntry] else []) @
      (if drop_agent_mount_is_ram_disk st then [UnmountAgentRamDisk] else []) @
      (if drop_mounts_dir_exists st then [DeleteSeedlingMounts] else []) @ [ReleaseDefault, DeleteResinRepository]"
  using assms by (simp add: drop_plan_def split: if_splits)

text \<open>A file that no step removes was not there.\<close>

lemma unplanned_is_gone:
  assumes "belongs_to T n q" and "wf_fs s" and steps: "drop_plan n st = Inr steps"
    and none: "\<not> (\<exists>k \<in> set steps. removes T n q k)"
    and dir: "traefik_dynamic_dir (t_regex T) (t_folders T) = Inr dir"
    and seen: "drop_route_exists st = file_exists s (dir @ [route_file n])"
      "drop_seedbank_entry_exists st = folder_exists s (create_seedling_path (bank_server (t_bank T)) n)"
      "drop_mounts_dir_exists st = folder_exists s (seedling_mounts_dir (t_folders T) n)"
  shows "gone q s"
proof -
  let ?mounts = "seedling_mounts_dir (t_folders T) n" and ?entry = "create_seedling_path (bank_server (t_bank T)) n"
  note parts = planned_drop [OF steps]
  from assms(1) consider (entry) "below ?entry q" "q \<noteq> ?entry" | (mounts) "below ?mounts q" "q \<noteq> ?mounts"
    | (route) "q = dir @ [route_file n]"
    by (auto simp: belongs_to_def Let_def dir)
  then show ?thesis
  proof cases
    case entry
    with none parts have "\<not> drop_seedbank_entry_exists st" by (auto simp: removes_def)
    with entry seen(2) nothing_below [OF assms(2)] show ?thesis by simp
  next
    case mounts
    with none parts have "\<not> drop_mounts_dir_exists st" by (auto simp: removes_def)
    with mounts seen(3) nothing_below [OF assms(2)] show ?thesis by simp
  next
    case route
    with none parts dir have "\<not> drop_route_exists st" by (auto simp: removes_def)
    with route seen(1) show ?thesis
      by (auto simp: file_exists_def exists_path_def is_dir_def content_def split: option.splits node.splits)
  qed
qed

text \<open>
  C7: When a drop succeeds, no file is left of the seedling: none in its folder of the seedbank, none in its mounts
  and no route, whatever was there before and however docker, resin and OpenBao answered.  What mounts ram
  disks is assumed to stay below its folder and to keep the tree; what a ram disk may have covered is gone if the
  folder of the mounts was there.
\<close>

theorem dropped_seedling_is_gone:
  assumes "drop_seedling T n g = (Inr (), h)" and "belongs_to T n q" and "wf_fs (disk g)"
    and "ram_stays_below (t_ram_disk T)" and "ram_keeps wf_fs (t_ram_disk T) (agent_mount_dir (t_folders T) n)"
    and "below (agent_mount_dir (t_folders T) n) q \<Longrightarrow> folder_exists (disk g) (seedling_mounts_dir (t_folders T) n)"
  shows "content (disk h) q = None"
proof -
  let ?run = "drop_run T n" and ?agent = "agent_mount_dir (t_folders T) n" and ?mounts = "seedling_mounts_dir (t_folders T) n"
    and ?entry = "create_seedling_path (bank_server (t_bank T)) n"
  from assms(1) obtain g0 st g1 where build: "on_engine (\<lambda>e. DropFailedBootstrap [e]) (resin_build (t_resin T)) g = (Inr (), g0)"
    and st: "discover_drop T n g0 = (Inr st, g1)"
    and plan: "run_plan (plain_ops drop_step_name ?run no_undo) (show_step T) (drop_plan n st) DropFailedBootstrap g1 = (Inr (), h)"
    unfolding drop_seedling_def by (auto elim!: and_then_InrE)
  from build have g0: "disk g0 = disk g" by (auto simp: on_engine_def split: prod.splits)
  from plan obtain steps where steps: "drop_plan n st = Inr steps" and ran: "for_each ?run steps g1 = (Inr (), h)"
    unfolding plain_plan_Inr by blast
  obtain dir where dir: "traefik_dynamic_dir (t_regex T) (t_folders T) = Inr dir"
    and seen: "drop_route_exists st = file_exists (disk g) (dir @ [route_file n])"
      "drop_seedbank_entry_exists st = folder_exists (disk g) ?entry" "drop_mounts_dir_exists st = folder_exists (disk g) ?mounts"
    using discovered_drop [OF st] g0 by metis
  have wf1: "in_garden wf_fs g1"
    using keeps_result [OF grown.inv_drop_discover [OF assms(5)] _ st] g0 assms(3) by (simp add: in_garden_def)
  note wf_run = grown.inv_drop_run [of T n, OF _ assms(5)]
  note parts = planned_drop [OF steps]
  show ?thesis
  proof (cases "below ?agent q")
    case True
    with assms(6) seen(3) have "drop_mounts_dir_exists st" by simp
    with parts obtain xs where xs: "steps = xs @ DeleteSeedlingMounts # [ReleaseDefault, DeleteResinRepository]" by auto
    have "below ?mounts q" using True by (auto simp: agent_mount_dir_def seedling_mount_def below_append)
    then have "removes T n q DeleteSeedlingMounts" by (simp add: removes_def)
    from removed_by_plan [OF ran [unfolded xs] this wf1] wf_run drop_run_keeps_gone [OF assms(4)] show ?thesis
      by fastforce
  next
    case False
    note kept = drop_run_keeps_gone [OF assms(4) disjI1 [OF False]]
    show ?thesis
    proof (cases "\<exists>k \<in> set steps. removes T n q k")
      case True
      then obtain xs k ys where "steps = xs @ k # ys" "removes T n q k" by (meson split_list)
      with removed_by_plan [OF _ this(2) wf1] ran wf_run kept show ?thesis by fastforce
    next
      case none: False
      with steps have "gone q (disk g)"
        using unplanned_is_gone [OF assms(2,3) steps _ dir seen] by blast
      moreover have "content (disk g1) q = content (disk g0) q"
      proof -
        have "keeps (in_garden (agrees (\<lambda>p. p = q) (disk g0))) (discover_drop T n)"
          using False by (intro framed.inv_drop_discover ram_keeps_agrees assms(4)) auto
        from keeps_result [OF this _ st] show ?thesis by (simp add: in_garden_def agrees_def)
      qed
      ultimately show ?thesis using kept_by_plan [OF ran _ kept] g0 by simp
    qed
  qed
qed

end
