(* ===== verification/BractBehaviour.thy ===== *)
theory BractBehaviour
  imports DropSafety "HOL-Library.Multiset"
begin

text \<open>
  What single requests and sweeps of bract do, and where the blueprints disagree with each other.
\<close>

lemma parsed:
  "and_then (map_err f (of_result (Inl e))) k = fail (f e)" "and_then (map_err f (of_result (Inr a))) k = k a"
  "and_then (ok a) k = k a"
  by (intro ext; simp add: and_then_def map_err_def prog_simps)+

section \<open>Registering\<close>

text \<open>
  Registering a seedling asks docker for a container of the bare name of the seedling, never for the container
  that bract builds for it: whatever docker would say of \<open>doug.n\<close>, the outcome is the same, so a container that a
  forgotten seedling left behind does not make the name an orphan.
\<close>

theorem orphaned_container_goes_unnoticed:
  "new_seedling (T\<lparr>t_docker := (t_docker T)\<lparr>docker_container_exists :=
       (docker_container_exists (t_docker T))(CONTAINER_NAME_PREFIX @ n := m)\<rparr>\<rparr>) n d =
   new_seedling T n d"
proof -
  let ?T = "T\<lparr>t_docker := (t_docker T)\<lparr>docker_container_exists :=
       (docker_container_exists (t_docker T))(CONTAINER_NAME_PREFIX @ n := m)\<rparr>\<rparr>"
  have name: "docker_name_from_str im n = Inr c \<Longrightarrow> c \<noteq> CONTAINER_NAME_PREFIX @ n" for im c
    by (auto simp: docker_name_from_str_def validated_Inr CONTAINER_NAME_PREFIX_def)
  have steps: "new_run ?T n d = new_run T n d" "new_undo ?T n = new_undo T n" "show_step ?T = show_step T"
  proof -
    show "new_run ?T n d = new_run T n d" "new_undo ?T n = new_undo T n"
      by (rule ext, rename_tac k, case_tac k; simp)+
  qed simp
  have "missing_sibling ?T = missing_sibling T" by (intro ext) (simp add: missing_sibling_def)
  then have siblings: "missing_siblings ?T = missing_siblings T" by (intro ext) (simp only: missing_siblings_def)
  have images: "local_image_already_exists ?T = local_image_already_exists T"
    by (intro ext) (simp add: local_image_already_exists_def)
  have fields: "t_regex ?T = t_regex T" "t_bank ?T = t_bank T" "t_resin ?T = t_resin T" by simp_all
  have rest': "discover_new ?T n d = discover_new T n d"
    if "\<And>c. docker_name_from_str (t_regex T) n = Inr c \<Longrightarrow>
      docker_container_exists (t_docker ?T) c = docker_container_exists (t_docker T) c"
  proof (cases "docker_name_from_str (t_regex T) n")
    case (Inl e)
    then show ?thesis unfolding discover_new_def fields Inl by (simp only: parsed)
  next
    case (Inr c)
    from that [OF this] show ?thesis
      unfolding discover_new_def fields siblings images Inr
      by (simp only: parsed)
  qed
  have "discover_new ?T n d = discover_new T n d"
    by (rule rest') (use name in simp)
  with steps show ?thesis unfolding new_seedling_def by simp
qed

section \<open>Requests that reconcile\<close>

text \<open>
  A request to reconcile a seedling that has secrets fails before it does anything: the server has no id to
  give to the agent of the seedling.
\<close>

theorem reconcile_request_with_secrets_fails:
  assumes "secrets d \<noteq> None"
  shows "bract_handle S (ReconcileSeedlingRequest n v d) g = (BractErrorResponse (BractSecrets MissingSeedlingId), g)"
  using assms
  by (auto simp: bract_handle_def answer_def do_reconcile_seedling_def provision_agent_if_requested_def and_then_def
      map_err_def prog_simps)

section \<open>Starting\<close>

text \<open>What a program answers when it starts where \<open>I\<close> holds, which it keeps.\<close>

definition answers :: "('s \<Rightarrow> bool) \<Rightarrow> ('a \<Rightarrow> bool) \<Rightarrow> ('s, 'e, 'a) prog \<Rightarrow> bool" where
  "answers I Q m \<longleftrightarrow> (\<forall>s a t. I s \<longrightarrow> m s = (Inr a, t) \<longrightarrow> I t \<and> Q a)"

lemma answersD: "answers I Q m \<Longrightarrow> I s \<Longrightarrow> m s = (Inr a, t) \<Longrightarrow> Q a"
  unfolding answers_def by blast

lemma answers_rules:
  "Q a \<Longrightarrow> answers I Q (ok a)"
  "keeps I m0 \<Longrightarrow> (\<And>y. answers I Q (k y)) \<Longrightarrow> answers I Q (and_then m0 k)"
  "(b \<Longrightarrow> answers I Q m) \<Longrightarrow> (\<not> b \<Longrightarrow> answers I Q m') \<Longrightarrow> answers I Q (if b then m else m')"
  "(\<And>u v. z = (u, v) \<Longrightarrow> answers I Q (f u v)) \<Longrightarrow> answers I Q (case z of (u, v) \<Rightarrow> f u v)"
  by (auto simp: answers_def prog_simps elim!: and_then_InrE dest: keeps_result split: prod.split)

lemma answers_and_then: "answers I Q' m \<Longrightarrow> (\<And>a. Q' a \<Longrightarrow> answers I Q (k a)) \<Longrightarrow> answers I Q (and_then m k)"
  unfolding answers_def by (blast elim: and_then_InrE)

lemma answers_all_hold:
  "(\<And>x. keeps I (f x)) \<Longrightarrow> x \<in> set xs \<Longrightarrow> answers I (\<lambda>b. \<not> b) (f x) \<Longrightarrow> answers I (\<lambda>b. \<not> b) (all_hold f xs)"
proof (induction xs)
  case (Cons y ys)
  show ?case
  proof (cases "x = y")
    case True
    with Cons.prems(3) show ?thesis by (simp, intro answers_and_then [where Q' = Not]) (auto intro: answers_rules(1))
  next
    case False
    with Cons show ?thesis by (auto intro!: answers_rules)
  qed
qed simp

text \<open>The group of a mount as it is read, where the node of the mount is known.\<close>

lemma answers_group:
  "answers (in_garden (\<lambda>s. node_at s p = Some node)) (\<lambda>(u, gr). gr = group (node_meta node))
     (start_file (get_user_and_group_ownership p))"
  unfolding answers_def
  by (auto simp: in_garden_def start_file_def on_disk_Inr get_user_and_group_ownership_def std_metadata_def gets_run
      prog_simps elim!: and_then_InrE map_err_InrE call_cases dest: same_tree_node_at split: if_splits option.splits)

lemma keeps_node:
  "reads_tree m \<Longrightarrow> keeps (in_garden (\<lambda>s. node_at s p = Some node)) (on_disk err m)"
proof (intro keeps_in_garden keepsI)
  fix s assume m: "reads_tree m" and "node_at s p = Some node"
  moreover have "same_tree s (snd (m s))" using reads_treeD [OF m, of s] by (cases "m s") (auto simp: later_def)
  ultimately show "node_at (snd (m s)) p = Some node" using same_tree_node_at by fastforce
qed


section \<open>The identity\<close>

text \<open>
  An identity that was cut short is never repaired: initializing again finds the file and leaves it, and from then
  on nothing can be encrypted or decrypted.
\<close>

theorem torn_identity_is_never_repaired:
  assumes "content s identity_file_path = Some b" and "length b \<noteq> 32"
  shows "initialize generated None s = (Inr None, s) \<and> (\<exists>e. fst (encrypt C None nonce i plain s) = Inl e) \<and>
    (\<exists>e. fst (decrypt C None i cipher s) = Inl e)"
proof -
  have "exists_path s identity_file_path"
    using assms(1) by (auto simp: content_def exists_path_def split: option.splits)
  then have "initialize generated None s = (Inr None, s)"
    by (simp add: initialize_def writer_write_all_bytes_if_absent_def std_write_new_def attempt_then and_then_def map_err_def
        prog_simps)
  moreover have "\<exists>e. fst (derive_key C None i s) = Inl e"
  proof -
    obtain r t where read: "std_read identity_file_path s = (r, t)" by (cases "std_read identity_file_path s") auto
    with std_read_content(2) [OF read] assms show ?thesis
      by (cases r) (auto simp: derive_key_def local_identity_def reader_read_all_bytes_def and_then_def map_err_def prog_simps)
  qed
  ultimately show ?thesis
    by (auto simp: encrypt_def decrypt_def and_then_def split: prod.split sum.split)
qed

section \<open>Sweeps\<close>

text \<open>
  A sweep of the watchdog takes every seedling that the seedbank lists at most once: to stop it, to start it, or to
  look at its health.
\<close>

theorem sweep_takes_each_seedling_once:
  assumes "client_list (t_bank T) g = (Inr names, g')" and "discover_sweep T g = (Inr st, h)"
  shows "mset (needing_stop st) + mset (needing_start st) + mset (needing_health_recheck st) \<subseteq># mset names"
proof -
  let ?all = "\<lambda>st. mset (needing_stop st) + mset (needing_start st) + mset (needing_health_recheck st)"
  have one: "?all st' \<subseteq># add_mset n (?all st)" if "look_at T n st g = (Inr st', h)" for n st st' g h
    using that unfolding look_at_def
    by (auto elim!: and_then_InrE map_err_InrE simp: prog_simps sort_seedling_def split: if_splits)
  have "?all st' \<subseteq># ?all st + mset ns" if "fold_prog (look_at T) ns st g = (Inr st', h)" for ns st st' g h
    using that
  proof (induction ns arbitrary: st g)
    case (Cons n ns)
    then obtain st1 g1 where "look_at T n st g = (Inr st1, g1)" "fold_prog (look_at T) ns st1 g1 = (Inr st', h)"
      by (auto elim: and_then_InrE)
    from subset_mset.trans [OF Cons.IH [OF this(2)] subset_mset.add_right_mono [OF one [OF this(1)]]] show ?case by simp
  qed (simp add: prog_simps)
  moreover from assms obtain g1 where "fold_prog (look_at T) names sweep_default g1 = (Inr st, h)"
    unfolding discover_sweep_def by (auto elim!: and_then_InrE map_err_InrE)
  ultimately show ?thesis by (fastforce simp: sweep_default_def)
qed

section \<open>Dropping\<close>

lemma documented_names:
  assumes "documented_regex im"
  shows "name_from_str im s = name_from_str table_regex s"
  by (simp add: name_from_str_def validated_from_str_def documented_patterns [OF assms]
      documented_patterns [OF table_regex_documented])

lemma traefik_names:
  assumes "documented_regex im"
  shows "name_from_str im TRAEFIK_SEEDLING_NAME = Inr TRAEFIK_SEEDLING_NAME"
    and "container_name im TRAEFIK_SEEDLING_NAME = Inr ''doug.traefik''"
proof -
  show n: "name_from_str im TRAEFIK_SEEDLING_NAME = Inr TRAEFIK_SEEDLING_NAME"
    unfolding documented_names [OF assms] by code_simp
  from container_name_of_seedling(1) [OF assms n] show "container_name im TRAEFIK_SEEDLING_NAME = Inr ''doug.traefik''"
    by (simp add: TRAEFIK_SEEDLING_NAME_def)
qed


section \<open>Giving up\<close>

lemma increment_asked:
  assumes "health_codec (bank_server B)" and "fails_logged (bank_server B) n k (disk g)" and "k \<le> 5" and "wire g = []"
  obtains t where "client_increment_health_log_fail_count B n g = (Inr (5 \<le> k), g\<lparr>disk := t\<rparr>)"
    and "fails_logged (bank_server B) n (min 5 (Suc k)) t"
    and "content t (desired_run_state_path (bank_server B) n) = content (disk g) (desired_run_state_path (bank_server B) n)"
proof -
  let ?sv = "bank_server B" and ?p = "desired_run_state_path (bank_server B) n"
  obtain t where t: "increment_health_log_fail_count ?sv (bank_clock B) n (disk g) = (Inr (5 \<le> k), t)"
    "fails_logged ?sv n (min 5 (Suc k)) t"
    using increment_step [OF assms(1-3)] by blast
  have run: "client_increment_health_log_fail_count B n g = (Inr (5 \<le> k), g\<lparr>disk := t\<rparr>)"
    using t(1) assms(4)
    by (simp add: client_increment_health_log_fail_count_def ask_calm seedbank_handle_def respond_def)
  have "keeps (in_garden (agrees (\<lambda>q. q = ?p) (disk g))) (client_increment_health_log_fail_count B n)"
    by (rule framed.inv_noting) (simp add: path_defs)
  from keeps_result [OF this _ run] have "content t ?p = content (disk g) ?p" by (simp add: in_garden_def agrees_def)
  with that run t(2) show thesis by blast
qed

lemma failure_recorded:
  assumes "health_codec (bank_server (t_bank T))" and "fails_logged (bank_server (t_bank T)) n k (disk g)" and "k < 5"
    and "wire g = []"
  shows "\<exists>t. record_health_check_failure T n c g = (Inr (), g\<lparr>disk := t\<rparr>) \<and>
    fails_logged (bank_server (t_bank T)) n (Suc k) t \<and>
    content t (desired_run_state_path (bank_server (t_bank T)) n) =
      content (disk g) (desired_run_state_path (bank_server (t_bank T)) n)"
proof -
  obtain t where "client_increment_health_log_fail_count (t_bank T) n g = (Inr (5 \<le> k), g\<lparr>disk := t\<rparr>)"
    "fails_logged (bank_server (t_bank T)) n (min 5 (Suc k)) t"
    "content t (desired_run_state_path (bank_server (t_bank T)) n) =
      content (disk g) (desired_run_state_path (bank_server (t_bank T)) n)"
    using increment_asked [OF assms(1,2) _ assms(4)] assms(3) by auto
  moreover have "min 5 (Suc k) = Suc k" using assms(3) by simp
  ultimately show ?thesis
    using assms(3)
    by (intro exI [of _ t]) (simp add: record_health_check_failure_def step_bank_def and_then_def map_err_def prog_simps)
qed

lemma status_set_is_read:
  assumes "run_status_codec sv" and "calm s" and "is_dir s (create_seedling_path sv n)" and "\<not> is_dir s (desired_run_state_path sv n)"
  shows "\<exists>t. set_desired_run_status sv n st s = (Inr (), t) \<and> fst (get_desired_run_status sv n t) = Inr st"
proof -
  let ?p = "desired_run_state_path sv n"
  obtain b where b: "print_run_status (codecs sv) st = Some b" "is_utf8 b" "parse_run_status (codecs sv) b = Some st"
    using assms(1) unfolding run_status_codec_def by blast
  define t where "t = put_node ?p (File (meta_for s ?p) b) s"
  have parent: "butlast ?p = create_seedling_path sv n" by (simp add: desired_run_state_path_def)
  have set: "set_desired_run_status sv n st s = (Inr (), t)"
    using blob_written [of s ?p "print_run_status (codecs sv)" st] b assms parent
    by (simp add: set_desired_run_status_def and_then_def ensure_exists_calm t_def)
  have dir: "is_dir t (create_seedling_path sv n)" and calm: "calm t" and stored: "content t ?p = Some b"
    using assms by (auto simp: t_def)
  have "get_desired_run_status sv n t = (Inr st, t)"
    using blob_present [of t, OF calm stored b(2), of "parse_run_status (codecs sv)", OF b(3)]
    by (simp add: get_desired_run_status_def and_then_def ensure_exists_calm [OF dir] ok_def)
  with set show ?thesis by simp
qed


end
