(* ===== verification/BractRuns.thy ===== *)
theory BractRuns
  imports ReconcileRuns BractBehaviour
begin

text \<open>
  Runs of bract on small gardens: the instances of the theorems about its server and its blueprints, with the
  small engine of \<open>ReconcileRuns\<close>, a resin that answers every question with yes, and an OpenBao that is not there.
\<close>

section \<open>Small tools\<close>

definition new_exec :: "string \<Rightarrow> string list \<Rightarrow> (small_engine, docker_error, string) prog" where
  "new_exec c args = ok ''1''"

definition begun :: "string \<Rightarrow> (small_engine, docker_error, unit) prog" where
  "begun i = ok ()"

definition succeeded :: "string \<Rightarrow> (small_engine, docker_error, exec_inspection) prog" where
  "succeeded i = ok \<lparr>exec_running = False, exit_code = Some 0\<rparr>"

definition snapshot :: "string \<Rightarrow> (path \<times> string) list \<Rightarrow> (small_engine, docker_error, container_snapshot) prog" where
  "snapshot c ms = and_then (labels_of c) (\<lambda>ls. and_then (status_of c) (\<lambda>st.
     ok \<lparr>snapshot_labels = ls, snapshot_status = st\<rparr>))"

definition small_exec :: "small_engine exec_client" where
  "small_exec = \<lparr>docker_create_exec = new_exec, docker_start_exec = begun, docker_inspect_exec = succeeded,
     docker_inspect_container = snapshot\<rparr>"

definition resin_there :: "(small_engine, string, unit) prog" where
  "resin_there = ok ()"

definition unregistered :: "repository \<Rightarrow> (small_engine, string, bool) prog" where
  "unregistered r = ok False"

definition no_repositories :: "(small_engine, string, repository list) prog" where
  "no_repositories = ok []"

definition forgotten :: "repository \<Rightarrow> (small_engine, string, unit) prog" where
  "forgotten r = ok ()"

definition small_resin :: "small_engine resin_client" where
  "small_resin = \<lparr>resin_build = resin_there, resin_image_exists = in_resin, resin_repository_registered = unregistered,
     resin_list_repositories = no_repositories, resin_delete_repository = forgotten\<rparr>"

definition no_text :: "'e \<Rightarrow> string" where
  "no_text e = ''failed''"

definition small_tools :: "small_engine tools" where
  "small_tools =
     \<lparr>t_regex = table_regex, t_folders = small_folders, t_bank = \<lparr>bank_server = small_server, bank_clock = 0\<rparr>,
      t_docker = small_docker, t_exec = small_exec, t_resin = small_resin, t_rolodex = small_rolodex,
      t_ram_disk = small_ram_disk, t_agent_image = Local, patience = 1, show_step = no_text, show_reconcile = no_text\<rparr>"

text \<open>A seedling that the seedbank has forgotten: a container that is not running, a route and a mount.\<close>

definition route_dir :: path where
  "route_dir = [''lib'', ''mounts'', ''traefik'', ''config'', ''dynamic'']"

definition litter :: "small_engine garden" where
  "litter =
     \<lparr>disk = \<lparr>nodes =
          map (\<lambda>p. (p, Dir root_meta))
            [[], [''seeds''], [''lib''], [''lib'', ''mounts''], [''lib'', ''mounts'', ''b''], [''lib'', ''mounts'', ''b'', ''data''],
             [''lib'', ''mounts'', ''traefik''], [''lib'', ''mounts'', ''traefik'', ''config''], route_dir] @
          map (\<lambda>(p, b). (p, File root_meta b))
            [([''lib'', ''mounts'', ''b'', ''data'', ''photo''], ''p''), (route_dir @ [''b.yml''], ''r'')],
        outcomes = [], creator = root_meta, known_users = [], known_groups = []\<rparr>,
      people = \<lparr>passwd = [], groups = []\<rparr>,
      engine = \<lparr>built = [(''doug.b'', [create_version_label 3, create_origin_label User])], started = []\<rparr>,
      wire = []\<rparr>"

lemma litter_wf: "wf_fs (disk litter)"
  unfolding wf_fs_def
  by (auto simp: exists_path_def is_dir_def node_at_def litter_def route_dir_def split: if_splits)

lemma small_ram_keeps: "ram_keeps D small_ram_disk p"
  by (simp add: ram_keeps_def small_ram_disk_def not_mounted_def mounted_def unmounted_def keeps_ok)

section \<open>Dropping\<close>

lemma litter_parsed:
  "traefik_dynamic_dir table_regex small_folders = Inr route_dir"
  "container_name table_regex ''b'' = Inr ''doug.b''"
  "agent_container_name table_regex ''b'' = Inr ''doug-agent.b''"
  "seedling_network_name table_regex ''b'' = Inr ''doug.b''"
  by code_simp+

lemma litter_asked:
  "client_exists \<lparr>bank_server = small_server, bank_clock = 0\<rparr> ''b'' litter = (Inr False, litter)"
  by code_simp

lemma litter_seen:
  "file_exists (disk litter) (route_dir @ [route_file ''b''])"
  "folder_exists (disk litter) (seedling_mounts_dir small_folders ''b'')"
  by code_simp+

lemma small_tools_fields [simp]:
  "t_regex small_tools = table_regex" "t_folders small_tools = small_folders"
  "t_bank small_tools = \<lparr>bank_server = small_server, bank_clock = 0\<rparr>"
  "t_docker small_tools = small_docker" "t_exec small_tools = small_exec" "t_resin small_tools = small_resin"
  "t_rolodex small_tools = small_rolodex" "t_ram_disk small_tools = small_ram_disk"
  by (simp_all add: small_tools_def)

lemma litter_engine:
  "docker_network_exists small_docker ''doug.b'' (engine litter) = (Inr True, engine litter)"
  "observe_container small_docker ''doug-agent.b'' (engine litter) = (Inr Absent, engine litter)"
  "observe_container small_docker ''doug.b'' (engine litter) = (Inr (Present docker_status.Created), engine litter)"
  "docker_container_labels small_docker ''doug.b'' (engine litter) =
     (Inr [create_version_label 3, create_origin_label User], engine litter)"
  "ram_is_mounted small_ram_disk p litter = (Inr False, litter)"
  by (simp_all add: observe_container_def small_docker_def has_network_def is_built_def status_of_def labels_of_def
      litter_def and_then_def attempt_def prog_simps small_ram_disk_def not_mounted_def)

definition litter_state :: drop_state where
  "litter_state =
     \<lparr>drop_container = Present docker_status.Created, drop_container_name = ''doug.b'', drop_version = Some 3,
      drop_origin = None, drop_network_exists = True, drop_seedbank_entry_exists = False, drop_route_exists = True,
      drop_mounts_dir_exists = True, drop_agent = Absent, drop_agent_name = ''doug-agent.b'',
      drop_agent_mount_is_ram_disk = False\<rparr>"

lemma litter_discovered: "discover_drop small_tools ''b'' litter = (Inr litter_state, litter)"
  by (simp add: discover_drop_def and_then_def map_err_def of_result_def gets_run ok_def litter_parsed litter_asked litter_seen
      determine_origin_def on_engine_def litter_engine presence_exists_def version_label_round_trip litter_state_def)

lemma litter_plan: "drop_plan ''b'' litter_state =
    Inr [RemoveTraefikRoute, DropSeedlingContainer ''doug.b'', DeleteSeedlingNetwork, DeleteSeedlingMounts,
      ReleaseDefault, DeleteResinRepository]"
  by code_simp

lemma litter_removed:
  "fst (for_each (drop_run small_tools ''b'') [RemoveTraefikRoute, DropSeedlingContainer ''doug.b'', DeleteSeedlingNetwork,
     DeleteSeedlingMounts, ReleaseDefault, DeleteResinRepository] litter) = Inr ()"
  by code_simp

definition photo :: path where
  "photo = [''lib'', ''mounts'', ''b'', ''data'', ''photo'']"

theorem dropped_seedling_is_gone_witness:
  "\<exists>h. drop_seedling small_tools ''b'' litter = (Inr (), h) \<and> content (disk litter) photo = Some ''p'' \<and>
     content (disk h) photo = None"
proof -
  let ?steps = "[RemoveTraefikRoute, DropSeedlingContainer ''doug.b'', DeleteSeedlingNetwork, DeleteSeedlingMounts,
      ReleaseDefault, DeleteResinRepository]"
  obtain h where "for_each (drop_run small_tools ''b'') ?steps litter = (Inr (), h)"
    using litter_removed by (metis prod.collapse)
  then have "run_plan (plain_ops drop_step_name (drop_run small_tools ''b'') no_undo) (show_step small_tools)
      (drop_plan ''b'' litter_state) DropFailedBootstrap litter = (Inr (), h)"
    unfolding plain_plan_Inr litter_plan by blast
  moreover have "resin_build small_resin (engine litter) = (Inr (), engine litter)"
    by (simp add: small_resin_def resin_there_def ok_def)
  ultimately have run: "drop_seedling small_tools ''b'' litter = (Inr (), h)"
    by (simp add: drop_seedling_def and_then_def on_engine_def litter_discovered)
  have "content (disk h) photo = None"
  proof (rule dropped_seedling_is_gone [OF run])
    show "belongs_to small_tools ''b'' photo"
      by (simp add: belongs_to_def Let_def photo_def seedling_mounts_dir_def seedling_mounts_def small_folders_def below_def)
    show "ram_keeps wf_fs (t_ram_disk small_tools) (agent_mount_dir (t_folders small_tools) ''b'')"
      by (simp add: small_ram_keeps)
  qed (simp_all add: litter_wf small_ram_stays_below litter_seen)
  moreover have "content (disk litter) photo = Some ''p''" by code_simp
  ultimately show ?thesis using run by blast
qed

section \<open>The server\<close>

definition no_setting :: "json_value \<Rightarrow> string option" where
  "no_setting x = None"

definition no_yaml :: to_yaml where
  "no_yaml x = None"

definition out_of_reach :: "path \<Rightarrow> (small_engine, string, unit) prog" where
  "out_of_reach p = fail ''refused''"

definition small_bao :: "small_engine openbao_client" where
  "small_bao = \<lparr>bao_build = out_of_reach, bao_seal_state = fail [], bao_login = (\<lambda>_ _. fail []),
     bao_create_policy = (\<lambda>_ _ _. fail []), bao_delete_policy = (\<lambda>_ _. fail []), bao_list_policies = (\<lambda>_. fail []),
     bao_auth_exists = (\<lambda>_ _. fail []), bao_create_auth = (\<lambda>_ _ _. fail []), bao_delete_auth = (\<lambda>_ _. fail []),
     bao_list_auth_roles = (\<lambda>_. fail []), bao_list_accessors = (\<lambda>_ _. fail []),
     bao_destroy_accessor = (\<lambda>_ _ _. fail []), bao_get_role_id = (\<lambda>_ _. fail []),
     bao_create_auth_secret = (\<lambda>_ _. fail []), bao_list_mounts = (\<lambda>_. fail []), bao_app_role_enabled = (\<lambda>_. fail []),
     bao_acme_enabled = (\<lambda>_. fail []), bao_root_ca_configured = (\<lambda>_. fail []), bao_pki_role_exists = (\<lambda>_ _. fail [])\<rparr>"

definition small_bract :: "small_engine bract_server" where
  "small_bract =
     \<lparr>b_tools = small_tools, b_crypto = open_crypto, b_bao = small_bao, b_yaml = no_yaml, b_json = no_setting,
      show_sweep = no_text\<rparr>"

definition secret_definition :: seedling_definition where
  "secret_definition = (seedling_definition_new Local [] Unrouted \<lparr>check_command = ''true'', wait_time_in_seconds = 1\<rparr>)
     \<lparr>secrets := Some \<lparr>may_read = True, may_write = False\<rparr>\<rparr>"

text \<open>The photo of one seedling, while another is dropped, a third is to be reconciled and deadwood is looked for.\<close>

theorem bract_is_confined_witness:
  "content (disk (bract_runs small_bract [Asked (DropSeedlingRequest ''a''), Asked (ReconcileSeedlingRequest ''c'' 1
       secret_definition), Asked FindDeadwoodRequest, Asked (StopBractRequest False)] litter)) photo =
   content (disk litter) photo"
proof (rule bract_is_confined)
  show "ram_stays_below (t_ram_disk (b_tools small_bract))"
    by (simp add: small_bract_def small_ram_stays_below)
  have "\<not> route_files_touch small_tools photo"
    by (simp add: route_files_touch_def litter_parsed photo_def route_dir_def below_def)
  then have "\<not> seedling_touches small_tools n photo" if "n \<noteq> ''b''" for n
    using that
    by (simp add: seedling_touches_def routes_touch_def photo_def small_server_def small_folders_def small_rolodex_def
        path_defs seedling_mounts_dir_def seedling_mounts_def below_def)
  then show "list_all (\<lambda>x. \<not> event_touches small_bract x photo) [Asked (DropSeedlingRequest ''a''),
      Asked (ReconcileSeedlingRequest ''c'' 1 secret_definition), Asked FindDeadwoodRequest, Asked (StopBractRequest False)]"
    by (simp add: event_touches_def small_bract_def small_server_def path_defs photo_def)
qed


theorem reconcile_request_with_secrets_fails_witness:
  "bract_handle small_bract (ReconcileSeedlingRequest ''c'' 1 secret_definition) litter =
     (BractErrorResponse (BractSecrets MissingSeedlingId), litter)"
  by (rule reconcile_request_with_secrets_fails) (simp add: secret_definition_def)

theorem torn_identity_is_never_repaired_witness:
  "\<exists>s. content s identity_file_path = Some ''k'' \<and> initialize (replicate 32 CHR ''k'') None s = (Inr None, s) \<and>
     (\<exists>e. fst (encrypt open_crypto None ''nonce-nonce1'' Unseal ''key'' s) = Inl e)"
proof -
  let ?s = "put_node identity_file_path (File root_meta ''k'') key_disk"
  have "content ?s identity_file_path = Some ''k''" by simp
  with torn_identity_is_never_repaired [of ?s "''k''" "replicate 32 CHR ''k''" open_crypto "''nonce-nonce1''" Unseal "''key''" "[]"]
  show ?thesis by (intro exI [of _ ?s]) simp
qed

section \<open>Registered seedlings\<close>

lemma small_loaded:
  "client_load \<lparr>bank_server = small_server, bank_clock = 0\<rparr> ''a'' small_garden =
     (Inr \<lparr>seedling_id = 0, seedling_name = ''a'', seedling_version = 3, seedling_definition = demo_definition\<rparr>, small_garden)"
proof -
  let ?s = "\<lparr>seedling_id = 0, seedling_name = ''a'', seedling_version = 3, seedling_definition = demo_definition\<rparr>"
  have "load_seedling small_server ''a'' (disk small_garden) = (Inr ?s, disk small_garden)"
    by (simp add: load_seedling_def and_then_def small_loads prog_simps)
  then have "seedbank_handle small_server 0 (LoadRequest ''a'') (disk small_garden) = (SeedlingResponse ?s, disk small_garden)"
    by (simp add: seedbank_handle_def respond_def)
  from small_ask [OF this, of "\<lambda>r. case r of SeedlingResponse s \<Rightarrow> Some s | _ \<Rightarrow> None"] show ?thesis
    by (simp add: client_load_def small_plot_def)
qed

lemma small_listed: "client_list \<lparr>bank_server = small_server, bank_clock = 0\<rparr> small_garden = (Inr [''a''], small_garden)"
  by code_simp

lemma small_observed:
  "list_route_file_names small_tools small_garden = (Inr [], small_garden)"
  "list_mount_names small_tools small_garden = (Inr [''a''], small_garden)"
  "note_repository small_tools ''a'' ks small_garden = (Inr (case known_repository table_regex ''a'' (image demo_definition) of
     None \<Rightarrow> ks | Some r \<Rightarrow> show_repository r # ks), small_garden)"
  "list_openbao_secret_names small_tools open_crypto small_bao small_garden = (Inr [], small_garden)"
  by (code_simp, code_simp)
    (simp_all add: note_repository_def small_loaded list_openbao_secret_names_def open_bao_def bao_call_def on_engine_def
      small_bao_def out_of_reach_def attempt_then and_then_def map_err_def prog_simps)

lemma small_found:
  obtains w where "find_deadwood small_tools open_crypto small_bao small_garden = (Inr w, small_garden)"
proof -
  have "docker_list_containers small_docker (engine small_garden) = (Inr [''doug.a''], engine small_garden)"
    "docker_list_networks small_docker (engine small_garden) = (Inr [], engine small_garden)"
    "resin_list_repositories small_resin (engine small_garden) = (Inr [], engine small_garden)"
    by (simp_all add: small_docker_def all_built_def all_networks_def small_resin_def no_repositories_def small_garden_def
        prog_simps)
  with that show thesis
    by (simp add: find_deadwood_def and_then_def map_err_def on_engine_def small_listed small_observed prog_simps)
qed


lemma small_look: "fst (discover_sweep small_tools small_garden) =
    Inr \<lparr>needing_start = [], needing_stop = [''a''], needing_health_recheck = []\<rparr>"
  by code_simp

theorem sweep_takes_each_seedling_once_witness:
  "\<exists>st h. discover_sweep small_tools small_garden = (Inr st, h) \<and> needing_stop st = [''a''] \<and>
     mset (needing_stop st) + mset (needing_start st) + mset (needing_health_recheck st) \<subseteq># mset [''a'']"
proof -
  have list: "client_list (t_bank small_tools) small_garden = (Inr [''a''], small_garden)" by (simp add: small_listed)
  let ?st = "\<lparr>needing_start = [], needing_stop = [''a''], needing_health_recheck = []\<rparr>"
  from small_look have run: "discover_sweep small_tools small_garden = (Inr ?st, snd (discover_sweep small_tools small_garden))"
    by (metis prod.collapse)
  have "mset (needing_stop ?st) + mset (needing_start ?st) + mset (needing_health_recheck ?st) \<subseteq># mset [''a'']"
    by (rule sweep_takes_each_seedling_once [OF list run])
  with run show ?thesis by (intro exI [of _ ?st] exI [of _ "snd (discover_sweep small_tools small_garden)"]) simp
qed

section \<open>A connection that docker does not know\<close>

definition unknown_connection :: "string \<Rightarrow> string \<Rightarrow> (small_engine, docker_error, unit) prog" where
  "unknown_connection n c = fail ResourceNotFound"

definition lost_tools :: "small_engine tools" where
  "lost_tools = small_tools\<lparr>t_docker := small_docker\<lparr>docker_disconnect_network := unknown_connection\<rparr>\<rparr>"

lemma litter_discovered_again: "discover_drop lost_tools ''b'' litter = (Inr litter_state, litter)"
proof -
  have "observe_container (small_docker\<lparr>docker_disconnect_network := unknown_connection\<rparr>) = observe_container small_docker"
    by (intro ext) (simp add: observe_container_def cong: if_cong)
  then show ?thesis
    by (simp add: lost_tools_def discover_drop_def and_then_def map_err_def of_result_def gets_run ok_def litter_parsed
        litter_asked litter_seen determine_origin_def on_engine_def litter_engine presence_exists_def version_label_round_trip
        litter_state_def)
qed


section \<open>An unhealthy seedling\<close>

definition ill_tools :: "small_engine tools" where
  "ill_tools = small_tools\<lparr>t_bank := \<lparr>bank_server = demo_server, bank_clock = 7\<rparr>\<rparr>"

definition ill_garden :: "small_engine garden" where
  "ill_garden = litter\<lparr>disk := put_node (desired_run_state_path demo_server ''a'') (File demo_meta ''r'') (demo_store []),
     engine := \<lparr>built = [(''doug.a'', [])], started = [''doug.a'']\<rparr>\<rparr>"

lemma demo_run_status_codec: "run_status_codec demo_server"
proof -
  have "is_utf8 ''r''" "is_utf8 ''s''" by code_simp+
  then show ?thesis
    unfolding run_status_codec_def demo_server_def demo_codecs_def
    by (auto simp: is_utf8_def intro: desired_run_status.exhaust)
qed


section \<open>A shared mount\<close>

definition image_there :: "pull_target \<Rightarrow> (small_engine, docker_error, bool) prog" where
  "image_there x = ok True"

definition stocked_tools :: "small_engine tools" where
  "stocked_tools = small_tools\<lparr>t_docker := small_docker\<lparr>docker_image_exists := image_there\<rparr>\<rparr>"

definition sharing_mount :: mount where
  "sharing_mount = mount_with_files (PersistedShared [''b'']) [''srv''] Writable []"

definition sharing_seedling :: seedling where
  "sharing_seedling = \<lparr>seedling_id = 0, seedling_name = ''a'', seedling_version = 3,
     seedling_definition = seedling_definition_new Local [(''data'', sharing_mount)] Unrouted
       \<lparr>check_command = ''true'', wait_time_in_seconds = 1\<rparr>\<rparr>"

definition sharing_account :: service_account where
  "sharing_account =
     \<lparr>account_user = \<lparr>cred_id = 1, cred_full_name = ''a'', cred_system_name = ''doug-a''\<rparr>,
      account_group = \<lparr>cred_id = 1, cred_full_name = ''a'', cred_system_name = ''doug-a''\<rparr>\<rparr>"

definition sharing_garden :: "small_engine garden" where
  "sharing_garden = small_garden\<lparr>disk := (disk small_garden)\<lparr>known_users := [''root''], known_groups := [''root'']\<rparr>\<rparr>"

lemma sharing_found:
  "\<exists>f h. discover_found stocked_tools ''a'' sharing_account False sharing_seedling sharing_garden = (Inr (SeedlingContainer f), h)"
proof -
  have "case fst (discover_found stocked_tools ''a'' sharing_account False sharing_seedling sharing_garden) of
      Inr (SeedlingContainer f) \<Rightarrow> True | _ \<Rightarrow> False"
    by code_simp
  then show ?thesis
    by (cases "discover_found stocked_tools ''a'' sharing_account False sharing_seedling sharing_garden")
      (auto split: sum.splits seedling_found.splits)
qed


end
