(* ===== verification/DockerRuns.thy ===== *)
theory DockerRuns
  imports DockerSafety BractRuns
begin

text \<open>
  A docker engine behind a socket that is as large as the instances of the theorems of \<open>DockerSafety\<close> need: it lists
  the containers whose names contain what is asked for, and reports one environment.
\<close>

section \<open>An engine that lists by parts of names\<close>

text \<open>A filter is printed as the value it asks for, an array as one stroke per element.\<close>

fun print_filter :: "json_value \<Rightarrow> string" where
  "print_filter (Fields [(k, Items [Text v])]) = v"
| "print_filter _ = []"

definition strokes :: "string \<Rightarrow> json_value option" where
  "strokes s = Some (Items (map (\<lambda>_. NullValue) s))"

definition list_prefix :: string where
  "list_prefix = ''/containers/json?all=true&filters=''"

definition names_of :: "small_engine \<Rightarrow> string list" where
  "names_of e = map fst (built e)"

definition listing :: "rest_request \<Rightarrow> (small_engine, string, rest_response) prog" where
  "listing r =
     gets (\<lambda>e. case strip_prefix list_prefix (rest_path r) of
       None \<Rightarrow> RestError [] 404 None
     | Some c \<Rightarrow> RestOkay [] (Some (replicate (length (filter (sublist c) (names_of e))) CHR ''1'')))"

definition unquoted :: "string \<Rightarrow> string list option" where
  "unquoted s = Some [s]"

definition joined :: "string list \<Rightarrow> string option" where
  "joined ws = Some (concat ws)"

definition no_time :: "string \<Rightarrow> int option" where
  "no_time s = Some 0"

definition small_socket :: "small_engine docker_socket" where
  "small_socket =
     \<lparr>dock_send = listing, dock_json = \<lparr>parse_json = strokes, show_json = print_filter\<rparr>, dock_regex = table_regex,
      dock_urlencode = id, dock_shlex_split = unquoted, dock_shlex_join = joined, dock_parse_time = no_time,
      dock_show_assertion = no_text, dock_show_name_error = no_text, dock_unreadable = ''unreadable''\<rparr>"

lemma small_socket_asks: "asks_only small_socket"
  by (simp add: asks_only_def small_socket_def listing_def reads_only_gets)

lemma small_socket_lists: "lists_by_part small_socket names_of"
proof -
  have "rest_path (find_request small_socket (FullName c)) = list_prefix @ c" for c
    by (simp add: find_request_def docker_get_def list_path_def create_path_and_query_string_def filters_text_def
        small_socket_def list_prefix_def)
  moreover have "strip_prefix list_prefix (list_prefix @ c) = Some c" for c
    by (simp add: strip_prefix_def)
  ultimately show ?thesis
    by (auto simp: lists_by_part_def small_socket_def listing_def gets_run strokes_def)
qed

definition crowded :: "small_engine garden" where
  "crowded = litter\<lparr>engine := \<lparr>built = [(''doug.b'', []), (''doug.b2'', [])], started = []\<rparr>\<rparr>"

theorem similar_names_cannot_be_stopped_witness:
  "\<exists>e. stop_seedling (small_tools\<lparr>t_docker := socket_docker small_socket ''localhost''\<rparr>) ''b'' Operator crowded = (Inl e, crowded)"
proof (rule similar_names_cannot_be_stopped [OF small_socket_asks small_socket_lists, THEN conjunct2])
  show "container_name (t_regex (small_tools\<lparr>t_docker := socket_docker small_socket ''localhost''\<rparr>)) ''b'' = Inr ''doug.b''"
    by code_simp
  show "''doug.b'' \<in> set (names_of (engine crowded))" "[] @ ''doug.b'' @ ''2'' \<in> set (names_of (engine crowded))"
    by (simp_all add: crowded_def names_of_def)
qed simp_all

section \<open>An engine that reports one environment\<close>

definition reported :: "string \<Rightarrow> json_value option" where
  "reported s = Some (Fields [(''Config'', Fields [(''Env'', Items [Text ''OPTS=-Da=b''])])])"

definition always_okay :: "rest_request \<Rightarrow> (unit, string, rest_response) prog" where
  "always_okay r = ok (RestOkay [] (Some []))"

definition talking_socket :: "unit docker_socket" where
  "talking_socket =
     \<lparr>dock_send = always_okay, dock_json = \<lparr>parse_json = reported, show_json = print_filter\<rparr>, dock_regex = table_regex,
      dock_urlencode = id, dock_shlex_split = unquoted, dock_shlex_join = joined, dock_parse_time = no_time,
      dock_show_assertion = no_text, dock_show_name_error = no_text, dock_unreadable = ''unreadable''\<rparr>"

theorem equals_signs_are_unreadable_witness:
  "isl (fst (uds_connect_network talking_socket ''douglas-system'' (FullName ''doug.b'') None ()))"
proof -
  have "reports_assignment talking_socket (container_at (FullName ''doug.b'') ''/json'') ''OPTS=-Da=b''"
    by (simp add: reports_assignment_def talking_socket_def always_okay_def ok_def reported_def)
  moreover have "documented_regex (dock_regex talking_socket)"
    by (simp add: talking_socket_def table_regex_documented)
  ultimately show ?thesis
    using equals_signs_are_unreadable [of talking_socket "''OPTS=-Da=b''"] by simp
qed

end
