(* ===== verification/Spec2Isabelle.thy ===== *)
theory Spec2Isabelle
  imports Woodward Blueprint SeedbankRequests UpgradeRollback Manifests Rolodex Containers OpenBaoSafety DockerRuns
begin

text \<open>
  Douglas: header.
\<close>

end
